(* ===== verification/Prelude.thy ===== *)
theory Prelude
  imports Main "HOL-Library.Multiset" "HOL-Library.Char_ord" "HOL-Library.List_Lexorder"
begin

text \<open>
  What every component shares: Go strings (byte strings, \<^typ>\<open>string\<close>) with
  the pieces of \<^verbatim>\<open>strings\<close>, \<^verbatim>\<open>strconv\<close> and \<^verbatim>\<open>fmt\<close> the program uses, Go errors
  (wrapping, joining, \<^verbatim>\<open>errors.Is\<close> and \<^verbatim>\<open>errors.Unwrap\<close>), comparison functions
  and the sorting routines of \<^verbatim>\<open>slices\<close> and \<^verbatim>\<open>sort\<close>, with the generic lemmas
  on them.  A pointer that may be nil is an option; a pair (value, error) with
  exactly one side set is a sum, the error on the left.
\<close>

named_theorems go_err \<open>how Go errors compute\<close>
named_theorems cmp_intro \<open>comparison functions that are total preorders\<close>
named_theorems sort_facts \<open>what the sorting routines keep\<close>

section \<open>Strings\<close>

definition show_digit :: "nat \<Rightarrow> char" where
  "show_digit n = char_of (48 + n)"

fun show_nat :: "nat \<Rightarrow> string" where
  "show_nat n = (if n < 10 then [show_digit n]
                 else show_nat (n div 10) @ [show_digit (n mod 10)])"

declare show_nat.simps [simp del]

definition show_int :: "int \<Rightarrow> string" where
  "show_int i = (if i < 0 then CHR ''-'' # show_nat (nat (- i)) else show_nat (nat i))"

definition read_nat :: "string \<Rightarrow> nat" where
  "read_nat s = foldl (\<lambda>n c. 10 * n + (of_char c - 48)) 0 s"

definition hex_digit :: "nat \<Rightarrow> char" where
  "hex_digit n = (if n < 10 then char_of (48 + n) else char_of (87 + n))"

definition quote_char :: "char \<Rightarrow> string" where
  "quote_char c = (let n = (of_char c :: nat) in
     if n = 34 then [char_of (92::nat), char_of (34::nat)]
     else if n = 92 then [char_of (92::nat), char_of (92::nat)]
     else if n = 7 then [char_of (92::nat), CHR ''a'']
     else if n = 8 then [char_of (92::nat), CHR ''b'']
     else if n = 12 then [char_of (92::nat), CHR ''f'']
     else if n = 10 then [char_of (92::nat), CHR ''n'']
     else if n = 13 then [char_of (92::nat), CHR ''r'']
     else if n = 9 then [char_of (92::nat), CHR ''t'']
     else if n = 11 then [char_of (92::nat), CHR ''v'']
     else if n < 32 \<or> n = 127
       then [char_of (92::nat), CHR ''x'', hex_digit (n div 16), hex_digit (n mod 16)]
     else [c])"

definition quote :: "string \<Rightarrow> string" where
  "quote s = [char_of (34::nat)] @ concat (map quote_char s) @ [char_of (34::nat)]"

fun join_str :: "string \<Rightarrow> string list \<Rightarrow> string" where
  "join_str sep [] = []"
| "join_str sep [s] = s"
| "join_str sep (s # t # ss) = s @ sep @ join_str sep (t # ss)"

fun split_on :: "char \<Rightarrow> string \<Rightarrow> string list" where
  "split_on c [] = [[]]"
| "split_on c (x # xs) =
     (if x = c then [] # split_on c xs
      else case split_on c xs of [] \<Rightarrow> [[x]] | s # ss \<Rightarrow> (x # s) # ss)"

definition newline :: string where
  "newline = [char_of (10::nat)]"

definition show_slice :: "string list \<Rightarrow> string" where
  "show_slice xs = ''['' @ join_str '' '' xs @ '']''"

definition is_space :: "char \<Rightarrow> bool" where
  "is_space c = ((of_char c :: nat) \<in> {9, 10, 11, 12, 13, 32})"

definition trim_space :: "string \<Rightarrow> string" where
  "trim_space s = rev (dropWhile is_space (rev (dropWhile is_space s)))"

fun has_prefix :: "string \<Rightarrow> string \<Rightarrow> bool" where
  "has_prefix s [] = True"
| "has_prefix [] (p # ps) = False"
| "has_prefix (c # s) (p # ps) = (c = p \<and> has_prefix s ps)"

definition has_suffix :: "string \<Rightarrow> string \<Rightarrow> bool" where
  "has_suffix s p = has_prefix (rev s) (rev p)"

section \<open>Errors\<close>

text \<open>
  The error values the program builds.  \<^term>\<open>ErrText\<close> is \<^verbatim>\<open>errors.New\<close> or
  \<^verbatim>\<open>fmt.Errorf\<close> without a wrapping verb; \<^term>\<open>ErrWrap\<close> is \<^verbatim>\<open>fmt.Errorf\<close> whose format
  ends in the wrapping verb; \<^term>\<open>ErrTerminal\<close> is \<^verbatim>\<open>reconcile.TerminalError\<close>;
  \<^term>\<open>ErrReason\<close> is the \<^verbatim>\<open>terminalErrorWithReason\<close> of the error package;
  \<^term>\<open>ErrStatus\<close> is an API status error with its machine-readable reason;
  \<^term>\<open>ErrPanic\<close> marks a run-time panic of the source.
\<close>

datatype goerr =
    ErrText string
  | ErrWrap string goerr
  | ErrJoin "goerr list"
  | ErrTerminal goerr
  | ErrReason string goerr
  | ErrStatus string string
  | ErrPanic string

type_synonym 'a res = "goerr + 'a"

fun Error :: "goerr \<Rightarrow> string" where
  "Error (ErrText s) = s"
| "Error (ErrWrap p e) = p @ Error e"
| "Error (ErrJoin es) = join_str newline (map Error es)"
| "Error (ErrTerminal e) = ''terminal error: '' @ Error e"
| "Error (ErrReason r e) = Error e"
| "Error (ErrStatus r m) = m"
| "Error (ErrPanic m) = m"

fun Unwrap :: "goerr \<Rightarrow> goerr option" where
  "Unwrap (ErrWrap p e) = Some e"
| "Unwrap (ErrTerminal e) = Some e"
| "Unwrap (ErrReason r e) = Some e"
| "Unwrap e = None"

fun is_terminal :: "goerr \<Rightarrow> bool" where
  "is_terminal (ErrTerminal e) = True"
| "is_terminal (ErrWrap p e) = is_terminal e"
| "is_terminal (ErrJoin es) = list_ex is_terminal es"
| "is_terminal (ErrReason r e) = is_terminal e"
| "is_terminal (ErrText s) = False"
| "is_terminal (ErrStatus r m) = False"
| "is_terminal (ErrPanic m) = False"

fun first_some :: "'a option list \<Rightarrow> 'a option" where
  "first_some [] = None"
| "first_some (None # xs) = first_some xs"
| "first_some (Some x # xs) = Some x"

fun as_reason :: "goerr \<Rightarrow> string option" where
  "as_reason (ErrReason r e) = Some r"
| "as_reason (ErrTerminal e) = as_reason e"
| "as_reason (ErrWrap p e) = as_reason e"
| "as_reason (ErrJoin es) = first_some (map as_reason es)"
| "as_reason (ErrText s) = None"
| "as_reason (ErrStatus r m) = None"
| "as_reason (ErrPanic m) = None"

fun as_status :: "goerr \<Rightarrow> string option" where
  "as_status (ErrStatus r m) = Some r"
| "as_status (ErrReason r e) = as_status e"
| "as_status (ErrTerminal e) = as_status e"
| "as_status (ErrWrap p e) = as_status e"
| "as_status (ErrJoin es) = first_some (map as_status es)"
| "as_status (ErrText s) = None"
| "as_status (ErrPanic m) = None"

definition errors_Join :: "goerr list \<Rightarrow> goerr option" where
  "errors_Join es = (if es = [] then None else Some (ErrJoin es))"

definition join_opts :: "goerr option list \<Rightarrow> goerr option" where
  "join_opts es = errors_Join (List.map_filter id es)"

section \<open>Comparison functions and sorting\<close>

type_synonym 'a cmp = "'a \<Rightarrow> 'a \<Rightarrow> int"

definition cmp_preorder :: "'a cmp \<Rightarrow> bool" where
  "cmp_preorder c \<longleftrightarrow>
     (\<forall>a b. (c a b < 0) = (0 < c b a)) \<and>
     (\<forall>a b d. c a b \<le> 0 \<longrightarrow> c b d \<le> 0 \<longrightarrow> c a d \<le> 0)"

definition cmp_ord :: "'a::linorder cmp" where
  "cmp_ord a b = (if a < b then - 1 else if b < a then 1 else 0)"

fun insert_cmp :: "'a cmp \<Rightarrow> 'a \<Rightarrow> 'a list \<Rightarrow> 'a list" where
  "insert_cmp c x [] = [x]"
| "insert_cmp c x (y # ys) = (if c x y \<le> 0 then x # y # ys else y # insert_cmp c x ys)"

definition SortStableFunc :: "'a cmp \<Rightarrow> 'a list \<Rightarrow> 'a list" where
  "SortStableFunc c xs = foldr (insert_cmp c) xs []"

section \<open>Lemmas\<close>

lemma errors_Join_None [go_err]: "errors_Join es = None \<longleftrightarrow> es = []"
  by (simp add: errors_Join_def)

lemma errors_Join_Some [go_err]: "errors_Join es = Some e \<longleftrightarrow> es \<noteq> [] \<and> e = ErrJoin es"
  by (auto simp: errors_Join_def)

lemma join_opts_None [go_err]: "join_opts es = None \<longleftrightarrow> (\<forall>e \<in> set es. e = None)"
  by (induction es) (auto simp: join_opts_def errors_Join_def List.map_filter_def split: option.splits)

lemma read_nat_show_nat: "read_nat (show_nat n) = n"
proof (induction n rule: less_induct)
  case (less n)
  have d: "of_char (show_digit k) - (48::nat) = k" if "k < 10" for k
    using that by (simp add: show_digit_def of_char_of)
  show ?case
  proof (cases "n < 10")
    case True
    then show ?thesis by (simp add: show_nat.simps [of n] read_nat_def d)
  next
    case False
    then have "read_nat (show_nat (n div 10)) = n div 10"
      by (intro less.IH) simp
    then show ?thesis
      using False by (simp add: show_nat.simps [of n] read_nat_def d)
  qed
qed

lemma cmp_preorderI:
  assumes "\<And>a b. (c a b < 0) = (0 < c b a)"
    and "\<And>a b d. c a b \<le> 0 \<Longrightarrow> c b d \<le> 0 \<Longrightarrow> c a d \<le> 0"
  shows "cmp_preorder c"
  using assms unfolding cmp_preorder_def by blast

lemma cmp_preorder_flip: "cmp_preorder c \<Longrightarrow> (c a b < 0) = (0 < c b a)"
  unfolding cmp_preorder_def by blast

lemma cmp_preorder_trans: "cmp_preorder c \<Longrightarrow> c a b \<le> 0 \<Longrightarrow> c b d \<le> 0 \<Longrightarrow> c a d \<le> 0"
  unfolding cmp_preorder_def by blast

lemma cmp_preorder_total: "cmp_preorder c \<Longrightarrow> c a b \<le> 0 \<or> c b a \<le> 0"
  using cmp_preorder_flip [of c b a] by force

lemma cmp_preorder_refl: "cmp_preorder c \<Longrightarrow> c a a = 0"
  using cmp_preorder_flip [of c a a] by linarith

lemma cmp_preorder_zero: "cmp_preorder c \<Longrightarrow> (c a b = 0) = (c a b \<le> 0 \<and> c b a \<le> 0)"
  using cmp_preorder_flip [of c a b] cmp_preorder_flip [of c b a] by linarith

lemma cmp_ord_preorder [cmp_intro]: "cmp_preorder cmp_ord"
  by (rule cmp_preorderI) (auto simp: cmp_ord_def split: if_splits)

lemma cmp_ord_le: "cmp_ord a b \<le> 0 \<longleftrightarrow> a \<le> b"
  by (auto simp: cmp_ord_def)

lemma cmp_preorder_rev: "cmp_preorder c \<Longrightarrow> cmp_preorder (\<lambda>a b. c b a)"
  by (rule cmp_preorderI) (auto dest: cmp_preorder_flip intro: cmp_preorder_trans)

lemma cmp_preorder_comap: "cmp_preorder c \<Longrightarrow> cmp_preorder (\<lambda>a b. c (f a) (f b))"
  by (rule cmp_preorderI) (auto dest: cmp_preorder_flip intro: cmp_preorder_trans)

lemma cmp_preorder_lex:
  assumes c: "cmp_preorder c" and d: "cmp_preorder d"
  shows "cmp_preorder (\<lambda>a b. if c a b \<noteq> 0 then c a b else d a b)"
proof (rule cmp_preorderI)
  fix a b
  show "((if c a b \<noteq> 0 then c a b else d a b) < 0) = (0 < (if c b a \<noteq> 0 then c b a else d b a))"
    using cmp_preorder_flip [OF c, of a b] cmp_preorder_flip [OF c, of b a]
      cmp_preorder_flip [OF d, of a b] by auto
next
  fix x y z
  assume xy: "(if c x y \<noteq> 0 then c x y else d x y) \<le> 0"
    and yz: "(if c y z \<noteq> 0 then c y z else d y z) \<le> 0"
  have cxz: "c x z \<le> 0"
    using xy yz cmp_preorder_trans [OF c, of x y z] by (auto split: if_splits)
  show "(if c x z \<noteq> 0 then c x z else d x z) \<le> 0"
  proof (cases "c x z = 0")
    case True
    then have zx: "c z x \<le> 0"
      using cmp_preorder_zero [OF c] by blast
    have xy0: "c x y \<le> 0" and yz0: "c y z \<le> 0"
      using xy yz by (auto split: if_splits)
    have "c y x \<le> 0" "c z y \<le> 0"
      using cmp_preorder_trans [OF c yz0 zx] cmp_preorder_trans [OF c zx xy0] by auto
    then have "c x y = 0" "c y z = 0"
      using xy0 yz0 cmp_preorder_zero [OF c] by blast+
    then show ?thesis
      using True xy yz cmp_preorder_trans [OF d, of x y z] by simp
  qed (use cxz in simp)
qed

lemma mset_insert_cmp [sort_facts]: "mset (insert_cmp c x ys) = add_mset x (mset ys)"
  by (induction ys) auto

lemma mset_SortStableFunc [sort_facts]: "mset (SortStableFunc c xs) = mset xs"
  by (induction xs) (auto simp: SortStableFunc_def mset_insert_cmp)

lemma set_SortStableFunc [sort_facts, simp]: "set (SortStableFunc c xs) = set xs"
  using mset_SortStableFunc [of c xs] by (metis set_mset_mset)

lemma length_SortStableFunc [sort_facts, simp]: "length (SortStableFunc c xs) = length xs"
  using mset_SortStableFunc [of c xs] by (metis size_mset)

lemma SortStableFunc_Nil [simp]: "SortStableFunc c xs = [] \<longleftrightarrow> xs = []"
  by (metis length_0_conv length_SortStableFunc)

lemma SortStableFunc_empty [simp]: "SortStableFunc c [] = []"
  by simp

lemma sorted_insert_cmp:
  assumes c: "cmp_preorder c" and "sorted_wrt (\<lambda>a b. c a b \<le> 0) ys"
  shows "sorted_wrt (\<lambda>a b. c a b \<le> 0) (insert_cmp c x ys)"
  using assms(2)
proof (induction ys)
  case (Cons y ys)
  have set: "set (insert_cmp c x ys) = insert x (set ys)"
    using mset_insert_cmp [of c x ys] by (metis set_mset_add_mset_insert set_mset_mset)
  show ?case
    using Cons cmp_preorder_trans [OF c, of x y] cmp_preorder_total [OF c, of x y]
    by (auto simp: set)
qed simp

lemma sorted_SortStableFunc [sort_facts]:
  assumes "cmp_preorder c"
  shows "sorted_wrt (\<lambda>a b. c a b \<le> 0) (SortStableFunc c xs)"
  using assms by (induction xs) (auto simp: SortStableFunc_def sorted_insert_cmp)

lemma hd_SortStableFunc_min:
  assumes "cmp_preorder c" "x \<in> set xs"
  shows "c (hd (SortStableFunc c xs)) x \<le> 0"
proof (cases "SortStableFunc c xs")
  case Nil
  then show ?thesis using assms by simp
next
  case (Cons y ys)
  then have "x = y \<or> x \<in> set ys"
    using assms set_SortStableFunc [of c xs] by auto
  then show ?thesis
    using sorted_SortStableFunc [OF assms(1), of xs] cmp_preorder_refl [OF assms(1)] Cons by auto
qed


section \<open>The sorting contract\<close>

text \<open>
  \<^verbatim>\<open>slices.SortFunc\<close>, \<^verbatim>\<open>slices.SortStableFunc\<close> and \<^verbatim>\<open>sort.Slice\<close> promise a sorted permutation; the
  order of equal elements is fixed by the stable variant only.  What is proved from the
  contract alone therefore holds whichever of them the source calls.
\<close>

locale go_sorter =
  fixes srt :: "'a cmp \<Rightarrow> 'a list \<Rightarrow> 'a list"
  assumes perm: "mset (srt c xs) = mset xs"
    and sorted: "cmp_preorder c \<Longrightarrow> sorted_wrt (\<lambda>a b. c a b \<le> 0) (srt c xs)"
begin

lemma elems: "set (srt c xs) = set xs"
  using perm [of c xs] by (metis set_mset_mset)

lemma len: "length (srt c xs) = length xs"
  using perm [of c xs] by (metis size_mset)

lemma canonical:
  assumes c: "cmp_preorder c" and same: "mset xs = mset ys"
    and anti: "\<forall>a \<in> set xs. \<forall>b \<in> set xs. c a b = 0 \<longrightarrow> a = b"
  shows "srt c xs = srt c ys"
proof -
  have uniq: "us = vs" if "sorted_wrt (\<lambda>a b. c a b \<le> 0) us" "sorted_wrt (\<lambda>a b. c a b \<le> 0) vs"
    "mset us = mset vs" "\<forall>a \<in> set us. \<forall>b \<in> set us. c a b = 0 \<longrightarrow> a = b" for us vs
    using that
  proof (induction us arbitrary: vs)
    case (Cons u us)
    then obtain v vs' where vs: "vs = v # vs'"
      by (cases vs) auto
    have "set vs = set (u # us)"
      using Cons.prems(3) by (metis set_mset_mset)
    moreover have "c x y \<le> 0" if "sorted_wrt (\<lambda>a b. c a b \<le> 0) (x # xs)" "y \<in> set (x # xs)" for x y xs
      using that cmp_preorder_refl [OF c, of x] by auto
    ultimately have "c u v \<le> 0" "c v u \<le> 0" "v \<in> set (u # us)"
      using Cons.prems(1,2) vs by (metis list.set_intros(1))+
    then have "u = v"
      using Cons.prems(4) cmp_preorder_zero [OF c] by (metis list.set_intros(1))
    then show ?case
      using Cons vs by auto
  qed simp
  show ?thesis
    using uniq [OF sorted [OF c] sorted [OF c]] perm same anti elems by metis
qed

end

interpretation stable: go_sorter SortStableFunc
  by unfold_locales (simp_all add: sort_facts)


section \<open>Go maps as association lists\<close>

type_synonym labels = "(string \<times> string) list"

fun map_put :: "'k \<Rightarrow> 'v \<Rightarrow> ('k \<times> 'v) list \<Rightarrow> ('k \<times> 'v) list" where
  "map_put k v [] = [(k, v)]"
| "map_put k v ((l, w) # m) = (if l = k then (k, v) # m else (l, w) # map_put k v m)"

fun map_append :: "'k \<Rightarrow> 'v list \<Rightarrow> ('k \<times> 'v list) list \<Rightarrow> ('k \<times> 'v list) list" where
  "map_append k vs [] = [(k, vs)]"
| "map_append k vs ((l, ws) # m) = (if l = k then (l, ws @ vs) # m else (l, ws) # map_append k vs m)"

lemma split_on_none: "c \<notin> set s \<Longrightarrow> split_on c s = [s]"
  by (induction s) auto

lemma map_of_put [simp]: "map_of (map_put k v m) = (map_of m)(k \<mapsto> v)"
  by (induction k v m rule: map_put.induct) auto

lemma map_append_ne [simp]: "map_append k vs m \<noteq> []"
  by (cases "(k, vs, m)" rule: map_append.cases) auto

section \<open>Sequencing calls that may fail\<close>

fun all_ok :: "'a res list \<Rightarrow> 'a list res" where
  "all_ok [] = Inr []"
| "all_ok (x # xs) = (case x of Inl err \<Rightarrow> Inl err | Inr y \<Rightarrow> map_sum id ((#) y) (all_ok xs))"

lemma map_sum_Inr: "map_sum id f x = Inr y \<longleftrightarrow> (\<exists>z. x = Inr z \<and> y = f z)"
  by (cases x) auto

lemma all_ok_Inr: "all_ok xs = Inr ys \<longleftrightarrow> xs = map Inr ys"
  by (induction xs arbitrary: ys) (auto simp: map_sum_Inr split: sum.splits)

lemma all_ok_map_Inr [simp]: "all_ok (map (\<lambda>x. Inr (f x)) xs) = Inr (map f xs)"
  by (induction xs) auto

lemma all_ok_map: "all_ok (map f xs) = Inr ys \<longleftrightarrow> list_all2 (\<lambda>x y. f x = Inr y) xs ys"
  by (induction xs arbitrary: ys) (auto simp: map_sum_Inr list_all2_Cons1 split: sum.splits)

lemma all_ok_ex: "(\<exists>ys. all_ok (map f xs) = Inr ys) \<longleftrightarrow> (\<forall>x \<in> set xs. \<exists>y. f x = Inr y)"
  by (induction xs) (auto split: sum.splits, metis map_sum_Inr)

lemma all_ok_mem: "all_ok (map f xs) = Inr ys \<Longrightarrow> y \<in> set ys \<longleftrightarrow> (\<exists>x \<in> set xs. f x = Inr y)"
  unfolding all_ok_map by (induction xs ys rule: list_all2_induct) auto

section \<open>Time\<close>

text \<open>Times are nanoseconds since the Unix epoch; a \<^verbatim>\<open>time.Duration\<close> is a 64-bit integer of nanoseconds.\<close>

type_synonym time = int

abbreviation second :: int where "second \<equiv> 1000000000"

definition wrap64 :: "int \<Rightarrow> int" where
  "wrap64 n = (n + 2 ^ 63) mod 2 ^ 64 - 2 ^ 63"

definition minutes :: "int \<Rightarrow> int" where
  "minutes m = wrap64 (m * (60 * second))"

definition round_second :: "int \<Rightarrow> int" where
  "round_second d = (if 0 \<le> d then (d + second div 2) div second * second else - ((second div 2 - d) div second * second))"

section \<open>Traces of calls\<close>

text \<open>A history of calls that grows by calls each of which is allowed after the calls before it.\<close>

inductive grows :: "('c list \<Rightarrow> 'c \<Rightarrow> bool) \<Rightarrow> 'c list \<Rightarrow> 'c list \<Rightarrow> bool" for P w where
  grows_refl [simp, intro]: "grows P w w"
| grows_call: "grows P w v \<Longrightarrow> P v c \<Longrightarrow> grows P w (v @ [c])"

lemma grows_one [intro]: "P w c \<Longrightarrow> grows P w (w @ [c])"
  by (rule grows_call [OF grows_refl])

lemma grows_trans [trans]: "grows P v w \<Longrightarrow> grows P u v \<Longrightarrow> grows P u w"
  by (induction rule: grows.induct) (auto intro: grows_call)

lemma grows_prefix: "grows P w v \<Longrightarrow> \<exists>t. v = w @ t"
  by (induction rule: grows.induct) auto

lemma grows_mem: "grows P [] w \<Longrightarrow> w = pre @ c # post \<Longrightarrow> P pre c"
proof (induction arbitrary: post rule: grows.induct)
  case (grows_call v d)
  then show ?case by (cases post rule: rev_cases) auto
qed simp

end
