(* ===== verification/VersionRelease.thy ===== *)
theory VersionRelease
  imports Prelude
begin

text \<open>
  Bundle versions (\<^verbatim>\<open>internal/operator-controller/bundle/versionrelease.go\<close>).
  The two semver libraries and the registry library are not part of the repository: what
  the code calls of them (parsing and comparing versions, ranges, the version field of an
  unmarshalled package property) is the record \<^verbatim>\<open>bundle_libs\<close>, an argument of every definition that uses it, and
  \<^verbatim>\<open>semver_laws\<close> and \<^verbatim>\<open>semver_ident_laws\<close> name what the code relies on.
\<close>

section \<open>The version libraries\<close>

record prversion =
  VersionStr :: string
  VersionNum :: nat
  IsNum :: bool

record version =
  Major :: nat
  Minor :: nat
  Patch :: nat
  Pre :: "prversion list"
  Build :: "string list"

record mmversion =
  mmMajor :: nat
  mmMinor :: nat
  mmPatch :: nat
  mmPre :: string
  mmMetadata :: string

record bundle_libs =
  Parse :: "string \<Rightarrow> version res"
  VersionCompare :: "version cmp"
  VersionString :: "version \<Rightarrow> string"
  NewPRVersion :: "string \<Rightarrow> prversion res"
  PRString :: "prversion \<Rightarrow> string"
  ParseRange :: "string \<Rightarrow> (version \<Rightarrow> bool) res"
  NewConstraint :: "string \<Rightarrow> (mmversion \<Rightarrow> bool) res"
  UnmarshalPackageVersion :: "string \<Rightarrow> string res"

definition semver_laws :: "bundle_libs \<Rightarrow> bool" where
  "semver_laws S \<longleftrightarrow> cmp_preorder (VersionCompare S)"

definition semver_ident_laws :: "bundle_libs \<Rightarrow> bool" where
  "semver_ident_laws S \<longleftrightarrow>
     (\<forall>s p. NewPRVersion S s = Inr p \<longrightarrow> PRString S p = s) \<and>
     (\<forall>s v. Parse S s = Inr v \<longrightarrow> (\<forall>b \<in> set (Build v). b \<noteq> [] \<and> CHR ''.'' \<notin> set b))"

section \<open>Versions with a release\<close>

type_synonym release = "prversion list"

record version_release =
  Version :: version
  Release :: release

definition zero_version :: version where
  "zero_version = \<lparr>Major = 0, Minor = 0, Patch = 0, Pre = [], Build = []\<rparr>"

fun parse_segments :: "bundle_libs \<Rightarrow> nat \<Rightarrow> string list \<Rightarrow> release \<times> goerr list" where
  "parse_segments S i [] = ([], [])"
| "parse_segments S i (seg # segs) =
     (let (r, errs) = parse_segments S (i + 1) segs in
      case NewPRVersion S seg of
        Inl err \<Rightarrow> (r, ErrText (''segment '' @ show_nat i @ '': '' @ Error err) # errs)
      | Inr prVer \<Rightarrow> (prVer # r, errs))"

definition NewRelease :: "bundle_libs \<Rightarrow> string \<Rightarrow> release res" where
  "NewRelease S relStr =
     (if relStr = [] then Inr []
      else let (r, errs) = parse_segments S 0 (split_on CHR ''.'' relStr) in
        case errors_Join errs of
          Some err \<Rightarrow> Inl (ErrText (''invalid release '' @ quote relStr @ '': '' @ Error err))
        | None \<Rightarrow> Inr r)"

definition NewLegacyRegistryV1VersionRelease :: "bundle_libs \<Rightarrow> string \<Rightarrow> version_release res" where
  "NewLegacyRegistryV1VersionRelease S vStr =
     (case Parse S vStr of
        Inl err \<Rightarrow> Inl err
      | Inr vers \<Rightarrow>
          (case NewRelease S (join_str ''.'' (Build vers)) of
             Inr rel \<Rightarrow> Inr \<lparr>Version = vers\<lparr>Build := []\<rparr>, Release = rel\<rparr>
           | Inl _ \<Rightarrow> Inr \<lparr>Version = vers, Release = []\<rparr>))"

definition ReleaseCompare :: "bundle_libs \<Rightarrow> release cmp" where
  "ReleaseCompare S r other =
     (if length r = 0 \<and> length other > 0 then - 1
      else if length other = 0 \<and> length r > 0 then 1
      else VersionCompare S (zero_version\<lparr>Pre := r\<rparr>) (zero_version\<lparr>Pre := other\<rparr>))"

definition VersionReleaseCompare :: "bundle_libs \<Rightarrow> version_release cmp" where
  "VersionReleaseCompare S vr other =
     (if VersionCompare S (Version vr) (Version other) \<noteq> 0
      then VersionCompare S (Version vr) (Version other)
      else ReleaseCompare S (Release vr) (Release other))"

definition AsLegacyRegistryV1Version :: "bundle_libs \<Rightarrow> version_release \<Rightarrow> version" where
  "AsLegacyRegistryV1Version S vr =
     (let v = \<lparr>Major = Major (Version vr), Minor = Minor (Version vr), Patch = Patch (Version vr),
               Pre = Pre (Version vr), Build = Build (Version vr)\<rparr>
      in if length (Release vr) > 0 then v\<lparr>Build := map (PRString S) (Release vr)\<rparr> else v)"

section \<open>Lemmas\<close>

lemma parse_segments_ok:
  "parse_segments S i segs = (r, []) \<Longrightarrow> map (NewPRVersion S) segs = map Inr r"
  by (induction S i segs arbitrary: r rule: parse_segments.induct)
    (auto simp: Let_def split: prod.splits sum.splits)

lemma NewRelease_Inr:
  assumes "NewRelease S s = Inr r" "s \<noteq> []"
  shows "map (NewPRVersion S) (split_on CHR ''.'' s) = map Inr r"
proof -
  obtain r' errs where p: "parse_segments S 0 (split_on CHR ''.'' s) = (r', errs)"
    by (cases "parse_segments S 0 (split_on CHR ''.'' s)")
  with assms have "errs = []" "r' = r"
    by (auto simp: NewRelease_def errors_Join_def split: if_splits)
  with p show ?thesis using parse_segments_ok by metis
qed

lemma split_on_Cons: "c \<notin> set b \<Longrightarrow> split_on c (b @ c # xs) = b # split_on c xs"
  by (induction b) auto

lemma split_on_single: "c \<notin> set b \<Longrightarrow> split_on c b = [b]"
  by (induction b) auto

lemma split_join:
  assumes "bs \<noteq> []" "\<forall>b \<in> set bs. c \<notin> set b"
  shows "split_on c (join_str [c] bs) = bs"
  using assms by (induction "[c]" bs rule: join_str.induct) (auto simp: split_on_Cons split_on_single)

lemma join_str_empty: "\<forall>b \<in> set bs. b \<noteq> [] \<Longrightarrow> join_str sep bs = [] \<longleftrightarrow> bs = []"
  by (induction sep bs rule: join_str.induct) auto

lemma ReleaseCompare_preorder [cmp_intro]:
  assumes "semver_laws S"
  shows "cmp_preorder (ReleaseCompare S)"
proof -
  define c where "c = (\<lambda>r r'. VersionCompare S (zero_version\<lparr>Pre := r\<rparr>) (zero_version\<lparr>Pre := r'\<rparr>))"
  have c: "cmp_preorder c"
    using assms cmp_preorder_comap [of "VersionCompare S" "\<lambda>r. zero_version\<lparr>Pre := r\<rparr>"]
    by (simp add: semver_laws_def c_def)
  have rc: "ReleaseCompare S r r' = (if r = [] \<and> r' \<noteq> [] then - 1
      else if r' = [] \<and> r \<noteq> [] then 1 else c r r')" for r r'
    by (simp add: ReleaseCompare_def c_def)
  show ?thesis
  proof (rule cmp_preorderI)
    fix a b show "(ReleaseCompare S a b < 0) = (0 < ReleaseCompare S b a)"
      using cmp_preorder_flip [OF c, of a b] by (simp add: rc)
  next
    fix a b d assume "ReleaseCompare S a b \<le> 0" "ReleaseCompare S b d \<le> 0"
    then show "ReleaseCompare S a d \<le> 0"
      by (cases "a = []"; cases "b = []"; cases "d = []") (simp_all add: rc cmp_preorder_trans [OF c, of a b d])
  qed
qed

lemma VersionReleaseCompare_preorder [cmp_intro]:
  assumes "semver_laws S"
  shows "cmp_preorder (VersionReleaseCompare S)"
proof -
  have "cmp_preorder (\<lambda>a b. if VersionCompare S (Version a) (Version b) \<noteq> 0
      then VersionCompare S (Version a) (Version b) else ReleaseCompare S (Release a) (Release b))"
    using assms ReleaseCompare_preorder [OF assms]
    by (intro cmp_preorder_lex [of "\<lambda>a b. VersionCompare S (Version a) (Version b)"
          "\<lambda>a b. ReleaseCompare S (Release a) (Release b)"])
      (auto intro: cmp_preorder_comap simp: semver_laws_def)
  then show ?thesis
    by (simp add: VersionReleaseCompare_def [abs_def])
qed

lemma AsLegacy_NewLegacy:
  assumes laws: "semver_ident_laws S" and p: "Parse S vStr = Inr v"
  shows "\<exists>vr. NewLegacyRegistryV1VersionRelease S vStr = Inr vr \<and> AsLegacyRegistryV1Version S vr = v"
proof (cases "NewRelease S (join_str ''.'' (Build v))")
  case (Inl e)
  then show ?thesis
    using p by (auto simp: NewLegacyRegistryV1VersionRelease_def AsLegacyRegistryV1Version_def)
next
  case (Inr rel)
  have ids: "\<forall>b \<in> set (Build v). b \<noteq> [] \<and> CHR ''.'' \<notin> set b"
    using laws p by (auto simp: semver_ident_laws_def)
  have "map (PRString S) rel = Build v"
  proof (cases "Build v = []")
    case True
    then show ?thesis using Inr by (simp add: NewRelease_def)
  next
    case False
    then have "map (NewPRVersion S) (Build v) = map Inr rel"
      using NewRelease_Inr [OF Inr] ids by (auto simp: join_str_empty split_join)
    moreover have "map (NewPRVersion S) bs = map Inr rs \<Longrightarrow> map (PRString S) rs = bs" for bs rs
      using laws by (induction bs arbitrary: rs) (auto simp: semver_ident_laws_def)
    ultimately show ?thesis by blast
  qed
  then show ?thesis
    using p Inr by (auto simp: NewLegacyRegistryV1VersionRelease_def AsLegacyRegistryV1Version_def Let_def)
qed


section \<open>A concrete instance of the libraries\<close>

text \<open>
  Versions of the form major.minor.patch with optional build metadata, ranges and
  constraints that name one version; it satisfies both sets of laws.
\<close>

definition is_digits :: "string \<Rightarrow> bool" where
  "is_digits s = (s \<noteq> [] \<and> list_all (\<lambda>c. 48 \<le> (of_char c :: nat) \<and> (of_char c :: nat) \<le> 57) s)"

definition plain_parse :: "string \<Rightarrow> version res" where
  "plain_parse s =
     (let parts = split_on CHR ''+'' s;
          core = split_on CHR ''.'' (hd parts);
          build = (case tl parts of [] \<Rightarrow> [] | b # _ \<Rightarrow> split_on CHR ''.'' b)
      in if length core = 3 \<and> list_all is_digits core \<and> length parts \<le> 2 \<and> list_all (\<lambda>b. b \<noteq> []) build
         then Inr \<lparr>Major = read_nat (core ! 0), Minor = read_nat (core ! 1), Patch = read_nat (core ! 2),
                   Pre = [], Build = build\<rparr>
         else Inl (ErrText ''Invalid version''))"

definition plain_compare :: "version cmp" where
  "plain_compare v w =
     (if cmp_ord [Major v, Minor v, Patch v] [Major w, Minor w, Patch w] \<noteq> 0
      then cmp_ord [Major v, Minor v, Patch v] [Major w, Minor w, Patch w]
      else cmp_ord (map VersionStr (Pre v)) (map VersionStr (Pre w)))"

definition plain_libs :: bundle_libs where
  "plain_libs =
     \<lparr>Parse = plain_parse, VersionCompare = plain_compare,
      VersionString = (\<lambda>v. show_nat (Major v) @ ''.'' @ show_nat (Minor v) @ ''.'' @ show_nat (Patch v)),
      NewPRVersion = (\<lambda>s. if s = [] then Inl (ErrText ''Prerelease is empty'')
                          else Inr \<lparr>VersionStr = s, VersionNum = 0, IsNum = False\<rparr>),
      PRString = VersionStr,
      ParseRange = (\<lambda>s. case plain_parse s of Inl e \<Rightarrow> Inl e | Inr v \<Rightarrow> Inr (\<lambda>w. plain_compare v w = 0)),
      NewConstraint = (\<lambda>s. case plain_parse s of Inl e \<Rightarrow> Inl e
         | Inr v \<Rightarrow> Inr (\<lambda>m. mmMajor m = Major v \<and> mmMinor m = Minor v \<and> mmPatch m = Patch v)),
      UnmarshalPackageVersion = Inr\<rparr>"

lemma split_on_no_sep: "b \<in> set (split_on c s) \<Longrightarrow> c \<notin> set b"
  by (induction c s arbitrary: b rule: split_on.induct) (auto split: if_splits list.splits)

lemma plain_compare_preorder [cmp_intro]: "cmp_preorder plain_compare"
proof -
  have "cmp_preorder (\<lambda>v w. if cmp_ord [Major v, Minor v, Patch v] [Major w, Minor w, Patch w] \<noteq> 0
      then cmp_ord [Major v, Minor v, Patch v] [Major w, Minor w, Patch w]
      else cmp_ord (map VersionStr (Pre v)) (map VersionStr (Pre w)))"
    by (rule cmp_preorder_lex [of "\<lambda>v w. cmp_ord [Major v, Minor v, Patch v] [Major w, Minor w, Patch w]"
          "\<lambda>v w. cmp_ord (map VersionStr (Pre v)) (map VersionStr (Pre w))"])
      (rule cmp_preorder_comap [OF cmp_ord_preorder])+
  then show ?thesis
    by (simp add: plain_compare_def [abs_def])
qed

lemma plain_semver_laws: "semver_laws plain_libs"
  by (simp add: semver_laws_def plain_libs_def plain_compare_preorder)

lemma plain_ident_laws: "semver_ident_laws plain_libs"
  by (auto simp: semver_ident_laws_def plain_libs_def plain_parse_def Let_def list_all_iff
      split: if_splits list.splits dest: split_on_no_sep)

end
