(* ===== verification/Api.thy ===== *)
theory Api
  imports Prelude
begin

text \<open>
  The API types of \<^verbatim>\<open>api/v1\<close> (ClusterExtension, ClusterCatalog, ClusterObjectSet) with
  the constants of conditions and reasons, and the Kubernetes data they embed.
  String-valued enumerations are strings, as in the source.  The condition helpers of
  \<^verbatim>\<open>k8s.io/apimachinery/pkg/api/meta\<close> are the record \<^verbatim>\<open>cond_api\<close>, an argument of the
  definitions that call them; \<^verbatim>\<open>cond_laws\<close> is their documented behaviour.
\<close>

named_theorems cond_facts \<open>what the condition helpers keep\<close>

section \<open>Constants\<close>

abbreviation ClusterExtensionKind :: string where "ClusterExtensionKind \<equiv> ''ClusterExtension''"
abbreviation ClusterObjectSetKind :: string where "ClusterObjectSetKind \<equiv> ''ClusterObjectSet''"

abbreviation ConditionTrue :: string where "ConditionTrue \<equiv> ''True''"
abbreviation ConditionFalse :: string where "ConditionFalse \<equiv> ''False''"
abbreviation ConditionUnknown :: string where "ConditionUnknown \<equiv> ''Unknown''"

abbreviation TypeInstalled :: string where "TypeInstalled \<equiv> ''Installed''"
abbreviation TypeProgressing :: string where "TypeProgressing \<equiv> ''Progressing''"
abbreviation TypeAvailable :: string where "TypeAvailable \<equiv> ''Available''"
abbreviation TypeSucceeded :: string where "TypeSucceeded \<equiv> ''Succeeded''"
abbreviation TypeServing :: string where "TypeServing \<equiv> ''Serving''"
abbreviation TypeDeprecated :: string where "TypeDeprecated \<equiv> ''Deprecated''"
abbreviation TypePackageDeprecated :: string where "TypePackageDeprecated \<equiv> ''PackageDeprecated''"
abbreviation TypeChannelDeprecated :: string where "TypeChannelDeprecated \<equiv> ''ChannelDeprecated''"
abbreviation TypeBundleDeprecated :: string where "TypeBundleDeprecated \<equiv> ''BundleDeprecated''"

abbreviation ReasonAbsent :: string where "ReasonAbsent \<equiv> ''Absent''"
abbreviation ReasonRollingOut :: string where "ReasonRollingOut \<equiv> ''RollingOut''"
abbreviation ReasonRetrying :: string where "ReasonRetrying \<equiv> ''Retrying''"
abbreviation ReasonBlocked :: string where "ReasonBlocked \<equiv> ''Blocked''"
abbreviation ReasonInvalidConfiguration :: string where "ReasonInvalidConfiguration \<equiv> ''InvalidConfiguration''"
abbreviation ReasonDeprecated :: string where "ReasonDeprecated \<equiv> ''Deprecated''"
abbreviation ReasonNotDeprecated :: string where "ReasonNotDeprecated \<equiv> ''NotDeprecated''"
abbreviation ReasonDeprecationStatusUnknown :: string where
  "ReasonDeprecationStatusUnknown \<equiv> ''DeprecationStatusUnknown''"
abbreviation ReasonSucceeded :: string where "ReasonSucceeded \<equiv> ''Succeeded''"
abbreviation ReasonFailed :: string where "ReasonFailed \<equiv> ''Failed''"
abbreviation ReasonProgressDeadlineExceeded :: string where
  "ReasonProgressDeadlineExceeded \<equiv> ''ProgressDeadlineExceeded''"

abbreviation UpgradeConstraintPolicyCatalogProvided :: string where
  "UpgradeConstraintPolicyCatalogProvided \<equiv> ''CatalogProvided''"
abbreviation UpgradeConstraintPolicySelfCertified :: string where
  "UpgradeConstraintPolicySelfCertified \<equiv> ''SelfCertified''"
abbreviation AvailabilityModeAvailable :: string where "AvailabilityModeAvailable \<equiv> ''Available''"
abbreviation AvailabilityModeUnavailable :: string where "AvailabilityModeUnavailable \<equiv> ''Unavailable''"
abbreviation LifecycleStateActive :: string where "LifecycleStateActive \<equiv> ''Active''"
abbreviation LifecycleStateArchived :: string where "LifecycleStateArchived \<equiv> ''Archived''"

section \<open>Conditions\<close>

record condition =
  cond_Type :: string
  cond_Status :: string
  cond_Reason :: string
  cond_Message :: string
  cond_ObservedGeneration :: int
  cond_LastTransitionTime :: int

record cond_api =
  apiSetStatusCondition :: "condition list \<Rightarrow> condition \<Rightarrow> condition list"
  apiFindStatusCondition :: "condition list \<Rightarrow> string \<Rightarrow> condition option"
  apiIsStatusConditionTrue :: "condition list \<Rightarrow> string \<Rightarrow> bool"

definition cond_like :: "condition \<Rightarrow> condition \<Rightarrow> bool" where
  "cond_like c d \<longleftrightarrow> cond_Type c = cond_Type d \<and> cond_Status c = cond_Status d \<and>
     cond_Reason c = cond_Reason d \<and> cond_Message c = cond_Message d \<and>
     cond_ObservedGeneration c = cond_ObservedGeneration d"

text \<open>
  Setting a condition makes the one of its type equal to it up to the transition time and
  leaves the others; finding returns a condition of that type; a condition is true
  when it is present with status True.
\<close>

definition cond_laws :: "cond_api \<Rightarrow> bool" where
  "cond_laws A \<longleftrightarrow>
     (\<forall>cs c. \<exists>d. apiFindStatusCondition A (apiSetStatusCondition A cs c) (cond_Type c) = Some d
        \<and> cond_like d c) \<and>
     (\<forall>cs c t. t \<noteq> cond_Type c \<longrightarrow>
        apiFindStatusCondition A (apiSetStatusCondition A cs c) t = apiFindStatusCondition A cs t) \<and>
     (\<forall>cs t d. apiFindStatusCondition A cs t = Some d \<longrightarrow> cond_Type d = t) \<and>
     (\<forall>t. apiFindStatusCondition A [] t = None) \<and>
     (\<forall>cs t. apiIsStatusConditionTrue A cs t \<longleftrightarrow>
        (\<exists>d. apiFindStatusCondition A cs t = Some d \<and> cond_Status d = ConditionTrue))"

text \<open>A concrete instance of the documented behaviour, with the clock as its argument.\<close>

fun set_cond :: "int \<Rightarrow> condition list \<Rightarrow> condition \<Rightarrow> condition list" where
  "set_cond now [] c = [if cond_LastTransitionTime c = 0 then c\<lparr>cond_LastTransitionTime := now\<rparr> else c]"
| "set_cond now (d # ds) c =
     (if cond_Type d = cond_Type c
      then c\<lparr>cond_LastTransitionTime := (if cond_Status d = cond_Status c then cond_LastTransitionTime d
               else if cond_LastTransitionTime c = 0 then now else cond_LastTransitionTime c)\<rparr> # ds
      else d # set_cond now ds c)"

definition find_cond :: "condition list \<Rightarrow> string \<Rightarrow> condition option" where
  "find_cond cs t = List.find (\<lambda>c. cond_Type c = t) cs"

definition doc_cond_api :: "int \<Rightarrow> cond_api" where
  "doc_cond_api now = \<lparr>apiSetStatusCondition = set_cond now, apiFindStatusCondition = find_cond,
     apiIsStatusConditionTrue = (\<lambda>cs t. case find_cond cs t of None \<Rightarrow> False
        | Some d \<Rightarrow> cond_Status d = ConditionTrue)\<rparr>"

section \<open>Selectors\<close>

record selector_requirement =
  sreq_Key :: string
  sreq_Operator :: string
  sreq_Values :: "string list"

record label_selector =
  ls_MatchLabels :: "(string \<times> string) list"
  ls_MatchExpressions :: "selector_requirement list"

datatype selector = Everything | Nothing | Requirements "selector_requirement list"

section \<open>ClusterExtension\<close>

record catalog_filter =
  cf_PackageName :: string
  cf_Version :: string
  cf_Channels :: "string list"
  cf_Selector :: "label_selector option"
  cf_UpgradeConstraintPolicy :: string

record source_config =
  src_SourceType :: string
  src_Catalog :: "catalog_filter option"

record ce_config =
  cfg_ConfigType :: string
  cfg_Inline :: "string option"

record crd_upgrade_safety_config =
  crdus_Enforcement :: string

record preflight_config =
  pf_CRDUpgradeSafety :: "crd_upgrade_safety_config option"

record ce_install_config =
  ic_Preflight :: "preflight_config option"

record ce_spec =
  spec_Namespace :: string
  spec_ServiceAccount :: string
  spec_Source :: source_config
  spec_Install :: "ce_install_config option"
  spec_Config :: "ce_config option"
  spec_ProgressDeadlineMinutes :: int

record bundle_metadata =
  bm_Name :: string
  bm_Version :: string

record revision_status =
  rs_Name :: string
  rs_Conditions :: "condition list"

record ce_status =
  st_Conditions :: "condition list"
  st_Install :: "bundle_metadata option"
  st_ActiveRevisions :: "revision_status list"

record cluster_extension =
  ce_Name :: string
  ce_UID :: string
  ce_Generation :: int
  ce_Finalizers :: "string list"
  ce_Labels :: "(string \<times> string) list"
  ce_Annotations :: "(string \<times> string) list"
  ce_DeletionTimestamp :: "int option"
  ce_Spec :: ce_spec
  ce_Status :: ce_status

section \<open>ClusterCatalog\<close>

record image_source =
  img_Ref :: string
  img_PollIntervalMinutes :: "int option"

record catalog_source =
  cs_Type :: string
  cs_Image :: "image_source option"

record catalog_spec =
  cat_Source :: catalog_source
  cat_Priority :: int
  cat_AvailabilityMode :: string

record resolved_source =
  rsv_Type :: string
  rsv_Image :: "string option"

record catalog_status =
  cst_Conditions :: "condition list"
  cst_ResolvedSource :: "resolved_source option"
  cst_URLs :: "string option"
  cst_LastUnpacked :: "int option"

record cluster_catalog =
  cat_Name :: string
  cat_Generation :: int
  cat_Labels :: labels
  cat_Annotations :: labels
  cat_Finalizers :: "string list"
  cat_DeletionTimestamp :: "int option"
  cat_Spec :: catalog_spec
  cat_Status :: catalog_status

section \<open>ClusterObjectSet\<close>

text \<open>
  An unstructured object is what the code reads of it (group, version, kind, namespace, name,
  labels, annotations), its other metadata entries and its other fields, with their values as text.
\<close>

record k8s_object =
  obj_Group :: string
  obj_Version :: string
  obj_Kind :: string
  obj_Namespace :: string
  obj_Name :: string
  obj_Labels :: "(string \<times> string) list"
  obj_Annotations :: "(string \<times> string) list"
  obj_Metadata :: "(string \<times> string) list"
  obj_Fields :: "(string \<times> string) list"

record owner_reference =
  or_APIVersion :: string
  or_Kind :: string
  or_Name :: string
  or_UID :: string
  or_Controller :: bool
  or_BlockOwnerDeletion :: bool

record object_source_ref =
  ref_Name :: string
  ref_Namespace :: string
  ref_Key :: string

record cos_object =
  co_Object :: "k8s_object option"
  co_Ref :: object_source_ref
  co_CollisionProtection :: string

record cos_phase =
  ph_Name :: string
  ph_Objects :: "cos_object list"
  ph_CollisionProtection :: string

record condition_equal_probe =
  cep_Type :: string
  cep_Status :: string

record fields_equal_probe =
  fep_FieldA :: string
  fep_FieldB :: string

record field_value_probe =
  fvp_FieldPath :: string
  fvp_Value :: string

record assertion =
  as_Type :: string
  as_ConditionEqual :: condition_equal_probe
  as_FieldsEqual :: fields_equal_probe
  as_FieldValue :: field_value_probe

record object_selector =
  os_Type :: string
  os_GroupKind :: "string \<times> string"
  os_Label :: label_selector

record progression_probe =
  pp_Selector :: object_selector
  pp_Assertions :: "assertion list"

record cos_spec =
  cosp_LifecycleState :: string
  cosp_Revision :: int
  cosp_Phases :: "cos_phase list"
  cosp_ProgressDeadlineMinutes :: int
  cosp_ProgressionProbes :: "progression_probe list"
  cosp_CollisionProtection :: string

record cluster_object_set =
  cos_Name :: string
  cos_UID :: string
  cos_Generation :: int
  cos_CreationTimestamp :: int
  cos_DeletionTimestamp :: "int option"
  cos_Labels :: "(string \<times> string) list"
  cos_Annotations :: "(string \<times> string) list"
  cos_Finalizers :: "string list"
  cos_Owner :: "string option"
  cos_Spec :: cos_spec
  cos_Conditions :: "condition list"

abbreviation CollisionProtectionPrevent :: string where "CollisionProtectionPrevent \<equiv> ''Prevent''"
abbreviation CollisionProtectionIfNoController :: string where "CollisionProtectionIfNoController \<equiv> ''IfNoController''"
abbreviation CollisionProtectionNone :: string where "CollisionProtectionNone \<equiv> ''None''"

text \<open>A ClusterExtension for the witnesses.\<close>

definition ex_filter :: catalog_filter where
  "ex_filter = \<lparr>cf_PackageName = ''op'', cf_Version = [], cf_Channels = [''stable''], cf_Selector = None,
     cf_UpgradeConstraintPolicy = UpgradeConstraintPolicyCatalogProvided\<rparr>"

definition ex_extension :: cluster_extension where
  "ex_extension = \<lparr>ce_Name = ''ext'', ce_UID = ''uid'', ce_Generation = 1, ce_Finalizers = [], ce_Labels = [], ce_Annotations = [],
     ce_DeletionTimestamp = None,
     ce_Spec = \<lparr>spec_Namespace = ''ns'', spec_ServiceAccount = ''sa'',
       spec_Source = \<lparr>src_SourceType = ''Catalog'', src_Catalog = Some ex_filter\<rparr>,
       spec_Install = None, spec_Config = None, spec_ProgressDeadlineMinutes = 0\<rparr>,
     ce_Status = \<lparr>st_Conditions = [], st_Install = None, st_ActiveRevisions = []\<rparr>\<rparr>"

section \<open>Lemmas\<close>

lemma find_cond_set_same: "\<exists>d. find_cond (set_cond now cs c) (cond_Type c) = Some d \<and> cond_like d c"
  by (induction now cs c rule: set_cond.induct) (auto simp: find_cond_def cond_like_def)

lemma find_cond_set_other:
  "t \<noteq> cond_Type c \<Longrightarrow> find_cond (set_cond now cs c) t = find_cond cs t"
  by (induction now cs c rule: set_cond.induct) (auto simp: find_cond_def)

lemma find_cond_type: "find_cond cs t = Some d \<Longrightarrow> cond_Type d = t"
  by (auto simp: find_cond_def find_Some_iff)

lemma doc_cond_laws [cond_facts]: "cond_laws (doc_cond_api now)"
  unfolding cond_laws_def doc_cond_api_def
  by (auto simp: find_cond_set_same find_cond_set_other find_cond_type split: option.splits)
    (simp_all add: find_cond_def)

lemma cond_laws_set_same:
  "cond_laws A \<Longrightarrow> \<exists>d. apiFindStatusCondition A (apiSetStatusCondition A cs c) (cond_Type c) = Some d
     \<and> cond_like d c"
  unfolding cond_laws_def by blast

lemma cond_laws_set_other:
  "cond_laws A \<Longrightarrow> t \<noteq> cond_Type c \<Longrightarrow>
     apiFindStatusCondition A (apiSetStatusCondition A cs c) t = apiFindStatusCondition A cs t"
  unfolding cond_laws_def by blast

lemma cond_laws_type: "cond_laws A \<Longrightarrow> apiFindStatusCondition A cs t = Some d \<Longrightarrow> cond_Type d = t"
  unfolding cond_laws_def by blast

lemma cond_laws_true:
  "cond_laws A \<Longrightarrow> apiIsStatusConditionTrue A cs t \<longleftrightarrow>
     (\<exists>d. apiFindStatusCondition A cs t = Some d \<and> cond_Status d = ConditionTrue)"
  unfolding cond_laws_def by blast

text \<open>
  More documented facts of the condition helpers: setting a condition that is already there changes nothing,
  no condition of another type is added, and a lookup fails exactly for the types that are not there.
\<close>

definition cond_settles :: "cond_api \<Rightarrow> bool" where
  "cond_settles A \<longleftrightarrow>
     (\<forall>cs c d. apiFindStatusCondition A cs (cond_Type c) = Some d \<and> cond_like d c \<longrightarrow> apiSetStatusCondition A cs c = cs)
     \<and> (\<forall>cs c. cond_Type ` set (apiSetStatusCondition A cs c) \<subseteq> insert (cond_Type c) (cond_Type ` set cs))
     \<and> (\<forall>cs t. apiFindStatusCondition A cs t = None \<longleftrightarrow> t \<notin> cond_Type ` set cs)"

lemma find_cond_None: "find_cond cs t = None \<longleftrightarrow> t \<notin> cond_Type ` set cs"
  by (auto simp: find_cond_def find_None_iff)

lemma set_cond_present: "find_cond cs (cond_Type c) = Some d \<Longrightarrow> cond_like d c \<Longrightarrow> set_cond now cs c = cs"
proof (induction cs)
  case (Cons e cs)
  show ?case
  proof (cases "cond_Type e = cond_Type c")
    case True
    then have "d = e" using Cons.prems(1) by (simp add: find_cond_def)
    then show ?thesis using True Cons.prems(2) by (cases c; cases e) (simp add: cond_like_def)
  qed (use Cons in \<open>simp add: find_cond_def\<close>)
qed (simp add: find_cond_def)

lemma set_cond_types: "cond_Type ` set (set_cond now cs c) \<subseteq> insert (cond_Type c) (cond_Type ` set cs)"
  by (induction now cs c rule: set_cond.induct) auto

lemma doc_cond_settles: "cond_settles (doc_cond_api now)"
  using set_cond_present set_cond_types find_cond_None unfolding cond_settles_def doc_cond_api_def by auto

end
