(* ===== verification/Filters.thy ===== *)
theory Filters
  imports VersionRelease Api
begin

text \<open>
  File-based catalog data, the version of a bundle (\<^verbatim>\<open>bundleutil/bundle.go\<close>), the
  predicate combinators (\<^verbatim>\<open>shared/util/filter/filter.go\<close>), the bundle predicates
  (\<^verbatim>\<open>catalogmetadata/filter\<close>) and the bundle orders (\<^verbatim>\<open>catalogmetadata/compare\<close>).
  \<^verbatim>\<open>DeleteFunc\<close> is the library function on slices; because it shifts the kept elements
  to the front of the slice it is given and zeroes the rest, \<^verbatim>\<open>DeleteFunc_backing\<close> gives what
  the caller's slice holds afterwards.
\<close>

section \<open>Catalog data\<close>

record fbc_property =
  prop_Type :: string
  prop_Value :: string

record fbc_bundle =
  bndl_Name :: string
  bndl_Package :: string
  bndl_Image :: string
  bndl_Properties :: "fbc_property list"

record channel_entry =
  ent_Name :: string
  ent_Replaces :: string
  ent_Skips :: "string list"
  ent_SkipRange :: string

record fbc_channel =
  ch_Name :: string
  ch_Package :: string
  ch_Entries :: "channel_entry list"

record deprecation_entry =
  dep_Schema :: string
  dep_Name :: string
  dep_Message :: string

record fbc_deprecation =
  dep_Package :: string
  dep_Entries :: "deprecation_entry list"

record declarative_config =
  fbc_Packages :: "string list"
  fbc_Channels :: "fbc_channel list"
  fbc_Bundles :: "fbc_bundle list"
  fbc_Deprecations :: "fbc_deprecation list"
  fbc_Others :: "string list"

abbreviation SchemaPackage :: string where "SchemaPackage \<equiv> ''olm.package''"
abbreviation SchemaChannel :: string where "SchemaChannel \<equiv> ''olm.channel''"
abbreviation SchemaBundle :: string where "SchemaBundle \<equiv> ''olm.bundle''"
abbreviation PropTypePackage :: string where "PropTypePackage \<equiv> ''olm.package''"
abbreviation PropTypePackageRequired :: string where "PropTypePackageRequired \<equiv> ''olm.package.required''"
abbreviation PropTypeGVKRequired :: string where "PropTypeGVKRequired \<equiv> ''olm.gvk.required''"
abbreviation PropTypeConstraint :: string where "PropTypeConstraint \<equiv> ''olm.constraint''"

section \<open>Predicate combinators\<close>

type_synonym 'a predicate = "'a \<Rightarrow> bool"

fun And :: "'a predicate list \<Rightarrow> 'a predicate" where
  "And [] obj = True"
| "And (predicate # predicates) obj = (if \<not> predicate obj then False else And predicates obj)"

fun Or :: "'a predicate list \<Rightarrow> 'a predicate" where
  "Or [] obj = False"
| "Or (predicate # predicates) obj = (if predicate obj then True else Or predicates obj)"

definition Not_pred :: "'a predicate \<Rightarrow> 'a predicate" where
  "Not_pred predicate obj = (\<not> predicate obj)"

fun Filter :: "'a list \<Rightarrow> 'a predicate \<Rightarrow> 'a list" where
  "Filter [] test = []"
| "Filter (x # s) test = (if test x then x # Filter s test else Filter s test)"

fun DeleteFunc :: "'a list \<Rightarrow> 'a predicate \<Rightarrow> 'a list" where
  "DeleteFunc [] del = []"
| "DeleteFunc (x # s) del = (if del x then DeleteFunc s del else x # DeleteFunc s del)"

definition DeleteFunc_backing :: "'a \<Rightarrow> 'a list \<Rightarrow> 'a predicate \<Rightarrow> 'a list" where
  "DeleteFunc_backing zero s del =
     DeleteFunc s del @ replicate (length s - length (DeleteFunc s del)) zero"

definition InPlace :: "'a list \<Rightarrow> 'a predicate \<Rightarrow> 'a list" where
  "InPlace s test = DeleteFunc s (Not_pred test)"

section \<open>Versions of bundles\<close>

fun version_of_properties :: "bundle_libs \<Rightarrow> string \<Rightarrow> fbc_property list \<Rightarrow> version_release res" where
  "version_of_properties S name [] =
     Inl (ErrText (''no package property found in bundle '' @ quote name))"
| "version_of_properties S name (p # ps) =
     (if prop_Type p = PropTypePackage
      then (case UnmarshalPackageVersion S (prop_Value p) of
              Inl err \<Rightarrow> Inl (ErrWrap ''error unmarshalling package property: '' err)
            | Inr v \<Rightarrow> NewLegacyRegistryV1VersionRelease S v)
      else version_of_properties S name ps)"

definition GetVersionAndRelease :: "bundle_libs \<Rightarrow> fbc_bundle \<Rightarrow> version_release res" where
  "GetVersionAndRelease S b = version_of_properties S (bndl_Name b) (bndl_Properties b)"

definition MetadataFor :: "bundle_libs \<Rightarrow> string \<Rightarrow> version \<Rightarrow> bundle_metadata" where
  "MetadataFor S bundleName bundleVersion =
     \<lparr>bm_Name = bundleName, bm_Version = VersionString S bundleVersion\<rparr>"

section \<open>Orders on bundles\<close>

definition compareErrors :: "goerr option \<Rightarrow> goerr option \<Rightarrow> int" where
  "compareErrors err1 err2 =
     (if err1 \<noteq> None \<and> err2 = None then - 1
      else if err1 = None \<and> err2 \<noteq> None then 1
      else 0)"

definition err_of :: "'a res \<Rightarrow> goerr option" where
  "err_of r = (case r of Inl e \<Rightarrow> Some e | Inr _ \<Rightarrow> None)"

definition ByVersionAndRelease :: "bundle_libs \<Rightarrow> fbc_bundle cmp" where
  "ByVersionAndRelease S b1 b2 =
     (case (GetVersionAndRelease S b1, GetVersionAndRelease S b2) of
        (Inr vr1, Inr vr2) \<Rightarrow> VersionReleaseCompare S vr2 vr1
      | (r1, r2) \<Rightarrow> compareErrors (err_of r2) (err_of r1))"

definition ByDeprecationFunc :: "fbc_deprecation \<Rightarrow> fbc_bundle cmp" where
  "ByDeprecationFunc deprecation =
     (let deprecatedBundles = set (map dep_Name (filter (\<lambda>entry. dep_Schema entry = SchemaBundle)
            (dep_Entries deprecation))) in
      (\<lambda>a b. let aDeprecated = bndl_Name a \<in> deprecatedBundles;
                 bDeprecated = bndl_Name b \<in> deprecatedBundles in
         if aDeprecated \<and> \<not> bDeprecated then 1
         else if \<not> aDeprecated \<and> bDeprecated then - 1
         else 0))"

definition newMastermindsRange :: "bundle_libs \<Rightarrow> string \<Rightarrow> (version \<Rightarrow> bool) res" where
  "newMastermindsRange S versionRange =
     (case NewConstraint S versionRange of
        Inl err \<Rightarrow> Inl err
      | Inr check \<Rightarrow> Inr (\<lambda>v. let pre = map (PRString S) (Pre v) in
          check \<lparr>mmMajor = Major v, mmMinor = Minor v, mmPatch = Patch v,
                 mmPre = join_str ''.'' pre, mmMetadata = join_str ''.'' (Build v)\<rparr>))"

definition NewVersionRange :: "bundle_libs \<Rightarrow> string \<Rightarrow> (version \<Rightarrow> bool) res" where
  "NewVersionRange S versionRange = newMastermindsRange S versionRange"

section \<open>Bundle predicates\<close>

definition ExactVersionRelease :: "bundle_libs \<Rightarrow> version_release \<Rightarrow> fbc_bundle predicate" where
  "ExactVersionRelease S expect b =
     (case GetVersionAndRelease S b of
        Inl err \<Rightarrow> False
      | Inr actual \<Rightarrow> VersionReleaseCompare S expect actual = 0)"

definition InSemverRange :: "bundle_libs \<Rightarrow> (version \<Rightarrow> bool) \<Rightarrow> fbc_bundle predicate" where
  "InSemverRange S versionRange b =
     (case GetVersionAndRelease S b of
        Inl err \<Rightarrow> False
      | Inr vr \<Rightarrow> versionRange (Version vr))"

fun entry_named :: "channel_entry list \<Rightarrow> string \<Rightarrow> bool" where
  "entry_named [] n = False"
| "entry_named (entry # entries) n = (if ent_Name entry = n then True else entry_named entries n)"

fun InAnyChannel :: "fbc_channel list \<Rightarrow> fbc_bundle predicate" where
  "InAnyChannel [] b = False"
| "InAnyChannel (ch # chs) b =
     (if entry_named (ch_Entries ch) (bndl_Name b) then True else InAnyChannel chs b)"

definition isSuccessor :: "bundle_libs \<Rightarrow> bundle_metadata \<Rightarrow> version \<Rightarrow> channel_entry \<Rightarrow> bool" where
  "isSuccessor S installedBundle installedBundleVersion entry =
     (if ent_Replaces entry = bm_Name installedBundle then True
      else if list_ex (\<lambda>skip. skip = bm_Name installedBundle) (ent_Skips entry) then True
      else if ent_SkipRange entry \<noteq> []
        then (case ParseRange S (ent_SkipRange entry) of
                Inr skipRange \<Rightarrow> skipRange installedBundleVersion
              | Inl err \<Rightarrow> False)
      else False)"

fun successor_in :: "(channel_entry \<Rightarrow> bool) \<Rightarrow> fbc_channel list \<Rightarrow> fbc_bundle predicate" where
  "successor_in succ [] b = False"
| "successor_in succ (ch # chs) b =
     (if list_ex (\<lambda>chEntry. bndl_Name b = ent_Name chEntry \<and> succ chEntry) (ch_Entries ch) then True
      else successor_in succ chs b)"

definition legacySuccessor ::
  "bundle_libs \<Rightarrow> bundle_metadata \<Rightarrow> fbc_channel list \<Rightarrow> fbc_bundle predicate res" where
  "legacySuccessor S installedBundle channels =
     (case Parse S (bm_Version installedBundle) of
        Inl err \<Rightarrow> Inl (ErrWrap ''error parsing installed bundle version: '' err)
      | Inr installedBundleVersion \<Rightarrow>
          Inr (successor_in (isSuccessor S installedBundle installedBundleVersion) channels))"

definition SuccessorsOf ::
  "bundle_libs \<Rightarrow> bundle_metadata \<Rightarrow> fbc_channel list \<Rightarrow> fbc_bundle predicate res" where
  "SuccessorsOf S installedBundle channels =
     (case NewLegacyRegistryV1VersionRelease S (bm_Version installedBundle) of
        Inl err \<Rightarrow> Inl (ErrText (''failed to get version and release of installed bundle: '' @ Error err))
      | Inr installedVersionRelease \<Rightarrow>
          (case legacySuccessor S installedBundle channels of
             Inl err \<Rightarrow> Inl (ErrWrap ''getting successorsPredicate: '' err)
           | Inr successorsPredicate \<Rightarrow>
               Inr (Or [successorsPredicate, ExactVersionRelease S installedVersionRelease])))"

section \<open>Lemmas\<close>

lemma And_iff [simp]: "And ps x \<longleftrightarrow> (\<forall>p \<in> set ps. p x)"
  by (induction ps x rule: And.induct) auto

lemma Or_iff [simp]: "Or ps x \<longleftrightarrow> (\<exists>p \<in> set ps. p x)"
  by (induction ps x rule: Or.induct) auto

lemma DeleteFunc_filter: "DeleteFunc s del = filter (\<lambda>x. \<not> del x) s"
  by (induction s del rule: DeleteFunc.induct) auto

lemma InPlace_filter [simp]: "InPlace s test = filter test s"
  by (simp add: InPlace_def DeleteFunc_filter Not_pred_def)

lemma Filter_filter: "Filter s test = filter test s"
  by (induction s test rule: Filter.induct) auto

lemma entry_named_iff: "entry_named es n \<longleftrightarrow> n \<in> ent_Name ` set es"
  by (induction es n rule: entry_named.induct) auto

lemma InAnyChannel_iff:
  "InAnyChannel chs b \<longleftrightarrow> (\<exists>ch \<in> set chs. bndl_Name b \<in> ent_Name ` set (ch_Entries ch))"
  by (induction chs b rule: InAnyChannel.induct) (auto simp: entry_named_iff)

lemma successor_in_iff:
  "successor_in f chs b \<longleftrightarrow>
     (\<exists>ch \<in> set chs. \<exists>e \<in> set (ch_Entries ch). ent_Name e = bndl_Name b \<and> f e)"
  by (induction f chs b rule: successor_in.induct) (auto simp: list_ex_iff)

lemma ByDeprecation_preorder [cmp_intro]: "cmp_preorder (ByDeprecationFunc d)"
  by (rule cmp_preorderI) (auto simp: ByDeprecationFunc_def Let_def split: if_splits)

lemma ByVersionAndRelease_preorder [cmp_intro]:
  assumes "semver_laws S"
  shows "cmp_preorder (ByVersionAndRelease S)"
proof -
  define c where "c = (\<lambda>a b. VersionReleaseCompare S b a)"
  have c: "cmp_preorder c"
    unfolding c_def by (rule cmp_preorder_rev [OF VersionReleaseCompare_preorder [OF assms]])
  have eq: "ByVersionAndRelease S a b =
      (case GetVersionAndRelease S a of
         Inl _ \<Rightarrow> (case GetVersionAndRelease S b of Inl _ \<Rightarrow> 0 | Inr _ \<Rightarrow> 1)
       | Inr v \<Rightarrow> (case GetVersionAndRelease S b of Inl _ \<Rightarrow> - 1 | Inr w \<Rightarrow> c v w))" for a b
    by (cases "GetVersionAndRelease S a"; cases "GetVersionAndRelease S b")
      (simp_all add: ByVersionAndRelease_def compareErrors_def err_of_def c_def)
  show ?thesis
  proof (rule cmp_preorderI)
    fix a b
    show "(ByVersionAndRelease S a b < 0) = (0 < ByVersionAndRelease S b a)"
      by (cases "GetVersionAndRelease S a"; cases "GetVersionAndRelease S b")
        (simp_all add: eq cmp_preorder_flip [OF c])
  next
    fix a b d
    assume "ByVersionAndRelease S a b \<le> 0" "ByVersionAndRelease S b d \<le> 0"
    then show "ByVersionAndRelease S a d \<le> 0"
      by (cases "GetVersionAndRelease S a"; cases "GetVersionAndRelease S b"; cases "GetVersionAndRelease S d")
        (simp_all add: eq cmp_preorder_trans [OF c])
  qed
qed

end
