(* ===== verification/Resolve.thy ===== *)
theory Resolve
  imports Filters
begin

text \<open>
  Catalog resolution (\<^verbatim>\<open>internal/operator-controller/resolve\<close>).  \<^verbatim>\<open>walk_catalog\<close> is the closure
  that \<^verbatim>\<open>Resolve\<close> hands to the walker, with the variables it captures as the record
  \<^verbatim>\<open>resolve_state\<close>; the statistics it collects for the log are left out.
  The listing of catalogs, the package loader and the conversion of label selectors are
  arguments.  \<^verbatim>\<open>candidate\<close>, \<^verbatim>\<open>retained\<close> and \<^verbatim>\<open>pick\<close> specify what the walk computes.
\<close>

section \<open>The resolver\<close>

record found_bundle =
  fb_bundle :: fbc_bundle
  fb_catalog :: string
  fb_priority :: int

record resolve_state =
  resolvedBundles :: "found_bundle list"
  priorDeprecation :: "fbc_deprecation option"

record resolution_error =
  re_PackageName :: string
  re_Version :: string
  re_Channels :: "string list"
  re_InstalledBundle :: "bundle_metadata option"
  re_ResolvedBundles :: "found_bundle list"

type_synonym walk_func =
  "cluster_catalog \<Rightarrow> declarative_config option res \<Rightarrow> resolve_state \<Rightarrow> resolve_state res"

type_synonym walk_catalogs = "string \<Rightarrow> walk_func \<Rightarrow> selector \<Rightarrow> resolve_state \<Rightarrow> resolve_state res"

record catalog_resolver =
  WalkCatalogsFunc :: walk_catalogs
  Validations :: "(fbc_bundle \<Rightarrow> goerr option) list"
  LabelSelectorAsSelector :: "label_selector option \<Rightarrow> selector res"

definition sort_Slice :: "('a \<Rightarrow> 'a \<Rightarrow> bool) \<Rightarrow> 'a list \<Rightarrow> 'a list" where
  "sort_Slice lt xs = SortStableFunc (\<lambda>a b. if lt a b then - 1 else if lt b a then 1 else 0) xs"

definition sort_strings :: "string list \<Rightarrow> string list" where
  "sort_strings xs = SortStableFunc cmp_ord xs"

definition resolutionError_Error :: "resolution_error \<Rightarrow> string" where
  "resolutionError_Error rei =
     (let s1 = (case re_InstalledBundle rei of
                  Some b \<Rightarrow> ''error upgrading from currently installed version '' @ quote (bm_Version b) @ '': ''
                | None \<Rightarrow> []);
          s2 = (if length (re_ResolvedBundles rei) > 1
                then ''found bundles for package '' @ quote (re_PackageName rei) @ '' ''
                else ''no bundles found for package '' @ quote (re_PackageName rei) @ '' '');
          s3 = (if re_Version rei \<noteq> [] then ''matching version '' @ quote (re_Version rei) @ '' '' else []);
          s4 = (if length (re_Channels rei) > 0 then ''in channels '' @ show_slice (re_Channels rei) @ '' '' else []);
          matchedCatalogs = sort_strings (map fb_catalog (re_ResolvedBundles rei));
          s5 = (if length matchedCatalogs > 1
                then ''in multiple catalogs with the same priority '' @ show_slice matchedCatalogs @ '' '' else [])
      in trim_space (s1 @ s2 @ s3 @ s4 @ s5))"

definition isDeprecated :: "fbc_bundle \<Rightarrow> fbc_deprecation option \<Rightarrow> bool" where
  "isDeprecated b deprecation =
     (case deprecation of
        None \<Rightarrow> False
      | Some d \<Rightarrow> list_ex (\<lambda>entry. dep_Schema entry = SchemaBundle \<and> dep_Name entry = bndl_Name b) (dep_Entries d))"

definition isFBCEmpty :: "declarative_config option \<Rightarrow> bool" where
  "isFBCEmpty fbc =
     (case fbc of
        None \<Rightarrow> True
      | Some f \<Rightarrow> length (fbc_Packages f) = 0 \<and> length (fbc_Channels f) = 0 \<and> length (fbc_Bundles f) = 0
          \<and> length (fbc_Deprecations f) = 0 \<and> length (fbc_Others f) = 0)"

definition zero_channel :: fbc_channel where
  "zero_channel = \<lparr>ch_Name = [], ch_Package = [], ch_Entries = []\<rparr>"

text \<open>
  The predicates of one catalog.  Selecting the channels by name shifts the package's channel
  slice in place, so the successor predicate afterwards sees the shifted slice.
\<close>

definition catalog_predicates ::
  "bundle_libs \<Rightarrow> catalog_filter \<Rightarrow> (version \<Rightarrow> bool) option \<Rightarrow> bundle_metadata option
   \<Rightarrow> fbc_channel list \<Rightarrow> fbc_bundle predicate list res" where
  "catalog_predicates S cf versionRangeConstraints installedBundle pkgChannels =
     (let channels = cf_Channels cf;
          del = (\<lambda>c. ch_Name c \<notin> set channels);
          (p1, pkgChannels') =
            (if length channels > 0
             then ([InAnyChannel (DeleteFunc pkgChannels del)], DeleteFunc_backing zero_channel pkgChannels del)
             else ([], pkgChannels));
          p2 = (case versionRangeConstraints of Some r \<Rightarrow> [InSemverRange S r] | None \<Rightarrow> [])
      in case installedBundle of
           Some ib \<Rightarrow>
             (if cf_UpgradeConstraintPolicy cf \<noteq> UpgradeConstraintPolicySelfCertified
              then (case SuccessorsOf S ib pkgChannels' of
                      Inl err \<Rightarrow> Inl (ErrWrap ''error finding upgrade edges: '' err)
                    | Inr successorPredicate \<Rightarrow> Inr (p1 @ p2 @ [successorPredicate]))
              else Inr (p1 @ p2))
         | None \<Rightarrow> Inr (p1 @ p2))"

definition bundle_order :: "bundle_libs \<Rightarrow> fbc_deprecation option \<Rightarrow> fbc_bundle cmp" where
  "bundle_order S thisDeprecation a b =
     (let byDeprecation = (case thisDeprecation of Some d \<Rightarrow> ByDeprecationFunc d | None \<Rightarrow> (\<lambda>a b. 0)) in
      if byDeprecation a b \<noteq> 0 then byDeprecation a b else ByVersionAndRelease S a b)"

definition walk_catalog ::
  "bundle_libs \<Rightarrow> catalog_filter \<Rightarrow> (version \<Rightarrow> bool) option \<Rightarrow> bundle_metadata option \<Rightarrow> walk_func" where
  "walk_catalog S cf versionRangeConstraints installedBundle cat pkg st =
     (case pkg of
        Inl err \<Rightarrow> Inl (ErrWrap (''error getting package '' @ quote (cf_PackageName cf)
                          @ '' from catalog '' @ quote (cat_Name cat) @ '': '') err)
      | Inr fbc \<Rightarrow>
          if isFBCEmpty fbc then Inr st
          else case catalog_predicates S cf versionRangeConstraints installedBundle (fbc_Channels (the fbc)) of
            Inl err \<Rightarrow> Inl err
          | Inr predicates \<Rightarrow>
              let bundles = InPlace (fbc_Bundles (the fbc)) (And predicates) in
              if length bundles = 0 then Inr st
              else
                let thisDeprecation = (if length (fbc_Deprecations (the fbc)) > 0
                                       then Some (fbc_Deprecations (the fbc) ! 0) else None);
                    sorted = SortStableFunc (bundle_order S thisDeprecation) bundles;
                    thisBundle = sorted ! 0;
                    found = \<lparr>fb_bundle = thisBundle, fb_catalog = cat_Name cat,
                             fb_priority = cat_Priority (cat_Spec cat)\<rparr>
                in if length (resolvedBundles st) \<noteq> 0
                   then
                     let currentIsDeprecated = isDeprecated thisBundle thisDeprecation;
                         priorIsDeprecated = isDeprecated
                           (fb_bundle (resolvedBundles st ! (length (resolvedBundles st) - 1))) (priorDeprecation st)
                     in if currentIsDeprecated \<and> \<not> priorIsDeprecated then Inr st
                        else if \<not> currentIsDeprecated \<and> priorIsDeprecated
                        then Inr \<lparr>resolvedBundles = [found], priorDeprecation = thisDeprecation\<rparr>
                        else Inr \<lparr>resolvedBundles = resolvedBundles st @ [found], priorDeprecation = thisDeprecation\<rparr>
                   else Inr \<lparr>resolvedBundles = resolvedBundles st @ [found], priorDeprecation = thisDeprecation\<rparr>)"

fun walk_loop ::
  "(cluster_catalog \<Rightarrow> string \<Rightarrow> declarative_config option res) \<Rightarrow> string \<Rightarrow> walk_func
   \<Rightarrow> cluster_catalog list \<Rightarrow> resolve_state \<Rightarrow> resolve_state res" where
  "walk_loop getPackage packageName f [] st = Inr st"
| "walk_loop getPackage packageName f (cat # cats) st =
     (case f cat (getPackage cat packageName) st of
        Inl walkErr \<Rightarrow> Inl walkErr
      | Inr st' \<Rightarrow> walk_loop getPackage packageName f cats st')"

definition CatalogWalker ::
  "(selector \<Rightarrow> cluster_catalog list res) \<Rightarrow> (cluster_catalog \<Rightarrow> string \<Rightarrow> declarative_config option res)
   \<Rightarrow> walk_catalogs" where
  "CatalogWalker listCatalogs getPackage packageName f catalogListOpts st =
     (case listCatalogs catalogListOpts of
        Inl err \<Rightarrow> Inl (ErrWrap ''error listing catalogs: '' err)
      | Inr catalogs \<Rightarrow>
          walk_loop getPackage packageName f
            (DeleteFunc catalogs (\<lambda>c. cat_AvailabilityMode (cat_Spec c) = AvailabilityModeUnavailable)) st)"

fun run_validations :: "(fbc_bundle \<Rightarrow> goerr option) list \<Rightarrow> fbc_bundle \<Rightarrow> goerr option" where
  "run_validations [] b = None"
| "run_validations (validation # vs) b =
     (case validation b of
        Some err \<Rightarrow> Some (ErrWrap (''validating bundle '' @ quote (bndl_Name b) @ '': '') err)
      | None \<Rightarrow> run_validations vs b)"

definition prioritise :: "found_bundle list \<Rightarrow> found_bundle list" where
  "prioritise rbs =
     (if length rbs > 1
      then let sorted = sort_Slice (\<lambda>x y. fb_priority x > fb_priority y) rbs in
           if fb_priority (sorted ! 0) \<noteq> fb_priority (sorted ! 1) then [sorted ! 0] else sorted
      else rbs)"

definition desired_range :: "bundle_libs \<Rightarrow> string \<Rightarrow> (version \<Rightarrow> bool) option res" where
  "desired_range S versionRange =
     (if versionRange \<noteq> []
      then (case NewVersionRange S versionRange of
              Inl err \<Rightarrow> Inl (ErrWrap (''desired version range '' @ quote versionRange @ '' is invalid: '') err)
            | Inr rng \<Rightarrow> Inr (Some rng))
      else Inr None)"

definition select_resolved ::
  "bundle_libs \<Rightarrow> (fbc_bundle \<Rightarrow> goerr option) list \<Rightarrow> catalog_filter \<Rightarrow> bundle_metadata option \<Rightarrow> resolve_state
   \<Rightarrow> (fbc_bundle \<times> version_release \<times> fbc_deprecation option) res" where
  "select_resolved S validations cf installedBundle st =
     (let rbs = prioritise (resolvedBundles st) in
      if length rbs \<noteq> 1
      then Inl (ErrText (resolutionError_Error
             \<lparr>re_PackageName = cf_PackageName cf, re_Version = cf_Version cf,
              re_Channels = cf_Channels cf, re_InstalledBundle = installedBundle,
              re_ResolvedBundles = rbs\<rparr>))
      else
        let resolvedBundle = fb_bundle (rbs ! 0) in
        case GetVersionAndRelease S resolvedBundle of
          Inl err \<Rightarrow> Inl (ErrWrap (''error getting resolved bundle version for bundle ''
                       @ quote (bndl_Name resolvedBundle) @ '': '') err)
        | Inr resolvedBundleVersion \<Rightarrow>
          (case run_validations validations resolvedBundle of
             Some err \<Rightarrow> Inl err
           | None \<Rightarrow> Inr (resolvedBundle, resolvedBundleVersion, priorDeprecation st)))"

definition Resolve ::
  "bundle_libs \<Rightarrow> catalog_resolver \<Rightarrow> cluster_extension \<Rightarrow> bundle_metadata option
   \<Rightarrow> (fbc_bundle \<times> version_release \<times> fbc_deprecation option) res" where
  "Resolve S r ext installedBundle =
     (case src_Catalog (spec_Source (ce_Spec ext)) of
        None \<Rightarrow> Inl (ErrPanic ''invalid memory address or nil pointer dereference'')
      | Some cf \<Rightarrow>
        (case LabelSelectorAsSelector r (cf_Selector cf) of
           Inl err \<Rightarrow> Inl (ErrWrap ''desired catalog selector is invalid: '' err)
         | Inr sel \<Rightarrow>
           (case desired_range S (cf_Version cf) of
              Inl err \<Rightarrow> Inl err
            | Inr versionRangeConstraints \<Rightarrow>
              (case WalkCatalogsFunc r (cf_PackageName cf) (walk_catalog S cf versionRangeConstraints installedBundle)
                      (if sel = Nothing then Everything else sel) \<lparr>resolvedBundles = [], priorDeprecation = None\<rparr> of
                 Inl err \<Rightarrow> Inl (ErrWrap ''error walking catalogs: '' err)
               | Inr st \<Rightarrow> select_resolved S (Validations r) cf installedBundle st))))"

fun unsupported_property :: "string \<Rightarrow> fbc_property list \<Rightarrow> goerr option" where
  "unsupported_property name [] = None"
| "unsupported_property name (p # ps) =
     (if prop_Type p \<in> {PropTypePackageRequired, PropTypeGVKRequired, PropTypeConstraint}
      then Some (ErrText (''bundle '' @ quote name @ '' has a dependency declared via property ''
                   @ quote (prop_Type p) @ '' which is currently not supported''))
      else unsupported_property name ps)"

definition NoDependencyValidation :: "fbc_bundle \<Rightarrow> goerr option" where
  "NoDependencyValidation b = unsupported_property (bndl_Name b) (bndl_Properties b)"

section \<open>What resolution computes\<close>

type_synonym cand = "found_bundle \<times> fbc_deprecation option"

definition package_deprecation :: "declarative_config \<Rightarrow> fbc_deprecation option" where
  "package_deprecation fbc = (if fbc_Deprecations fbc = [] then None else Some (hd (fbc_Deprecations fbc)))"

definition candidate ::
  "bundle_libs \<Rightarrow> catalog_filter \<Rightarrow> (version \<Rightarrow> bool) option \<Rightarrow> bundle_metadata option
   \<Rightarrow> cluster_catalog \<Rightarrow> declarative_config option res \<Rightarrow> cand option res" where
  "candidate S cf vrc ib cat pkg =
     (case pkg of
        Inl err \<Rightarrow> Inl (ErrWrap (''error getting package '' @ quote (cf_PackageName cf)
                          @ '' from catalog '' @ quote (cat_Name cat) @ '': '') err)
      | Inr None \<Rightarrow> Inr None
      | Inr (Some fbc) \<Rightarrow>
          if isFBCEmpty (Some fbc) then Inr None
          else case catalog_predicates S cf vrc ib (fbc_Channels fbc) of
            Inl err \<Rightarrow> Inl err
          | Inr ps \<Rightarrow>
              (case SortStableFunc (bundle_order S (package_deprecation fbc))
                      (filter (\<lambda>b. \<forall>p \<in> set ps. p b) (fbc_Bundles fbc)) of
                 [] \<Rightarrow> Inr None
               | b # _ \<Rightarrow> Inr (Some (\<lparr>fb_bundle = b, fb_catalog = cat_Name cat,
                                       fb_priority = cat_Priority (cat_Spec cat)\<rparr>, package_deprecation fbc))))"

fun candidates ::
  "(cluster_catalog \<Rightarrow> cand option res) \<Rightarrow> cluster_catalog list \<Rightarrow> cand list res" where
  "candidates f [] = Inr []"
| "candidates f (cat # cats) =
     (case f cat of
        Inl e \<Rightarrow> Inl e
      | Inr c \<Rightarrow> (case candidates f cats of Inl e \<Rightarrow> Inl e
                   | Inr cs \<Rightarrow> Inr (case c of None \<Rightarrow> cs | Some c' \<Rightarrow> c' # cs)))"

abbreviation deprecated_cand :: "cand \<Rightarrow> bool" where
  "deprecated_cand c \<equiv> isDeprecated (fb_bundle (fst c)) (snd c)"

definition retained :: "cand list \<Rightarrow> cand list" where
  "retained cs = (if list_all deprecated_cand cs then cs else filter (\<lambda>c. \<not> deprecated_cand c) cs)"

definition pick :: "found_bundle list \<Rightarrow> found_bundle option" where
  "pick xs = (case filter (\<lambda>x. \<forall>y \<in> set xs. fb_priority y \<le> fb_priority x) xs of
                [x] \<Rightarrow> Some x | _ \<Rightarrow> None)"

definition walk_result :: "cand list \<Rightarrow> resolve_state" where
  "walk_result cs = \<lparr>resolvedBundles = map fst (retained cs),
     priorDeprecation = (if cs = [] then None else snd (last (retained cs)))\<rparr>"

definition merge :: "cand \<Rightarrow> resolve_state \<Rightarrow> resolve_state" where
  "merge c st =
     (let prior = isDeprecated (fb_bundle (resolvedBundles st ! (length (resolvedBundles st) - 1)))
                    (priorDeprecation st) in
      if resolvedBundles st \<noteq> [] \<and> deprecated_cand c \<and> \<not> prior then st
      else if resolvedBundles st \<noteq> [] \<and> \<not> deprecated_cand c \<and> prior
      then \<lparr>resolvedBundles = [fst c], priorDeprecation = snd c\<rparr>
      else \<lparr>resolvedBundles = resolvedBundles st @ [fst c], priorDeprecation = snd c\<rparr>)"

section \<open>Lemmas\<close>

lemma retained_Nil [simp]: "retained cs = [] \<longleftrightarrow> cs = []"
  by (auto simp: retained_def filter_empty_conv list_all_iff)

lemma retained_deprecated: "c \<in> set (retained cs) \<Longrightarrow> deprecated_cand c \<longleftrightarrow> list_all deprecated_cand cs"
  by (auto simp: retained_def list_all_iff split: if_splits)

lemma last_retained_deprecated: "cs \<noteq> [] \<Longrightarrow> deprecated_cand (last (retained cs)) \<longleftrightarrow> list_all deprecated_cand cs"
  by (rule retained_deprecated) simp

lemma walk_catalog_merge:
  "walk_catalog S cf vrc ib cat pkg st =
     (case candidate S cf vrc ib cat pkg of
        Inl e \<Rightarrow> Inl e
      | Inr None \<Rightarrow> Inr st
      | Inr (Some c) \<Rightarrow> Inr (merge c st))"
proof (cases pkg)
  case (Inr ofbc)
  show ?thesis
  proof (cases "isFBCEmpty ofbc")
    case True
    with Inr show ?thesis
      by (cases ofbc) (simp_all add: walk_catalog_def candidate_def)
  next
    case False
    then obtain fbc where fbc: "ofbc = Some fbc"
      by (cases ofbc) (auto simp: isFBCEmpty_def)
    show ?thesis
    proof (cases "catalog_predicates S cf vrc ib (fbc_Channels fbc)")
      case (Inl e)
      with Inr False fbc show ?thesis
        by (simp add: walk_catalog_def candidate_def)
    next
      case ps: (Inr ps)
      have dep: "(if length (fbc_Deprecations fbc) > 0 then Some (fbc_Deprecations fbc ! 0) else None)
          = package_deprecation fbc"
        by (simp add: package_deprecation_def hd_conv_nth)
      have filt: "InPlace (fbc_Bundles fbc) (And ps) = filter (\<lambda>b. \<forall>p \<in> set ps. p b) (fbc_Bundles fbc)"
        by (simp cong: filter_cong)
      define bs where "bs = filter (\<lambda>b. \<forall>p \<in> set ps. p b) (fbc_Bundles fbc)"
      have cand: "candidate S cf vrc ib cat (Inr (Some fbc)) =
          (case SortStableFunc (bundle_order S (package_deprecation fbc)) bs of
             [] \<Rightarrow> Inr None
           | b # _ \<Rightarrow> Inr (Some (\<lparr>fb_bundle = b, fb_catalog = cat_Name cat,
                                   fb_priority = cat_Priority (cat_Spec cat)\<rparr>, package_deprecation fbc)))"
        using Inr False fbc ps by (simp add: candidate_def bs_def)
      show ?thesis
      proof (cases "SortStableFunc (bundle_order S (package_deprecation fbc)) bs")
        case Nil
        then have "bs = []" by simp
        then show ?thesis
          using Inr False fbc ps Nil
          by (simp add: cand walk_catalog_def filt bs_def [symmetric] del: InPlace_filter)
      next
        case (Cons b rest)
        then have ne: "bs \<noteq> []" by auto
        have "walk_catalog S cf vrc ib cat pkg st =
            Inr (merge (\<lparr>fb_bundle = b, fb_catalog = cat_Name cat,
                          fb_priority = cat_Priority (cat_Spec cat)\<rparr>, package_deprecation fbc) st)"
          unfolding walk_catalog_def using Inr False fbc ps ne
          by (simp only: sum.case option.sel if_False Let_def dep filt bs_def [symmetric] Cons nth_Cons_0 merge_def)
            auto
        then show ?thesis
          using Inr fbc Cons by (simp add: cand)
      qed
    qed
  qed
qed (simp add: walk_catalog_def candidate_def)

lemma merge_walk_result: "merge c (walk_result cs) = walk_result (cs @ [c])"
proof (cases "cs = []")
  case True
  then show ?thesis by (simp add: merge_def walk_result_def retained_def)
next
  case False
  have prior: "isDeprecated (fb_bundle (resolvedBundles (walk_result cs) !
      (length (resolvedBundles (walk_result cs)) - 1))) (priorDeprecation (walk_result cs)) \<longleftrightarrow>
      list_all deprecated_cand cs"
    using False last_retained_deprecated [OF False]
    by (simp add: walk_result_def last_conv_nth)
  have rb: "resolvedBundles (walk_result cs) \<noteq> []"
    using False by (simp add: walk_result_def)
  show ?thesis
    unfolding merge_def Let_def prior using False rb
    by (cases "list_all deprecated_cand cs"; cases "deprecated_cand c")
      (simp_all add: walk_result_def retained_def list_all_iff filter_empty_conv)
qed

lemma walk_loop_candidates:
  "walk_loop gp pkg (walk_catalog S cf vrc ib) cats (walk_result cs) =
     (case candidates (\<lambda>cat. candidate S cf vrc ib cat (gp cat pkg)) cats of
        Inl e \<Rightarrow> Inl e
      | Inr ds \<Rightarrow> Inr (walk_result (cs @ ds)))"
  by (induction cats arbitrary: cs)
    (auto simp: walk_catalog_merge merge_walk_result split: sum.splits option.splits)

subsection \<open>Priorities\<close>

lemma sort_priority_sorted:
  "sorted_wrt (\<lambda>x y. fb_priority y \<le> fb_priority x) (sort_Slice (\<lambda>x y. fb_priority x > fb_priority y) xs)"
proof -
  have c: "cmp_preorder (\<lambda>a b. if fb_priority a > fb_priority b then - 1
      else if fb_priority b > fb_priority a then 1 else 0)"
    by (rule cmp_preorderI) (auto split: if_splits)
  show ?thesis
    using stable.sorted [OF c, of xs] unfolding sort_Slice_def
    by (rule sorted_wrt_mono_rel [rotated]) (auto split: if_splits)
qed

lemma length_filter_perm: "mset xs = mset ys \<Longrightarrow> length (filter P xs) = length (filter P ys)"
  by (metis mset_filter size_mset)

lemma filter_singleton_perm:
  assumes "mset xs = mset ys" "filter P ys = [y]"
  shows "filter P xs = [y]"
proof -
  have "mset (filter P xs) = mset (filter P ys)"
    using assms(1) by simp
  then have "mset (filter P xs) = {#y#}"
    unfolding assms(2) by simp
  then show ?thesis
    by (simp only: mset_single_iff)
qed

lemma prioritise_sorted:
  assumes "length xs > 1"
  obtains y z rest where "prioritise xs = (if fb_priority y \<noteq> fb_priority z then [y] else y # z # rest)"
    "mset xs = mset (y # z # rest)" "fb_priority z \<le> fb_priority y" "\<forall>w \<in> set rest. fb_priority w \<le> fb_priority z"
proof -
  define ys where "ys = sort_Slice (\<lambda>x y. fb_priority x > fb_priority y) xs"
  have m: "mset ys = mset xs" and l: "length ys = length xs"
    by (simp_all add: ys_def sort_Slice_def stable.perm)
  obtain y z rest where ys: "ys = y # z # rest"
    using assms l by (cases ys rule: remdups_adj.cases) auto
  show thesis
  proof (rule that [of y z rest])
    show "prioritise xs = (if fb_priority y \<noteq> fb_priority z then [y] else y # z # rest)"
      using assms ys by (simp add: prioritise_def Let_def ys_def [symmetric])
    show "mset xs = mset (y # z # rest)"
      using m ys by simp
    show "fb_priority z \<le> fb_priority y" "\<forall>w \<in> set rest. fb_priority w \<le> fb_priority z"
      using sort_priority_sorted [of xs] unfolding ys_def [symmetric] ys by simp_all
  qed
qed

lemma prioritise_pick:
  "prioritise xs = (case pick xs of Some x \<Rightarrow> [x] | None \<Rightarrow> prioritise xs)"
  "pick xs = None \<Longrightarrow> length (prioritise xs) \<noteq> 1"
proof -
  let ?top = "\<lambda>x. \<forall>y \<in> set xs. fb_priority y \<le> fb_priority x"
  have "case pick xs of Some x \<Rightarrow> prioritise xs = [x] | None \<Rightarrow> length (prioritise xs) \<noteq> 1"
  proof (cases "length xs > 1")
    case False
    then consider "xs = []" | y where "xs = [y]"
      by (cases xs) auto
    then show ?thesis by cases (simp_all add: prioritise_def pick_def)
  next
    case True
    then obtain y z rest where p: "prioritise xs = (if fb_priority y \<noteq> fb_priority z then [y] else y # z # rest)"
      and m: "mset xs = mset (y # z # rest)" and zy: "fb_priority z \<le> fb_priority y"
      and r: "\<forall>w \<in> set rest. fb_priority w \<le> fb_priority z"
      by (rule prioritise_sorted)
    have set: "set xs = insert y (insert z (set rest))"
      using m by (metis list.simps(15) set_mset_mset)
    have topy: "?top y"
      unfolding set using zy r order_trans by blast
    show ?thesis
    proof (cases "fb_priority y = fb_priority z")
      case True
      then have "?top z" using topy by simp
      then have "length (filter ?top (y # z # rest)) \<ge> 2"
        using topy by simp
      then have "length (filter ?top xs) \<ge> 2"
        unfolding length_filter_perm [OF m] .
      then have "pick xs = None"
        unfolding pick_def by (cases "filter ?top xs" rule: remdups_adj.cases) simp_all
      then show ?thesis
        using True p by simp
    next
      case False
      have "\<not> ?top w" if w: "w = z \<or> w \<in> set rest" for w
      proof -
        have "fb_priority w \<le> fb_priority z"
          using w r by auto
        then have "fb_priority w < fb_priority y"
          using False zy by simp
        moreover have "y \<in> set xs"
          unfolding set by simp
        ultimately show ?thesis
          by (meson leD)
      qed
      then have "filter ?top (y # z # rest) = [y]"
        using topy by (simp add: filter_empty_conv)
      then have "filter ?top xs = [y]"
        by (rule filter_singleton_perm [OF m])
      then show ?thesis
        using False p by (simp add: pick_def)
    qed
  qed
  then show "prioritise xs = (case pick xs of Some x \<Rightarrow> [x] | None \<Rightarrow> prioritise xs)"
    "pick xs = None \<Longrightarrow> length (prioritise xs) \<noteq> 1"
    by (cases "pick xs"; simp)+
qed

lemma pick_top:
  assumes "pick xs = Some x"
  shows "x \<in> set xs" "\<And>y. y \<in> set xs \<Longrightarrow> y \<noteq> x \<Longrightarrow> fb_priority y < fb_priority x"
proof -
  have f: "filter (\<lambda>x. \<forall>y \<in> set xs. fb_priority y \<le> fb_priority x) xs = [x]"
    using assms by (auto simp: pick_def split: list.splits)
  then have "x \<in> set (filter (\<lambda>x. \<forall>y \<in> set xs. fb_priority y \<le> fb_priority x) xs)"
    by simp
  then have x: "x \<in> set xs" "\<forall>y \<in> set xs. fb_priority y \<le> fb_priority x"
    by auto
  then show "x \<in> set xs" by blast
  fix y assume y: "y \<in> set xs" "y \<noteq> x"
  have "y \<notin> set (filter (\<lambda>x. \<forall>y \<in> set xs. fb_priority y \<le> fb_priority x) xs)"
    using f y by simp
  then show "fb_priority y < fb_priority x"
    using x y by (force simp: not_le)
qed

subsection \<open>Candidates\<close>

lemma candidates_mem:
  "candidates f cats = Inr cs \<Longrightarrow> c \<in> set cs \<Longrightarrow> \<exists>cat \<in> set cats. f cat = Inr (Some c)"
  by (induction cats arbitrary: cs) (auto split: sum.splits option.splits)

definition selected_channels :: "catalog_filter \<Rightarrow> fbc_channel list \<Rightarrow> fbc_channel list" where
  "selected_channels cf chs =
     (if cf_Channels cf = [] then chs else filter (\<lambda>c. ch_Name c \<in> set (cf_Channels cf)) chs)"

definition upgrade_edge :: "bundle_libs \<Rightarrow> bundle_metadata \<Rightarrow> fbc_channel list \<Rightarrow> fbc_bundle \<Rightarrow> bool" where
  "upgrade_edge S ib chs b \<longleftrightarrow>
     (\<exists>v vr. Parse S (bm_Version ib) = Inr v \<and>
        NewLegacyRegistryV1VersionRelease S (bm_Version ib) = Inr vr \<and>
        ((\<exists>ch \<in> set chs. \<exists>e \<in> set (ch_Entries ch). ent_Name e = bndl_Name b \<and> isSuccessor S ib v e)
         \<or> ExactVersionRelease S vr b))"

definition matches ::
  "bundle_libs \<Rightarrow> catalog_filter \<Rightarrow> (version \<Rightarrow> bool) option \<Rightarrow> bundle_metadata option
   \<Rightarrow> fbc_channel list \<Rightarrow> fbc_bundle \<Rightarrow> bool" where
  "matches S cf vrc ib chs b \<longleftrightarrow>
     (cf_Channels cf \<noteq> [] \<longrightarrow> InAnyChannel (selected_channels cf chs) b) \<and>
     (\<forall>r. vrc = Some r \<longrightarrow> InSemverRange S r b) \<and>
     (\<forall>i. ib = Some i \<longrightarrow> cf_UpgradeConstraintPolicy cf \<noteq> UpgradeConstraintPolicySelfCertified \<longrightarrow>
        upgrade_edge S i (selected_channels cf chs) b)"

lemma successor_in_zero:
  "successor_in f (chs @ replicate n zero_channel) b = successor_in f chs b"
  by (auto simp: successor_in_iff zero_channel_def)

lemma SuccessorsOf_edge:
  assumes "SuccessorsOf S ib chs = Inr p"
  shows "p b \<longleftrightarrow> upgrade_edge S ib chs b"
proof -
  obtain v vr where v: "Parse S (bm_Version ib) = Inr v"
    and vr: "NewLegacyRegistryV1VersionRelease S (bm_Version ib) = Inr vr"
    and p: "p = Or [successor_in (isSuccessor S ib v) chs, ExactVersionRelease S vr]"
    using assms by (auto simp: SuccessorsOf_def legacySuccessor_def split: sum.splits)
  show ?thesis
    unfolding p upgrade_edge_def v vr by (simp add: successor_in_iff)
qed

lemma upgrade_edge_backing:
  "upgrade_edge S ib (DeleteFunc_backing zero_channel chs del) b = upgrade_edge S ib (DeleteFunc chs del) b"
  unfolding upgrade_edge_def DeleteFunc_backing_def
  using successor_in_zero [unfolded successor_in_iff] by (simp only:)

lemma predicates_match:
  assumes ps: "catalog_predicates S cf vrc ib chs = Inr ps"
  shows "(\<forall>p \<in> set ps. p b) \<longleftrightarrow> matches S cf vrc ib chs b"
proof -
  let ?del = "\<lambda>c. ch_Name c \<notin> set (cf_Channels cf)"
  define p1 where "p1 = (if cf_Channels cf \<noteq> [] then [InAnyChannel (DeleteFunc chs ?del)] else [])"
  define chs' where "chs' = (if cf_Channels cf \<noteq> [] then DeleteFunc_backing zero_channel chs ?del else chs)"
  define p2 where "p2 = (case vrc of Some r \<Rightarrow> [InSemverRange S r] | None \<Rightarrow> [])"
  have eq: "Inr ps = (case ib of
        Some i \<Rightarrow> (if cf_UpgradeConstraintPolicy cf \<noteq> UpgradeConstraintPolicySelfCertified
          then (case SuccessorsOf S i chs' of Inl err \<Rightarrow> Inl (ErrWrap ''error finding upgrade edges: '' err)
                | Inr sp \<Rightarrow> Inr (p1 @ p2 @ [sp])) else Inr (p1 @ p2))
      | None \<Rightarrow> Inr (p1 @ p2))"
    unfolding ps [symmetric] catalog_predicates_def Let_def p1_def chs'_def p2_def by simp
  have sel: "cf_Channels cf \<noteq> [] \<Longrightarrow> DeleteFunc chs ?del = selected_channels cf chs"
    by (simp add: DeleteFunc_filter selected_channels_def)
  have m1: "(\<forall>p \<in> set p1. p b) \<longleftrightarrow> (cf_Channels cf \<noteq> [] \<longrightarrow> InAnyChannel (selected_channels cf chs) b)"
    by (simp add: p1_def sel)
  have m2: "(\<forall>p \<in> set p2. p b) \<longleftrightarrow> (\<forall>r. vrc = Some r \<longrightarrow> InSemverRange S r b)"
    by (cases vrc) (simp_all add: p2_def)
  have m3: "upgrade_edge S i chs' b = upgrade_edge S i (selected_channels cf chs) b" for i
    by (cases "cf_Channels cf = []") (simp_all add: chs'_def upgrade_edge_backing sel, simp add: selected_channels_def)
  show ?thesis
  proof (cases "\<exists>i. ib = Some i \<and> cf_UpgradeConstraintPolicy cf \<noteq> UpgradeConstraintPolicySelfCertified")
    case False
    then have "ps = p1 @ p2"
      using eq by (cases ib) auto
    then show ?thesis
      using False m1 m2 unfolding matches_def by auto
  next
    case True
    then obtain i sp where i: "ib = Some i" and sp: "SuccessorsOf S i chs' = Inr sp" "ps = p1 @ p2 @ [sp]"
      using eq by (cases ib) (auto split: sum.splits)
    then show ?thesis
      using True m1 m2 m3 SuccessorsOf_edge [OF sp(1)] unfolding matches_def by auto
  qed
qed

lemma bundle_order_preorder [cmp_intro]:
  assumes "semver_laws S"
  shows "cmp_preorder (bundle_order S d)"
proof -
  have "cmp_preorder (case d of Some d \<Rightarrow> ByDeprecationFunc d | None \<Rightarrow> (\<lambda>a b. 0))"
    by (cases d) (auto intro: ByDeprecation_preorder cmp_preorderI)
  from cmp_preorder_lex [OF this ByVersionAndRelease_preorder [OF assms]]
  show ?thesis
    by (simp add: bundle_order_def [abs_def] Let_def)
qed

lemma candidate_Some:
  assumes "candidate S cf vrc ib cat pkg = Inr (Some (fb, d))"
  shows "\<exists>fbc. pkg = Inr (Some fbc) \<and> fb_bundle fb \<in> set (fbc_Bundles fbc)
    \<and> matches S cf vrc ib (fbc_Channels fbc) (fb_bundle fb)
    \<and> d = package_deprecation fbc \<and> fb_catalog fb = cat_Name cat \<and> fb_priority fb = cat_Priority (cat_Spec cat)
    \<and> (semver_laws S \<longrightarrow> (\<forall>b \<in> set (fbc_Bundles fbc). matches S cf vrc ib (fbc_Channels fbc) b \<longrightarrow>
          bundle_order S d (fb_bundle fb) b \<le> 0))"
proof -
  obtain fbc where fbc: "pkg = Inr (Some fbc)" and ne: "\<not> isFBCEmpty (Some fbc)"
    using assms unfolding candidate_def
    by (cases pkg; cases "projr pkg"; cases "isFBCEmpty (projr pkg)") simp_all
  obtain ps where ps: "catalog_predicates S cf vrc ib (fbc_Channels fbc) = Inr ps"
    using assms fbc ne unfolding candidate_def
    by (cases "catalog_predicates S cf vrc ib (fbc_Channels fbc)") simp_all
  let ?m = "matches S cf vrc ib (fbc_Channels fbc)"
  let ?d = "package_deprecation fbc"
  have filt: "filter (\<lambda>b. \<forall>p \<in> set ps. p b) (fbc_Bundles fbc) = filter ?m (fbc_Bundles fbc)"
    by (simp only: predicates_match [OF ps])
  obtain b rest where sorted: "SortStableFunc (bundle_order S ?d) (filter ?m (fbc_Bundles fbc)) = b # rest"
    and fb: "fb = \<lparr>fb_bundle = b, fb_catalog = cat_Name cat, fb_priority = cat_Priority (cat_Spec cat)\<rparr>"
    and d: "d = ?d"
    using assms fbc ne ps unfolding candidate_def
    by (cases "SortStableFunc (bundle_order S ?d) (filter ?m (fbc_Bundles fbc))") (simp_all add: filt)
  have "b \<in> set (filter ?m (fbc_Bundles fbc))"
    using sorted set_SortStableFunc by (metis list.set_intros(1))
  then have mem: "b \<in> set (fbc_Bundles fbc)" "?m b"
    by simp_all
  have best: "bundle_order S ?d b b' \<le> 0"
    if "semver_laws S" "b' \<in> set (fbc_Bundles fbc)" "?m b'" for b'
    using hd_SortStableFunc_min [OF bundle_order_preorder [OF that(1), of ?d], of b'
        "filter ?m (fbc_Bundles fbc)"] that sorted by simp
  show ?thesis
    by (intro exI [of _ fbc] conjI impI ballI) (simp_all add: fbc fb d mem best)
qed

subsection \<open>Successful resolutions\<close>

lemma run_validations_None: "run_validations vs b = None \<longleftrightarrow> (\<forall>v \<in> set vs. v b = None)"
  by (induction vs) (auto split: option.splits)

abbreviation enabled :: "cluster_catalog \<Rightarrow> bool" where
  "enabled c \<equiv> cat_AvailabilityMode (cat_Spec c) \<noteq> AvailabilityModeUnavailable"

lemma select_resolved_Inr:
  assumes "select_resolved S vs cf ib st = Inr (b, vr, d)"
  obtains fb where "pick (resolvedBundles st) = Some fb" "b = fb_bundle fb" "GetVersionAndRelease S b = Inr vr"
    "\<forall>v \<in> set vs. v b = None" "d = priorDeprecation st"
proof -
  have one: "length (prioritise (resolvedBundles st)) = 1"
    using assms by (simp add: select_resolved_def Let_def split: if_splits)
  then obtain fb where fb: "pick (resolvedBundles st) = Some fb"
    using prioritise_pick(2) by blast
  then have p: "prioritise (resolvedBundles st) = [fb]"
    using prioritise_pick(1) [of "resolvedBundles st"] by simp
  have "b = fb_bundle fb \<and> GetVersionAndRelease S b = Inr vr \<and> run_validations vs b = None
      \<and> d = priorDeprecation st"
    using assms unfolding select_resolved_def Let_def p
    by (cases "GetVersionAndRelease S (fb_bundle fb)"; cases "run_validations vs (fb_bundle fb)") simp_all
  then have "b = fb_bundle fb" "GetVersionAndRelease S b = Inr vr" "run_validations vs b = None"
    "d = priorDeprecation st"
    by blast+
  then show thesis
    using that [OF fb] unfolding run_validations_None by blast
qed

lemma Resolve_Inr:
  assumes R: "Resolve S r ext ib = Inr (b, vr, d)" and W: "WalkCatalogsFunc r = CatalogWalker lc gp"
  obtains cf sel vrc cats cs fb where
    "src_Catalog (spec_Source (ce_Spec ext)) = Some cf"
    "LabelSelectorAsSelector r (cf_Selector cf) = Inr sel" "desired_range S (cf_Version cf) = Inr vrc"
    "lc (if sel = Nothing then Everything else sel) = Inr cats"
    "candidates (\<lambda>cat. candidate S cf vrc ib cat (gp cat (cf_PackageName cf))) (filter enabled cats) = Inr cs"
    "pick (map fst (retained cs)) = Some fb" "b = fb_bundle fb" "GetVersionAndRelease S b = Inr vr"
    "\<forall>v \<in> set (Validations r). v b = None" "d = priorDeprecation (walk_result cs)"
proof -
  obtain cf where cf: "src_Catalog (spec_Source (ce_Spec ext)) = Some cf"
    using R by (cases "src_Catalog (spec_Source (ce_Spec ext))") (simp_all add: Resolve_def)
  obtain sel where sel: "LabelSelectorAsSelector r (cf_Selector cf) = Inr sel"
    using R by (cases "LabelSelectorAsSelector r (cf_Selector cf)") (simp_all add: Resolve_def cf)
  obtain vrc where vrc: "desired_range S (cf_Version cf) = Inr vrc"
    using R by (cases "desired_range S (cf_Version cf)") (simp_all add: Resolve_def cf sel)
  have init: "\<lparr>resolvedBundles = [], priorDeprecation = None\<rparr> = walk_result []"
    by (simp add: walk_result_def retained_def)
  let ?sel = "if sel = Nothing then Everything else sel"
  obtain cats where cats: "lc ?sel = Inr cats"
    using R by (cases "lc ?sel") (simp_all add: Resolve_def cf sel vrc W CatalogWalker_def)
  have walk: "WalkCatalogsFunc r (cf_PackageName cf) (walk_catalog S cf vrc ib) ?sel (walk_result []) =
      (case candidates (\<lambda>cat. candidate S cf vrc ib cat (gp cat (cf_PackageName cf))) (filter enabled cats) of
         Inl e \<Rightarrow> Inl e | Inr ds \<Rightarrow> Inr (walk_result ds))"
    unfolding W CatalogWalker_def cats by (simp add: walk_loop_candidates DeleteFunc_filter split: sum.split)
  obtain cs where cs: "candidates (\<lambda>cat. candidate S cf vrc ib cat (gp cat (cf_PackageName cf))) (filter enabled cats) = Inr cs"
    using R walk
    by (cases "candidates (\<lambda>cat. candidate S cf vrc ib cat (gp cat (cf_PackageName cf))) (filter enabled cats)")
      (simp_all add: Resolve_def cf sel vrc init)
  have "select_resolved S (Validations r) cf ib (walk_result cs) = Inr (b, vr, d)"
    using R walk by (simp add: Resolve_def cf sel vrc init cs)
  then show thesis
    by (rule select_resolved_Inr) (rule that [OF cf sel vrc cats cs], simp_all add: walk_result_def)
qed

lemma ByDeprecation_isDeprecated:
  "ByDeprecationFunc d a b = (if isDeprecated a (Some d) \<and> \<not> isDeprecated b (Some d) then 1
     else if \<not> isDeprecated a (Some d) \<and> isDeprecated b (Some d) then - 1 else 0)"
proof -
  have "bndl_Name x \<in> set (map dep_Name (filter (\<lambda>entry. dep_Schema entry = SchemaBundle) (dep_Entries d)))
      \<longleftrightarrow> isDeprecated x (Some d)" for x
    by (force simp: isDeprecated_def list_ex_iff)
  then show ?thesis
    by (simp add: ByDeprecationFunc_def)
qed

lemma bundle_order_best:
  assumes "bundle_order S d a b \<le> 0"
  shows "isDeprecated a d \<longrightarrow> isDeprecated b d"
    "isDeprecated a d = isDeprecated b d \<longrightarrow> ByVersionAndRelease S a b \<le> 0"
proof -
  have "(isDeprecated a d \<longrightarrow> isDeprecated b d)
      \<and> (isDeprecated a d = isDeprecated b d \<longrightarrow> ByVersionAndRelease S a b \<le> 0)"
  proof (cases d)
    case None
    then show ?thesis using assms by (simp add: bundle_order_def isDeprecated_def)
  next
    case (Some e)
    then show ?thesis
      using assms by (cases "isDeprecated a d"; cases "isDeprecated b d") (simp_all add: bundle_order_def ByDeprecation_isDeprecated)
  qed
  then show "isDeprecated a d \<longrightarrow> isDeprecated b d"
    "isDeprecated a d = isDeprecated b d \<longrightarrow> ByVersionAndRelease S a b \<le> 0"
    by blast+
qed

lemma Resolve_candidate:
  assumes R: "Resolve S r ext ib = Inr (b, vr, d)" and W: "WalkCatalogsFunc r = CatalogWalker lc gp"
  obtains cf sel vrc cats cs fb d' cat where
    "src_Catalog (spec_Source (ce_Spec ext)) = Some cf"
    "LabelSelectorAsSelector r (cf_Selector cf) = Inr sel" "desired_range S (cf_Version cf) = Inr vrc"
    "lc (if sel = Nothing then Everything else sel) = Inr cats"
    "candidates (\<lambda>cat. candidate S cf vrc ib cat (gp cat (cf_PackageName cf))) (filter enabled cats) = Inr cs"
    "pick (map fst (retained cs)) = Some fb" "b = fb_bundle fb" "GetVersionAndRelease S b = Inr vr"
    "\<forall>v \<in> set (Validations r). v b = None"
    "(fb, d') \<in> set (retained cs)" "(fb, d') \<in> set cs" "cat \<in> set cats" "enabled cat"
    "candidate S cf vrc ib cat (gp cat (cf_PackageName cf)) = Inr (Some (fb, d'))"
proof (rule Resolve_Inr [OF R W])
  fix cf sel vrc cats cs fb
  assume facts: "src_Catalog (spec_Source (ce_Spec ext)) = Some cf"
    "LabelSelectorAsSelector r (cf_Selector cf) = Inr sel" "desired_range S (cf_Version cf) = Inr vrc"
    "lc (if sel = Nothing then Everything else sel) = Inr cats"
    "candidates (\<lambda>cat. candidate S cf vrc ib cat (gp cat (cf_PackageName cf))) (filter enabled cats) = Inr cs"
    "pick (map fst (retained cs)) = Some fb" "b = fb_bundle fb" "GetVersionAndRelease S b = Inr vr"
    "\<forall>v \<in> set (Validations r). v b = None"
  obtain d' where kept: "(fb, d') \<in> set (retained cs)"
    using pick_top(1) [OF facts(6)] by auto
  then have mem: "(fb, d') \<in> set cs"
    by (auto simp: retained_def split: if_splits)
  obtain cat where cat: "cat \<in> set (filter enabled cats)"
    "candidate S cf vrc ib cat (gp cat (cf_PackageName cf)) = Inr (Some (fb, d'))"
    using candidates_mem [OF facts(5) mem] by blast
  then have "cat \<in> set cats" "enabled cat"
    by simp_all
  then show thesis
    by (rule that [OF facts kept mem _ _ cat(2)])
qed

section \<open>Properties of resolution\<close>

text \<open>
  A small cluster for the witnesses: one package in two catalogs, each with its own
  deprecations; the catalog called high has the greater priority and is walked first.
\<close>

definition ex_bundle :: "string \<Rightarrow> string \<Rightarrow> fbc_bundle" where
  "ex_bundle n v = \<lparr>bndl_Name = n, bndl_Package = ''op'', bndl_Image = ''img'',
     bndl_Properties = [\<lparr>prop_Type = PropTypePackage, prop_Value = v\<rparr>]\<rparr>"

definition ex_deprecation :: "string \<Rightarrow> fbc_deprecation" where
  "ex_deprecation m = \<lparr>dep_Package = ''op'',
     dep_Entries = [\<lparr>dep_Schema = SchemaPackage, dep_Name = [], dep_Message = m\<rparr>]\<rparr>"

definition ex_catalog :: "string \<Rightarrow> int \<Rightarrow> cluster_catalog" where
  "ex_catalog n p = \<lparr>cat_Name = n, cat_Generation = 1, cat_Labels = [], cat_Annotations = [], cat_Finalizers = [], cat_DeletionTimestamp = None,
     cat_Spec = \<lparr>cat_Source = \<lparr>cs_Type = ''Image'', cs_Image = None\<rparr>, cat_Priority = p,
                 cat_AvailabilityMode = AvailabilityModeAvailable\<rparr>,
     cat_Status = \<lparr>cst_Conditions = [], cst_ResolvedSource = None, cst_URLs = None, cst_LastUnpacked = None\<rparr>\<rparr>"

definition ex_package :: "cluster_catalog \<Rightarrow> string \<Rightarrow> declarative_config option res" where
  "ex_package cat pkg = Inr (Some
     \<lparr>fbc_Packages = [pkg],
      fbc_Channels = [\<lparr>ch_Name = ''stable'', ch_Package = pkg, ch_Entries =
        [\<lparr>ent_Name = ''op.v1.0.0'', ent_Replaces = [], ent_Skips = [], ent_SkipRange = []\<rparr>,
         \<lparr>ent_Name = ''op.v1.1.0'', ent_Replaces = ''op.v1.0.0'', ent_Skips = [], ent_SkipRange = []\<rparr>]\<rparr>],
      fbc_Bundles = [ex_bundle ''op.v1.0.0'' ''1.0.0'', ex_bundle ''op.v1.1.0'' ''1.1.0''],
      fbc_Deprecations = [ex_deprecation (cat_Name cat)], fbc_Others = []\<rparr>)"

definition ex_resolver :: "cluster_catalog list \<Rightarrow> catalog_resolver" where
  "ex_resolver cats = \<lparr>WalkCatalogsFunc = CatalogWalker (\<lambda>_. Inr cats) ex_package,
     Validations = [NoDependencyValidation], LabelSelectorAsSelector = (\<lambda>_. Inr Nothing)\<rparr>"

abbreviation ex_installed :: bundle_metadata where
  "ex_installed \<equiv> \<lparr>bm_Name = ''op.v1.0.0'', bm_Version = ''1.0.0''\<rparr>"

lemma ex_resolves:
  "Resolve plain_libs (ex_resolver [ex_catalog ''high'' 5, ex_catalog ''low'' 0]) ex_extension (Some ex_installed)
     = Inr (ex_bundle ''op.v1.1.0'' ''1.1.0'',
            \<lparr>Version = \<lparr>Major = 1, Minor = 1, Patch = 0, Pre = [], Build = []\<rparr>, Release = []\<rparr>,
            Some (ex_deprecation ''low''))"
  by code_simp

text \<open>
  C1: whatever bundle resolution returns comes from an enabled catalog the selector lists, from the
  requested package, satisfies the requested channels and version range, is the installed version or a
  successor of it along the edges of the selected channels (unless the policy is SelfCertified
  or nothing is installed), carries a parsable version that is the one returned, and passes every validation.
\<close>

theorem Resolve_sound:
  assumes "Resolve S r ext ib = Inr (b, vr, d)" "WalkCatalogsFunc r = CatalogWalker lc gp"
    "src_Catalog (spec_Source (ce_Spec ext)) = Some cf"
  shows "\<exists>sel cats vrc cat fbc.
    LabelSelectorAsSelector r (cf_Selector cf) = Inr sel \<and>
    lc (if sel = Nothing then Everything else sel) = Inr cats \<and>
    desired_range S (cf_Version cf) = Inr vrc \<and>
    cat \<in> set cats \<and> cat_AvailabilityMode (cat_Spec cat) \<noteq> AvailabilityModeUnavailable \<and>
    gp cat (cf_PackageName cf) = Inr (Some fbc) \<and> b \<in> set (fbc_Bundles fbc) \<and>
    matches S cf vrc ib (fbc_Channels fbc) b \<and>
    GetVersionAndRelease S b = Inr vr \<and> (\<forall>v \<in> set (Validations r). v b = None)"
proof -
  obtain cf' sel vrc cats cs fb d' cat where
    cf': "src_Catalog (spec_Source (ce_Spec ext)) = Some cf'"
    and res: "LabelSelectorAsSelector r (cf_Selector cf') = Inr sel" "desired_range S (cf_Version cf') = Inr vrc"
      "lc (if sel = Nothing then Everything else sel) = Inr cats" "b = fb_bundle fb"
      "GetVersionAndRelease S b = Inr vr" "\<forall>v \<in> set (Validations r). v b = None" "cat \<in> set cats" "enabled cat"
    and cand: "candidate S cf' vrc ib cat (gp cat (cf_PackageName cf')) = Inr (Some (fb, d'))"
    by (rule Resolve_candidate [OF assms(1,2)])
  have eq: "cf' = cf" using cf' assms(3) by simp
  obtain fbc where "gp cat (cf_PackageName cf) = Inr (Some fbc)" "fb_bundle fb \<in> set (fbc_Bundles fbc)"
    "matches S cf vrc ib (fbc_Channels fbc) (fb_bundle fb)"
    using candidate_Some [OF cand] unfolding eq by (elim exE conjE)
  then show ?thesis
    using res unfolding eq
    by (intro exI [of _ sel] exI [of _ cats] exI [of _ vrc] exI [of _ cat] exI [of _ fbc] conjI) simp_all
qed

theorem Resolve_sound_witness:
  "\<exists>sel cats vrc cat fbc.
    LabelSelectorAsSelector (ex_resolver [ex_catalog ''high'' 5, ex_catalog ''low'' 0]) (cf_Selector ex_filter) = Inr sel \<and>
    (\<lambda>_. Inr [ex_catalog ''high'' 5, ex_catalog ''low'' 0] :: cluster_catalog list res)
      (if sel = Nothing then Everything else sel) = Inr cats \<and>
    desired_range plain_libs (cf_Version ex_filter) = Inr vrc \<and>
    cat \<in> set cats \<and> cat_AvailabilityMode (cat_Spec cat) \<noteq> AvailabilityModeUnavailable \<and>
    ex_package cat (cf_PackageName ex_filter) = Inr (Some fbc) \<and>
    ex_bundle ''op.v1.1.0'' ''1.1.0'' \<in> set (fbc_Bundles fbc) \<and>
    matches plain_libs ex_filter vrc (Some ex_installed) (fbc_Channels fbc) (ex_bundle ''op.v1.1.0'' ''1.1.0'') \<and>
    GetVersionAndRelease plain_libs (ex_bundle ''op.v1.1.0'' ''1.1.0'')
      = Inr \<lparr>Version = \<lparr>Major = 1, Minor = 1, Patch = 0, Pre = [], Build = []\<rparr>, Release = []\<rparr> \<and>
    (\<forall>v \<in> set (Validations (ex_resolver [ex_catalog ''high'' 5, ex_catalog ''low'' 0])).
       v (ex_bundle ''op.v1.1.0'' ''1.1.0'') = None)"
  by (rule Resolve_sound [OF ex_resolves]) (simp_all add: ex_resolver_def ex_extension_def)



text \<open>
  C3: across catalogs, the returned bundle is the best match of the one catalog that wins: the candidate of
  every other enabled catalog is either deprecated while the returned one is not, or
  comes from a catalog of strictly lower priority; and a deprecated bundle is returned only if
  every catalog's candidate is deprecated.
\<close>

theorem Resolve_winner:
  assumes "Resolve S r ext ib = Inr (b, vr, d)" "WalkCatalogsFunc r = CatalogWalker lc gp"
    "src_Catalog (spec_Source (ce_Spec ext)) = Some cf"
  shows "\<exists>sel cats vrc cs fb d'. lc sel = Inr cats \<and> desired_range S (cf_Version cf) = Inr vrc \<and>
    candidates (\<lambda>cat. candidate S cf vrc ib cat (gp cat (cf_PackageName cf))) (filter enabled cats) = Inr cs \<and>
    (fb, d') \<in> set cs \<and> fb_bundle fb = b \<and>
    (isDeprecated b d' \<longrightarrow> (\<forall>(fb2, d2) \<in> set cs. isDeprecated (fb_bundle fb2) d2)) \<and>
    (\<forall>(fb2, d2) \<in> set cs. fb2 \<noteq> fb \<longrightarrow>
       isDeprecated (fb_bundle fb2) d2 \<and> \<not> isDeprecated b d' \<or> fb_priority fb2 < fb_priority fb)"
proof -
  obtain cf' sel vrc cats cs fb d' cat where
    cf': "src_Catalog (spec_Source (ce_Spec ext)) = Some cf'"
    and cats: "desired_range S (cf_Version cf') = Inr vrc" "lc (if sel = Nothing then Everything else sel) = Inr cats"
      "candidates (\<lambda>cat. candidate S cf' vrc ib cat (gp cat (cf_PackageName cf'))) (filter enabled cats) = Inr cs"
    and fb: "pick (map fst (retained cs)) = Some fb" "b = fb_bundle fb"
    and mem: "(fb, d') \<in> set (retained cs)" and "(fb, d') \<in> set cs"
    by (rule Resolve_candidate [OF assms(1,2)])
  moreover have "cf' = cf"
    using cf' assms(3) by simp
  moreover have dep: "isDeprecated b d' \<longleftrightarrow> (\<forall>(fb2, d2) \<in> set cs. isDeprecated (fb_bundle fb2) d2)"
    using retained_deprecated [OF mem] fb(2) by (auto simp: list_all_iff)
  moreover have "isDeprecated (fb_bundle fb2) d2 \<and> \<not> isDeprecated b d' \<or> fb_priority fb2 < fb_priority fb"
    if "(fb2, d2) \<in> set cs" "fb2 \<noteq> fb" for fb2 d2
  proof (cases "(fb2, d2) \<in> set (retained cs)")
    case True
    then have "fb2 \<in> set (map fst (retained cs))" by force
    then show ?thesis using pick_top(2) [OF fb(1)] that(2) by blast
  next
    case False
    then show ?thesis
      using that dep by (auto simp: retained_def list_all_iff split: if_splits)
  qed
  ultimately show ?thesis
    by (intro exI [of _ "if sel = Nothing then Everything else sel"] exI [of _ cats] exI [of _ vrc] exI [of _ cs]
        exI [of _ fb] exI [of _ d'] conjI) (simp_all add: split_beta)
qed

theorem Resolve_winner_witness:
  "\<exists>sel cats vrc cs fb d'. (\<lambda>_. Inr [ex_catalog ''high'' 5, ex_catalog ''low'' 0] :: cluster_catalog list res) (sel::selector)
       = Inr cats \<and> desired_range plain_libs (cf_Version ex_filter) = Inr vrc \<and>
    candidates (\<lambda>cat. candidate plain_libs ex_filter vrc (Some ex_installed) cat
       (ex_package cat (cf_PackageName ex_filter))) (filter enabled cats) = Inr cs \<and>
    (fb, d') \<in> set cs \<and> fb_bundle fb = ex_bundle ''op.v1.1.0'' ''1.1.0'' \<and>
    (isDeprecated (ex_bundle ''op.v1.1.0'' ''1.1.0'') d' \<longrightarrow>
       (\<forall>(fb2, d2) \<in> set cs. isDeprecated (fb_bundle fb2) d2)) \<and>
    (\<forall>(fb2, d2) \<in> set cs. fb2 \<noteq> fb \<longrightarrow>
       isDeprecated (fb_bundle fb2) d2 \<and> \<not> isDeprecated (ex_bundle ''op.v1.1.0'' ''1.1.0'') d'
       \<or> fb_priority fb2 < fb_priority fb)"
  by (rule Resolve_winner [OF ex_resolves]) (simp_all add: ex_resolver_def ex_extension_def)


text \<open>
  Catalogs marked unavailable take no part: what their content would be has no influence on the walk.
\<close>

lemma CatalogWalker_ignores_unavailable:
  assumes "\<And>cat. cat_AvailabilityMode (cat_Spec cat) \<noteq> AvailabilityModeUnavailable \<Longrightarrow> gp cat pkg = gp' cat pkg"
  shows "CatalogWalker lc gp pkg f sel st = CatalogWalker lc gp' pkg f sel st"
proof -
  have "walk_loop gp pkg f cats st = walk_loop gp' pkg f cats st" if "\<forall>c \<in> set cats. enabled c" for cats
    using that assms by (induction cats arbitrary: st) (auto split: sum.splits)
  then show ?thesis
    by (simp add: CatalogWalker_def DeleteFunc_filter split: sum.splits)
qed

lemma CatalogWalker_ignores_unavailable_witness:
  "CatalogWalker (\<lambda>_. Inr []) ex_package ''op'' (\<lambda>_ _. Inr) Everything (walk_result [])
   = CatalogWalker (\<lambda>_. Inr []) (\<lambda>cat p. if cat_AvailabilityMode (cat_Spec cat) = AvailabilityModeUnavailable
        then Inl (ErrText ''unreachable'') else ex_package cat p) ''op'' (\<lambda>_ _. Inr) Everything (walk_result [])"
  by (rule CatalogWalker_ignores_unavailable) simp

end
