(* ===== verification/Errors.thy ===== *)
theory Errors
  imports Prelude
begin

text \<open>
  Terminal errors and message sanitising (\<^verbatim>\<open>shared/util/error\<close>).  The regular expression of
  \<^verbatim>\<open>sanitize.go\<close> is a matcher that lists, in the order a leftmost-first engine tries them,
  the rests of the input after a match; \<^verbatim>\<open>replace_all\<close> deletes every match from left to right.
\<close>

section \<open>Terminal errors\<close>

definition NewTerminalError :: "string \<Rightarrow> goerr \<Rightarrow> goerr" where
  "NewTerminalError reason err = ErrTerminal (ErrReason reason err)"

definition ExtractTerminalReason :: "goerr option \<Rightarrow> string option" where
  "ExtractTerminalReason err =
     (case err of
        None \<Rightarrow> None
      | Some e \<Rightarrow> (case Unwrap e of None \<Rightarrow> None | Some unwrapped \<Rightarrow> as_reason unwrapped))"

definition WrapTerminal :: "goerr option \<Rightarrow> bool \<Rightarrow> goerr option" where
  "WrapTerminal err isTerminal =
     (if \<not> isTerminal \<or> err = None then err else Some (ErrTerminal (the err)))"

definition UnwrapTerminal :: "goerr option \<Rightarrow> goerr option" where
  "UnwrapTerminal err =
     (case err of
        None \<Rightarrow> None
      | Some e \<Rightarrow>
          if is_terminal e
          then (case Unwrap e of Some unwrapped \<Rightarrow> Some unwrapped | None \<Rightarrow> Some e)
          else Some e)"

section \<open>Sanitising network errors\<close>

type_synonym matcher = "string \<Rightarrow> string list"

definition m_lit :: "string \<Rightarrow> matcher" where
  "m_lit s xs = (if has_prefix xs s then [drop (length s) xs] else [])"

definition m_seq :: "matcher \<Rightarrow> matcher \<Rightarrow> matcher" where
  "m_seq a b xs = concat (map b (a xs))"

definition m_alt :: "matcher \<Rightarrow> matcher \<Rightarrow> matcher" where
  "m_alt a b xs = a xs @ b xs"

definition m_opt :: "matcher \<Rightarrow> matcher" where
  "m_opt a xs = a xs @ [xs]"

definition m_rep :: "(char \<Rightarrow> bool) \<Rightarrow> nat \<Rightarrow> nat option \<Rightarrow> matcher" where
  "m_rep P lo hi xs =
     (let n = length (takeWhile P xs);
          k = (case hi of None \<Rightarrow> n | Some h \<Rightarrow> min n h)
      in map (\<lambda>j. drop j xs) (rev [lo..<Suc k]))"

definition is_digit :: "char \<Rightarrow> bool" where
  "is_digit c = (48 \<le> (of_char c :: nat) \<and> (of_char c :: nat) \<le> 57)"

definition is_hex_colon :: "char \<Rightarrow> bool" where
  "is_hex_colon c = (let n = (of_char c :: nat) in
     48 \<le> n \<and> n \<le> 57 \<or> 97 \<le> n \<and> n \<le> 102 \<or> 65 \<le> n \<and> n \<le> 70 \<or> n = 58)"

definition m_octet :: matcher where
  "m_octet = m_rep is_digit 1 (Some 3)"

definition m_address :: matcher where
  "m_address =
     m_seq (m_alt
         (m_seq m_octet (m_seq (m_lit ''.'') (m_seq m_octet (m_seq (m_lit ''.'') (m_seq m_octet
            (m_seq (m_lit ''.'') m_octet))))))
         (m_seq (m_lit ''['') (m_seq (m_rep is_hex_colon 1 None) (m_lit '']''))))
       (m_opt (m_seq (m_lit '':'') (m_rep is_digit 1 None)))"

definition ephemeralNetworkErrorPattern :: matcher where
  "ephemeralNetworkErrorPattern =
     m_seq (m_alt (m_lit ''read'') (m_lit ''write'')) (m_seq (m_lit '' '')
       (m_seq (m_alt (m_lit ''tcp'') (m_lit ''udp'')) (m_seq (m_lit '' '')
         (m_seq m_address (m_seq (m_lit ''->'') (m_seq m_address (m_opt (m_lit '': ''))))))))"

function replace_all :: "matcher \<Rightarrow> string \<Rightarrow> string" where
  "replace_all m [] = []"
| "replace_all m (x # xs) =
     (case m (x # xs) of
        r # _ \<Rightarrow> if length r < length (x # xs) then replace_all m r else x # replace_all m xs
      | [] \<Rightarrow> x # replace_all m xs)"
  by pat_completeness auto
termination
  by (relation "measure (length \<circ> snd)") auto

definition SanitizeNetworkError :: "goerr option \<Rightarrow> string" where
  "SanitizeNetworkError err =
     (case err of None \<Rightarrow> [] | Some e \<Rightarrow> replace_all ephemeralNetworkErrorPattern (Error e))"

section \<open>Lemmas\<close>

lemma NewTerminalError_terminal [go_err]: "is_terminal (NewTerminalError r e)"
  by (simp add: NewTerminalError_def)

lemma ExtractTerminalReason_New [go_err]: "ExtractTerminalReason (Some (NewTerminalError r e)) = Some r"
  by (simp add: NewTerminalError_def ExtractTerminalReason_def)

lemma UnwrapTerminal_New [go_err]: "UnwrapTerminal (Some (NewTerminalError r e)) = Some (ErrReason r e)"
  by (simp add: NewTerminalError_def UnwrapTerminal_def)

lemma UnwrapTerminal_not [go_err]: "\<not> is_terminal e \<Longrightarrow> UnwrapTerminal (Some e) = Some e"
  by (simp add: UnwrapTerminal_def)

lemma UnwrapTerminal_Terminal [go_err]: "UnwrapTerminal (Some (ErrTerminal e)) = Some e"
  by (simp add: UnwrapTerminal_def)

end
