(* ===== verification/Rbac.thy ===== *)
theory Rbac
  imports Api Errors
begin

text \<open>
  Pre-authorization of a manifest (\<^verbatim>\<open>authorization/rbac.go\<close>): the attribute records a user needs for
  the objects of a manifest, the escalation checks for its roles and bindings, the parsing of
  escalation errors and \<^verbatim>\<open>PreAuthorize\<close>, which collects what is missing.  The authorizer, the rule
  resolver and the escalation helpers of Kubernetes, the REST mapper and the manifest decoder are
  the fields of \<^verbatim>\<open>pre_authorizer\<close>.  Iteration over a Go map follows the functions of \<^verbatim>\<open>map_orders\<close>.
  A decoder is a state with a \<^verbatim>\<open>Decode\<close> call; the loop over it is a partial function, None when it never ends.
\<close>

section \<open>Rules and requests\<close>

record policy_rule =
  pr_Verbs :: "string list"
  pr_APIGroups :: "string list"
  pr_Resources :: "string list"
  pr_ResourceNames :: "string list"
  pr_NonResourceURLs :: "string list"

definition zero_rule :: policy_rule where
  "zero_rule = \<lparr>pr_Verbs = [], pr_APIGroups = [], pr_Resources = [], pr_ResourceNames = [], pr_NonResourceURLs = []\<rparr>"

record scoped_policy_rules =
  spr_Namespace :: string
  spr_MissingRules :: "policy_rule list"

record attributes_record =
  ar_User :: string
  ar_Verb :: string
  ar_Namespace :: string
  ar_APIGroup :: string
  ar_APIVersion :: string
  ar_Resource :: string
  ar_Subresource :: string
  ar_Name :: string
  ar_ResourceRequest :: bool
  ar_Path :: string

datatype decision = DecisionDeny | DecisionAllow | DecisionNoOpinion

record role_ref =
  rr_APIGroup :: string
  rr_Kind :: string
  rr_Name :: string

record cluster_role =
  cr_Namespace :: string
  cr_Name :: string
  cr_Rules :: "policy_rule list"
  cr_AggregationRule :: "label_selector list option"

record rbac_role =
  role_Namespace :: string
  role_Name :: string
  role_Rules :: "policy_rule list"

record rbac_binding =
  rb_Namespace :: string
  rb_Name :: string
  rb_RoleRef :: role_ref

datatype rbac_object = ClusterRole cluster_role | Role rbac_role | ClusterRoleBinding rbac_binding | RoleBinding rbac_binding

fun rbac_namespace :: "rbac_object \<Rightarrow> string" where
  "rbac_namespace (ClusterRole r) = cr_Namespace r"
| "rbac_namespace (Role r) = role_Namespace r"
| "rbac_namespace (ClusterRoleBinding b) = rb_Namespace b"
| "rbac_namespace (RoleBinding b) = rb_Namespace b"

type_synonym gvr = "string \<times> string \<times> string"
type_synonym object_key = "string \<times> string"

datatype decode_out = DecodeEOF | DecodeError goerr | Decoded k8s_object

record request_ctx =
  rc_User :: string
  rc_Namespace :: string
  rc_Resource :: string

record 'r pre_authorizer =
  Decode :: "'r \<Rightarrow> 'r \<times> decode_out"
  RESTMapping :: "string \<times> string \<Rightarrow> string \<Rightarrow> gvr res"
  asClusterRole :: "k8s_object \<Rightarrow> cluster_role res"
  asRole :: "k8s_object \<Rightarrow> rbac_role res"
  asBinding :: "k8s_object \<Rightarrow> rbac_binding res"
  Authorize :: "attributes_record \<Rightarrow> decision \<times> string \<times> goerr option"
  EscalationAllowed :: "request_ctx \<Rightarrow> bool"
  RoleEscalationAuthorized :: "request_ctx \<Rightarrow> bool"
  BindingAuthorized :: "request_ctx \<Rightarrow> role_ref \<Rightarrow> string \<Rightarrow> bool"
  ConfirmNoEscalation :: "request_ctx \<Rightarrow> policy_rule list \<Rightarrow> goerr option"
  GetRoleReferenceRules :: "role_ref \<Rightarrow> string \<Rightarrow> policy_rule list \<times> goerr option"
  ConvertRoleRef :: "role_ref \<Rightarrow> role_ref res"
  CompactRules :: "policy_rule list \<Rightarrow> policy_rule list res"
  SortRules :: "policy_rule list \<Rightarrow> policy_rule list"
  clusterCollectionVerbs :: "string list"

definition objectVerbs :: "string list" where
  "objectVerbs = [''get'', ''patch'', ''update'', ''delete'']"

definition namespacedCollectionVerbs :: "string list" where
  "namespacedCollectionVerbs = [''create'']"

abbreviation rbacGroup :: string where "rbacGroup \<equiv> ''rbac.authorization.k8s.io''"

section \<open>Decoding a manifest\<close>

record decoded_manifest =
  dm_gvrs :: "(gvr \<times> object_key list) list"
  dm_clusterRoles :: "(object_key \<times> cluster_role) list"
  dm_roles :: "(object_key \<times> rbac_role) list"
  dm_clusterRoleBindings :: "(object_key \<times> rbac_binding) list"
  dm_roleBindings :: "(object_key \<times> rbac_binding) list"

definition empty_manifest :: decoded_manifest where
  "empty_manifest = \<lparr>dm_gvrs = [], dm_clusterRoles = [], dm_roles = [], dm_clusterRoleBindings = [], dm_roleBindings = []\<rparr>"

definition gvk_string :: "k8s_object \<Rightarrow> string" where
  "gvk_string x = obj_Group x @ ''/'' @ obj_Version x @ '', Kind='' @ obj_Kind x"

definition as_error :: "string \<Rightarrow> goerr \<Rightarrow> goerr" where
  "as_error what err = ErrWrap (''could not decode object 0 in manifest as '' @ what @ '': '') err"

definition decode_object :: "'r pre_authorizer \<Rightarrow> k8s_object \<Rightarrow> decoded_manifest \<times> goerr list \<Rightarrow> decoded_manifest \<times> goerr list" where
  "decode_object a x acc =
     (case acc of (dm0, errs) \<Rightarrow>
      case RESTMapping a (obj_Group x, obj_Kind x) (obj_Version x) of
        Inl err \<Rightarrow>
          (dm0, errs @ [ErrWrap (''could not get REST mapping for object 0 in manifest with GVK '' @ gvk_string x
             @ (if obj_Name x \<noteq> [] then '' (name: '' @ obj_Name x @ '')'' else []) @ '': '') err])
      | Inr (g, v, res) \<Rightarrow>
          let dm = dm0\<lparr>dm_gvrs := map_append (g, v, res) [(obj_Namespace x, obj_Name x)] (dm_gvrs dm0)\<rparr> in
          if (g, res) = (rbacGroup, ''clusterroles'')
          then (case asClusterRole a x of
                  Inl err \<Rightarrow> (dm, errs @ [as_error ''ClusterRole'' err])
                | Inr r \<Rightarrow> (dm\<lparr>dm_clusterRoles := map_put (cr_Namespace r, cr_Name r) r (dm_clusterRoles dm)\<rparr>, errs))
          else if (g, res) = (rbacGroup, ''clusterrolebindings'')
          then (case asBinding a x of
                  Inl err \<Rightarrow> (dm, errs @ [as_error ''ClusterRoleBinding'' err])
                | Inr b \<Rightarrow> (dm\<lparr>dm_clusterRoleBindings := map_put (rb_Namespace b, rb_Name b) b (dm_clusterRoleBindings dm)\<rparr>, errs))
          else if (g, res) = (rbacGroup, ''roles'')
          then (case asRole a x of
                  Inl err \<Rightarrow> (dm, errs @ [as_error ''Role'' err])
                | Inr r \<Rightarrow> (dm\<lparr>dm_roles := map_put (role_Namespace r, role_Name r) r (dm_roles dm)\<rparr>, errs))
          else if (g, res) = (rbacGroup, ''rolebindings'')
          then (case asBinding a x of
                  Inl err \<Rightarrow> (dm, errs @ [as_error ''RoleBinding'' err])
                | Inr b \<Rightarrow> (dm\<lparr>dm_roleBindings := map_put (rb_Namespace b, rb_Name b) b (dm_roleBindings dm)\<rparr>, errs))
          else (dm, errs))"

partial_function (option) decode_loop ::
  "'r pre_authorizer \<Rightarrow> 'r \<Rightarrow> decoded_manifest \<times> goerr list \<Rightarrow> (decoded_manifest \<times> goerr list) option" where
  "decode_loop a rd acc =
     (case Decode a rd of (rd', out) \<Rightarrow>
        (case out of
           DecodeEOF \<Rightarrow> Some acc
         | DecodeError err \<Rightarrow>
             decode_loop a rd' (fst acc, snd acc @ [ErrWrap ''could not decode object 0 in manifest: '' err])
         | Decoded x \<Rightarrow> decode_loop a rd' (decode_object a x acc)))"

definition decodeManifest :: "'r pre_authorizer \<Rightarrow> 'r \<Rightarrow> decoded_manifest res option" where
  "decodeManifest a rd =
     map_option (\<lambda>(dm, errs). if length errs > 0 then Inl (ErrJoin errs) else Inr dm) (decode_loop a rd (empty_manifest, []))"

section \<open>Required permissions\<close>

record map_orders =
  ord_gvrs :: "(gvr \<times> object_key list) list \<Rightarrow> (gvr \<times> object_key list) list"
  ord_objs :: "rbac_object list \<Rightarrow> rbac_object list"
  ord_missing :: "(string \<times> policy_rule list) list \<Rightarrow> (string \<times> policy_rule list) list"

definition resource_record :: "string \<Rightarrow> gvr \<Rightarrow> string \<Rightarrow> string \<Rightarrow> string \<Rightarrow> attributes_record" where
  "resource_record user r ns name verb =
     (case r of (g, v, res) \<Rightarrow>
       \<lparr>ar_User = user, ar_Verb = verb, ar_Namespace = ns, ar_APIGroup = g, ar_APIVersion = v, ar_Resource = res,
        ar_Subresource = [], ar_Name = name, ar_ResourceRequest = True, ar_Path = []\<rparr>)"

definition records_for :: "string \<Rightarrow> string list \<Rightarrow> string list \<Rightarrow> gvr \<times> object_key list \<Rightarrow> attributes_record list" where
  "records_for user clusterVerbs namespacedVerbs entry =
     (case entry of (r, keys) \<Rightarrow>
       concat (map (\<lambda>(ns, name). map (resource_record user r ns name) objectVerbs) keys)
       @ concat (map (\<lambda>ns. map (resource_record user r ns []) namespacedVerbs) (sort (remdups (map fst keys))))
       @ map (resource_record user r [] []) clusterVerbs)"

definition asAuthorizationAttributesRecordsForUser ::
  "map_orders \<Rightarrow> decoded_manifest \<Rightarrow> string \<Rightarrow> string list \<Rightarrow> string list \<Rightarrow> attributes_record list" where
  "asAuthorizationAttributesRecordsForUser R dm user clusterVerbs namespacedVerbs =
     concat (map (records_for user clusterVerbs namespacedVerbs) (ord_gvrs R (dm_gvrs dm)))"

definition rbacObjects :: "map_orders \<Rightarrow> decoded_manifest \<Rightarrow> rbac_object list" where
  "rbacObjects R dm =
     ord_objs R (map (ClusterRole \<circ> snd) (dm_clusterRoles dm)) @ ord_objs R (map (Role \<circ> snd) (dm_roles dm))
     @ ord_objs R (map (ClusterRoleBinding \<circ> snd) (dm_clusterRoleBindings dm))
     @ ord_objs R (map (RoleBinding \<circ> snd) (dm_roleBindings dm))"

definition policyRuleFromAttributesRecord :: "attributes_record \<Rightarrow> policy_rule" where
  "policyRuleFromAttributesRecord ar =
     (let pr = zero_rule\<lparr>pr_Verbs := (if ar_Verb ar \<noteq> [] then [ar_Verb ar] else [])\<rparr> in
      if \<not> ar_ResourceRequest ar then pr\<lparr>pr_NonResourceURLs := [ar_Path ar]\<rparr>
      else pr\<lparr>pr_APIGroups := [ar_APIGroup ar],
              pr_ResourceNames := (if ar_Name ar \<noteq> [] then [ar_Name ar] else []),
              pr_Resources := [ar_Resource ar @ (if ar_Subresource ar \<noteq> [] then ''/'' @ ar_Subresource ar else [])]\<rparr>)"

definition attributesAllowed :: "'r pre_authorizer \<Rightarrow> attributes_record \<Rightarrow> bool res" where
  "attributesAllowed a ar =
     (case Authorize a ar of
        (d, reason, Some err) \<Rightarrow> if reason \<noteq> [] then Inl (ErrWrap (reason @ '': '') err) else Inl err
      | (d, reason, None) \<Rightarrow> Inr (d = DecisionAllow))"

fun authorize_loop ::
  "'r pre_authorizer \<Rightarrow> attributes_record list \<Rightarrow> (string \<times> policy_rule list) list \<Rightarrow> goerr list
   \<Rightarrow> (string \<times> policy_rule list) list \<times> goerr list" where
  "authorize_loop a [] missing errs = (missing, errs)"
| "authorize_loop a (ar # ars) missing errs =
     (case attributesAllowed a ar of
        Inl err \<Rightarrow> authorize_loop a ars missing (errs @ [err])
      | Inr allow \<Rightarrow>
          authorize_loop a ars
            (if \<not> allow then map_append (ar_Namespace ar) [policyRuleFromAttributesRecord ar] missing else missing) errs)"

definition authorizeAttributesRecords ::
  "'r pre_authorizer \<Rightarrow> attributes_record list \<Rightarrow> (string \<times> policy_rule list) list \<times> goerr option" where
  "authorizeAttributesRecords a ars =
     (case authorize_loop a ars [] [] of (missing, errs) \<Rightarrow> (missing, errors_Join errs))"

section \<open>Escalation checks\<close>

definition fullAuthority :: "policy_rule list" where
  "fullAuthority =
     [zero_rule\<lparr>pr_Verbs := [''*''], pr_APIGroups := [''*''], pr_Resources := [''*'']\<rparr>,
      zero_rule\<lparr>pr_Verbs := [''*''], pr_NonResourceURLs := [''*'']\<rparr>]"

definition hasAggregationRule :: "cluster_role \<Rightarrow> bool" where
  "hasAggregationRule r = (case cr_AggregationRule r of None \<Rightarrow> False | Some sels \<Rightarrow> length sels > 0)"

definition checkClusterRoleEscalation :: "'r pre_authorizer \<Rightarrow> request_ctx \<Rightarrow> cluster_role \<Rightarrow> goerr option" where
  "checkClusterRoleEscalation a ctx r =
     (if EscalationAllowed a ctx \<or> RoleEscalationAuthorized a ctx then None
      else
        case (if hasAggregationRule r then ConfirmNoEscalation a ctx fullAuthority else None) of
          Some err \<Rightarrow> Some (ErrWrap ''must have cluster-admin privileges to use an aggregationRule: '' err)
        | None \<Rightarrow> ConfirmNoEscalation a ctx (cr_Rules r))"

definition checkRoleEscalation :: "'r pre_authorizer \<Rightarrow> request_ctx \<Rightarrow> rbac_role \<Rightarrow> goerr option" where
  "checkRoleEscalation a ctx r =
     (if EscalationAllowed a ctx \<or> RoleEscalationAuthorized a ctx then None
      else ConfirmNoEscalation a ctx (role_Rules r))"

definition extra_rules :: "('k \<times> 'v) list \<Rightarrow> 'k \<Rightarrow> ('v \<Rightarrow> policy_rule list) \<Rightarrow> policy_rule list" where
  "extra_rules m k rules = (case map_of m k of Some r \<Rightarrow> rules r | None \<Rightarrow> [])"

definition checkClusterRoleBindingEscalation ::
  "'r pre_authorizer \<Rightarrow> decoded_manifest \<Rightarrow> request_ctx \<Rightarrow> rbac_binding \<Rightarrow> goerr option" where
  "checkClusterRoleBindingEscalation a dm ctx b =
     (if EscalationAllowed a ctx then None
      else case ConvertRoleRef a (rb_RoleRef b) of
        Inl err \<Rightarrow> Some err
      | Inr roleRef \<Rightarrow>
          if BindingAuthorized a ctx roleRef [] then None
          else case GetRoleReferenceRules a (rb_RoleRef b) [] of (rules, oerr) \<Rightarrow>
            if (case oerr of Some err \<Rightarrow> as_status err \<noteq> Some ''NotFound'' | None \<Rightarrow> False) then oerr
            else ConfirmNoEscalation a ctx (rules @
                   (if rr_Kind (rb_RoleRef b) = ''ClusterRole''
                    then extra_rules (dm_clusterRoles dm) ([], rr_Name (rb_RoleRef b)) cr_Rules else [])))"

definition checkRoleBindingEscalation ::
  "'r pre_authorizer \<Rightarrow> decoded_manifest \<Rightarrow> request_ctx \<Rightarrow> rbac_binding \<Rightarrow> goerr option" where
  "checkRoleBindingEscalation a dm ctx b =
     (if EscalationAllowed a ctx then None
      else case ConvertRoleRef a (rb_RoleRef b) of
        Inl err \<Rightarrow> Some err
      | Inr roleRef \<Rightarrow>
          if BindingAuthorized a ctx roleRef (rb_Namespace b) then None
          else case GetRoleReferenceRules a (rb_RoleRef b) (rb_Namespace b) of (rules, oerr) \<Rightarrow>
            if (case oerr of Some err \<Rightarrow> as_status err \<noteq> Some ''NotFound'' | None \<Rightarrow> False) then oerr
            else ConfirmNoEscalation a ctx (rules @
                   (if rr_Kind roleRef = ''ClusterRole''
                    then extra_rules (dm_clusterRoles dm) ([], rr_Name (rb_RoleRef b)) cr_Rules
                    else if rr_Kind roleRef = ''Role''
                    then extra_rules (dm_roles dm) (rb_Namespace b, rr_Name (rb_RoleRef b)) role_Rules
                    else [])))"

definition checkEscalation :: "'r pre_authorizer \<Rightarrow> decoded_manifest \<Rightarrow> string \<Rightarrow> rbac_object \<Rightarrow> goerr option" where
  "checkEscalation a dm user x =
     (let ctx = (\<lambda>res. \<lparr>rc_User = user, rc_Namespace = rbac_namespace x, rc_Resource = res\<rparr>) in
      case x of
        Role r \<Rightarrow> checkRoleEscalation a (ctx ''roles'') r
      | RoleBinding b \<Rightarrow> checkRoleBindingEscalation a dm (ctx ''rolebindings'') b
      | ClusterRole r \<Rightarrow> checkClusterRoleEscalation a (ctx ''clusterroles'') r
      | ClusterRoleBinding b \<Rightarrow> checkClusterRoleBindingEscalation a dm (ctx ''clusterrolebindings'') b)"

section \<open>Parsing escalation errors\<close>

abbreviation dquote :: char where "dquote \<equiv> CHR 0x22"
abbreviation lbrace :: char where "lbrace \<equiv> CHR 0x7B"
abbreviation rbrace :: char where "rbrace \<equiv> CHR 0x7D"

text \<open>The tails after the fixed part of the error pattern, greedy repetitions first.\<close>

definition errRegex_prefix :: matcher where
  "errRegex_prefix =
     m_seq (m_lit (''user '' @ [dquote])) (m_seq (m_rep (\<lambda>_. True) 0 None) (m_seq (m_lit ([dquote] @ '' (groups=''))
       (m_seq (m_rep (\<lambda>_. True) 0 None)
         (m_lit ('') is attempting to grant RBAC permissions not currently held:'' @ newline)))))"

definition errRegex_tail :: "string \<Rightarrow> (string \<times> string) option" where
  "errRegex_tail t =
     (let missing = takeWhile (\<lambda>c. c \<noteq> CHR '';'') t; rest = drop (length missing) t in
      if missing = [] then None
      else if has_prefix rest ''; resolution errors: '' then Some (missing, drop (length ''; resolution errors: '') rest)
      else if rest = [] then Some (missing, [])
      else None)"

definition errRegex :: "string \<Rightarrow> (string \<times> string) option" where
  "errRegex s = first_some (map errRegex_tail (errRegex_prefix s))"

text \<open>\<^verbatim>\<open>FindAllString\<close> for an opening character, characters other than the closing one, the closing one.\<close>

function find_delimited :: "char \<Rightarrow> char \<Rightarrow> string \<Rightarrow> string list" where
  "find_delimited l r [] = []"
| "find_delimited l r (x # xs) =
     (if x = l \<and> r \<in> set xs
      then (x # takeWhile (\<lambda>c. c \<noteq> r) xs @ [r]) # find_delimited l r (tl (dropWhile (\<lambda>c. c \<noteq> r) xs))
      else find_delimited l r xs)"
  by pat_completeness auto
termination
  by (relation "measure (\<lambda>(l, r, s). length s)") (auto simp: less_Suc_eq_le intro: le_trans [OF diff_le_self length_dropWhile_le])

definition trim_char :: "char \<Rightarrow> string \<Rightarrow> string" where
  "trim_char c s = rev (dropWhile (\<lambda>x. x = c) (rev (dropWhile (\<lambda>x. x = c) s)))"

fun cut :: "char \<Rightarrow> string \<Rightarrow> (string \<times> string) option" where
  "cut c [] = None"
| "cut c (x # xs) = (if x = c then Some ([], xs) else map_option (\<lambda>(a, b). (x # a, b)) (cut c xs))"

definition set_field :: "string \<Rightarrow> string list \<Rightarrow> policy_rule \<Rightarrow> policy_rule option" where
  "set_field field values pr =
     (if field = ''APIGroups'' then Some (pr\<lparr>pr_APIGroups := values\<rparr>)
      else if field = ''Resources'' then Some (pr\<lparr>pr_Resources := values\<rparr>)
      else if field = ''ResourceNames'' then Some (pr\<lparr>pr_ResourceNames := values\<rparr>)
      else if field = ''NonResourceURLs'' then Some (pr\<lparr>pr_NonResourceURLs := values\<rparr>)
      else if field = ''Verbs'' then Some (pr\<lparr>pr_Verbs := values\<rparr>)
      else None)"

fun parse_fields :: "string list \<Rightarrow> policy_rule \<Rightarrow> policy_rule res" where
  "parse_fields [] pr = Inr pr"
| "parse_fields (item # items) pr =
     (case cut CHR '':'' item of
        None \<Rightarrow> Inl (ErrText (''unexpected item '' @ quote item @ '': expected <Type>:[<values>...]''))
      | Some (field, valuesStr) \<Rightarrow>
          (case set_field field (map (trim_char dquote) (find_delimited dquote dquote valuesStr)) pr of
             None \<Rightarrow> Inl (ErrText (''unexpected item '' @ quote item @ '': unknown field: '' @ quote field))
           | Some pr' \<Rightarrow> parse_fields items pr'))"

definition parseCompactRuleString :: "string \<Rightarrow> policy_rule res" where
  "parseCompactRuleString rule =
     (let ruleText = butlast (tl rule) in
      parse_fields (if ruleText \<noteq> [] then map trim_space (split_on CHR '','' ruleText) else []) zero_rule)"

record parse_result =
  MissingRules :: "policy_rule list"
  ResolutionErrors :: "goerr option"

fun parse_rules :: "string list \<Rightarrow> policy_rule list \<times> goerr list" where
  "parse_rules [] = ([], [])"
| "parse_rules (r # rs) =
     (case parse_rules rs of (prs, errs) \<Rightarrow>
        case parseCompactRuleString r of Inl err \<Rightarrow> (prs, err # errs) | Inr pr \<Rightarrow> (pr # prs, errs))"

definition parseEscalationErrorForMissingRules :: "goerr \<Rightarrow> parse_result \<times> goerr option" where
  "parseEscalationErrorForMissingRules ecError =
     (case errRegex (Error ecError) of
        None \<Rightarrow> (\<lparr>MissingRules = [], ResolutionErrors = None\<rparr>,
                 Some (ErrText (''unexpected format of escalation check error string: '' @ quote (Error ecError))))
      | Some (missing, resolution) \<Rightarrow>
          (case parse_rules (find_delimited lbrace rbrace missing) of (prs, errs) \<Rightarrow>
             (\<lparr>MissingRules = prs, ResolutionErrors = (if resolution \<noteq> [] then Some (ErrText resolution) else None)\<rparr>,
              errors_Join errs)))"

section \<open>PreAuthorize\<close>

fun escalation_loop ::
  "'r pre_authorizer \<Rightarrow> decoded_manifest \<Rightarrow> string \<Rightarrow> rbac_object list \<Rightarrow> (string \<times> policy_rule list) list
   \<Rightarrow> goerr option list \<Rightarrow> goerr option list \<Rightarrow> (string \<times> policy_rule list) list \<times> goerr option list \<times> goerr option list" where
  "escalation_loop a dm user [] missing evalErrs parseErrs = (missing, evalErrs, parseErrs)"
| "escalation_loop a dm user (x # xs) missing evalErrs parseErrs =
     (case checkEscalation a dm user x of
        None \<Rightarrow> escalation_loop a dm user xs missing evalErrs parseErrs
      | Some err \<Rightarrow>
          (case parseEscalationErrorForMissingRules err of (r, perr) \<Rightarrow>
             escalation_loop a dm user xs (map_append (rbac_namespace x) (MissingRules r) missing)
               (evalErrs @ [ResolutionErrors r]) (parseErrs @ [perr])))"

definition dedup_verbs :: "policy_rule \<Rightarrow> policy_rule" where
  "dedup_verbs rule = rule\<lparr>pr_Verbs := (if ''*'' \<in> set (pr_Verbs rule) then [''*''] else sort (remdups (pr_Verbs rule)))\<rparr>"

definition compact_missing :: "'r pre_authorizer \<Rightarrow> string \<times> policy_rule list \<Rightarrow> scoped_policy_rules" where
  "compact_missing a entry =
     (case entry of (ns, rules) \<Rightarrow>
       \<lparr>spr_Namespace = ns,
        spr_MissingRules = SortRules a (map dedup_verbs (case CompactRules a rules of Inr rs \<Rightarrow> rs | Inl _ \<Rightarrow> rules))\<rparr>)"

definition compare_namespace :: "scoped_policy_rules cmp" where
  "compare_namespace x y = cmp_ord (spr_Namespace x) (spr_Namespace y)"

definition evaluate_manifest ::
  "(scoped_policy_rules cmp \<Rightarrow> scoped_policy_rules list \<Rightarrow> scoped_policy_rules list) \<Rightarrow> map_orders \<Rightarrow> 'r pre_authorizer
   \<Rightarrow> string \<Rightarrow> decoded_manifest \<Rightarrow> (string \<Rightarrow> attributes_record list) list \<Rightarrow> scoped_policy_rules list \<times> goerr option" where
  "evaluate_manifest SortFunc R a user dm additional =
     (case authorizeAttributesRecords a
         (asAuthorizationAttributesRecordsForUser R dm user (clusterCollectionVerbs a) namespacedCollectionVerbs
            @ concat (map (\<lambda>fn. fn user) additional)) of (missing0, oerr) \<Rightarrow>
      case escalation_loop a dm user (rbacObjects R dm) missing0 [oerr] [] of (missing, evalErrs, parseErrs) \<Rightarrow>
        (let allMissing = SortFunc compare_namespace (map (compact_missing a) (ord_missing R missing));
             errs = (case join_opts parseErrs of
                       Some e \<Rightarrow> [ErrText (''failed to parse escalation check error strings: '' @ Error e)] | None \<Rightarrow> [])
                  @ (case join_opts evalErrs of
                       Some e \<Rightarrow> [ErrText (''failed to resolve or evaluate permissions: '' @ Error e)] | None \<Rightarrow> [])
         in (allMissing, if length errs > 0 then Some (ErrWrap ''missing rules may be incomplete: '' (ErrJoin errs)) else None)))"

definition PreAuthorize ::
  "(scoped_policy_rules cmp \<Rightarrow> scoped_policy_rules list \<Rightarrow> scoped_policy_rules list) \<Rightarrow> map_orders \<Rightarrow> 'r pre_authorizer
   \<Rightarrow> string \<Rightarrow> 'r \<Rightarrow> (string \<Rightarrow> attributes_record list) list \<Rightarrow> (scoped_policy_rules list \<times> goerr option) option" where
  "PreAuthorize SortFunc R a user manifestReader additional =
     (case decodeManifest a manifestReader of
        None \<Rightarrow> None
      | Some (Inl err) \<Rightarrow> Some ([], Some err)
      | Some (Inr dm) \<Rightarrow> Some (evaluate_manifest SortFunc R a user dm additional))"

section \<open>Lemmas\<close>

definition orders_ok :: "map_orders \<Rightarrow> bool" where
  "orders_ok R \<longleftrightarrow> (\<forall>xs. mset (ord_gvrs R xs) = mset xs) \<and> (\<forall>xs. mset (ord_objs R xs) = mset xs)
     \<and> (\<forall>xs. mset (ord_missing R xs) = mset xs)"

definition allowed :: "'r pre_authorizer \<Rightarrow> attributes_record \<Rightarrow> bool" where
  "allowed a ar \<longleftrightarrow> (\<exists>reason. Authorize a ar = (DecisionAllow, reason, None))"

lemma orders_set:
  assumes "orders_ok R"
  shows "set (ord_gvrs R xs) = set xs" "set (ord_objs R ys) = set ys" "ord_missing R zs = [] \<longleftrightarrow> zs = []"
proof -
  show "set (ord_gvrs R xs) = set xs" "set (ord_objs R ys) = set ys"
    using assms unfolding orders_ok_def by (metis set_mset_mset)+
  have "mset (ord_missing R zs) = mset zs"
    using assms by (simp add: orders_ok_def)
  then show "ord_missing R zs = [] \<longleftrightarrow> zs = []"
    by (metis mset_zero_iff)
qed

lemma attributesAllowed_iff: "attributesAllowed a ar = Inr True \<longleftrightarrow> allowed a ar"
  by (auto simp: attributesAllowed_def allowed_def split: prod.splits option.splits if_splits)

lemma authorize_loop_clean:
  "authorize_loop a ars m e = ([], []) \<longleftrightarrow> m = [] \<and> e = [] \<and> (\<forall>ar \<in> set ars. allowed a ar)"
proof (induction a ars m e rule: authorize_loop.induct)
  case (2 a ar ars m e)
  show ?case
  proof (cases "attributesAllowed a ar")
    case (Inl err)
    then show ?thesis
      using 2(1) [OF Inl] attributesAllowed_iff [of a ar] by auto
  next
    case (Inr b)
    then show ?thesis
      using 2(2) [OF Inr] attributesAllowed_iff [of a ar] by auto
  qed
qed simp

lemma escalation_loop_clean:
  "fst (escalation_loop a dm user xs m e p) = [] \<longleftrightarrow> m = [] \<and> (\<forall>x \<in> set xs. checkEscalation a dm user x = None)"
proof (induction a dm user xs m e p rule: escalation_loop.induct)
  case (2 a dm user x xs m e p)
  show ?case
  proof (cases "checkEscalation a dm user x")
    case None
    then show ?thesis using 2(1) by simp
  next
    case (Some err)
    obtain r perr where pe: "parseEscalationErrorForMissingRules err = (r, perr)"
      by (cases "parseEscalationErrorForMissingRules err")
    then show ?thesis using Some 2(2) [OF Some pe [symmetric]] by simp
  qed
qed simp

lemma escalation_loop_none:
  "\<forall>x \<in> set xs. checkEscalation a dm user x = None \<Longrightarrow> escalation_loop a dm user xs m e p = (m, e, p)"
  by (induction xs) simp_all

lemma join_opts_single [simp]: "join_opts [] = None" "join_opts [errors_Join e] = None \<longleftrightarrow> e = []"
  by (simp_all add: join_opts_def errors_Join_def map_filter_simps)

lemma rbacObjects_set:
  assumes "orders_ok R"
  shows "set (rbacObjects R dm) = (ClusterRole \<circ> snd) ` set (dm_clusterRoles dm) \<union> (Role \<circ> snd) ` set (dm_roles dm)
    \<union> (ClusterRoleBinding \<circ> snd) ` set (dm_clusterRoleBindings dm) \<union> (RoleBinding \<circ> snd) ` set (dm_roleBindings dm)"
  by (auto simp: rbacObjects_def orders_set [OF assms])

definition entry_allowed :: "'r pre_authorizer \<Rightarrow> string \<Rightarrow> gvr \<times> object_key list \<Rightarrow> bool" where
  "entry_allowed a user entry \<longleftrightarrow>
     (case entry of (r, keys) \<Rightarrow>
        (\<forall>(ns, name) \<in> set keys. (\<forall>v \<in> set objectVerbs. allowed a (resource_record user r ns name v))
           \<and> (\<forall>v \<in> set namespacedCollectionVerbs. allowed a (resource_record user r ns [] v)))
        \<and> (\<forall>v \<in> set (clusterCollectionVerbs a). allowed a (resource_record user r [] [] v)))"

lemma records_for_allowed:
  "(\<forall>ar \<in> set (records_for user (clusterCollectionVerbs a) namespacedCollectionVerbs entry). allowed a ar)
     \<longleftrightarrow> entry_allowed a user entry"
proof (cases entry)
  case (Pair r keys)
  show ?thesis
    unfolding Pair records_for_def entry_allowed_def by (auto simp: ball_Un split_beta)
qed

lemma PreAuthorize_clean:
  assumes "go_sorter SortFunc" "orders_ok R" "decodeManifest a rd = Some (Inr dm)"
  shows "PreAuthorize SortFunc R a user rd additional = Some ([], None) \<longleftrightarrow>
    (\<forall>entry \<in> set (dm_gvrs dm). entry_allowed a user entry)
    \<and> (\<forall>fn \<in> set additional. \<forall>ar \<in> set (fn user). allowed a ar)
    \<and> (\<forall>x \<in> set (rbacObjects R dm). checkEscalation a dm user x = None)"
proof -
  let ?ars = "asAuthorizationAttributesRecordsForUser R dm user (clusterCollectionVerbs a) namespacedCollectionVerbs
            @ concat (map (\<lambda>fn. fn user) additional)"
  obtain m e where loop: "authorize_loop a ?ars [] [] = (m, e)"
    by (cases "authorize_loop a ?ars [] []")
  obtain m' ev pe where esc: "escalation_loop a dm user (rbacObjects R dm) m [errors_Join e] [] = (m', ev, pe)"
    by (cases "escalation_loop a dm user (rbacObjects R dm) m [errors_Join e] []")
  have ars: "(\<forall>ar \<in> set ?ars. allowed a ar) \<longleftrightarrow>
      (\<forall>entry \<in> set (dm_gvrs dm). entry_allowed a user entry) \<and> (\<forall>fn \<in> set additional. \<forall>ar \<in> set (fn user). allowed a ar)"
    unfolding asAuthorizationAttributesRecordsForUser_def records_for_allowed [symmetric]
    using orders_set(1) [OF assms(2)] by auto
  have empty: "SortFunc compare_namespace (map (compact_missing a) (ord_missing R m')) = [] \<longleftrightarrow> m' = []"
    using go_sorter.len [OF assms(1), of compare_namespace "map (compact_missing a) (ord_missing R m')"]
      orders_set(3) [OF assms(2), of m'] by (metis length_0_conv length_map)
  have m': "m' = [] \<longleftrightarrow> m = [] \<and> (\<forall>x \<in> set (rbacObjects R dm). checkEscalation a dm user x = None)"
    using escalation_loop_clean [of a dm user "rbacObjects R dm" m "[errors_Join e]" "[]"] by (simp add: esc)
  have run: "PreAuthorize SortFunc R a user rd additional = Some
      (SortFunc compare_namespace (map (compact_missing a) (ord_missing R m')),
       let errs = (case join_opts pe of Some e \<Rightarrow> [ErrText (''failed to parse escalation check error strings: '' @ Error e)] | None \<Rightarrow> [])
                  @ (case join_opts ev of Some e \<Rightarrow> [ErrText (''failed to resolve or evaluate permissions: '' @ Error e)] | None \<Rightarrow> [])
       in if length errs > 0 then Some (ErrWrap ''missing rules may be incomplete: '' (ErrJoin errs)) else None)"
    by (simp add: PreAuthorize_def assms(3) evaluate_manifest_def authorizeAttributesRecords_def loop esc)
  have clean: "(m', join_opts pe, join_opts ev) = ([], None, None) \<longleftrightarrow>
     (m, e) = ([], []) \<and> (\<forall>x \<in> set (rbacObjects R dm). checkEscalation a dm user x = None)"
  proof (cases "\<forall>x \<in> set (rbacObjects R dm). checkEscalation a dm user x = None")
    case True
    then have "m' = m" "ev = [errors_Join e]" "pe = []"
      using esc by (simp_all add: escalation_loop_none)
    then show ?thesis
      using True by (simp add: join_opts_single)
  qed (use m' in auto)
  have "PreAuthorize SortFunc R a user rd additional = Some ([], None) \<longleftrightarrow> (m', join_opts pe, join_opts ev) = ([], None, None)"
    unfolding run by (simp add: empty Let_def split: option.split)
  also have "\<dots> \<longleftrightarrow> (\<forall>ar \<in> set ?ars. allowed a ar) \<and> (\<forall>x \<in> set (rbacObjects R dm). checkEscalation a dm user x = None)"
    unfolding clean loop [symmetric] authorize_loop_clean by simp
  finally show ?thesis
    unfolding ars by simp
qed

section \<open>Properties\<close>

text \<open>
  C13: pre-authorization accepts a decoded manifest, with no missing rule and no error, exactly if the user is allowed every
  object verb on every object, every collection verb in the namespaces concerned and in the cluster, every
  additional permission, and no role or binding of the manifest escalates the user's privileges.
\<close>

theorem PreAuthorize_accepts_iff:
  assumes "go_sorter SortFunc" "orders_ok R" "decodeManifest a rd = Some (Inr dm)"
  shows "PreAuthorize SortFunc R a user rd additional = Some ([], None) \<longleftrightarrow>
    (\<forall>entry \<in> set (dm_gvrs dm). entry_allowed a user entry)
    \<and> (\<forall>fn \<in> set additional. \<forall>ar \<in> set (fn user). allowed a ar)
    \<and> (\<forall>x \<in> set (rbacObjects R dm). checkEscalation a dm user x = None)"
  by (rule PreAuthorize_clean [OF assms])

text \<open>A decoder over a list of objects and an authorizer that allows one user everything, for the witnesses.\<close>

definition list_decode :: "decode_out list \<Rightarrow> decode_out list \<times> decode_out" where
  "list_decode xs = (case xs of [] \<Rightarrow> ([], DecodeEOF) | x # ys \<Rightarrow> (ys, x))"

definition ex_authorizer :: "decode_out list pre_authorizer" where
  "ex_authorizer =
     \<lparr>Decode = list_decode,
      RESTMapping = (\<lambda>(g, k) v. Inr (g, v, k)),
      asClusterRole = (\<lambda>_. Inl (ErrText ''no role'')), asRole = (\<lambda>_. Inl (ErrText ''no role'')),
      asBinding = (\<lambda>_. Inl (ErrText ''no binding'')),
      Authorize = (\<lambda>ar. (if ar_User ar = ''admin'' then DecisionAllow else DecisionNoOpinion, [], None)),
      EscalationAllowed = (\<lambda>_. False), RoleEscalationAuthorized = (\<lambda>_. False), BindingAuthorized = (\<lambda>_ _ _. False),
      ConfirmNoEscalation = (\<lambda>_ _. None), GetRoleReferenceRules = (\<lambda>_ _. ([], None)), ConvertRoleRef = Inr,
      CompactRules = Inr, SortRules = id, clusterCollectionVerbs = [''list'', ''watch'']\<rparr>"

definition plain_orders :: map_orders where
  "plain_orders = \<lparr>ord_gvrs = id, ord_objs = id, ord_missing = id\<rparr>"

definition ex_configmap :: k8s_object where
  "ex_configmap = \<lparr>obj_Group = [], obj_Version = ''v1'', obj_Kind = ''ConfigMap'', obj_Namespace = ''ns'', obj_Name = ''cm'',
     obj_Labels = [], obj_Annotations = [], obj_Metadata = [], obj_Fields = []\<rparr>"

definition ex_manifest :: decoded_manifest where
  "ex_manifest = empty_manifest\<lparr>dm_gvrs := [(([], ''v1'', ''ConfigMap''), [(''ns'', ''cm'')])]\<rparr>"

lemma ex_decode: "decodeManifest ex_authorizer [Decoded ex_configmap] = Some (Inr ex_manifest)"
  unfolding decodeManifest_def
  by (subst decode_loop.simps, subst decode_loop.simps) (simp add: ex_authorizer_def list_decode_def decode_object_def ex_configmap_def
      ex_manifest_def empty_manifest_def)

theorem PreAuthorize_accepts_iff_witness:
  "PreAuthorize SortStableFunc plain_orders ex_authorizer ''admin'' [Decoded ex_configmap] [] = Some ([], None)
   \<and> PreAuthorize SortStableFunc plain_orders ex_authorizer ''guest'' [Decoded ex_configmap] [] \<noteq> Some ([], None)"
proof -
  have R: "orders_ok plain_orders" by (simp add: orders_ok_def plain_orders_def)
  have user: "entry_allowed ex_authorizer u (([], ''v1'', ''ConfigMap''), [(''ns'', ''cm'')]) \<longleftrightarrow> u = ''admin''" for u
    by (simp add: entry_allowed_def allowed_def ex_authorizer_def resource_record_def objectVerbs_def namespacedCollectionVerbs_def)
  show ?thesis
    unfolding PreAuthorize_accepts_iff [OF stable.go_sorter_axioms R ex_decode]
    by (simp add: ex_manifest_def empty_manifest_def user rbacObjects_def plain_orders_def)
qed

definition rd_after :: "'r pre_authorizer \<Rightarrow> nat \<Rightarrow> 'r \<Rightarrow> 'r" where
  "rd_after a n rd = ((fst \<circ> Decode a) ^^ n) rd"

lemma rd_after_simps [simp]:
  "rd_after a 0 rd = rd" "rd_after a (Suc n) rd = rd_after a n (fst (Decode a rd))"
  by (simp_all add: rd_after_def funpow_swap1 [symmetric] del: funpow.simps) (simp_all add: funpow_swap1)

lemma decode_loop_reaches_eof:
  assumes "decode_loop a rd acc = Some y"
  shows "\<exists>n. snd (Decode a (rd_after a n rd)) = DecodeEOF"
proof -
  let ?P = "\<lambda>a rd acc y. \<exists>n. snd (Decode a (rd_after a n rd)) = DecodeEOF"
  have "?P a rd acc y"
  proof (rule decode_loop.raw_induct [of ?P, OF _ assms])
    fix f a rd acc y
    assume ih: "\<And>a rd acc y. f a rd acc = Some y \<Longrightarrow> ?P a rd acc y"
      and step: "(case Decode a rd of (rd', out) \<Rightarrow>
        (case out of DecodeEOF \<Rightarrow> Some acc
         | DecodeError err \<Rightarrow> f a rd' (fst acc, snd acc @ [ErrWrap ''could not decode object 0 in manifest: '' err])
         | Decoded x \<Rightarrow> f a rd' (decode_object a x acc))) = Some y"
    obtain rd' out where d: "Decode a rd = (rd', out)" by (cases "Decode a rd")
    show "?P a rd acc y"
    proof (cases "out = DecodeEOF")
      case True
      then show ?thesis using d by (intro exI [of _ 0]) simp
    next
      case False
      then obtain acc' where "f a rd' acc' = Some y"
        using step d by (cases out) auto
      then obtain n where "snd (Decode a (rd_after a n rd')) = DecodeEOF"
        using ih by blast
      then show ?thesis using d by (intro exI [of _ "Suc n"]) simp
    qed
  qed
  then show ?thesis .
qed

lemma decode_loop_returns:
  "snd (Decode a (rd_after a n rd)) = DecodeEOF \<Longrightarrow> \<exists>y. decode_loop a rd acc = Some y"
proof (induction n arbitrary: rd acc)
  case 0
  then show ?case by (subst decode_loop.simps) (auto split: prod.splits)
next
  case (Suc n)
  obtain rd' out where d: "Decode a rd = (rd', out)" by (cases "Decode a rd")
  then have "\<exists>y. decode_loop a rd' acc' = Some y" for acc'
    using Suc by simp
  then show ?case
    by (subst decode_loop.simps) (auto simp: d split: decode_out.splits)
qed

text \<open>
  C38: pre-authorization returns exactly if the manifest decoder reports the end of its input after finitely many
  calls; a decoder that keeps reporting errors keeps the loop running, since an error is recorded and decoding goes on.
\<close>

theorem PreAuthorize_terminates_iff:
  "PreAuthorize SortFunc R a user rd additional \<noteq> None \<longleftrightarrow> (\<exists>n. snd (Decode a (rd_after a n rd)) = DecodeEOF)"
proof -
  have "decodeManifest a rd \<noteq> None \<longleftrightarrow> (\<exists>n. snd (Decode a (rd_after a n rd)) = DecodeEOF)"
    using decode_loop_reaches_eof [of a rd "(empty_manifest, [])"] decode_loop_returns [of a _ rd "(empty_manifest, [])"]
    by (auto simp: decodeManifest_def)
  then show ?thesis
    by (auto simp: PreAuthorize_def split: option.splits sum.splits)
qed

primrec decodes :: "'r pre_authorizer \<Rightarrow> 'r \<Rightarrow> k8s_object list \<Rightarrow> bool" where
  "decodes a rd [] = (snd (Decode a rd) = DecodeEOF)" |
  "decodes a rd (x # xs) = (snd (Decode a rd) = Decoded x \<and> decodes a (fst (Decode a rd)) xs)"

lemma decode_loop_list:
  "decodes a rd objs \<Longrightarrow> decode_loop a rd acc = Some (foldl (\<lambda>acc x. decode_object a x acc) acc objs)"
proof (induction objs arbitrary: rd acc)
  case Nil
  then show ?case by (subst decode_loop.simps) (auto split: prod.splits)
next
  case (Cons x xs)
  obtain rd' where d: "Decode a rd = (rd', Decoded x)"
    using Cons.prems by (cases "Decode a rd") simp
  then show ?case
    using Cons.IH [of rd' "decode_object a x acc"] Cons.prems by (subst decode_loop.simps) simp
qed

definition has_key :: "(gvr \<times> object_key list) list \<Rightarrow> gvr \<Rightarrow> object_key \<Rightarrow> bool" where
  "has_key m r k \<longleftrightarrow> (\<exists>keys. (r, keys) \<in> set m \<and> k \<in> set keys)"

lemma has_key_append: "has_key (map_append q vs m) r k \<longleftrightarrow> has_key m r k \<or> r = q \<and> k \<in> set vs"
  by (induction q vs m rule: map_append.induct) (auto simp: has_key_def)

definition mapped :: "'r pre_authorizer \<Rightarrow> decoded_manifest \<Rightarrow> k8s_object \<Rightarrow> bool" where
  "mapped a dm x \<longleftrightarrow> (\<exists>r. RESTMapping a (obj_Group x, obj_Kind x) (obj_Version x) = Inr r
     \<and> has_key (dm_gvrs dm) r (obj_Namespace x, obj_Name x))"

lemma decode_object_gvrs:
  "RESTMapping a (obj_Group x, obj_Kind x) (obj_Version x) = Inr r \<Longrightarrow>
     dm_gvrs (fst (decode_object a x (dm, errs))) = map_append r [(obj_Namespace x, obj_Name x)] (dm_gvrs dm)"
  by (cases r) (simp add: decode_object_def Let_def split: sum.split)

lemma decode_object_errs:
  "RESTMapping a (obj_Group x, obj_Kind x) (obj_Version x) = Inr r \<Longrightarrow> snd (decode_object a x (dm, errs)) = [] \<Longrightarrow> errs = []"
  by (cases r) (simp add: decode_object_def Let_def split: sum.splits if_splits)

lemma decode_object_unmapped:
  "RESTMapping a (obj_Group x, obj_Kind x) (obj_Version x) = Inl e \<Longrightarrow>
     fst (decode_object a x (dm, errs)) = dm \<and> snd (decode_object a x (dm, errs)) \<noteq> []"
  by (simp add: decode_object_def)

lemma decode_object_mapped:
  assumes "decode_object a x (dm, errs) = (dm', errs')"
  shows "errs' = [] \<Longrightarrow> errs = [] \<and> mapped a dm' x" "has_key (dm_gvrs dm) r k \<Longrightarrow> has_key (dm_gvrs dm') r k"
  using assms decode_object_unmapped [of a x _ dm errs] decode_object_gvrs [of a x _ dm errs] decode_object_errs [of a x _ dm errs]
  by (cases "RESTMapping a (obj_Group x, obj_Kind x) (obj_Version x)"; simp add: mapped_def has_key_append)+

lemma mapped_mono:
  assumes "decode_object a x (dm, errs) = (dm', errs')" "mapped a dm y"
  shows "mapped a dm' y"
  using assms(2) decode_object_mapped(2) [OF assms(1)] unfolding mapped_def by blast

lemma decode_fold_mapped:
  assumes "foldl (\<lambda>acc x. decode_object a x acc) (dm0, errs0) objs = (dm, [])"
  shows "errs0 = [] \<and> (\<forall>x \<in> set objs. mapped a dm x) \<and> (\<forall>y. mapped a dm0 y \<longrightarrow> mapped a dm y)"
  using assms
proof (induction objs arbitrary: dm0 errs0)
  case (Cons x xs)
  obtain dm1 errs1 where d: "decode_object a x (dm0, errs0) = (dm1, errs1)"
    by (cases "decode_object a x (dm0, errs0)")
  then have rest: "errs1 = []" "\<forall>y \<in> set xs. mapped a dm y" "\<forall>y. mapped a dm1 y \<longrightarrow> mapped a dm y"
    using Cons.IH [of dm1 errs1] Cons.prems by simp_all
  then show ?case
    using decode_object_mapped(1) [OF d] mapped_mono [OF d] by simp
qed simp

text \<open>
  C14: pre-authorization covers the whole manifest. When it accepts what the decoder reads as a list of objects, the
  user may get, patch, update and delete every one of them and create objects of its kind in its namespace.
\<close>

theorem PreAuthorize_covers_manifest:
  assumes "go_sorter SortFunc" "orders_ok R" "decodes a rd objs"
    "PreAuthorize SortFunc R a user rd additional = Some ([], None)" "x \<in> set objs"
  shows "\<exists>r. RESTMapping a (obj_Group x, obj_Kind x) (obj_Version x) = Inr r
    \<and> (\<forall>v \<in> {''get'', ''patch'', ''update'', ''delete''}. allowed a (resource_record user r (obj_Namespace x) (obj_Name x) v))
    \<and> allowed a (resource_record user r (obj_Namespace x) [] ''create'')"
proof -
  obtain dm errs where fold: "foldl (\<lambda>acc x. decode_object a x acc) (empty_manifest, []) objs = (dm, errs)"
    by (cases "foldl (\<lambda>acc x. decode_object a x acc) (empty_manifest, []) objs")
  have dec: "decodeManifest a rd = Some (if length errs > 0 then Inl (ErrJoin errs) else Inr dm)"
    by (simp add: decodeManifest_def decode_loop_list [OF assms(3)] fold)
  have errs: "errs = []"
    using assms(4) dec by (cases errs) (simp_all add: PreAuthorize_def)
  obtain r keys where r: "RESTMapping a (obj_Group x, obj_Kind x) (obj_Version x) = Inr r"
    "(r, keys) \<in> set (dm_gvrs dm)" "(obj_Namespace x, obj_Name x) \<in> set keys"
    using decode_fold_mapped [OF fold [unfolded errs]] assms(5) by (auto simp: mapped_def has_key_def)
  have "entry_allowed a user (r, keys)"
    using PreAuthorize_clean [OF assms(1,2), of a rd dm user additional] assms(4) dec errs r(2) by simp
  then show ?thesis
    using r by (auto simp: entry_allowed_def objectVerbs_def namespacedCollectionVerbs_def intro!: exI [of _ r])
qed

theorem PreAuthorize_covers_manifest_witness:
  "allowed ex_authorizer (resource_record ''admin'' ([], ''v1'', ''ConfigMap'') ''ns'' [] ''create'')"
proof -
  have R: "orders_ok plain_orders" by (simp add: orders_ok_def plain_orders_def)
  have d: "decodes ex_authorizer [Decoded ex_configmap] [ex_configmap]"
    by (simp add: ex_authorizer_def list_decode_def)
  have p: "PreAuthorize SortStableFunc plain_orders ex_authorizer ''admin'' [Decoded ex_configmap] [] = Some ([], None)"
    unfolding PreAuthorize_clean [OF stable.go_sorter_axioms R ex_decode]
    by (simp add: ex_manifest_def empty_manifest_def rbacObjects_def plain_orders_def entry_allowed_def allowed_def
        ex_authorizer_def resource_record_def objectVerbs_def namespacedCollectionVerbs_def)
  show ?thesis
    using PreAuthorize_covers_manifest [OF stable.go_sorter_axioms R d p, of ex_configmap]
    by (auto simp: ex_authorizer_def ex_configmap_def)
qed

subsection \<open>Compact rules\<close>

text \<open>The text of a rule in an escalation error: fields separated by commas, each with its quoted values.\<close>

definition quoted :: "string \<Rightarrow> string" where
  "quoted v = dquote # v @ [dquote]"

definition show_field :: "string \<times> string list \<Rightarrow> string" where
  "show_field fv = fst fv @ '':['' @ join_str '' '' (map quoted (snd fv)) @ '']''"

definition show_rule :: "(string \<times> string list) list \<Rightarrow> string" where
  "show_rule fs = [lbrace] @ join_str '', '' (map show_field fs) @ [rbrace]"

definition field_names :: "string list" where
  "field_names = [''APIGroups'', ''Resources'', ''ResourceNames'', ''NonResourceURLs'', ''Verbs'']"

definition clean_field :: "string \<times> string list \<Rightarrow> bool" where
  "clean_field fv \<longleftrightarrow> fst fv \<in> set field_names \<and> (\<forall>v \<in> set (snd fv). dquote \<notin> set v \<and> CHR '','' \<notin> set v)"

lemma find_delimited_none: "l \<notin> set s \<Longrightarrow> find_delimited l r s = []"
  by (induction s) auto

lemma find_delimited_skip: "l \<notin> set p \<Longrightarrow> find_delimited l r (p @ s) = find_delimited l r s"
  by (induction p) auto

lemma find_delimited_quoted:
  "dquote \<notin> set v \<Longrightarrow> find_delimited dquote dquote (quoted v @ s) = quoted v # find_delimited dquote dquote s"
proof -
  assume v: "dquote \<notin> set v"
  then have "takeWhile (\<lambda>c. c \<noteq> dquote) (v @ dquote # s) = v" "dropWhile (\<lambda>c. c \<noteq> dquote) (v @ dquote # s) = dquote # s"
    by (auto simp: takeWhile_append dropWhile_append)
  then show ?thesis by (simp add: quoted_def)
qed

lemma find_values:
  "\<forall>v \<in> set vs. dquote \<notin> set v \<Longrightarrow> dquote \<notin> set s \<Longrightarrow>
     find_delimited dquote dquote (join_str '' '' (map quoted vs) @ s) = map quoted vs"
proof (induction "'' ''" "map quoted vs" arbitrary: vs rule: join_str.induct)
  case 1
  then show ?case by (simp add: find_delimited_none)
next
  case (2 w)
  then show ?case by (auto simp: find_delimited_quoted find_delimited_none)
next
  case (3 w w' ws)
  then obtain v v' vs' where vs: "vs = v # v' # vs'" "w = quoted v" "w' # ws = map quoted (v' # vs')"
    by (cases vs; cases "tl vs") auto
  show ?case
    using 3(1) [OF vs(3)] 3(3,4) by (simp add: vs(1) find_delimited_quoted find_delimited_skip [of _ "'' ''"])
qed

lemma trim_quoted: "dquote \<notin> set v \<Longrightarrow> trim_char dquote (quoted v) = v"
proof -
  assume v: "dquote \<notin> set v"
  then have "dropWhile (\<lambda>x. x = dquote) (v @ [dquote]) = (if v = [] then [] else v @ [dquote])"
    by (cases v) auto
  moreover have "dropWhile (\<lambda>x. x = dquote) (rev v) = rev v"
    using v by (cases "rev v") auto
  ultimately show ?thesis
    by (simp add: trim_char_def quoted_def)
qed

lemma cut_found: "c \<notin> set p \<Longrightarrow> cut c (p @ c # s) = Some (p, s)"
  by (induction p) auto

lemma split_on_append: "c \<notin> set p \<Longrightarrow> split_on c (p @ c # s) = p # split_on c s"
  by (induction p) auto

lemma split_on_ne: "split_on c s \<noteq> []"
  by (induction s) (auto split: list.splits)

lemma split_on_join:
  "items \<noteq> [] \<Longrightarrow> \<forall>i \<in> set items. CHR '','' \<notin> set i \<Longrightarrow>
     split_on CHR '','' (join_str '', '' items) = hd items # map (\<lambda>i. '' '' @ i) (tl items)"
proof (induction "'', ''" items rule: join_str.induct)
  case (3 s t ss)
  have "split_on CHR '','' (CHR '' '' # u) = (CHR '' '' # hd (split_on CHR '','' u)) # tl (split_on CHR '','' u)" for u
    using split_on_ne [of "CHR '',''" u] by (auto split: list.splits)
  then show ?case
    using 3 by (simp add: split_on_append)
qed (simp_all add: split_on_none)

lemma trim_space_field: "f \<in> set field_names \<Longrightarrow> trim_space (f @ s @ '']'') = f @ s @ '']''"
  "f \<in> set field_names \<Longrightarrow> trim_space (CHR '' '' # f @ s @ '']'') = f @ s @ '']''"
  by (auto simp: field_names_def trim_space_def is_space_def)

lemma set_join_str: "c \<in> set (join_str sep ss) \<Longrightarrow> c \<in> set sep \<or> (\<exists>s \<in> set ss. c \<in> set s)"
  by (induction sep ss rule: join_str.induct) auto

lemma comma_free_join:
  "\<forall>v \<in> set vs. CHR '','' \<notin> set v \<Longrightarrow> CHR '','' \<notin> set (join_str '' '' (map quoted vs))"
  using set_join_str [of "CHR '',''" "'' ''" "map quoted vs"] by (auto simp: quoted_def)

lemma show_field_comma: "clean_field fv \<Longrightarrow> CHR '','' \<notin> set (show_field fv)"
  using comma_free_join [of "snd fv"] by (auto simp: clean_field_def show_field_def field_names_def)

lemma parse_field:
  assumes "clean_field fv"
  shows "parse_fields (show_field fv # items) pr = parse_fields items (the (set_field (fst fv) (snd fv) pr))"
proof -
  have "cut CHR '':'' (show_field fv) = Some (fst fv, ''['' @ join_str '' '' (map quoted (snd fv)) @ '']'')"
    using assms cut_found [of "CHR '':''" "fst fv" "''['' @ join_str '' '' (map quoted (snd fv)) @ '']''"]
    by (auto simp: show_field_def clean_field_def field_names_def)
  moreover have "map (trim_char dquote) (find_delimited dquote dquote (''['' @ join_str '' '' (map quoted (snd fv)) @ '']'')) = snd fv"
    using assms find_values [of "snd fv" "'']''"] find_delimited_skip [of dquote "''[''"]
    by (simp add: clean_field_def trim_quoted map_idI)
  moreover obtain pr' where "set_field (fst fv) (snd fv) pr = Some pr'"
    using assms by (auto simp: clean_field_def field_names_def set_field_def)
  ultimately show ?thesis
    by simp
qed

lemma parse_field_list:
  "\<forall>fv \<in> set fs. clean_field fv \<Longrightarrow>
     parse_fields (map show_field fs) pr = Inr (foldl (\<lambda>pr (f, vs). the (set_field f vs pr)) pr fs)"
proof (induction fs arbitrary: pr)
  case (Cons fv fs)
  then show ?case
    using parse_field [of fv] by (simp add: split_beta del: parse_fields.simps(2))
qed simp

lemma trim_items:
  assumes "\<forall>fv \<in> set fs. clean_field fv"
  shows "map trim_space (map show_field fs) = map show_field fs"
    "map trim_space (map (\<lambda>i. '' '' @ i) (map show_field fs)) = map show_field fs"
proof -
  have "trim_space (show_field fv) = show_field fv" "trim_space (CHR '' '' # show_field fv) = show_field fv"
    if "fv \<in> set fs" for fv
    using assms that trim_space_field [of "fst fv" "'':['' @ join_str '' '' (map quoted (snd fv))"]
    by (simp_all add: clean_field_def show_field_def)
  then show "map trim_space (map show_field fs) = map show_field fs"
    "map trim_space (map (\<lambda>i. '' '' @ i) (map show_field fs)) = map show_field fs"
    by simp_all
qed

text \<open>
  The rules in an escalation error are read back: a rule written as its fields with quoted values gives the rule
  with exactly these values, for any known fields whose values contain neither quotes nor commas.
\<close>

lemma parseCompactRuleString_show:
  assumes "\<forall>fv \<in> set fs. clean_field fv"
  shows "parseCompactRuleString (show_rule fs) = Inr (foldl (\<lambda>pr (f, vs). the (set_field f vs pr)) zero_rule fs)"
proof (cases fs)
  case Nil
  then show ?thesis
    by (simp add: parseCompactRuleString_def show_rule_def)
next
  case (Cons fv gs)
  have ne: "join_str '', '' (map show_field fs) \<noteq> []"
    using Cons by (cases gs) (simp_all add: show_field_def)
  have "map trim_space (split_on CHR '','' (join_str '', '' (map show_field fs))) = map show_field fs"
    using split_on_join [of "map show_field fs"] assms trim_items [of "[fv]"] trim_items(2) [of gs]
    by (simp add: Cons show_field_comma)
  then show ?thesis
    using ne parse_field_list [OF assms, of zero_rule]
    by (simp add: parseCompactRuleString_def show_rule_def butlast_append Let_def)
qed

lemma parseCompactRuleString_show_witness:
  "parseCompactRuleString (show_rule [(''APIGroups'', [''apps'']), (''Resources'', [''deployments'', ''pods'']), (''Verbs'', [''get''])])
   = Inr \<lparr>pr_Verbs = [''get''], pr_APIGroups = [''apps''], pr_Resources = [''deployments'', ''pods''], pr_ResourceNames = [],
          pr_NonResourceURLs = []\<rparr>"
  using parseCompactRuleString_show [of "[(''APIGroups'', [''apps'']), (''Resources'', [''deployments'', ''pods'']), (''Verbs'', [''get''])]"]
  by (simp add: clean_field_def field_names_def set_field_def zero_rule_def)

end
