(* ===== verification/Status.thy ===== *)
theory Status
  imports Errors Filters
begin

text \<open>
  Status conditions of a ClusterExtension: the helpers of
  \<^verbatim>\<open>controllers/common_controller.go\<close>, the deprecation conditions and the failure conditions of
  \<^verbatim>\<open>controllers/clusterextension_controller.go\<close> and the revision metadata they read.  Every
  definition that sets or finds a condition takes the condition helpers of apimachinery as \<^verbatim>\<open>A\<close>.
\<close>

section \<open>Revision metadata\<close>

record revision_metadata =
  rm_RevisionName :: string
  rm_Package :: string
  rm_Image :: string
  rm_BundleMetadata :: bundle_metadata
  rm_Conditions :: "condition list"

record revision_states =
  Installed :: "revision_metadata option"
  RollingOut :: "revision_metadata list"

section \<open>Setting conditions\<close>

abbreviation maxConditionMessageLength :: nat where "maxConditionMessageLength \<equiv> 32768"

definition truncationSuffix :: string where
  "truncationSuffix = newline @ newline @ ''... [message truncated]''"

definition truncateMessage :: "string \<Rightarrow> string" where
  "truncateMessage message =
     (if length message \<le> maxConditionMessageLength then message
      else let maxContent = maxConditionMessageLength - length truncationSuffix in
        take maxContent message @ truncationSuffix)"

definition SetStatusCondition :: "cond_api \<Rightarrow> condition list \<Rightarrow> condition \<Rightarrow> condition list" where
  "SetStatusCondition A conditions condition =
     apiSetStatusCondition A conditions (condition\<lparr>cond_Message := truncateMessage (cond_Message condition)\<rparr>)"

definition mk_cond :: "string \<Rightarrow> string \<Rightarrow> string \<Rightarrow> string \<Rightarrow> int \<Rightarrow> condition" where
  "mk_cond t s r m g = \<lparr>cond_Type = t, cond_Status = s, cond_Reason = r, cond_Message = m,
     cond_ObservedGeneration = g, cond_LastTransitionTime = 0\<rparr>"

definition set_conditions :: "condition list \<Rightarrow> cluster_extension \<Rightarrow> cluster_extension" where
  "set_conditions cs ext = ext\<lparr>ce_Status := (ce_Status ext)\<lparr>st_Conditions := cs\<rparr>\<rparr>"

abbreviation conditions :: "cluster_extension \<Rightarrow> condition list" where
  "conditions ext \<equiv> st_Conditions (ce_Status ext)"

definition set_condition ::
  "cond_api \<Rightarrow> cluster_extension \<Rightarrow> string \<Rightarrow> string \<Rightarrow> string \<Rightarrow> string \<Rightarrow> cluster_extension" where
  "set_condition A ext t s r m =
     set_conditions (SetStatusCondition A (conditions ext) (mk_cond t s r m (ce_Generation ext))) ext"

definition setInstallStatus :: "cluster_extension \<Rightarrow> bundle_metadata option \<Rightarrow> cluster_extension" where
  "setInstallStatus ext installStatus = ext\<lparr>ce_Status := (ce_Status ext)\<lparr>st_Install := installStatus\<rparr>\<rparr>"

definition setInstalledStatusConditionSuccess :: "cond_api \<Rightarrow> cluster_extension \<Rightarrow> string \<Rightarrow> cluster_extension" where
  "setInstalledStatusConditionSuccess A ext message =
     set_condition A ext TypeInstalled ConditionTrue ReasonSucceeded message"

definition setInstalledStatusConditionFalse ::
  "cond_api \<Rightarrow> cluster_extension \<Rightarrow> string \<Rightarrow> string \<Rightarrow> cluster_extension" where
  "setInstalledStatusConditionFalse A ext reason message =
     set_condition A ext TypeInstalled ConditionFalse reason message"

definition setInstalledStatusConditionUnknown :: "cond_api \<Rightarrow> cluster_extension \<Rightarrow> string \<Rightarrow> cluster_extension" where
  "setInstalledStatusConditionUnknown A ext message =
     set_condition A ext TypeInstalled ConditionUnknown ReasonFailed message"

definition determineFailureReason :: "cond_api \<Rightarrow> revision_metadata list \<Rightarrow> string" where
  "determineFailureReason A rollingRevisions =
     (if length rollingRevisions = 0 then ReasonFailed
      else let latestRevision = rollingRevisions ! (length rollingRevisions - 1) in
        case apiFindStatusCondition A (rm_Conditions latestRevision) TypeProgressing of
          Some progressingCond \<Rightarrow> if cond_Reason progressingCond = ReasonRetrying then ReasonFailed else ReasonAbsent
        | None \<Rightarrow> ReasonAbsent)"

definition setInstalledStatusFromRevisionStates ::
  "cond_api \<Rightarrow> cluster_extension \<Rightarrow> revision_states \<Rightarrow> cluster_extension" where
  "setInstalledStatusFromRevisionStates A ext revisionStates =
     (case Installed revisionStates of
        None \<Rightarrow>
          setInstalledStatusConditionFalse A (setInstallStatus ext None)
            (determineFailureReason A (RollingOut revisionStates)) ''No bundle installed''
      | Some i \<Rightarrow>
          setInstalledStatusConditionSuccess A (setInstallStatus ext (Some (rm_BundleMetadata i)))
            (''Installed bundle '' @ rm_Image i @ '' successfully''))"

definition progressing_status :: "goerr option \<Rightarrow> string \<times> string \<times> string" where
  "progressing_status err =
     (let (reason, message) =
            (case err of
               None \<Rightarrow> (ReasonSucceeded, ''Desired state reached'')
             | Some _ \<Rightarrow> (ReasonRetrying, SanitizeNetworkError (UnwrapTerminal err)))
      in case err of
           Some e \<Rightarrow>
             if is_terminal e
             then (ConditionFalse,
                   (case ExtractTerminalReason err of Some r \<Rightarrow> r | None \<Rightarrow> ReasonBlocked), message)
             else (ConditionTrue, reason, message)
         | None \<Rightarrow> (ConditionTrue, reason, message))"

definition setStatusProgressing :: "cond_api \<Rightarrow> cluster_extension \<Rightarrow> goerr option \<Rightarrow> cluster_extension" where
  "setStatusProgressing A ext err =
     (case progressing_status err of (status, reason, message) \<Rightarrow>
        set_condition A ext TypeProgressing status reason message)"

section \<open>Deprecation conditions\<close>

record deprecation_info =
  PackageEntries :: "deprecation_entry list"
  ChannelEntries :: "deprecation_entry list"
  BundleEntries :: "deprecation_entry list"
  BundleStatus :: string

definition ConditionTypes :: "string list" where
  "ConditionTypes = [TypeInstalled, TypeDeprecated, TypePackageDeprecated, TypeChannelDeprecated,
     TypeBundleDeprecated, TypeProgressing]"

definition isDeprecationCondition :: "string \<Rightarrow> bool" where
  "isDeprecationCondition condType =
     (condType = TypeDeprecated \<or> condType = TypePackageDeprecated \<or> condType = TypeChannelDeprecated
      \<or> condType = TypeBundleDeprecated)"

fun sort_entries ::
  "string list \<Rightarrow> string \<Rightarrow> deprecation_entry list \<Rightarrow> deprecation_info \<Rightarrow> deprecation_info" where
  "sort_entries channelSet installedBundleName [] info = info"
| "sort_entries channelSet installedBundleName (entry # entries) info =
     sort_entries channelSet installedBundleName entries
       (if dep_Schema entry = SchemaPackage
        then info\<lparr>PackageEntries := PackageEntries info @ [entry]\<rparr>
        else if dep_Schema entry = SchemaChannel
        then (if length channelSet = 0 \<or> dep_Name entry \<in> set channelSet
              then info\<lparr>ChannelEntries := ChannelEntries info @ [entry]\<rparr> else info)
        else if dep_Schema entry = SchemaBundle
        then (if installedBundleName \<noteq> [] \<and> dep_Name entry = installedBundleName
              then info\<lparr>BundleEntries := BundleEntries info @ [entry]\<rparr> else info)
        else info)"

definition buildDeprecationInfo ::
  "cluster_extension \<Rightarrow> string \<Rightarrow> fbc_deprecation option \<Rightarrow> deprecation_info" where
  "buildDeprecationInfo ext installedBundleName deprecation =
     (let channelSet = (case src_Catalog (spec_Source (ce_Spec ext)) of Some cf \<Rightarrow> cf_Channels cf | None \<Rightarrow> []);
          info0 = \<lparr>PackageEntries = [], ChannelEntries = [], BundleEntries = [], BundleStatus = ConditionUnknown\<rparr>;
          info = (case deprecation of Some d \<Rightarrow> sort_entries channelSet installedBundleName (dep_Entries d) info0
                  | None \<Rightarrow> info0)
      in if installedBundleName \<noteq> []
         then (if length (BundleEntries info) > 0 then info\<lparr>BundleStatus := ConditionTrue\<rparr>
               else info\<lparr>BundleStatus := ConditionFalse\<rparr>)
         else info)"

fun collectDeprecationMessages :: "deprecation_entry list \<Rightarrow> string list" where
  "collectDeprecationMessages [] = []"
| "collectDeprecationMessages (entry # entries) =
     (if dep_Message entry \<noteq> [] then dep_Message entry # collectDeprecationMessages entries
      else collectDeprecationMessages entries)"

definition deprecation_condition ::
  "cond_api \<Rightarrow> cluster_extension \<Rightarrow> string \<Rightarrow> string list \<Rightarrow> string \<Rightarrow> cluster_extension" where
  "deprecation_condition A ext condType messages notMessage =
     (if length messages > 0
      then set_condition A ext condType ConditionTrue ReasonDeprecated (join_str newline messages)
      else set_condition A ext condType ConditionFalse ReasonNotDeprecated notMessage)"

definition SetDeprecationStatus ::
  "cond_api \<Rightarrow> cluster_extension \<Rightarrow> string \<Rightarrow> fbc_deprecation option \<Rightarrow> bool \<Rightarrow> cluster_extension" where
  "SetDeprecationStatus A ext installedBundleName deprecation hasCatalogData =
     (let info = buildDeprecationInfo ext installedBundleName deprecation;
          packageMessages = collectDeprecationMessages (PackageEntries info);
          channelMessages = collectDeprecationMessages (ChannelEntries info);
          bundleMessages = collectDeprecationMessages (BundleEntries info);
          unknownMessage = ''deprecation status unknown: catalog data unavailable''
      in if \<not> hasCatalogData
         then
           let bundleReason = (if installedBundleName \<noteq> [] then ReasonDeprecationStatusUnknown else ReasonAbsent);
               bundleMessage = (if installedBundleName \<noteq> [] then unknownMessage else ''no bundle installed yet'');
               ext1 = set_condition A ext TypeDeprecated ConditionUnknown ReasonDeprecationStatusUnknown unknownMessage;
               ext2 = set_condition A ext1 TypePackageDeprecated ConditionUnknown ReasonDeprecationStatusUnknown unknownMessage;
               ext3 = set_condition A ext2 TypeChannelDeprecated ConditionUnknown ReasonDeprecationStatusUnknown unknownMessage
           in set_condition A ext3 TypeBundleDeprecated ConditionUnknown bundleReason bundleMessage
         else
           let messages = packageMessages @ channelMessages @ bundleMessages;
               ext1 = deprecation_condition A ext TypeDeprecated messages ''not deprecated'';
               ext2 = deprecation_condition A ext1 TypePackageDeprecated packageMessages ''package not deprecated'';
               ext3 = deprecation_condition A ext2 TypeChannelDeprecated channelMessages ''channel not deprecated''
           in if BundleStatus info = ConditionUnknown
              then set_condition A ext3 TypeBundleDeprecated ConditionUnknown ReasonAbsent ''no bundle installed yet''
              else deprecation_condition A ext3 TypeBundleDeprecated bundleMessages ''bundle not deprecated'')"

section \<open>Failure conditions\<close>

fun ensure_conditions ::
  "cond_api \<Rightarrow> string \<Rightarrow> string \<Rightarrow> string list \<Rightarrow> cluster_extension \<Rightarrow> cluster_extension" where
  "ensure_conditions A reason message [] ext = ext"
| "ensure_conditions A reason message (condType # condTypes) ext =
     ensure_conditions A reason message condTypes
       (if isDeprecationCondition condType then ext
        else case apiFindStatusCondition A (conditions ext) condType of
               None \<Rightarrow> set_condition A ext condType ConditionFalse reason message
             | Some _ \<Rightarrow> ext)"

definition ensureFailureConditionsWithReason ::
  "cond_api \<Rightarrow> cluster_extension \<Rightarrow> string \<Rightarrow> string \<Rightarrow> cluster_extension" where
  "ensureFailureConditionsWithReason A ext reason message =
     ensure_conditions A reason message ConditionTypes ext"

definition wrapErrorWithResolutionInfo :: "bundle_metadata \<Rightarrow> goerr \<Rightarrow> goerr" where
  "wrapErrorWithResolutionInfo resolved err =
     (let context = ''error for resolved bundle '' @ quote (bm_Name resolved) @ '' with version ''
                    @ quote (bm_Version resolved) @ '': ''
      in if is_terminal err
         then
           let innerErr = (case UnwrapTerminal (Some err) of Some e \<Rightarrow> e | None \<Rightarrow> err);
               wrappedErr = ErrWrap context innerErr
           in (case ExtractTerminalReason (Some err) of
                 Some reason \<Rightarrow> NewTerminalError reason wrappedErr
               | None \<Rightarrow> ErrTerminal wrappedErr)
         else ErrWrap context err)"

section \<open>Lemmas\<close>

definition has_cond ::
  "cond_api \<Rightarrow> cluster_extension \<Rightarrow> string \<Rightarrow> string \<Rightarrow> string \<Rightarrow> string \<Rightarrow> bool" where
  "has_cond A ext t s r m \<longleftrightarrow>
     (\<exists>d. apiFindStatusCondition A (conditions ext) t = Some d \<and> cond_Status d = s \<and> cond_Reason d = r
        \<and> cond_Message d = m \<and> cond_ObservedGeneration d = ce_Generation ext)"

definition cond_current :: "cond_api \<Rightarrow> cluster_extension \<Rightarrow> string \<Rightarrow> bool" where
  "cond_current A ext t \<longleftrightarrow> (\<exists>s r m. has_cond A ext t s r m)"

definition cond_present :: "cond_api \<Rightarrow> cluster_extension \<Rightarrow> string \<Rightarrow> bool" where
  "cond_present A ext t \<longleftrightarrow> apiFindStatusCondition A (conditions ext) t \<noteq> None"

definition same_object :: "cluster_extension \<Rightarrow> cluster_extension \<Rightarrow> bool" where
  "same_object a b \<longleftrightarrow> ce_Name a = ce_Name b \<and> ce_Generation a = ce_Generation b \<and> ce_Labels a = ce_Labels b
     \<and> ce_Annotations a = ce_Annotations b \<and> ce_DeletionTimestamp a = ce_DeletionTimestamp b \<and> ce_Spec a = ce_Spec b"

lemma length_truncationSuffix: "length truncationSuffix = 25"
  by (simp add: truncationSuffix_def newline_def)

lemma truncateMessage_length: "length (truncateMessage m) \<le> maxConditionMessageLength"
  by (simp add: truncateMessage_def length_truncationSuffix Let_def)

lemma truncateMessage_short: "length m \<le> maxConditionMessageLength \<Longrightarrow> truncateMessage m = m"
  by (simp add: truncateMessage_def)

lemma set_conditions_sel [simp]:
  "ce_Generation (set_conditions cs ext) = ce_Generation ext" "ce_Spec (set_conditions cs ext) = ce_Spec ext"
  "conditions (set_conditions cs ext) = cs" "st_Install (ce_Status (set_conditions cs ext)) = st_Install (ce_Status ext)"
  "same_object (set_conditions cs ext) e = same_object ext e" "ce_Finalizers (set_conditions cs ext) = ce_Finalizers ext"
  "ce_Name (set_conditions cs ext) = ce_Name ext"
  by (simp_all add: set_conditions_def same_object_def)

lemma set_condition_sel [simp]:
  "ce_Generation (set_condition A ext t s r m) = ce_Generation ext"
  "ce_Spec (set_condition A ext t s r m) = ce_Spec ext"
  "st_Install (ce_Status (set_condition A ext t s r m)) = st_Install (ce_Status ext)"
  "same_object (set_condition A ext t s r m) e = same_object ext e"
  "ce_Finalizers (set_condition A ext t s r m) = ce_Finalizers ext"
  "ce_Name (set_condition A ext t s r m) = ce_Name ext"
  by (simp_all add: set_condition_def)

lemma setInstallStatus_sel [simp]:
  "ce_Generation (setInstallStatus ext i) = ce_Generation ext" "ce_Spec (setInstallStatus ext i) = ce_Spec ext"
  "conditions (setInstallStatus ext i) = conditions ext" "st_Install (ce_Status (setInstallStatus ext i)) = i"
  "same_object (setInstallStatus ext i) e = same_object ext e" "ce_Finalizers (setInstallStatus ext i) = ce_Finalizers ext"
  "has_cond A (setInstallStatus ext i) t s r m = has_cond A ext t s r m"
  "cond_present A (setInstallStatus ext i) t = cond_present A ext t" "ce_Name (setInstallStatus ext i) = ce_Name ext"
  by (simp_all add: setInstallStatus_def same_object_def has_cond_def cond_present_def)

lemma same_object_refl [simp]: "same_object e e"
  by (simp add: same_object_def)

lemma has_cond_set [cond_facts]:
  assumes "cond_laws A"
  shows "has_cond A (set_condition A ext t s r m) t' s' r' m' \<longleftrightarrow>
    (if t' = t then s' = s \<and> r' = r \<and> m' = truncateMessage m else has_cond A ext t' s' r' m')"
proof (cases "t' = t")
  case True
  obtain d where "apiFindStatusCondition A (conditions (set_condition A ext t s r m)) t = Some d"
    "cond_like d (mk_cond t s r (truncateMessage m) (ce_Generation ext))"
    using cond_laws_set_same [OF assms, of "conditions ext" "mk_cond t s r (truncateMessage m) (ce_Generation ext)"]
    by (auto simp: set_condition_def SetStatusCondition_def mk_cond_def)
  then show ?thesis
    using True by (auto simp: has_cond_def cond_like_def mk_cond_def)
next
  case False
  then show ?thesis
    using cond_laws_set_other [OF assms, of t' "(mk_cond t s r m (ce_Generation ext))\<lparr>cond_Message := truncateMessage m\<rparr>"]
    by (simp add: has_cond_def set_condition_def SetStatusCondition_def mk_cond_def)
qed

lemma cond_present_set [cond_facts]:
  assumes "cond_laws A"
  shows "cond_present A (set_condition A ext t s r m) t' \<longleftrightarrow> t' = t \<or> cond_present A ext t'"
  using cond_laws_set_same [OF assms, of "conditions ext" "(mk_cond t s r m (ce_Generation ext))\<lparr>cond_Message := truncateMessage m\<rparr>"]
    cond_laws_set_other [OF assms, of t' "(mk_cond t s r m (ce_Generation ext))\<lparr>cond_Message := truncateMessage m\<rparr>"]
  by (cases "t' = t") (auto simp: cond_present_def set_condition_def SetStatusCondition_def mk_cond_def)

lemma cond_current_set [cond_facts]:
  "cond_laws A \<Longrightarrow> cond_current A (set_condition A ext t s r m) t' \<longleftrightarrow> t' = t \<or> cond_current A ext t'"
  by (metis cond_current_def has_cond_set)

lemma cond_current_deprecation [cond_facts]:
  "cond_laws A \<Longrightarrow> cond_current A (deprecation_condition A ext t ms n) t' \<longleftrightarrow> t' = t \<or> cond_current A ext t'"
  by (simp add: deprecation_condition_def cond_current_set)

lemma deprecation_condition_sel [simp]:
  "ce_Generation (deprecation_condition A ext t ms n) = ce_Generation ext"
  "ce_Spec (deprecation_condition A ext t ms n) = ce_Spec ext"
  "st_Install (ce_Status (deprecation_condition A ext t ms n)) = st_Install (ce_Status ext)"
  "same_object (deprecation_condition A ext t ms n) e = same_object ext e"
  by (simp_all add: deprecation_condition_def)

lemma has_cond_deprecation [cond_facts]:
  assumes "cond_laws A"
  shows "has_cond A (deprecation_condition A ext t ms n) t' s r m \<longleftrightarrow>
    (if t' = t then (if ms \<noteq> [] then s = ConditionTrue \<and> r = ReasonDeprecated \<and> m = truncateMessage (join_str newline ms)
                     else s = ConditionFalse \<and> r = ReasonNotDeprecated \<and> m = truncateMessage n)
     else has_cond A ext t' s r m)"
  by (simp add: deprecation_condition_def has_cond_set [OF assms])

lemma sort_entries_filter:
  "sort_entries chs n es info = info
     \<lparr>PackageEntries := PackageEntries info @ filter (\<lambda>e. dep_Schema e = SchemaPackage) es,
      ChannelEntries := ChannelEntries info @ filter (\<lambda>e. dep_Schema e = SchemaChannel \<and> (chs = [] \<or> dep_Name e \<in> set chs)) es,
      BundleEntries := BundleEntries info @ filter (\<lambda>e. dep_Schema e = SchemaBundle \<and> n \<noteq> [] \<and> dep_Name e = n) es\<rparr>"
  by (induction es arbitrary: info) simp_all

lemma collect_messages: "collectDeprecationMessages es = filter (\<lambda>m. m \<noteq> []) (map dep_Message es)"
  by (induction es) simp_all

lemma SetDeprecationStatus_same_object [simp]:
  "same_object (SetDeprecationStatus A ext n d c) e = same_object ext e"
  "st_Install (ce_Status (SetDeprecationStatus A ext n d c)) = st_Install (ce_Status ext)"
  "ce_Spec (SetDeprecationStatus A ext n d c) = ce_Spec ext"
  "ce_Generation (SetDeprecationStatus A ext n d c) = ce_Generation ext"
  by (simp_all add: SetDeprecationStatus_def Let_def)

lemma progressing_terminal:
  "is_terminal e \<Longrightarrow> fst (progressing_status (Some e)) = ConditionFalse"
  "\<not> is_terminal e \<Longrightarrow> progressing_status (Some e) = (ConditionTrue, ReasonRetrying, SanitizeNetworkError (Some e))"
  by (simp_all add: progressing_status_def UnwrapTerminal_not)

lemma ensure_conditions_present:
  assumes "cond_laws A"
  shows "cond_present A (ensure_conditions A r m ts ext) t \<longleftrightarrow>
    cond_present A ext t \<or> (t \<in> set ts \<and> \<not> isDeprecationCondition t)"
proof (induction ts arbitrary: ext)
  case (Cons u us)
  show ?case
    by (auto simp: Cons.IH cond_present_set [OF assms] cond_present_def [of A ext] split: option.splits)
qed simp

lemma ensure_conditions_keeps:
  assumes "cond_laws A" "cond_present A ext t"
  shows "has_cond A (ensure_conditions A r m ts ext) t s r' m' = has_cond A ext t s r' m'"
  using assms(2)
proof (induction ts arbitrary: ext)
  case (Cons u us)
  show ?case
    using Cons.prems
    by (auto simp: Cons.IH cond_present_set [OF assms(1)] has_cond_set [OF assms(1)] cond_present_def [of A ext]
        split: option.splits)
qed simp

lemma ensure_conditions_same [simp]:
  "same_object (ensure_conditions A r m ts ext) e = same_object ext e"
  "st_Install (ce_Status (ensure_conditions A r m ts ext)) = st_Install (ce_Status ext)"
  by (induction ts arbitrary: ext) (simp_all split: option.splits)

section \<open>Properties\<close>

text \<open>
  A condition set through the wrapper is present afterwards with the type, status and reason
  asked for, with a message that fits the limit of Kubernetes, equal to the given one whenever that one fits,
  and otherwise its longest fitting prefix followed by the truncation marker.
\<close>

lemma SetStatusCondition_bounded:
  assumes "cond_laws A"
  shows "\<exists>d. apiFindStatusCondition A (SetStatusCondition A cs c) (cond_Type c) = Some d
    \<and> cond_Status d = cond_Status c \<and> cond_Reason d = cond_Reason c
    \<and> length (cond_Message d) \<le> 32768
    \<and> (if length (cond_Message c) \<le> 32768 then cond_Message d = cond_Message c
       else cond_Message d = take (32768 - length truncationSuffix) (cond_Message c) @ truncationSuffix)"
proof -
  obtain d where "apiFindStatusCondition A (SetStatusCondition A cs c) (cond_Type c) = Some d"
    "cond_like d (c\<lparr>cond_Message := truncateMessage (cond_Message c)\<rparr>)"
    using cond_laws_set_same [OF assms, of cs "c\<lparr>cond_Message := truncateMessage (cond_Message c)\<rparr>"]
    by (auto simp: SetStatusCondition_def)
  then show ?thesis
    using truncateMessage_length [of "cond_Message c"]
    by (auto simp: cond_like_def truncateMessage_def Let_def)
qed

lemma SetStatusCondition_bounded_witness:
  "\<exists>d. apiFindStatusCondition (doc_cond_api 7) (SetStatusCondition (doc_cond_api 7) []
       (mk_cond ''Installed'' ''True'' ''Succeeded'' (replicate 40000 CHR ''x'') 3)) ''Installed'' = Some d
    \<and> length (cond_Message d) \<le> 32768"
  using SetStatusCondition_bounded [OF doc_cond_laws, of 7 "[]" "mk_cond ''Installed'' ''True'' ''Succeeded'' (replicate 40000 CHR ''x'') 3"]
  by (auto simp: mk_cond_def)

text \<open>
  The Progressing condition after a reconciliation step: Succeeded without an error; Retrying with the
  sanitised error text for a retryable error; status False for a terminal error, with the reason the
  error was created with and the text without the terminal prefix.
\<close>

lemma setStatusProgressing_table:
  assumes "cond_laws A"
  shows "has_cond A (setStatusProgressing A ext None) TypeProgressing ConditionTrue ReasonSucceeded ''Desired state reached''
    \<and> (\<not> is_terminal e \<longrightarrow> has_cond A (setStatusProgressing A ext (Some e)) TypeProgressing ConditionTrue ReasonRetrying
           (truncateMessage (SanitizeNetworkError (Some e))))
    \<and> has_cond A (setStatusProgressing A ext (Some (NewTerminalError r e))) TypeProgressing ConditionFalse r
           (truncateMessage (SanitizeNetworkError (Some e)))
    \<and> (as_reason e = None \<longrightarrow> has_cond A (setStatusProgressing A ext (Some (ErrTerminal e))) TypeProgressing
           ConditionFalse ReasonBlocked (truncateMessage (SanitizeNetworkError (Some e))))
    \<and> (t \<noteq> TypeProgressing \<longrightarrow> has_cond A (setStatusProgressing A ext oe) t s r' m = has_cond A ext t s r' m)"
  by (auto simp: setStatusProgressing_def progressing_status_def has_cond_set [OF assms] truncateMessage_short
      NewTerminalError_def ExtractTerminalReason_def UnwrapTerminal_def SanitizeNetworkError_def split: prod.splits)

lemma setStatusProgressing_table_witness:
  "has_cond (doc_cond_api 7) (setStatusProgressing (doc_cond_api 7) ex_extension
     (Some (NewTerminalError ReasonInvalidConfiguration (ErrText ''bad''))))
     TypeProgressing ConditionFalse ReasonInvalidConfiguration (truncateMessage (SanitizeNetworkError (Some (ErrText ''bad''))))"
  using setStatusProgressing_table [OF doc_cond_laws, of 7 ex_extension "ErrText ''bad''" ReasonInvalidConfiguration] by simp

text \<open>
  With catalog data, the deprecation conditions report exactly the deprecation entries that
  concern the extension and carry a message: package entries, entries of a requested channel (of any channel if none
  is requested) and entries of the installed bundle; the summary condition is true when one of the three is.
\<close>

lemma SetDeprecationStatus_meaning:
  assumes "cond_laws A" "src_Catalog (spec_Source (ce_Spec ext)) = Some cf"
  shows "((\<exists>m. has_cond A (SetDeprecationStatus A ext n (Some d) True) TypePackageDeprecated ConditionTrue ReasonDeprecated m)
      \<longleftrightarrow> (\<exists>e \<in> set (dep_Entries d). dep_Schema e = SchemaPackage \<and> dep_Message e \<noteq> []))
    \<and> ((\<exists>m. has_cond A (SetDeprecationStatus A ext n (Some d) True) TypeChannelDeprecated ConditionTrue ReasonDeprecated m)
      \<longleftrightarrow> (\<exists>e \<in> set (dep_Entries d). dep_Schema e = SchemaChannel
            \<and> (cf_Channels cf = [] \<or> dep_Name e \<in> set (cf_Channels cf)) \<and> dep_Message e \<noteq> []))
    \<and> ((\<exists>m. has_cond A (SetDeprecationStatus A ext n (Some d) True) TypeBundleDeprecated ConditionTrue ReasonDeprecated m)
      \<longleftrightarrow> n \<noteq> [] \<and> (\<exists>e \<in> set (dep_Entries d). dep_Schema e = SchemaBundle \<and> dep_Name e = n \<and> dep_Message e \<noteq> []))
    \<and> ((\<exists>m. has_cond A (SetDeprecationStatus A ext n (Some d) True) TypeDeprecated ConditionTrue ReasonDeprecated m)
      \<longleftrightarrow> (\<exists>t \<in> {TypePackageDeprecated, TypeChannelDeprecated, TypeBundleDeprecated}. \<exists>m.
            has_cond A (SetDeprecationStatus A ext n (Some d) True) t ConditionTrue ReasonDeprecated m))"
proof -
  define ps where "ps = collectDeprecationMessages (filter (\<lambda>e. dep_Schema e = SchemaPackage) (dep_Entries d))"
  define cs where "cs = collectDeprecationMessages (filter (\<lambda>e. dep_Schema e = SchemaChannel
      \<and> (cf_Channels cf = [] \<or> dep_Name e \<in> set (cf_Channels cf))) (dep_Entries d))"
  define bs where "bs = collectDeprecationMessages (filter (\<lambda>e. dep_Schema e = SchemaBundle \<and> n \<noteq> [] \<and> dep_Name e = n) (dep_Entries d))"
  have info: "collectDeprecationMessages (PackageEntries (buildDeprecationInfo ext n (Some d))) = ps"
    "collectDeprecationMessages (ChannelEntries (buildDeprecationInfo ext n (Some d))) = cs"
    "collectDeprecationMessages (BundleEntries (buildDeprecationInfo ext n (Some d))) = bs"
    "BundleStatus (buildDeprecationInfo ext n (Some d)) = ConditionUnknown \<longleftrightarrow> n = []"
    by (simp_all add: buildDeprecationInfo_def assms(2) sort_entries_filter Let_def ps_def cs_def bs_def)
  have eq: "SetDeprecationStatus A ext n (Some d) True =
      (let ext3 = deprecation_condition A (deprecation_condition A (deprecation_condition A ext TypeDeprecated
             (ps @ cs @ bs) ''not deprecated'') TypePackageDeprecated ps ''package not deprecated'')
             TypeChannelDeprecated cs ''channel not deprecated''
       in if n = [] then set_condition A ext3 TypeBundleDeprecated ConditionUnknown ReasonAbsent ''no bundle installed yet''
          else deprecation_condition A ext3 TypeBundleDeprecated bs ''bundle not deprecated'')"
    unfolding SetDeprecationStatus_def Let_def info by simp
  have nb: "n = [] \<Longrightarrow> bs = []"
    by (simp add: bs_def)
  have ne: "ps \<noteq> [] \<longleftrightarrow> (\<exists>e \<in> set (dep_Entries d). dep_Schema e = SchemaPackage \<and> dep_Message e \<noteq> [])"
    "cs \<noteq> [] \<longleftrightarrow> (\<exists>e \<in> set (dep_Entries d). dep_Schema e = SchemaChannel
        \<and> (cf_Channels cf = [] \<or> dep_Name e \<in> set (cf_Channels cf)) \<and> dep_Message e \<noteq> [])"
    "n \<noteq> [] \<Longrightarrow> bs \<noteq> [] \<longleftrightarrow> (\<exists>e \<in> set (dep_Entries d). dep_Schema e = SchemaBundle \<and> dep_Name e = n \<and> dep_Message e \<noteq> [])"
    by (auto simp: ps_def cs_def bs_def collect_messages filter_empty_conv)
  show ?thesis
    unfolding eq Let_def ne(1) [symmetric] ne(2) [symmetric]
    by (cases "n = []") (simp_all add: has_cond_set [OF assms(1)] has_cond_deprecation [OF assms(1)] nb ne(3) [symmetric])
qed

lemma SetDeprecationStatus_meaning_witness:
  "(\<exists>m. has_cond (doc_cond_api 7) (SetDeprecationStatus (doc_cond_api 7) ex_extension ''op.v1.0.0''
       (Some \<lparr>dep_Package = ''op'', dep_Entries = [\<lparr>dep_Schema = SchemaBundle, dep_Name = ''op.v1.0.0'', dep_Message = ''old''\<rparr>]\<rparr>) True)
     TypeBundleDeprecated ConditionTrue ReasonDeprecated m)"
proof -
  have "src_Catalog (spec_Source (ce_Spec ex_extension)) = Some ex_filter"
    by (simp add: ex_extension_def)
  from SetDeprecationStatus_meaning [OF doc_cond_laws this, of 7 "''op.v1.0.0''"
      "\<lparr>dep_Package = ''op'', dep_Entries = [\<lparr>dep_Schema = SchemaBundle, dep_Name = ''op.v1.0.0'', dep_Message = ''old''\<rparr>]\<rparr>"]
  show ?thesis by simp
qed

text \<open>
  An entry that deprecates the installed bundle without a message is not reported: the bundle
  condition comes out false with reason NotDeprecated.
\<close>

lemma SetDeprecationStatus_empty_message:
  assumes "cond_laws A" "n \<noteq> []"
    "\<forall>e \<in> set (dep_Entries d). dep_Schema e = SchemaBundle \<and> dep_Name e = n \<and> dep_Message e = []"
  shows "has_cond A (SetDeprecationStatus A ext n (Some d) True) TypeBundleDeprecated ConditionFalse ReasonNotDeprecated
           ''bundle not deprecated''"
proof -
  have "collectDeprecationMessages (filter P (dep_Entries d)) = []" for P
    using assms(3) by (simp add: collect_messages filter_empty_conv)
  then show ?thesis
    using assms(2)
    by (simp add: SetDeprecationStatus_def Let_def buildDeprecationInfo_def sort_entries_filter
        has_cond_deprecation [OF assms(1)] truncateMessage_short)
qed

lemma SetDeprecationStatus_empty_message_witness:
  "has_cond (doc_cond_api 7) (SetDeprecationStatus (doc_cond_api 7) ex_extension ''op.v1.0.0''
       (Some \<lparr>dep_Package = ''op'', dep_Entries = [\<lparr>dep_Schema = SchemaBundle, dep_Name = ''op.v1.0.0'', dep_Message = []\<rparr>]\<rparr>) True)
     TypeBundleDeprecated ConditionFalse ReasonNotDeprecated ''bundle not deprecated''"
  by (rule SetDeprecationStatus_empty_message [OF doc_cond_laws]) simp_all

text \<open>
  All four deprecation conditions are present after every call, for this generation of the object,
  and no other condition is touched.
\<close>

lemma SetDeprecationStatus_complete:
  assumes "cond_laws A"
  shows "(\<forall>t. isDeprecationCondition t \<longrightarrow> (\<exists>s r m. has_cond A (SetDeprecationStatus A ext n d c) t s r m))
    \<and> (\<forall>t s r m. \<not> isDeprecationCondition t \<longrightarrow>
         has_cond A (SetDeprecationStatus A ext n d c) t s r m = has_cond A ext t s r m)"
proof (intro conjI allI impI)
  fix t assume "isDeprecationCondition t"
  then show "\<exists>s r m. has_cond A (SetDeprecationStatus A ext n d c) t s r m"
    unfolding cond_current_def [symmetric] isDeprecationCondition_def SetDeprecationStatus_def Let_def
    by (elim disjE; cases c; simp add: cond_current_set [OF assms] cond_current_deprecation [OF assms])
next
  fix t s r m assume "\<not> isDeprecationCondition t"
  then show "has_cond A (SetDeprecationStatus A ext n d c) t s r m = has_cond A ext t s r m"
    unfolding SetDeprecationStatus_def Let_def isDeprecationCondition_def
    by (cases c; simp add: has_cond_set [OF assms] has_cond_deprecation [OF assms])
qed

lemma SetDeprecationStatus_complete_witness:
  "\<exists>s r m. has_cond (doc_cond_api 7) (SetDeprecationStatus (doc_cond_api 7) ex_extension [] None False)
     TypeChannelDeprecated s r m"
  using SetDeprecationStatus_complete [OF doc_cond_laws, of 7 ex_extension "[]" None False]
  by (simp add: isDeprecationCondition_def)

text \<open>
  Adding the resolved bundle to an error keeps its nature: terminal errors stay terminal with the
  reason they were created with, others stay retryable, and the text is the given one behind the context.
\<close>

lemma wrapErrorWithResolutionInfo_preserves:
  shows "is_terminal (wrapErrorWithResolutionInfo b e) = is_terminal e
    \<and> ExtractTerminalReason (Some (wrapErrorWithResolutionInfo b (NewTerminalError r e'))) = Some r
    \<and> (\<exists>context. \<forall>e'. Error (wrapErrorWithResolutionInfo b (NewTerminalError r e')) = ''terminal error: '' @ context @ Error e'
         \<and> (\<not> is_terminal e' \<longrightarrow> Error (wrapErrorWithResolutionInfo b e') = context @ Error e'))"
proof -
  have 1: "is_terminal (wrapErrorWithResolutionInfo b e) = is_terminal e"
    by (simp add: wrapErrorWithResolutionInfo_def Let_def NewTerminalError_def split: option.splits)
  have 2: "ExtractTerminalReason (Some (wrapErrorWithResolutionInfo b (NewTerminalError r e'))) = Some r"
    by (simp add: wrapErrorWithResolutionInfo_def Let_def go_err)
  have 3: "Error (wrapErrorWithResolutionInfo b (NewTerminalError r e')) = ''terminal error: '' @
        (''error for resolved bundle '' @ quote (bm_Name b) @ '' with version '' @ quote (bm_Version b) @ '': '') @ Error e'
      \<and> (\<not> is_terminal e' \<longrightarrow> Error (wrapErrorWithResolutionInfo b e') =
        (''error for resolved bundle '' @ quote (bm_Name b) @ '' with version '' @ quote (bm_Version b) @ '': '') @ Error e')" for e'
    by (simp add: wrapErrorWithResolutionInfo_def Let_def NewTerminalError_def ExtractTerminalReason_def UnwrapTerminal_def)
  show ?thesis
    using 1 2 3 by blast
qed

lemma wrapErrorWithResolutionInfo_preserves_witness:
  "ExtractTerminalReason (Some (wrapErrorWithResolutionInfo \<lparr>bm_Name = ''op'', bm_Version = ''1.0.0''\<rparr>
     (NewTerminalError ReasonInvalidConfiguration (ErrText ''bad'')))) = Some ReasonInvalidConfiguration"
  using wrapErrorWithResolutionInfo_preserves [of "\<lparr>bm_Name = ''op'', bm_Version = ''1.0.0''\<rparr>" "ErrText ''x''"
      ReasonInvalidConfiguration "ErrText ''bad''"] by blast

text \<open>
  A terminal error that was wrapped on the way up is reported without the wrapping context and with the
  terminal prefix: the text between the outer layer and the terminal error is lost.
\<close>

lemma setStatusProgressing_wrapped_terminal:
  assumes "cond_laws A"
  shows "\<exists>r. has_cond A (setStatusProgressing A ext (Some (ErrWrap p (ErrTerminal e)))) TypeProgressing ConditionFalse r
    (truncateMessage (SanitizeNetworkError (Some (ErrText (''terminal error: '' @ Error e)))))"
  by (simp add: setStatusProgressing_def progressing_status_def has_cond_set [OF assms] UnwrapTerminal_def
      SanitizeNetworkError_def)

lemma setStatusProgressing_wrapped_terminal_witness:
  "\<exists>r. has_cond (doc_cond_api 7) (setStatusProgressing (doc_cond_api 7) ex_extension
       (Some (ErrWrap ''outer: '' (ErrTerminal (ErrText ''inner''))))) TypeProgressing ConditionFalse r
    (truncateMessage (SanitizeNetworkError (Some (ErrText (''terminal error: '' @ Error (ErrText ''inner''))))))"
  by (rule setStatusProgressing_wrapped_terminal [OF doc_cond_laws])

end
