(* ===== verification/ExtensionSteps.thy ===== *)
theory ExtensionSteps
  imports Status Resolve
begin

text \<open>
  The reconciliation of a ClusterExtension: the steps of
  \<^verbatim>\<open>controllers/clusterextension_reconcile_steps.go\<close>, the step runner and \<^verbatim>\<open>Reconcile\<close> of
  \<^verbatim>\<open>controllers/clusterextension_controller.go\<close> and the Helm revision states.
  A step gets the shared \<^verbatim>\<open>reconcile_state\<close> and the extension and returns both updated with
  the result pointer (None for nil) or the error.  The state \<^verbatim>\<open>'w\<close> of the outside world
  (API server, registries, caches) is threaded through the calls, which are arguments:
  the finalizer, the resolver, the puller, the applier, the client.
  Logging and the two name helpers used only for it are left out.
\<close>

section \<open>State\<close>

record ctrl_result =
  RequeueAfter :: int

definition zero_result :: ctrl_result where
  "zero_result = \<lparr>RequeueAfter = 0\<rparr>"

record 'fs reconcile_state =
  revisionStates :: "revision_states option"
  resolvedRevisionMetadata :: "revision_metadata option"
  imageFS :: "'fs option"
  resolvedDeprecation :: "fbc_deprecation option"
  hasCatalogData :: bool

definition zero_state :: "'fs reconcile_state" where
  "zero_state = \<lparr>revisionStates = None, resolvedRevisionMetadata = None, imageFS = None,
     resolvedDeprecation = None, hasCatalogData = False\<rparr>"

type_synonym ('w, 'fs) outcome = "'w \<times> 'fs reconcile_state \<times> cluster_extension \<times> ctrl_result option res"

type_synonym ('w, 'fs) step = "'w \<Rightarrow> 'fs reconcile_state \<Rightarrow> cluster_extension \<Rightarrow> ('w, 'fs) outcome"

definition nil_deref :: goerr where
  "nil_deref = ErrPanic ''invalid memory address or nil pointer dereference''"

section \<open>Finalizers, validation, revision states\<close>

record finalize_result =
  Updated :: bool
  StatusUpdated :: bool

definition HandleFinalizers ::
  "cond_api \<Rightarrow> ('w \<Rightarrow> cluster_extension \<Rightarrow> 'w \<times> cluster_extension \<times> finalize_result res) \<Rightarrow> ('w, 'fs) step" where
  "HandleFinalizers A Finalize w state ext =
     (case Finalize w ext of (w', ext', r) \<Rightarrow>
        (case r of
           Inl err \<Rightarrow> (w', state, setStatusProgressing A ext' (Some err), Inl err)
         | Inr finalizeResult \<Rightarrow>
             if Updated finalizeResult \<or> StatusUpdated finalizeResult then (w', state, ext', Inr (Some zero_result))
             else if ce_DeletionTimestamp ext' \<noteq> None then (w', state, ext', Inr (Some zero_result))
             else (w', state, ext', Inr None)))"

fun run_validators ::
  "('w \<Rightarrow> cluster_extension \<Rightarrow> 'w \<times> goerr option) list \<Rightarrow> 'w \<Rightarrow> cluster_extension \<Rightarrow> 'w \<times> goerr list" where
  "run_validators [] w ext = (w, [])"
| "run_validators (v # vs) w ext =
     (case v w ext of (w', oe) \<Rightarrow>
        case run_validators vs w' ext of (w'', es) \<Rightarrow>
          (w'', (case oe of Some e \<Rightarrow> e # es | None \<Rightarrow> es)))"

definition ValidateClusterExtension ::
  "cond_api \<Rightarrow> ('w \<Rightarrow> cluster_extension \<Rightarrow> 'w \<times> goerr option) list \<Rightarrow> ('w, 'fs) step" where
  "ValidateClusterExtension A validators w state ext =
     (case run_validators validators w ext of (w', validationErrors) \<Rightarrow>
        if length validationErrors = 0 then (w', state, ext, Inr None)
        else
          let err = ErrWrap ''operation cannot proceed due to the following validation error(s): ''
                      (ErrJoin validationErrors);
              ext1 = setInstalledStatusConditionUnknown A ext (Error err);
              ext2 = setStatusProgressing A ext1 (Some err)
          in (w', state, ext2, Inl err))"

definition ServiceAccountValidator ::
  "('w \<Rightarrow> string \<Rightarrow> string \<Rightarrow> 'w \<times> goerr option) \<Rightarrow> 'w \<Rightarrow> cluster_extension \<Rightarrow> 'w \<times> goerr option" where
  "ServiceAccountValidator getServiceAccount w ext =
     (let ns = spec_Namespace (ce_Spec ext); name = spec_ServiceAccount (ce_Spec ext) in
      case getServiceAccount w ns name of (w', oe) \<Rightarrow>
        (case oe of
           Some err \<Rightarrow>
             if as_status err = Some ''NotFound''
             then (w', Some (ErrText (''service account '' @ quote name @ '' not found in namespace '' @ quote ns)))
             else (w', Some (ErrWrap ''error getting service account: '' err))
         | None \<Rightarrow> (w', None)))"

definition RetrieveRevisionStates ::
  "cond_api \<Rightarrow> ('w \<Rightarrow> cluster_extension \<Rightarrow> 'w \<times> revision_states res) \<Rightarrow> ('w, 'fs) step" where
  "RetrieveRevisionStates A GetRevisionStates w state ext =
     (case GetRevisionStates w ext of (w', r) \<Rightarrow>
        (case r of
           Inl err \<Rightarrow>
             let ext1 = setInstallStatus ext None;
                 ext2 = setInstalledStatusConditionUnknown A ext1 (Error err);
                 ext3 = setStatusProgressing A ext2 (Some (ErrText ''retrying to get installed bundle''))
             in (w', state, ext3, Inl err)
         | Inr rs \<Rightarrow> (w', state\<lparr>revisionStates := Some rs\<rparr>, ext, Inr None)))"

section \<open>Resolution\<close>

record 'w catalog_client =
  ListCatalogs :: "'w \<Rightarrow> selector option \<Rightarrow> 'w \<times> cluster_catalog list res"
  SelectorOf :: "label_selector option \<Rightarrow> selector res"
  IsNoMatchError :: "goerr \<Rightarrow> bool"

definition CheckCatalogsExist ::
  "'w catalog_client \<Rightarrow> 'w \<Rightarrow> cluster_extension \<Rightarrow> 'w \<times> bool res" where
  "CheckCatalogsExist c w ext =
     (let finish = (\<lambda>(w', r). (w', (case r of
            Inl listErr \<Rightarrow> if IsNoMatchError c listErr then Inr False
                           else Inl (ErrWrap ''failed to list ClusterCatalogs: '' listErr)
          | Inr items \<Rightarrow> Inr (length items > 0))))
      in case src_Catalog (spec_Source (ce_Spec ext)) of
           None \<Rightarrow> finish (ListCatalogs c w None)
         | Some cf \<Rightarrow>
             (case cf_Selector cf of
                None \<Rightarrow> finish (ListCatalogs c w None)
              | Some sel \<Rightarrow>
                  (case SelectorOf c (Some sel) of
                     Inl err \<Rightarrow> (w, Inl (ErrWrap ''invalid catalog selector: '' err))
                   | Inr selector \<Rightarrow> finish (ListCatalogs c w (Some selector)))))"

definition resolution_failed ::
  "cond_api \<Rightarrow> revision_states \<Rightarrow> cluster_extension \<Rightarrow> goerr \<Rightarrow> string \<Rightarrow> cluster_extension" where
  "resolution_failed A rs ext err msg =
     ensureFailureConditionsWithReason A
       (setInstalledStatusFromRevisionStates A (setStatusProgressing A ext (Some err)) rs) ReasonRetrying msg"

definition handleResolutionError ::
  "cond_api \<Rightarrow> 'w catalog_client \<Rightarrow> revision_states \<Rightarrow> 'w \<Rightarrow> 'fs reconcile_state \<Rightarrow> cluster_extension \<Rightarrow> goerr
   \<Rightarrow> ('w, 'fs) outcome" where
  "handleResolutionError A c rs w state ext err =
     (case Installed rs of
        None \<Rightarrow> (w, state, resolution_failed A rs ext err (''failed to resolve bundle: '' @ Error err), Inl err)
      | Some installed \<Rightarrow>
          let specVersion = (case src_Catalog (spec_Source (ce_Spec ext)) of Some cf \<Rightarrow> cf_Version cf | None \<Rightarrow> []);
              installedVersion = bm_Version (rm_BundleMetadata installed)
          in if specVersion \<noteq> [] \<and> specVersion \<noteq> installedVersion
             then (w, state, resolution_failed A rs ext err
                     (''unable to upgrade to version '' @ specVersion @ '': '' @ Error err
                      @ '' (currently installed: '' @ installedVersion @ '')''), Inl err)
             else case CheckCatalogsExist c w ext of (w', r) \<Rightarrow>
               (case r of
                  Inl catalogCheckErr \<Rightarrow>
                    (w', state, resolution_failed A rs ext err (''failed to resolve bundle: '' @ Error err), Inl err)
                | Inr catalogsExist \<Rightarrow>
                    if catalogsExist
                    then (w', state, resolution_failed A rs ext err
                            (''failed to resolve bundle, retrying: '' @ Error err), Inl err)
                    else (w', state\<lparr>resolvedRevisionMetadata := Some installed\<rparr>,
                          setInstalledStatusFromRevisionStates A ext rs, Inr None)))"

type_synonym 'w resolver =
  "'w \<Rightarrow> cluster_extension \<Rightarrow> bundle_metadata option
   \<Rightarrow> 'w \<times> (goerr \<times> fbc_deprecation option + fbc_bundle \<times> version_release \<times> fbc_deprecation option)"

definition ResolveBundle ::
  "bundle_libs \<Rightarrow> cond_api \<Rightarrow> 'w resolver \<Rightarrow> 'w catalog_client \<Rightarrow> ('w, 'fs) step" where
  "ResolveBundle S A r c w state ext =
     (case revisionStates state of
        None \<Rightarrow> (w, state, ext, Inl nil_deref)
      | Some rs \<Rightarrow>
          let installedBundleName = (case Installed rs of Some i \<Rightarrow> bm_Name (rm_BundleMetadata i) | None \<Rightarrow> []) in
          if length (RollingOut rs) > 0
          then (w, state\<lparr>resolvedRevisionMetadata := Some (RollingOut rs ! 0)\<rparr>,
                SetDeprecationStatus A ext installedBundleName None False, Inr None)
          else
            case r w ext (map_option rm_BundleMetadata (Installed rs)) of (w', out) \<Rightarrow>
              let deprecation = (case out of Inl (_, d) \<Rightarrow> d | Inr (_, _, d) \<Rightarrow> d);
                  catalogData = ((case out of Inr _ \<Rightarrow> True | Inl _ \<Rightarrow> False) \<or> deprecation \<noteq> None);
                  state1 = state\<lparr>resolvedDeprecation := deprecation, hasCatalogData := catalogData\<rparr>;
                  ext1 = SetDeprecationStatus A ext installedBundleName deprecation catalogData
              in (case out of
                    Inl (err, _) \<Rightarrow> handleResolutionError A c rs w' state1 ext1 err
                  | Inr (b, vr, _) \<Rightarrow>
                      (w', state1\<lparr>resolvedRevisionMetadata := Some
                         \<lparr>rm_RevisionName = [], rm_Package = bndl_Package b, rm_Image = bndl_Image b,
                          rm_BundleMetadata = MetadataFor S (bndl_Name b) (AsLegacyRegistryV1Version S vr),
                          rm_Conditions = []\<rparr>\<rparr>, ext1, Inr None)))"

section \<open>Unpacking and applying\<close>

definition bundle_unchanged :: "revision_states option \<Rightarrow> revision_metadata \<Rightarrow> bool" where
  "bundle_unchanged ors resolved =
     (case ors of
        None \<Rightarrow> False
      | Some rs \<Rightarrow>
          (case Installed rs of
             None \<Rightarrow> False
           | Some i \<Rightarrow> bm_Name (rm_BundleMetadata resolved) = bm_Name (rm_BundleMetadata i)
               \<and> bm_Version (rm_BundleMetadata resolved) = bm_Version (rm_BundleMetadata i)))"

definition UnpackBundle ::
  "cond_api \<Rightarrow> ('w \<Rightarrow> string \<Rightarrow> string \<Rightarrow> 'w \<times> 'fs res) \<Rightarrow> ('w, 'fs) step" where
  "UnpackBundle A Pull w state ext =
     (case resolvedRevisionMetadata state of
        None \<Rightarrow> (w, state, ext, Inl (ErrText ''unable to retrieve bundle information''))
      | Some resolved \<Rightarrow>
          (case Pull w (ce_Name ext) (rm_Image resolved) of (w', r) \<Rightarrow>
             (case r of
                Inl err \<Rightarrow>
                  if bundle_unchanged (revisionStates state) resolved
                  then (w', state\<lparr>imageFS := None\<rparr>, ext, Inr None)
                  else
                    let ext1 = setStatusProgressing A ext
                                 (Some (wrapErrorWithResolutionInfo (rm_BundleMetadata resolved) err))
                    in (case revisionStates state of
                          None \<Rightarrow> (w', state, ext1, Inl nil_deref)
                        | Some rs \<Rightarrow> (w', state, setInstalledStatusFromRevisionStates A ext1 rs, Inl err))
              | Inr fs \<Rightarrow> (w', state\<lparr>imageFS := Some fs\<rparr>, ext, Inr None))))"

abbreviation OwnerKindKey :: string where "OwnerKindKey \<equiv> ''olm.operatorframework.io/owner-kind''"
abbreviation OwnerNameKey :: string where "OwnerNameKey \<equiv> ''olm.operatorframework.io/owner-name''"
abbreviation PackageNameKey :: string where "PackageNameKey \<equiv> ''olm.operatorframework.io/package-name''"
abbreviation BundleNameKey :: string where "BundleNameKey \<equiv> ''olm.operatorframework.io/bundle-name''"
abbreviation BundleVersionKey :: string where "BundleVersionKey \<equiv> ''olm.operatorframework.io/bundle-version''"
abbreviation BundleReferenceKey :: string where "BundleReferenceKey \<equiv> ''olm.operatorframework.io/bundle-reference''"

definition revision_annotations :: "revision_metadata \<Rightarrow> labels" where
  "revision_annotations resolved =
     [(BundleNameKey, bm_Name (rm_BundleMetadata resolved)), (PackageNameKey, rm_Package resolved),
      (BundleVersionKey, bm_Version (rm_BundleMetadata resolved)), (BundleReferenceKey, rm_Image resolved)]"

definition owner_labels :: "cluster_extension \<Rightarrow> labels" where
  "owner_labels ext = [(OwnerKindKey, ClusterExtensionKind), (OwnerNameKey, ce_Name ext)]"

type_synonym ('w, 'fs) applier =
  "'w \<Rightarrow> 'fs option \<Rightarrow> cluster_extension \<Rightarrow> labels \<Rightarrow> labels \<Rightarrow> 'w \<times> bool \<times> string \<times> goerr option"

definition ApplyBundle :: "cond_api \<Rightarrow> ('w, 'fs) applier \<Rightarrow> ('w, 'fs) step" where
  "ApplyBundle A apply_fn w state ext =
     (case resolvedRevisionMetadata state of
        None \<Rightarrow> (w, state, ext, Inl nil_deref)
      | Some resolved \<Rightarrow>
          (case apply_fn w (imageFS state) ext (owner_labels ext) (revision_annotations resolved) of
             (w', rolloutSucceeded, rolloutStatus, oerr) \<Rightarrow>
               (case (if rolloutSucceeded then Some \<lparr>Installed = Some resolved, RollingOut = []\<rparr>
                      else case revisionStates state of
                             None \<Rightarrow> None
                           | Some rs0 \<Rightarrow>
                               if oerr = None \<and> Installed rs0 = None \<and> length (RollingOut rs0) = 0
                               then Some \<lparr>Installed = None, RollingOut = [resolved]\<rparr>
                               else Some rs0) of
                  None \<Rightarrow> (w', state, ext, Inl nil_deref)
                | Some rs \<Rightarrow>
                    let state1 = state\<lparr>revisionStates := Some rs\<rparr>;
                        ext1 = setInstalledStatusFromRevisionStates A ext rs;
                        ext2 = (case Installed rs of
                                  Some i \<Rightarrow> if rolloutSucceeded
                                    then SetDeprecationStatus A ext1 (bm_Name (rm_BundleMetadata i))
                                           (resolvedDeprecation state) (hasCatalogData state)
                                    else ext1
                                | None \<Rightarrow> ext1)
                    in (case oerr of
                          Some err \<Rightarrow>
                            (w', state1, setStatusProgressing A ext2
                               (Some (wrapErrorWithResolutionInfo (rm_BundleMetadata resolved) err)), Inl err)
                        | None \<Rightarrow>
                            if \<not> rolloutSucceeded
                            then (w', state1, set_conditions (apiSetStatusCondition A (conditions ext2)
                                    (mk_cond TypeProgressing ConditionTrue ReasonRollingOut rolloutStatus
                                       (ce_Generation ext2))) ext2, Inr None)
                            else (w', state1, setStatusProgressing A ext2 None, Inr None)))))"

section \<open>Running the steps\<close>

fun run_steps ::
  "('w, 'fs) step list \<Rightarrow> 'w \<Rightarrow> 'fs reconcile_state \<Rightarrow> cluster_extension
   \<Rightarrow> 'w \<times> cluster_extension \<times> ctrl_result \<times> goerr option" where
  "run_steps [] w s ext = (w, ext, zero_result, None)"
| "run_steps (step # steps) w s ext =
     (case step w s ext of (w', s', ext', r) \<Rightarrow>
        (case r of
           Inl err \<Rightarrow> (w', ext', zero_result, Some err)
         | Inr (Some res) \<Rightarrow> (w', ext', res, None)
         | Inr None \<Rightarrow> run_steps steps w' s' ext'))"

definition ReconcileSteps_Reconcile ::
  "('w, 'fs) step list \<Rightarrow> 'w \<Rightarrow> cluster_extension \<Rightarrow> 'w \<times> cluster_extension \<times> ctrl_result \<times> goerr option" where
  "ReconcileSteps_Reconcile steps w ext = run_steps steps w zero_state ext"

definition CheckForUnexpectedFieldChange :: "cluster_extension \<Rightarrow> cluster_extension \<Rightarrow> bool" where
  "CheckForUnexpectedFieldChange a b =
     (if ce_Annotations a \<noteq> ce_Annotations b then True
      else if ce_Labels a \<noteq> ce_Labels b then True
      else ce_Spec a \<noteq> ce_Spec b)"

record 'w ext_client =
  GetExtension :: "'w \<Rightarrow> string \<Rightarrow> 'w \<times> cluster_extension res"
  UpdateStatus :: "'w \<Rightarrow> cluster_extension \<Rightarrow> 'w \<times> goerr option"
  PatchFinalizers :: "'w \<Rightarrow> cluster_extension \<Rightarrow> string list \<Rightarrow> 'w \<times> goerr option"

definition add_error :: "goerr option \<Rightarrow> string \<Rightarrow> goerr option \<Rightarrow> goerr option" where
  "add_error reconcileErr context oerr =
     (case oerr of None \<Rightarrow> reconcileErr
      | Some err \<Rightarrow> join_opts [reconcileErr, Some (ErrText (context @ Error err))])"

definition Reconcile ::
  "'w ext_client \<Rightarrow> ('w, 'fs) step list \<Rightarrow> 'w \<Rightarrow> string \<Rightarrow> 'w \<times> ctrl_result \<times> goerr option" where
  "Reconcile c steps w name =
     (case GetExtension c w name of (w0, r) \<Rightarrow>
        (case r of
           Inl err \<Rightarrow> (w0, zero_result, if as_status err = Some ''NotFound'' then None else Some err)
         | Inr existingExt \<Rightarrow>
             (case ReconcileSteps_Reconcile steps w0 existingExt of (w1, reconciledExt, res, reconcileErr) \<Rightarrow>
                let updateStatus = (ce_Status existingExt \<noteq> ce_Status reconciledExt);
                    updateFinalizers = (ce_Finalizers existingExt \<noteq> ce_Finalizers reconciledExt)
                in if CheckForUnexpectedFieldChange existingExt reconciledExt
                   then (w1, res, Some (ErrPanic ''spec or metadata changed by reconciler''))
                   else
                     let (w2, err2) = (if updateStatus
                           then (case UpdateStatus c w1 reconciledExt of (w2, oe) \<Rightarrow>
                                   (w2, add_error reconcileErr ''error updating status: '' oe))
                           else (w1, reconcileErr));
                         (w3, err3) = (if updateFinalizers
                           then (case PatchFinalizers c w2 reconciledExt (ce_Finalizers reconciledExt) of (w3, oe) \<Rightarrow>
                                   (w3, add_error err2 ''error updating finalizers: '' oe))
                           else (w2, err2))
                     in (w3, res, err3))))"

section \<open>Revision states from Helm releases\<close>

record helm_release =
  hr_Name :: string
  hr_Version :: int
  hr_Status :: "string option"
  hr_Labels :: labels
  hr_Manifest :: string

definition label_of :: "labels \<Rightarrow> string \<Rightarrow> string" where
  "label_of ls k = (case map_of ls k of Some v \<Rightarrow> v | None \<Rightarrow> [])"

definition metadata_of_labels :: "labels \<Rightarrow> revision_metadata" where
  "metadata_of_labels ls =
     \<lparr>rm_RevisionName = [], rm_Package = label_of ls PackageNameKey, rm_Image = label_of ls BundleReferenceKey,
      rm_BundleMetadata = \<lparr>bm_Name = label_of ls BundleNameKey, bm_Version = label_of ls BundleVersionKey\<rparr>,
      rm_Conditions = []\<rparr>"

fun first_deployed :: "helm_release list \<Rightarrow> revision_metadata option" where
  "first_deployed [] = None"
| "first_deployed (rel # rels) =
     (if hr_Status rel = Some ''deployed'' then Some (metadata_of_labels (hr_Labels rel)) else first_deployed rels)"

definition HelmGetRevisionStates ::
  "('w \<Rightarrow> cluster_extension \<Rightarrow> 'w \<times> ('w \<Rightarrow> string \<Rightarrow> 'w \<times> goerr option \<times> helm_release list) res) \<Rightarrow> (goerr \<Rightarrow> bool)
   \<Rightarrow> 'w \<Rightarrow> cluster_extension \<Rightarrow> 'w \<times> revision_states res" where
  "HelmGetRevisionStates ActionClientFor isReleaseNotFound w ext =
     (case ActionClientFor w ext of
        (w', Inl err) \<Rightarrow> (w', Inl err)
      | (w', Inr History) \<Rightarrow>
          (case History w' (ce_Name ext) of (w'', oerr, relhis) \<Rightarrow>
             if (case oerr of Some err \<Rightarrow> \<not> isReleaseNotFound err | None \<Rightarrow> False) then (w'', Inl (the oerr))
             else if length relhis = 0 then (w'', Inr \<lparr>Installed = None, RollingOut = []\<rparr>)
             else (w'', Inr \<lparr>Installed = first_deployed relhis, RollingOut = []\<rparr>)))"

section \<open>Lemmas\<close>

lemma setStatusProgressing_same [simp]:
  "same_object (setStatusProgressing A ext err) e = same_object ext e"
  "st_Install (ce_Status (setStatusProgressing A ext err)) = st_Install (ce_Status ext)"
  "ce_Generation (setStatusProgressing A ext err) = ce_Generation ext"
  "ce_Finalizers (setStatusProgressing A ext err) = ce_Finalizers ext"
  by (simp_all add: setStatusProgressing_def split: prod.splits)

lemma setInstalledStatus_same [simp]:
  "same_object (setInstalledStatusFromRevisionStates A ext rs) e = same_object ext e"
  "ce_Generation (setInstalledStatusFromRevisionStates A ext rs) = ce_Generation ext"
  "same_object (setInstalledStatusConditionUnknown A ext m) e = same_object ext e"
  "st_Install (ce_Status (setInstalledStatusFromRevisionStates A ext rs)) = map_option rm_BundleMetadata (Installed rs)"
  by (simp_all add: setInstalledStatusFromRevisionStates_def setInstalledStatusConditionFalse_def
      setInstalledStatusConditionSuccess_def setInstalledStatusConditionUnknown_def split: option.splits)

lemma resolution_failed_same [simp]: "same_object (resolution_failed A rs ext err msg) e = same_object ext e"
  by (simp add: resolution_failed_def ensureFailureConditionsWithReason_def)

lemma cond_present_progressing [cond_facts]:
  "cond_laws A \<Longrightarrow> cond_present A (setStatusProgressing A ext err) t \<longleftrightarrow> t = TypeProgressing \<or> cond_present A ext t"
  by (simp add: setStatusProgressing_def cond_present_set split: prod.splits)

lemma cond_present_installed [cond_facts]:
  "cond_laws A \<Longrightarrow> cond_present A (setInstalledStatusFromRevisionStates A ext rs) t \<longleftrightarrow>
     t = TypeInstalled \<or> cond_present A ext t"
  by (simp add: setInstalledStatusFromRevisionStates_def setInstalledStatusConditionFalse_def
      setInstalledStatusConditionSuccess_def cond_present_set split: option.splits)

lemma cond_present_failed [cond_facts]:
  "cond_laws A \<Longrightarrow> cond_present A (resolution_failed A rs ext err msg) t \<longleftrightarrow>
     t = TypeInstalled \<or> t = TypeProgressing \<or> cond_present A ext t"
  unfolding resolution_failed_def ensureFailureConditionsWithReason_def ensure_conditions_present
  by (auto simp: cond_present_installed cond_present_progressing ConditionTypes_def isDeprecationCondition_def)

lemma has_cond_progressing_other [cond_facts]:
  "cond_laws A \<Longrightarrow> t \<noteq> TypeProgressing \<Longrightarrow>
     has_cond A (setStatusProgressing A ext err) t s r m = has_cond A ext t s r m"
  by (simp add: setStatusProgressing_def has_cond_set split: prod.splits)

lemma has_cond_installed_other [cond_facts]:
  "cond_laws A \<Longrightarrow> t \<noteq> TypeInstalled \<Longrightarrow>
     has_cond A (setInstalledStatusFromRevisionStates A ext rs) t s r m = has_cond A ext t s r m"
  by (simp add: setInstalledStatusFromRevisionStates_def setInstalledStatusConditionFalse_def
      setInstalledStatusConditionSuccess_def has_cond_set split: option.splits)

lemma has_cond_installed [cond_facts]:
  "cond_laws A \<Longrightarrow> Installed rs = Some i \<Longrightarrow>
     has_cond A (setInstalledStatusFromRevisionStates A ext rs) TypeInstalled ConditionTrue ReasonSucceeded
       (truncateMessage (''Installed bundle '' @ rm_Image i @ '' successfully''))"
  "cond_laws A \<Longrightarrow> Installed rs = None \<Longrightarrow>
     has_cond A (setInstalledStatusFromRevisionStates A ext rs) TypeInstalled ConditionFalse
       (determineFailureReason A (RollingOut rs)) ''No bundle installed''"
  by (simp_all add: setInstalledStatusFromRevisionStates_def setInstalledStatusConditionFalse_def
      setInstalledStatusConditionSuccess_def has_cond_set truncateMessage_short)

lemma cond_current_present: "cond_current A ext t \<Longrightarrow> cond_present A ext t"
  by (auto simp: cond_current_def cond_present_def has_cond_def)

lemma SetDeprecationStatus_present:
  assumes "cond_laws A"
  shows "cond_present A (SetDeprecationStatus A ext n d c) t \<longleftrightarrow> isDeprecationCondition t \<or> cond_present A ext t"
  unfolding SetDeprecationStatus_def Let_def isDeprecationCondition_def deprecation_condition_def
  by (auto simp: cond_present_set [OF assms])

lemma wrap_is_terminal: "is_terminal (wrapErrorWithResolutionInfo b e) = is_terminal e"
  by (simp add: wrapErrorWithResolutionInfo_def Let_def NewTerminalError_def split: option.splits)

section \<open>The contract of a step\<close>

text \<open>
  A step may change the status and the finalizers, never the spec, the identity or the other
  metadata; a list of such steps keeps the object, whatever the outside world does.
\<close>

locale object_keeping =
  fixes step :: "('w, 'fs) step"
  assumes keeps: "step w s ext = (w', s', ext', r) \<Longrightarrow> same_object ext' ext"

locale object_keeping_steps =
  fixes steps :: "('w, 'fs) step list"
  assumes all_keep: "step \<in> set steps \<Longrightarrow> object_keeping step"
begin

lemma run_keeps: "run_steps steps w s ext = (w', ext', res, err) \<Longrightarrow> same_object ext' ext"
  using all_keep
proof (induction steps w s ext rule: run_steps.induct)
  case (2 step steps w s ext)
  obtain w1 s1 ext1 r where st: "step w s ext = (w1, s1, ext1, r)"
    by (cases "step w s ext")
  have step: "same_object ext1 ext"
    using object_keeping.keeps [OF 2(3) [of step] st] by simp
  show ?case
  proof (cases "r = Inr None")
    case True
    then have "same_object ext' ext1"
      using 2(1) [OF st [symmetric]] 2(2,3) st by simp
    then show ?thesis
      using step by (simp add: same_object_def)
  next
    case False
    then have "ext' = ext1"
      using 2(2) st by (auto split: sum.splits option.splits)
    then show ?thesis using step by simp
  qed
qed simp

lemma no_unexpected_change:
  assumes "run_steps steps w s ext = (w', ext', res, err)"
  shows "\<not> CheckForUnexpectedFieldChange ext ext'"
  using run_keeps [OF assms] by (simp add: same_object_def CheckForUnexpectedFieldChange_def)

end

interpretation validate: object_keeping "ValidateClusterExtension A vs" for A vs
  by unfold_locales (auto simp: ValidateClusterExtension_def Let_def split: prod.splits if_splits)

interpretation retrieve: object_keeping "RetrieveRevisionStates A g" for A g
  by unfold_locales (auto simp: RetrieveRevisionStates_def Let_def split: prod.splits sum.splits)

interpretation unpack: object_keeping "UnpackBundle A p" for A p
  by unfold_locales (auto simp: UnpackBundle_def Let_def split: prod.splits sum.splits option.splits if_splits)

lemma handleResolutionError_same:
  "handleResolutionError A c rs w st ext err = (w', st', ext', r) \<Longrightarrow> same_object ext' e = same_object ext e"
  by (auto simp: handleResolutionError_def Let_def split: option.splits prod.splits sum.splits if_splits)

interpretation resolve_step: object_keeping "ResolveBundle S A r c" for S A r c
proof
  fix w s ext w' s' ext' x
  assume "ResolveBundle S A r c w s ext = (w', s', ext', x)"
  then show "same_object ext' ext"
    by (auto simp: ResolveBundle_def Let_def handleResolutionError_same
        split: option.splits prod.splits sum.splits if_splits)
qed

interpretation apply_step: object_keeping "ApplyBundle A a" for A a
proof
  fix w s ext w' s' ext' x
  assume "ApplyBundle A a w s ext = (w', s', ext', x)"
  then show "same_object ext' ext"
    by (auto simp: ApplyBundle_def Let_def split: option.splits prod.splits if_splits)
qed

lemma CheckCatalogsExist_same:
  "ce_Spec ext = ce_Spec ext' \<Longrightarrow> CheckCatalogsExist c w ext = CheckCatalogsExist c w ext'"
  by (simp add: CheckCatalogsExist_def)

definition helm_steps where
  "helm_steps S A Finalize getServiceAccount GetRevisionStates resolver client Pull apply_fn =
     [HandleFinalizers A Finalize,
      ValidateClusterExtension A [ServiceAccountValidator getServiceAccount],
      RetrieveRevisionStates A GetRevisionStates,
      ResolveBundle S A resolver client,
      UnpackBundle A Pull,
      ApplyBundle A apply_fn]"

lemma HandleFinalizers_keeps:
  assumes "\<And>w e w' e' x. Finalize w e = (w', e', x) \<Longrightarrow> same_object e' e"
  shows "object_keeping (HandleFinalizers A Finalize)"
  using assms by unfold_locales (auto simp: HandleFinalizers_def split: prod.splits sum.splits if_splits)

interpretation helm_work: object_keeping_steps
  "tl (helm_steps S A Finalize sa g r c p a)" for S A Finalize sa g r c p a
  by (rule object_keeping_steps.intro)
    (auto simp: helm_steps_def intro: validate.object_keeping_axioms retrieve.object_keeping_axioms
      resolve_step.object_keeping_axioms unpack.object_keeping_axioms apply_step.object_keeping_axioms)

definition version_kept :: "cluster_extension \<Rightarrow> revision_metadata \<Rightarrow> bool" where
  "version_kept ext i \<longleftrightarrow>
     (case src_Catalog (spec_Source (ce_Spec ext)) of None \<Rightarrow> True
      | Some cf \<Rightarrow> cf_Version cf = [] \<or> cf_Version cf = bm_Version (rm_BundleMetadata i))"

lemma handleResolutionError_cases:
  "(\<exists>msg w2. \<not> (\<exists>i. Installed rs = Some i \<and> version_kept ext i \<and> snd (CheckCatalogsExist c w ext) = Inr False) \<and>
      handleResolutionError A c rs w st ext err = (w2, st, resolution_failed A rs ext err msg, Inl err))
   \<or> (\<exists>i w2. Installed rs = Some i \<and> version_kept ext i \<and> snd (CheckCatalogsExist c w ext) = Inr False \<and>
      handleResolutionError A c rs w st ext err = (w2, st\<lparr>resolvedRevisionMetadata := Some i\<rparr>,
        setInstalledStatusFromRevisionStates A ext rs, Inr None))"
proof (cases "Installed rs")
  case None
  then show ?thesis
    by (auto simp: handleResolutionError_def)
next
  case (Some i)
  define v where "v = (case src_Catalog (spec_Source (ce_Spec ext)) of Some cf \<Rightarrow> cf_Version cf | None \<Rightarrow> [])"
  have ver: "version_kept ext i \<longleftrightarrow> \<not> (v \<noteq> [] \<and> v \<noteq> bm_Version (rm_BundleMetadata i))"
    by (auto simp: v_def version_kept_def split: option.splits)
  obtain w2 x where x: "CheckCatalogsExist c w ext = (w2, x)"
    by (cases "CheckCatalogsExist c w ext")
  have eq: "handleResolutionError A c rs w st ext err =
      (if v \<noteq> [] \<and> v \<noteq> bm_Version (rm_BundleMetadata i)
       then (w, st, resolution_failed A rs ext err (''unable to upgrade to version '' @ v @ '': '' @ Error err
               @ '' (currently installed: '' @ bm_Version (rm_BundleMetadata i) @ '')''), Inl err)
       else case x of
          Inl e \<Rightarrow> (w2, st, resolution_failed A rs ext err (''failed to resolve bundle: '' @ Error err), Inl err)
        | Inr True \<Rightarrow> (w2, st, resolution_failed A rs ext err (''failed to resolve bundle, retrying: '' @ Error err), Inl err)
        | Inr False \<Rightarrow> (w2, st\<lparr>resolvedRevisionMetadata := Some i\<rparr>, setInstalledStatusFromRevisionStates A ext rs, Inr None))"
    unfolding handleResolutionError_def Some Let_def v_def [symmetric] x by (simp split: sum.splits bool.splits)
  show ?thesis
  proof (cases "version_kept ext i \<and> x = Inr False")
    case True
    then show ?thesis
      using Some by (simp add: eq ver x)
  next
    case False
    then have "\<exists>msg w2. handleResolutionError A c rs w st ext err = (w2, st, resolution_failed A rs ext err msg, Inl err)"
      unfolding eq ver by (auto split: sum.splits bool.splits)
    then show ?thesis
      using False Some x by auto
  qed
qed

section \<open>Properties\<close>

text \<open>A finalizer, revision states and a client for the witnesses.\<close>

definition ex_finalize :: "'w \<Rightarrow> cluster_extension \<Rightarrow> 'w \<times> cluster_extension \<times> finalize_result res" where
  "ex_finalize w e = (w, e, Inr \<lparr>Updated = False, StatusUpdated = False\<rparr>)"

definition ex_client :: "cluster_catalog list \<Rightarrow> 'w catalog_client" where
  "ex_client cats = \<lparr>ListCatalogs = (\<lambda>w s. (w, Inr cats)), SelectorOf = (\<lambda>_. Inr Everything),
     IsNoMatchError = (\<lambda>_. False)\<rparr>"

definition ex_states :: revision_states where
  "ex_states = \<lparr>Installed = Some \<lparr>rm_RevisionName = [], rm_Package = ''op'', rm_Image = ''img'',
     rm_BundleMetadata = \<lparr>bm_Name = ''op.v1.0.0'', bm_Version = ''1.0.0''\<rparr>, rm_Conditions = []\<rparr>, RollingOut = []\<rparr>"

lemma prod_cases4_eq: "p = (fst p, fst (snd p), fst (snd (snd p)), snd (snd (snd p)))"
  by simp



text \<open>
  C35: when resolution fails and no revision is rolling out, the extension keeps its installed bundle exactly
  if one is installed, no other version is requested, and the check for catalogs succeeds and finds none;
  then the installed bundle is what is unpacked and applied next. In every other case the resolution error is returned and no
  bundle is selected. All six condition types are present afterwards, except the Progressing condition, which the fallback leaves as it was.
\<close>

theorem ResolveBundle_failure:
  assumes "cond_laws A" "revisionStates st = Some rs" "RollingOut rs = []"
    "r w ext (map_option rm_BundleMetadata (Installed rs)) = (w1, Inl (err, d))"
    "ResolveBundle S A r c w st ext = (w', st', ext', out)"
  shows "(out = Inr None \<longleftrightarrow> (\<exists>i. Installed rs = Some i \<and> version_kept ext i
        \<and> snd (CheckCatalogsExist c w1 ext) = Inr False))
    \<and> (out = Inr None \<longrightarrow> resolvedRevisionMetadata st' = Installed rs)
    \<and> (out \<noteq> Inr None \<longrightarrow> out = Inl err \<and> resolvedRevisionMetadata st' = resolvedRevisionMetadata st)
    \<and> (\<forall>t \<in> set ConditionTypes. out \<noteq> Inr None \<or> t \<noteq> TypeProgressing \<longrightarrow> cond_present A ext' t)"
proof -
  define n where "n = (case Installed rs of Some i \<Rightarrow> bm_Name (rm_BundleMetadata i) | None \<Rightarrow> [])"
  define ext1 where "ext1 = SetDeprecationStatus A ext n d (d \<noteq> None)"
  define st1 where "st1 = st\<lparr>resolvedDeprecation := d, hasCatalogData := (d \<noteq> None)\<rparr>"
  have h: "handleResolutionError A c rs w1 st1 ext1 err = (w', st', ext', out)"
    using assms(2-5) by (simp add: ResolveBundle_def Let_def ext1_def st1_def n_def)
  have spec: "ce_Spec ext1 = ce_Spec ext"
    by (simp add: ext1_def)
  have kept: "version_kept ext1 i = version_kept ext i" for i
    by (simp add: version_kept_def spec)
  have chk: "CheckCatalogsExist c w1 ext1 = CheckCatalogsExist c w1 ext"
    by (rule CheckCatalogsExist_same [OF spec])
  have pres: "t = TypeInstalled \<or> t = TypeProgressing \<or> cond_present A ext1 t" if "t \<in> set ConditionTypes" for t
    using that
    by (auto simp: ext1_def SetDeprecationStatus_present [OF assms(1)] ConditionTypes_def isDeprecationCondition_def)
  note present = cond_present_failed [OF assms(1)] cond_present_installed [OF assms(1)]
  have st1: "resolvedRevisionMetadata st1 = resolvedRevisionMetadata st"
    by (simp add: st1_def)
  from handleResolutionError_cases [of rs ext1 c w1 A st1 err]
  show ?thesis
    unfolding kept chk h
  proof (elim disjE exE conjE)
    fix msg w2
    assume no: "\<not> (\<exists>i. Installed rs = Some i \<and> version_kept ext i \<and> snd (CheckCatalogsExist c w1 ext) = Inr False)"
      and eq: "(w', st', ext', out) = (w2, st1, resolution_failed A rs ext1 err msg, Inl err)"
    have "cond_present A ext' t" if "t \<in> set ConditionTypes" for t
      using pres [OF that] eq by (auto simp: present)
    then show ?thesis
      using no eq st1 by simp
  next
    fix i w2
    assume yes: "Installed rs = Some i" "version_kept ext i" "snd (CheckCatalogsExist c w1 ext) = Inr False"
      and eq: "(w', st', ext', out) = (w2, st1\<lparr>resolvedRevisionMetadata := Some i\<rparr>,
          setInstalledStatusFromRevisionStates A ext1 rs, Inr None)"
    have "cond_present A ext' t" if "t \<in> set ConditionTypes" "t \<noteq> TypeProgressing" for t
      using pres [OF that(1)] that(2) eq by (auto simp: present)
    then show ?thesis
      using yes eq by simp
  qed
qed

theorem ResolveBundle_failure_witness:
  "let out = ResolveBundle plain_libs (doc_cond_api 7) (\<lambda>w e ib. (w, Inl (ErrText ''no catalog'', None))) (ex_client []) (0::nat)
       (zero_state\<lparr>revisionStates := Some ex_states\<rparr> :: unit reconcile_state) ex_extension
   in resolvedRevisionMetadata (fst (snd out)) = Installed ex_states"
proof -
  define out where "out = ResolveBundle plain_libs (doc_cond_api 7) (\<lambda>w e ib. (w, Inl (ErrText ''no catalog'', None))) (ex_client []) (0::nat)
       (zero_state\<lparr>revisionStates := Some ex_states\<rparr> :: unit reconcile_state) ex_extension"
  have out: "ResolveBundle plain_libs (doc_cond_api 7) (\<lambda>w e ib. (w, Inl (ErrText ''no catalog'', None))) (ex_client []) (0::nat)
       (zero_state\<lparr>revisionStates := Some ex_states\<rparr> :: unit reconcile_state) ex_extension
       = (fst out, fst (snd out), fst (snd (snd out)), snd (snd (snd out)))"
    unfolding out_def by (rule prod_cases4_eq)
  have "version_kept ex_extension (the (Installed ex_states))"
    "snd (CheckCatalogsExist (ex_client []) (0::nat) ex_extension) = Inr False"
    by (simp_all add: version_kept_def CheckCatalogsExist_def ex_client_def ex_extension_def ex_filter_def)
  then show ?thesis
    using ResolveBundle_failure [OF doc_cond_laws _ _ _ out, of ex_states "0::nat" "ErrText ''no catalog''" None]
    unfolding out_def [symmetric] Let_def by (simp add: ex_states_def)
qed

text \<open>
  After the apply step reports a completed rollout without an error, the resolved bundle is the installed one:
  in the state, in the install status, in the Installed condition (true), while Progressing is Succeeded and the
  deprecation conditions are those of the newly installed bundle.
\<close>

lemma ApplyBundle_rolled_out:
  assumes "cond_laws A" "resolvedRevisionMetadata st = Some m"
    "a w (imageFS st) ext (owner_labels ext) (revision_annotations m) = (w1, True, status, None)"
    "ApplyBundle A a w st ext = (w', st', ext', out)"
  shows "out = Inr None \<and> w' = w1
    \<and> revisionStates st' = Some \<lparr>Installed = Some m, RollingOut = []\<rparr>
    \<and> st_Install (ce_Status ext') = Some (rm_BundleMetadata m)
    \<and> has_cond A ext' TypeInstalled ConditionTrue ReasonSucceeded
         (truncateMessage (''Installed bundle '' @ rm_Image m @ '' successfully''))
    \<and> has_cond A ext' TypeProgressing ConditionTrue ReasonSucceeded ''Desired state reached''
    \<and> (\<forall>t s r msg. isDeprecationCondition t \<longrightarrow> has_cond A ext' t s r msg =
         has_cond A (SetDeprecationStatus A (setInstalledStatusFromRevisionStates A ext \<lparr>Installed = Some m, RollingOut = []\<rparr>)
           (bm_Name (rm_BundleMetadata m)) (resolvedDeprecation st) (hasCatalogData st)) t s r msg)"
proof -
  let ?rs = "\<lparr>Installed = Some m, RollingOut = []\<rparr>"
  let ?dep = "SetDeprecationStatus A (setInstalledStatusFromRevisionStates A ext ?rs) (bm_Name (rm_BundleMetadata m))
      (resolvedDeprecation st) (hasCatalogData st)"
  have eq: "w' = w1" "st' = st\<lparr>revisionStates := Some ?rs\<rparr>" "ext' = setStatusProgressing A ?dep None" "out = Inr None"
    using assms(2-4) by (simp_all add: ApplyBundle_def Let_def)
  have other: "has_cond A ext' t s r msg = has_cond A ?dep t s r msg" if "t \<noteq> TypeProgressing" for t s r msg
    unfolding eq(3) by (rule has_cond_progressing_other [OF assms(1) that])
  have inst: "has_cond A ?dep TypeInstalled s r msg =
      has_cond A (setInstalledStatusFromRevisionStates A ext ?rs) TypeInstalled s r msg" for s r msg
    unfolding SetDeprecationStatus_def Let_def
    by (simp add: has_cond_set [OF assms(1)] has_cond_deprecation [OF assms(1)])
  have prog: "has_cond A ext' TypeProgressing ConditionTrue ReasonSucceeded ''Desired state reached''"
    unfolding eq(3) setStatusProgressing_def progressing_status_def
    by (simp add: has_cond_set [OF assms(1)] truncateMessage_short)
  show ?thesis
    using eq(1,2,4) prog other has_cond_installed(1) [OF assms(1), of ?rs m ext] inst
    by (auto simp: eq(3) isDeprecationCondition_def)
qed

lemma ApplyBundle_rolled_out_witness:
  "let out = ApplyBundle (doc_cond_api 7) (\<lambda>w fs e l r. (w, True, [], None)) (0::nat)
       (zero_state\<lparr>resolvedRevisionMetadata := Installed ex_states\<rparr> :: unit reconcile_state) ex_extension
   in revisionStates (fst (snd out)) = Some ex_states"
proof -
  define out where "out = ApplyBundle (doc_cond_api 7) (\<lambda>w fs e l r. (w, True, [], None)) (0::nat)
       (zero_state\<lparr>resolvedRevisionMetadata := Installed ex_states\<rparr> :: unit reconcile_state) ex_extension"
  have out: "ApplyBundle (doc_cond_api 7) (\<lambda>w fs e l r. (w, True, [], None)) (0::nat)
       (zero_state\<lparr>resolvedRevisionMetadata := Installed ex_states\<rparr> :: unit reconcile_state) ex_extension
       = (fst out, fst (snd out), fst (snd (snd out)), snd (snd (snd out)))"
    unfolding out_def by (rule prod_cases4_eq)
  show ?thesis
    using ApplyBundle_rolled_out [OF doc_cond_laws _ _ out, of "the (Installed ex_states)" 0 "[]"]
    unfolding out_def [symmetric] Let_def by (simp add: ex_states_def)
qed

text \<open>
  A bundle image that cannot be pulled stops the reconciliation only when the bundle changes: with the
  installed bundle resolved again the step succeeds with no content; otherwise the pull error is returned and
  Progressing shows it.
\<close>

lemma UnpackBundle_pull_error:
  assumes "cond_laws A" "revisionStates st = Some rs" "resolvedRevisionMetadata st = Some m"
    "p w (ce_Name ext) (rm_Image m) = (w1, Inl err)" "UnpackBundle A p w st ext = (w', st', ext', out)"
  shows "if \<exists>i. Installed rs = Some i \<and> rm_BundleMetadata i = rm_BundleMetadata m
    then out = Inr None \<and> imageFS st' = None \<and> ext' = ext
    else out = Inl err \<and> st' = st \<and>
      (\<exists>s r. has_cond A ext' TypeProgressing s r (truncateMessage (SanitizeNetworkError
         (UnwrapTerminal (Some (wrapErrorWithResolutionInfo (rm_BundleMetadata m) err)))))
       \<and> s = (if is_terminal err then ConditionFalse else ConditionTrue))"
proof -
  have unchanged: "bundle_unchanged (Some rs) m \<longleftrightarrow> (\<exists>i. Installed rs = Some i \<and> rm_BundleMetadata i = rm_BundleMetadata m)"
    by (auto simp: bundle_unchanged_def split: option.splits)
  show ?thesis
  proof (cases "bundle_unchanged (Some rs) m")
    case True
    then show ?thesis
      using assms(2-5) unchanged by (auto simp: UnpackBundle_def)
  next
    case False
    let ?e = "wrapErrorWithResolutionInfo (rm_BundleMetadata m) err"
    have eq: "out = Inl err" "st' = st"
      "ext' = setInstalledStatusFromRevisionStates A (setStatusProgressing A ext (Some ?e)) rs"
      using assms(2-5) False by (simp_all add: UnpackBundle_def Let_def)
    have "\<exists>r. has_cond A (setStatusProgressing A ext (Some ?e)) TypeProgressing
        (if is_terminal err then ConditionFalse else ConditionTrue) r
        (truncateMessage (SanitizeNetworkError (UnwrapTerminal (Some ?e))))"
      using wrap_is_terminal [of "rm_BundleMetadata m" err]
      by (auto simp: setStatusProgressing_def progressing_status_def has_cond_set [OF assms(1)])
    then show ?thesis
      using False unchanged eq by (auto simp: has_cond_installed_other [OF assms(1)])
  qed
qed

lemma UnpackBundle_pull_error_witness:
  "let out = UnpackBundle (doc_cond_api 7) (\<lambda>w owner i. (w, Inl (ErrText ''gone''))) (0::nat)
       (zero_state\<lparr>revisionStates := Some ex_states, resolvedRevisionMetadata := Installed ex_states\<rparr>
          :: unit reconcile_state) ex_extension
   in snd (snd (snd out)) = Inr None"
proof -
  define out where "out = UnpackBundle (doc_cond_api 7) (\<lambda>w owner i. (w, Inl (ErrText ''gone''))) (0::nat)
       (zero_state\<lparr>revisionStates := Some ex_states, resolvedRevisionMetadata := Installed ex_states\<rparr>
          :: unit reconcile_state) ex_extension"
  have out: "UnpackBundle (doc_cond_api 7) (\<lambda>w owner i. (w, Inl (ErrText ''gone''))) (0::nat)
       (zero_state\<lparr>revisionStates := Some ex_states, resolvedRevisionMetadata := Installed ex_states\<rparr>
          :: unit reconcile_state) ex_extension
       = (fst out, fst (snd out), fst (snd (snd out)), snd (snd (snd out)))"
    unfolding out_def by (rule prod_cases4_eq)
  show ?thesis
    using UnpackBundle_pull_error [OF doc_cond_laws _ _ _ out, of ex_states "the (Installed ex_states)" 0 "ErrText ''gone''"]
    unfolding out_def [symmetric] Let_def by (simp add: ex_states_def)
qed

end
