(* ===== verification/PhaseSort.thy ===== *)
theory PhaseSort
  imports Api
begin

text \<open>
  Sorting the objects of a revision into phases (\<^verbatim>\<open>applier/phase.go\<close>).  The two package
  variables that are maps are association lists; the apply configuration of an object is the
  record \<^verbatim>\<open>cos_object\<close>, whose object is present for every object that is sorted.
\<close>

section \<open>Phases\<close>

abbreviation PhaseNamespaces :: string where "PhaseNamespaces \<equiv> ''namespaces''"
abbreviation PhasePolicies :: string where "PhasePolicies \<equiv> ''policies''"
abbreviation PhaseIdentity :: string where "PhaseIdentity \<equiv> ''identity''"
abbreviation PhaseConfiguration :: string where "PhaseConfiguration \<equiv> ''configuration''"
abbreviation PhaseStorage :: string where "PhaseStorage \<equiv> ''storage''"
abbreviation PhaseCRDs :: string where "PhaseCRDs \<equiv> ''crds''"
abbreviation PhaseRoles :: string where "PhaseRoles \<equiv> ''roles''"
abbreviation PhaseBindings :: string where "PhaseBindings \<equiv> ''bindings''"
abbreviation PhaseInfrastructure :: string where "PhaseInfrastructure \<equiv> ''infrastructure''"
abbreviation PhaseDeploy :: string where "PhaseDeploy \<equiv> ''deploy''"
abbreviation PhaseScaling :: string where "PhaseScaling \<equiv> ''scaling''"
abbreviation PhasePublish :: string where "PhasePublish \<equiv> ''publish''"
abbreviation PhaseAdmission :: string where "PhaseAdmission \<equiv> ''admission''"

definition defaultPhaseOrder :: "string list" where
  "defaultPhaseOrder = [PhaseNamespaces, PhasePolicies, PhaseIdentity, PhaseConfiguration, PhaseStorage, PhaseCRDs,
     PhaseRoles, PhaseBindings, PhaseInfrastructure, PhaseDeploy, PhaseScaling, PhasePublish, PhaseAdmission]"

text \<open>Kind and group of the objects of each phase.\<close>

definition phaseGKMap :: "(string \<times> (string \<times> string) list) list" where
  "phaseGKMap =
     [(PhaseNamespaces, [(''Namespace'', [])]),
      (PhasePolicies, [(''NetworkPolicy'', ''networking.k8s.io''), (''PodDisruptionBudget'', ''policy''),
                       (''PriorityClass'', ''scheduling.k8s.io'')]),
      (PhaseIdentity, [(''ServiceAccount'', [])]),
      (PhaseConfiguration, [(''Secret'', []), (''ConfigMap'', [])]),
      (PhaseStorage, [(''PersistentVolume'', []), (''PersistentVolumeClaim'', []), (''StorageClass'', ''storage.k8s.io'')]),
      (PhaseCRDs, [(''CustomResourceDefinition'', ''apiextensions.k8s.io'')]),
      (PhaseRoles, [(''ClusterRole'', ''rbac.authorization.k8s.io''), (''Role'', ''rbac.authorization.k8s.io'')]),
      (PhaseBindings, [(''ClusterRoleBinding'', ''rbac.authorization.k8s.io''), (''RoleBinding'', ''rbac.authorization.k8s.io'')]),
      (PhaseInfrastructure, [(''Service'', []), (''Issuer'', ''cert-manager.io'')]),
      (PhaseDeploy, [(''Certificate'', ''cert-manager.io''), (''Deployment'', ''apps'')]),
      (PhaseScaling, [(''VerticalPodAutoscaler'', ''autoscaling.k8s.io'')]),
      (PhasePublish, [(''PrometheusRule'', ''monitoring.coreos.com''), (''ServiceMonitor'', ''monitoring.coreos.com''),
                      (''PodMonitor'', ''monitoring.coreos.com''), (''Ingress'', ''networking.k8s.io''),
                      (''Route'', ''route.openshift.io''), (''ConsoleYAMLSample'', ''console.openshift.io''),
                      (''ConsoleQuickStart'', ''console.openshift.io''), (''ConsoleCLIDownload'', ''console.openshift.io''),
                      (''ConsoleLink'', ''console.openshift.io''), (''ConsolePlugin'', ''console.openshift.io'')]),
      (PhaseAdmission, [(''ValidatingWebhookConfiguration'', ''admissionregistration.k8s.io''),
                        (''MutatingWebhookConfiguration'', ''admissionregistration.k8s.io'')])]"

definition gkPhaseMap :: "((string \<times> string) \<times> string) list" where
  "gkPhaseMap = concat (map (\<lambda>(phase, gks). map (\<lambda>gk. (gk, phase)) gks) phaseGKMap)"

definition determinePhase :: "string \<times> string \<Rightarrow> string" where
  "determinePhase gk = (case map_of gkPhaseMap gk of None \<Rightarrow> PhaseDeploy | Some phase \<Rightarrow> phase)"

section \<open>Sorting\<close>

definition the_object :: "cos_object \<Rightarrow> k8s_object" where
  "the_object o1 = (case co_Object o1 of Some x \<Rightarrow> x
     | None \<Rightarrow> \<lparr>obj_Group = [], obj_Version = [], obj_Kind = [], obj_Namespace = [], obj_Name = [],
               obj_Labels = [], obj_Annotations = [], obj_Metadata = [], obj_Fields = []\<rparr>)"

fun cmp_Or :: "int list \<Rightarrow> int" where
  "cmp_Or [] = 0"
| "cmp_Or (c # cs) = (if c \<noteq> 0 then c else cmp_Or cs)"

definition compareClusterObjectSetObjectApplyConfigurations :: "cos_object cmp" where
  "compareClusterObjectSetObjectApplyConfigurations a b =
     (let x = the_object a; y = the_object b in
      cmp_Or [cmp_ord (obj_Group x) (obj_Group y), cmp_ord (obj_Version x) (obj_Version y),
              cmp_ord (obj_Kind x) (obj_Kind y), cmp_ord (obj_Namespace x) (obj_Namespace y),
              cmp_ord (obj_Name x) (obj_Name y)])"

definition object_phase :: "cos_object \<Rightarrow> string" where
  "object_phase obj = determinePhase (obj_Kind (the_object obj), obj_Group (the_object obj))"

fun phase_add :: "(string \<times> cos_object list) list \<Rightarrow> string \<Rightarrow> cos_object \<Rightarrow> (string \<times> cos_object list) list" where
  "phase_add [] phase obj = [(phase, [obj])]"
| "phase_add ((p, objs) # m) phase obj =
     (if p = phase then (p, objs @ [obj]) # m else (p, objs) # phase_add m phase obj)"

fun phase_map :: "cos_object list \<Rightarrow> (string \<times> cos_object list) list \<Rightarrow> (string \<times> cos_object list) list" where
  "phase_map [] m = m"
| "phase_map (obj # objs) m = phase_map objs (phase_add m (object_phase obj) obj)"

fun emit_phases :: "(string \<times> cos_object list) list \<Rightarrow> string list \<Rightarrow> cos_phase list" where
  "emit_phases m [] = []"
| "emit_phases m (phaseName # names) =
     (case map_of m phaseName of
        Some objs \<Rightarrow> \<lparr>ph_Name = phaseName, ph_Objects = SortStableFunc compareClusterObjectSetObjectApplyConfigurations objs, ph_CollisionProtection = []\<rparr>
                      # emit_phases m names
      | None \<Rightarrow> emit_phases m names)"

definition PhaseSort :: "cos_object list \<Rightarrow> cos_phase list" where
  "PhaseSort unsortedObjs = emit_phases (phase_map unsortedObjs []) defaultPhaseOrder"

section \<open>Lemmas\<close>

lemma gkPhaseMap_distinct: "distinct (map fst gkPhaseMap)"
  by code_simp

lemma determinePhase_known: "determinePhase gk \<in> set defaultPhaseOrder"
proof (cases "map_of gkPhaseMap gk")
  case None
  then show ?thesis by (simp add: determinePhase_def defaultPhaseOrder_def)
next
  case (Some phase)
  then have "phase \<in> set (map snd gkPhaseMap)"
    by (force dest: map_of_SomeD)
  moreover have "list_all (\<lambda>p. p \<in> set defaultPhaseOrder) (map snd gkPhaseMap)"
    by code_simp
  ultimately show ?thesis
    using Some by (auto simp: determinePhase_def list_all_iff)
qed

lemma distinct_defaultPhaseOrder: "distinct defaultPhaseOrder"
  by (simp add: defaultPhaseOrder_def)

lemma compareClusterObjectSetObjectApplyConfigurations_preorder [cmp_intro]: "cmp_preorder compareClusterObjectSetObjectApplyConfigurations"
proof -
  note key = cmp_preorder_comap [OF cmp_ord_preorder]
  have "cmp_preorder (\<lambda>a b. if cmp_ord (obj_Group (the_object a)) (obj_Group (the_object b)) \<noteq> 0
      then cmp_ord (obj_Group (the_object a)) (obj_Group (the_object b))
      else if cmp_ord (obj_Version (the_object a)) (obj_Version (the_object b)) \<noteq> 0
      then cmp_ord (obj_Version (the_object a)) (obj_Version (the_object b))
      else if cmp_ord (obj_Kind (the_object a)) (obj_Kind (the_object b)) \<noteq> 0
      then cmp_ord (obj_Kind (the_object a)) (obj_Kind (the_object b))
      else if cmp_ord (obj_Namespace (the_object a)) (obj_Namespace (the_object b)) \<noteq> 0
      then cmp_ord (obj_Namespace (the_object a)) (obj_Namespace (the_object b))
      else cmp_ord (obj_Name (the_object a)) (obj_Name (the_object b)))"
    by (intro cmp_preorder_lex key)
  moreover have "compareClusterObjectSetObjectApplyConfigurations = (\<lambda>a b. if cmp_ord (obj_Group (the_object a)) (obj_Group (the_object b)) \<noteq> 0
      then cmp_ord (obj_Group (the_object a)) (obj_Group (the_object b))
      else if cmp_ord (obj_Version (the_object a)) (obj_Version (the_object b)) \<noteq> 0
      then cmp_ord (obj_Version (the_object a)) (obj_Version (the_object b))
      else if cmp_ord (obj_Kind (the_object a)) (obj_Kind (the_object b)) \<noteq> 0
      then cmp_ord (obj_Kind (the_object a)) (obj_Kind (the_object b))
      else if cmp_ord (obj_Namespace (the_object a)) (obj_Namespace (the_object b)) \<noteq> 0
      then cmp_ord (obj_Namespace (the_object a)) (obj_Namespace (the_object b))
      else cmp_ord (obj_Name (the_object a)) (obj_Name (the_object b)))"
    by (intro ext) (simp add: compareClusterObjectSetObjectApplyConfigurations_def Let_def)
  ultimately show ?thesis by simp
qed

lemma map_of_phase_add:
  "map_of (phase_add m p obj) q =
     (if q = p then Some ((case map_of m p of Some objs \<Rightarrow> objs | None \<Rightarrow> []) @ [obj]) else map_of m q)"
  by (induction m p obj rule: phase_add.induct) auto

lemma map_of_phase_map:
  "map_of (phase_map objs m) q =
     (if filter (\<lambda>x. object_phase x = q) objs = [] then map_of m q
      else Some ((case map_of m q of Some xs \<Rightarrow> xs | None \<Rightarrow> []) @ filter (\<lambda>x. object_phase x = q) objs))"
  by (induction objs m rule: phase_map.induct) (auto simp: map_of_phase_add split: option.splits)

lemma emit_phases_eq:
  "emit_phases (phase_map objs []) names =
     map (\<lambda>p. \<lparr>ph_Name = p, ph_Objects = SortStableFunc compareClusterObjectSetObjectApplyConfigurations (filter (\<lambda>x. object_phase x = p) objs),
              ph_CollisionProtection = []\<rparr>)
       (filter (\<lambda>p. \<exists>x \<in> set objs. object_phase x = p) names)"
  by (induction names) (auto simp: map_of_phase_map filter_empty_conv)

lemma PhaseSort_eq:
  "PhaseSort objs =
     map (\<lambda>p. \<lparr>ph_Name = p, ph_Objects = SortStableFunc compareClusterObjectSetObjectApplyConfigurations (filter (\<lambda>x. object_phase x = p) objs),
              ph_CollisionProtection = []\<rparr>)
       (filter (\<lambda>p. \<exists>x \<in> set objs. object_phase x = p) defaultPhaseOrder)"
  by (simp add: PhaseSort_def emit_phases_eq)

lemma mset_concat_by_key:
  assumes "distinct ks" "\<forall>x \<in> set xs. f x \<in> set ks"
  shows "mset (concat (map (\<lambda>k. filter (\<lambda>x. f x = k) xs) ks)) = mset xs"
  using assms
proof (induction ks arbitrary: xs)
  case (Cons k ks)
  have rest: "mset (concat (map (\<lambda>j. filter (\<lambda>x. f x = j) (filter (\<lambda>x. f x \<noteq> k) xs)) ks)) = mset (filter (\<lambda>x. f x \<noteq> k) xs)"
    using Cons.prems by (intro Cons.IH) auto
  have same: "map (\<lambda>j. filter (\<lambda>x. f x = j) (filter (\<lambda>x. f x \<noteq> k) xs)) ks = map (\<lambda>j. filter (\<lambda>x. f x = j) xs) ks"
    using Cons.prems(1) by (auto simp: filter_filter intro!: filter_cong)
  have "mset (concat (map (\<lambda>j. filter (\<lambda>x. f x = j) xs) (k # ks)))
      = mset (filter (\<lambda>x. f x = k) xs) + mset (filter (\<lambda>x. f x \<noteq> k) xs)"
    using rest unfolding same by simp
  also have "\<dots> = mset xs"
    using multiset_partition [of "mset xs" "\<lambda>x. f x = k"] by simp
  finally show ?case .
qed simp

lemma PhaseSort_mset: "mset (concat (map ph_Objects (PhaseSort objs))) = mset objs"
proof -
  let ?ks = "filter (\<lambda>p. \<exists>x \<in> set objs. object_phase x = p) defaultPhaseOrder"
  have "mset (concat (map (\<lambda>p. SortStableFunc compareClusterObjectSetObjectApplyConfigurations (filter (\<lambda>x. object_phase x = p) objs)) ?ks))
      = mset (concat (map (\<lambda>p. filter (\<lambda>x. object_phase x = p) objs) ?ks))"
    by (induction ?ks) (simp_all add: mset_concat comp_def mset_SortStableFunc)
  also have "\<dots> = mset objs"
    by (rule mset_concat_by_key)
      (auto simp: distinct_defaultPhaseOrder object_phase_def determinePhase_known)
  finally show ?thesis
    by (simp add: PhaseSort_eq comp_def)
qed

section \<open>Properties\<close>

text \<open>An object of a given kind and name, for the witnesses.\<close>

definition ex_object :: "string \<Rightarrow> string \<Rightarrow> string \<Rightarrow> cos_object" where
  "ex_object kind grp name =
     \<lparr>co_Object = Some \<lparr>obj_Group = grp, obj_Version = ''v1'', obj_Kind = kind, obj_Namespace = ''ns'', obj_Name = name,
        obj_Labels = [], obj_Annotations = [], obj_Metadata = [], obj_Fields = []\<rparr>,
      co_Ref = \<lparr>ref_Name = [], ref_Namespace = [], ref_Key = []\<rparr>, co_CollisionProtection = []\<rparr>"

text \<open>
  C33: sorting into phases loses and duplicates nothing: the objects of all phases together are the
  given objects; every object is in the phase its kind belongs to; the phases are non-empty, all different and in the
  well-known order, and each is sorted by group, version, kind, namespace and name.
\<close>

theorem PhaseSort_correct:
  "mset (concat (map ph_Objects (PhaseSort objs))) = mset objs
   \<and> (\<forall>ph \<in> set (PhaseSort objs). ph_Objects ph \<noteq> [] \<and> (\<forall>x \<in> set (ph_Objects ph). object_phase x = ph_Name ph)
        \<and> sorted_wrt (\<lambda>a b. compareClusterObjectSetObjectApplyConfigurations a b \<le> 0) (ph_Objects ph))
   \<and> (\<exists>sel. map ph_Name (PhaseSort objs) = filter sel defaultPhaseOrder) \<and> distinct (map ph_Name (PhaseSort objs))"
proof (intro conjI)
  let ?sel = "\<lambda>p. \<exists>x \<in> set objs. object_phase x = p"
  show "mset (concat (map ph_Objects (PhaseSort objs))) = mset objs"
    by (rule PhaseSort_mset)
  show "\<forall>ph \<in> set (PhaseSort objs). ph_Objects ph \<noteq> [] \<and> (\<forall>x \<in> set (ph_Objects ph). object_phase x = ph_Name ph)
        \<and> sorted_wrt (\<lambda>a b. compareClusterObjectSetObjectApplyConfigurations a b \<le> 0) (ph_Objects ph)"
    by (auto simp: PhaseSort_eq filter_empty_conv intro: stable.sorted compareClusterObjectSetObjectApplyConfigurations_preorder)
  show "\<exists>sel. map ph_Name (PhaseSort objs) = filter sel defaultPhaseOrder"
    by (rule exI [of _ ?sel]) (simp add: PhaseSort_eq comp_def)
  show "distinct (map ph_Name (PhaseSort objs))"
    by (simp add: PhaseSort_eq comp_def distinct_defaultPhaseOrder)
qed

theorem PhaseSort_correct_witness:
  "mset (concat (map ph_Objects (PhaseSort [ex_object ''Deployment'' ''apps'' ''d'', ex_object ''Secret'' [] ''s''])))
     = mset [ex_object ''Deployment'' ''apps'' ''d'', ex_object ''Secret'' [] ''s'']
   \<and> map ph_Name (PhaseSort [ex_object ''Deployment'' ''apps'' ''d'', ex_object ''Secret'' [] ''s''])
     = [PhaseConfiguration, PhaseDeploy]"
proof -
  have "map ph_Name (PhaseSort [ex_object ''Deployment'' ''apps'' ''d'', ex_object ''Secret'' [] ''s''])
     = [PhaseConfiguration, PhaseDeploy]"
    by code_simp
  then show ?thesis
    using PhaseSort_correct [of "[ex_object ''Deployment'' ''apps'' ''d'', ex_object ''Secret'' [] ''s'']"] by blast
qed



end
