(* ===== verification/SecretPacker.thy ===== *)
theory SecretPacker
  imports Api
begin

text \<open>
  Packing the objects of a revision into Secrets (\<^verbatim>\<open>applier/secretpacker.go\<close>) and reading them back
  (\<^verbatim>\<open>resolveObjectRef\<close> of \<^verbatim>\<open>controllers/clusterobjectset_controller.go\<close>).  JSON, gzip and SHA-256 are the
  record \<^verbatim>\<open>codec\<close>; \<^verbatim>\<open>codec_laws\<close> says that decoding inverts encoding, that a gzip stream starts with
  its magic bytes and that serialised objects do not.  A Go map with byte values is an
  association list with distinct keys.
\<close>

section \<open>Codecs\<close>

record codec =
  Marshal :: "k8s_object \<Rightarrow> string res"
  Unmarshal :: "string \<Rightarrow> k8s_object res"
  gzipBestCompression :: "string \<Rightarrow> string res"
  gzipNewReader :: "string \<Rightarrow> goerr option"
  gzipStream :: "string \<Rightarrow> string \<times> goerr option"
  Sum256 :: "string \<Rightarrow> string"
  RawURLEncoding :: "string \<Rightarrow> string"

definition gzip_magic :: "string \<Rightarrow> bool" where
  "gzip_magic data = (length data \<ge> 2 \<and> data ! 0 = char_of (31::nat) \<and> data ! 1 = char_of (139::nat))"

definition codec_laws :: "codec \<Rightarrow> bool" where
  "codec_laws C \<longleftrightarrow>
     (\<forall>x d. Marshal C x = Inr d \<longrightarrow> Unmarshal C d = Inr x \<and> \<not> gzip_magic d) \<and>
     (\<forall>d z. gzipBestCompression C d = Inr z \<longrightarrow> gzip_magic z \<and> gzipNewReader C z = None \<and> gzipStream C z = (d, None))"

definition gzipData :: "codec \<Rightarrow> string \<Rightarrow> string res" where
  "gzipData C data = gzipBestCompression C data"

definition contentHash :: "codec \<Rightarrow> string \<Rightarrow> string" where
  "contentHash C data = RawURLEncoding C (Sum256 C data)"

definition hex_string :: "string \<Rightarrow> string" where
  "hex_string s = concat (map (\<lambda>c. [hex_digit (of_char c div 16), hex_digit (of_char c mod 16)]) s)"

definition ReadAll_limited :: "nat \<Rightarrow> string \<times> goerr option \<Rightarrow> string res" where
  "ReadAll_limited n stream =
     (case stream of (bytes, oerr) \<Rightarrow>
        if length bytes \<ge> n then Inr (take n bytes)
        else (case oerr of Some err \<Rightarrow> Inl err | None \<Rightarrow> Inr bytes))"

section \<open>Packing\<close>

abbreviation maxSecretDataSize :: nat where "maxSecretDataSize \<equiv> 900 * 1024"
abbreviation gzipThreshold :: nat where "gzipThreshold \<equiv> 900 * 1024"
abbreviation RevisionNameKey :: string where "RevisionNameKey \<equiv> ''olm.operatorframework.io/revision-name''"
abbreviation SecretOwnerNameKey :: string where "SecretOwnerNameKey \<equiv> ''olm.operatorframework.io/owner-name''"
abbreviation SecretTypeObjectData :: string where "SecretTypeObjectData \<equiv> ''olm.operatorframework.io/object-data''"

record secret =
  sec_Name :: string
  sec_Namespace :: string
  sec_Labels :: "(string \<times> string) list"
  sec_OwnerReferences :: "owner_reference list"
  sec_Immutable :: bool
  sec_Type :: string
  sec_Data :: "(string \<times> string) list"

record secret_packer =
  RevisionName :: string
  OwnerName :: string
  SystemNamespace :: string

record pack_result =
  Secrets :: "secret list"
  Refs :: "((nat \<times> nat) \<times> object_source_ref) list"

record pack_state =
  result :: pack_result
  currentData :: "(string \<times> string) list"
  currentSize :: nat
  currentPending :: "((nat \<times> nat) \<times> string) list"

definition secretNameFromData :: "codec \<Rightarrow> secret_packer \<Rightarrow> (string \<times> string) list \<Rightarrow> string" where
  "secretNameFromData C p data =
     (let keys = SortStableFunc cmp_ord (map fst data) in
      RevisionName p @ ''-'' @ hex_string (take 8 (Sum256 C (concat (map (\<lambda>k. k @ the (map_of data k)) keys)))))"

definition newSecret :: "codec \<Rightarrow> secret_packer \<Rightarrow> (string \<times> string) list \<Rightarrow> secret" where
  "newSecret C p data =
     \<lparr>sec_Name = secretNameFromData C p data, sec_Namespace = SystemNamespace p,
      sec_Labels = [(RevisionNameKey, RevisionName p), (SecretOwnerNameKey, OwnerName p)], sec_OwnerReferences = [],
      sec_Immutable = True, sec_Type = SecretTypeObjectData, sec_Data = data\<rparr>"

definition finalizeCurrent :: "codec \<Rightarrow> secret_packer \<Rightarrow> pack_state \<Rightarrow> pack_state" where
  "finalizeCurrent C p st =
     (if length (currentData st) = 0 then st
      else
        let secret = newSecret C p (currentData st);
            refs = map (\<lambda>(pos, key). (pos, \<lparr>ref_Name = sec_Name secret, ref_Namespace = SystemNamespace p, ref_Key = key\<rparr>))
                     (currentPending st)
        in \<lparr>result = \<lparr>Secrets = Secrets (result st) @ [secret], Refs = rev refs @ Refs (result st)\<rparr>,
            currentData = [], currentSize = 0, currentPending = []\<rparr>)"

definition encode_object :: "codec \<Rightarrow> nat \<Rightarrow> nat \<Rightarrow> k8s_object \<Rightarrow> string res" where
  "encode_object C phaseIdx objIdx obj =
     (let at = (\<lambda>what. what @ '' object in phase '' @ show_nat phaseIdx @ '' index '' @ show_nat objIdx) in
      case Marshal C obj of
        Inl err \<Rightarrow> Inl (ErrWrap (at ''serializing'' @ '': '') err)
      | Inr data \<Rightarrow>
          (case (if length data > gzipThreshold
                 then (case gzipData C data of
                         Inl cErr \<Rightarrow> Inl (ErrWrap (at ''compressing'' @ '': '') cErr)
                       | Inr compressed \<Rightarrow> Inr compressed)
                 else Inr data) of
             Inl err \<Rightarrow> Inl err
           | Inr data' \<Rightarrow>
               if length data' > maxSecretDataSize
               then Inl (ErrText (''object in phase '' @ show_nat phaseIdx @ '' index '' @ show_nat objIdx
                      @ '' exceeds maximum Secret data size ('' @ show_nat (length data') @ '' bytes > ''
                      @ show_nat maxSecretDataSize @ '' bytes) even after compression''))
               else Inr data'))"

definition add_data :: "codec \<Rightarrow> secret_packer \<Rightarrow> nat \<times> nat \<Rightarrow> string \<Rightarrow> pack_state \<Rightarrow> pack_state" where
  "add_data C p pos data st =
     (let key = contentHash C data;
          st1 = (if map_of (currentData st) key = None
                 then
                   let st' = (if currentSize st + length data > maxSecretDataSize \<and> length (currentData st) > 0
                              then finalizeCurrent C p st else st)
                   in st'\<lparr>currentData := currentData st' @ [(key, data)], currentSize := currentSize st' + length data\<rparr>
                 else st)
      in st1\<lparr>currentPending := currentPending st1 @ [(pos, key)]\<rparr>)"

fun pack_objects ::
  "codec \<Rightarrow> secret_packer \<Rightarrow> nat \<Rightarrow> nat \<Rightarrow> cos_object list \<Rightarrow> pack_state \<Rightarrow> pack_state res" where
  "pack_objects C p phaseIdx objIdx [] st = Inr st"
| "pack_objects C p phaseIdx objIdx (obj # objs) st =
     (case co_Object obj of
        None \<Rightarrow> pack_objects C p phaseIdx (Suc objIdx) objs st
      | Some o1 \<Rightarrow>
          (case encode_object C phaseIdx objIdx o1 of
             Inl err \<Rightarrow> Inl err
           | Inr data \<Rightarrow> pack_objects C p phaseIdx (Suc objIdx) objs (add_data C p (phaseIdx, objIdx) data st)))"

fun pack_phases :: "codec \<Rightarrow> secret_packer \<Rightarrow> nat \<Rightarrow> cos_phase list \<Rightarrow> pack_state \<Rightarrow> pack_state res" where
  "pack_phases C p phaseIdx [] st = Inr st"
| "pack_phases C p phaseIdx (phase # phases) st =
     (case pack_objects C p phaseIdx 0 (ph_Objects phase) st of
        Inl err \<Rightarrow> Inl err
      | Inr st' \<Rightarrow> pack_phases C p (Suc phaseIdx) phases st')"

definition empty_pack :: pack_state where
  "empty_pack = \<lparr>result = \<lparr>Secrets = [], Refs = []\<rparr>, currentData = [], currentSize = 0, currentPending = []\<rparr>"

definition Pack :: "codec \<Rightarrow> secret_packer \<Rightarrow> cos_phase list \<Rightarrow> pack_result res" where
  "Pack C p phases =
     (case pack_phases C p 0 phases empty_pack of
        Inl err \<Rightarrow> Inl err
      | Inr st \<Rightarrow> Inr (result (finalizeCurrent C p st)))"

section \<open>Resolving a reference\<close>

abbreviation maxDecompressedSize :: nat where "maxDecompressedSize \<equiv> 10 * 1024 * 1024"

definition resolveObjectRef ::
  "codec \<Rightarrow> (string \<Rightarrow> string \<Rightarrow> secret res) \<Rightarrow> object_source_ref \<Rightarrow> k8s_object res" where
  "resolveObjectRef C getSecret ref =
     (let at = ref_Namespace ref @ ''/'' @ ref_Name ref; inKey = '' key '' @ quote (ref_Key ref) @ '' in Secret '' @ at in
      case getSecret (ref_Namespace ref) (ref_Name ref) of
        Inl err \<Rightarrow> Inl (ErrWrap (''getting Secret '' @ at @ '': '') err)
      | Inr secret \<Rightarrow>
          (case map_of (sec_Data secret) (ref_Key ref) of
             None \<Rightarrow> Inl (ErrText (''key '' @ quote (ref_Key ref) @ '' not found in Secret '' @ at))
           | Some data \<Rightarrow>
               (case (if gzip_magic data
                      then (case gzipNewReader C data of
                              Some err \<Rightarrow> Inl (ErrWrap (''creating gzip reader for'' @ inKey @ '': '') err)
                            | None \<Rightarrow>
                                (case ReadAll_limited (maxDecompressedSize + 1) (gzipStream C data) of
                                   Inl err \<Rightarrow> Inl (ErrWrap (''decompressing'' @ inKey @ '': '') err)
                                 | Inr decompressed \<Rightarrow>
                                     if length decompressed > maxDecompressedSize
                                     then Inl (ErrText (''decompressed data for'' @ inKey @ '' exceeds maximum size (''
                                            @ show_nat maxDecompressedSize @ '' bytes)''))
                                     else Inr decompressed))
                      else Inr data) of
                  Inl err \<Rightarrow> Inl err
                | Inr data' \<Rightarrow>
                    (case Unmarshal C data' of
                       Inl err \<Rightarrow> Inl (ErrWrap (''unmarshaling object from'' @ inKey @ '': '') err)
                     | Inr obj \<Rightarrow> Inr obj))))"

section \<open>Lemmas\<close>

subsection \<open>Packing as a loop over the inline objects\<close>

type_synonym item = "(nat \<times> nat) \<times> k8s_object"

fun items_of :: "nat \<Rightarrow> nat \<Rightarrow> cos_object list \<Rightarrow> item list" where
  "items_of i j [] = []"
| "items_of i j (obj # objs) =
     (case co_Object obj of None \<Rightarrow> items_of i (Suc j) objs | Some x \<Rightarrow> ((i, j), x) # items_of i (Suc j) objs)"

fun items :: "nat \<Rightarrow> cos_phase list \<Rightarrow> item list" where
  "items i [] = []"
| "items i (ph # phs) = items_of i 0 (ph_Objects ph) @ items (Suc i) phs"

fun pack_items :: "codec \<Rightarrow> secret_packer \<Rightarrow> item list \<Rightarrow> pack_state \<Rightarrow> pack_state res" where
  "pack_items C p [] st = Inr st"
| "pack_items C p ((pos, x) # its) st =
     (case encode_object C (fst pos) (snd pos) x of
        Inl e \<Rightarrow> Inl e
      | Inr d \<Rightarrow> pack_items C p its (add_data C p pos d st))"

lemma pack_items_append:
  "pack_items C p (xs @ ys) st = (case pack_items C p xs st of Inl e \<Rightarrow> Inl e | Inr st' \<Rightarrow> pack_items C p ys st')"
  by (induction C p xs st rule: pack_items.induct) (auto split: sum.splits)

lemma pack_objects_items: "pack_objects C p i j objs st = pack_items C p (items_of i j objs) st"
  by (induction C p i j objs st rule: pack_objects.induct) (auto split: option.splits sum.splits)

lemma pack_phases_items: "pack_phases C p i phs st = pack_items C p (items i phs) st"
  by (induction C p i phs st rule: pack_phases.induct)
    (auto simp: pack_objects_items pack_items_append split: sum.splits)

lemma items_of_pos: "((a, b), x) \<in> set (items_of i j objs) \<Longrightarrow> a = i \<and> j \<le> b"
  by (induction i j objs rule: items_of.induct) (auto split: option.splits)

lemma items_pos: "((a, b), x) \<in> set (items i phs) \<Longrightarrow> i \<le> a"
  by (induction i phs rule: items.induct) (auto dest: items_of_pos)

lemma distinct_items_of: "distinct (map fst (items_of i j objs))"
  by (induction i j objs rule: items_of.induct) (auto split: option.splits dest: items_of_pos)

lemma distinct_items: "distinct (map fst (items i phs))"
proof (induction i phs rule: items.induct)
  case (2 i ph phs)
  have "pos \<notin> fst ` set (items (Suc i) phs)" if "pos \<in> fst ` set (items_of i 0 (ph_Objects ph))" for pos
    using that items_of_pos items_pos by (cases pos) fastforce
  then show ?case
    using 2 by (auto simp: distinct_items_of)
qed simp

lemma items_of_mem:
  "b < length objs \<Longrightarrow> co_Object (objs ! b) = Some x \<Longrightarrow> ((i, j + b), x) \<in> set (items_of i j objs)"
proof (induction i j objs arbitrary: b rule: items_of.induct)
  case (2 i j obj objs)
  then show ?case
    by (cases b) (auto split: option.splits)
qed simp

lemma items_mem:
  "a < length phs \<Longrightarrow> b < length (ph_Objects (phs ! a)) \<Longrightarrow> co_Object (ph_Objects (phs ! a) ! b) = Some x \<Longrightarrow>
     ((i + a, b), x) \<in> set (items i phs)"
proof (induction i phs arbitrary: a rule: items.induct)
  case (2 i ph phs)
  then show ?case
    using items_of_mem [of b "ph_Objects ph" x i 0] by (cases a) auto
qed simp

subsection \<open>The invariant of the loop\<close>

definition data_size :: "(string \<times> string) list \<Rightarrow> nat" where
  "data_size data = sum_list (map (length \<circ> snd) data)"

definition packed_at :: "codec \<Rightarrow> secret_packer \<Rightarrow> pack_result \<Rightarrow> nat \<times> nat \<Rightarrow> string \<Rightarrow> bool" where
  "packed_at C p r pos d \<longleftrightarrow>
     (\<exists>s \<in> set (Secrets r). map_of (Refs r) pos =
          Some \<lparr>ref_Name = sec_Name s, ref_Namespace = SystemNamespace p, ref_Key = contentHash C d\<rparr>
        \<and> map_of (sec_Data s) (contentHash C d) = Some d)"

definition pending_at :: "codec \<Rightarrow> pack_state \<Rightarrow> nat \<times> nat \<Rightarrow> string \<Rightarrow> bool" where
  "pending_at C st pos d \<longleftrightarrow>
     (pos, contentHash C d) \<in> set (currentPending st) \<and> map_of (currentData st) (contentHash C d) = Some d"

definition secret_ok :: "secret_packer \<Rightarrow> secret \<Rightarrow> bool" where
  "secret_ok p s \<longleftrightarrow> sec_Namespace s = SystemNamespace p \<and> sec_Immutable s \<and> sec_Type s = SecretTypeObjectData
     \<and> sec_Name s \<noteq> [] \<and> sec_Data s \<noteq> [] \<and> data_size (sec_Data s) \<le> maxSecretDataSize"

definition pack_inv :: "codec \<Rightarrow> secret_packer \<Rightarrow> ((nat \<times> nat) \<times> string) list \<Rightarrow> pack_state \<Rightarrow> bool" where
  "pack_inv C p seen st \<longleftrightarrow>
     distinct (map fst (currentPending st) @ map fst (Refs (result st)))
     \<and> fst ` set (currentPending st) \<union> fst ` set (Refs (result st)) = fst ` set seen
     \<and> (\<forall>(pos, d) \<in> set seen. packed_at C p (result st) pos d \<or> pending_at C st pos d)
     \<and> (\<forall>(k, d) \<in> set (currentData st). k = contentHash C d \<and> d \<in> snd ` set seen)
     \<and> currentSize st = data_size (currentData st) \<and> currentSize st \<le> maxSecretDataSize
     \<and> (currentData st = [] \<longrightarrow> currentPending st = [])
     \<and> (\<forall>s \<in> set (Secrets (result st)). secret_ok p s)"

lemma secretNameFromData_ne [simp]: "secretNameFromData C p data \<noteq> []"
  by (simp add: secretNameFromData_def Let_def)

lemma pack_inv_empty: "pack_inv C p [] empty_pack"
  by (simp add: pack_inv_def empty_pack_def data_size_def)

lemma finalize_result:
  "currentData st \<noteq> [] \<Longrightarrow> result (finalizeCurrent C p st) =
     \<lparr>Secrets = Secrets (result st) @ [newSecret C p (currentData st)],
      Refs = rev (map (\<lambda>(pos, key). (pos, \<lparr>ref_Name = sec_Name (newSecret C p (currentData st)),
         ref_Namespace = SystemNamespace p, ref_Key = key\<rparr>)) (currentPending st)) @ Refs (result st)\<rparr>"
  "currentData st \<noteq> [] \<Longrightarrow> currentData (finalizeCurrent C p st) = [] \<and> currentSize (finalizeCurrent C p st) = 0
     \<and> currentPending (finalizeCurrent C p st) = []"
  "currentData st = [] \<Longrightarrow> finalizeCurrent C p st = st"
  by (simp_all add: finalizeCurrent_def Let_def)

lemma map_of_rev_distinct: "distinct (map fst xs) \<Longrightarrow> map_of (rev xs) = map_of xs"
  by (subst map_of_inject_set) (simp_all add: rev_map [symmetric])

lemma map_of_refs:
  assumes "distinct (map fst pend)"
  shows "map_of (rev (map (\<lambda>(pos, key). (pos, f key)) pend) @ refs) pos =
     (case map_of pend pos of Some k \<Rightarrow> Some (f k) | None \<Rightarrow> map_of refs pos)"
proof -
  have "map_of (rev (map (\<lambda>(pos, key). (pos, f key)) pend)) = map_of (map (\<lambda>(pos, key). (pos, f key)) pend)"
    by (rule map_of_rev_distinct) (use assms in \<open>simp add: comp_def split_beta\<close>)
  then show ?thesis
    by (simp add: map_add_def map_of_map split: option.splits)
qed

lemma pack_inv_finalize:
  assumes inv: "pack_inv C p seen st"
  shows "pack_inv C p seen (finalizeCurrent C p st)" "currentData (finalizeCurrent C p st) = []"
    "currentPending (finalizeCurrent C p st) = []"
proof -
  have "pack_inv C p seen (finalizeCurrent C p st) \<and> currentData (finalizeCurrent C p st) = []
    \<and> currentPending (finalizeCurrent C p st) = []"
  proof (cases "currentData st = []")
    case True
    then have "currentPending st = []"
      using inv unfolding pack_inv_def by blast
    then show ?thesis
      using inv True by (simp add: finalize_result(3))
  next
    case False
    let ?s = "newSecret C p (currentData st)"
    let ?ref = "\<lambda>key. \<lparr>ref_Name = sec_Name ?s, ref_Namespace = SystemNamespace p, ref_Key = key\<rparr>"
    note fin = finalize_result(1,2) [OF False, of C p]
    have dist: "distinct (map fst (currentPending st))" and
      disj: "fst ` set (currentPending st) \<inter> fst ` set (Refs (result st)) = {}"
      using inv by (auto simp: pack_inv_def)
    have refs: "map_of (Refs (result (finalizeCurrent C p st))) pos =
        (case map_of (currentPending st) pos of Some k \<Rightarrow> Some (?ref k) | None \<Rightarrow> map_of (Refs (result st)) pos)" for pos
      unfolding fin(1) pack_result.simps by (rule map_of_refs [OF dist, of ?ref])
    have at: "packed_at C p (result (finalizeCurrent C p st)) pos d"
      if "packed_at C p (result st) pos d \<or> pending_at C st pos d" for pos d
      using that
    proof
      assume "packed_at C p (result st) pos d"
      then obtain s where s: "s \<in> set (Secrets (result st))" "map_of (sec_Data s) (contentHash C d) = Some d"
        "map_of (Refs (result st)) pos = Some \<lparr>ref_Name = sec_Name s, ref_Namespace = SystemNamespace p, ref_Key = contentHash C d\<rparr>"
        by (auto simp: packed_at_def)
      then have "pos \<in> fst ` set (Refs (result st))"
        by (force dest: map_of_SomeD)
      then have "map_of (currentPending st) pos = None"
        using disj by (auto simp: map_of_eq_None_iff)
      then show ?thesis
        using s refs [of pos] unfolding packed_at_def fin(1) by auto
    next
      assume "pending_at C st pos d"
      then have "map_of (currentPending st) pos = Some (contentHash C d)" "map_of (currentData st) (contentHash C d) = Some d"
        using dist by (auto simp: pending_at_def)
      then show ?thesis
        using refs [of pos] unfolding packed_at_def fin(1) by (auto simp: newSecret_def)
    qed
    have ok: "secret_ok p ?s"
      using False inv by (simp add: secret_ok_def newSecret_def pack_inv_def)
    have keys: "map fst (Refs (result (finalizeCurrent C p st))) = rev (map fst (currentPending st)) @ map fst (Refs (result st))"
      unfolding fin(1) by (simp add: rev_map comp_def split_beta)
    have fset: "fst ` set (Refs (result (finalizeCurrent C p st))) = fst ` set (currentPending st) \<union> fst ` set (Refs (result st))"
      using arg_cong [OF keys, of set] by simp
    show ?thesis
      using inv at ok fset unfolding pack_inv_def keys
      by (auto simp: fin data_size_def)
  qed
  then show "pack_inv C p seen (finalizeCurrent C p st)" "currentData (finalizeCurrent C p st) = []"
    "currentPending (finalizeCurrent C p st) = []"
    by auto
qed

lemma pack_inv_duplicate:
  assumes inv: "pack_inv C p seen st" and new: "pos \<notin> fst ` set seen"
    and here: "map_of (currentData st) (contentHash C d) = Some d"
  shows "pack_inv C p (seen @ [(pos, d)]) (st\<lparr>currentPending := currentPending st @ [(pos, contentHash C d)]\<rparr>)"
  using inv new here unfolding pack_inv_def by (auto simp: pending_at_def)

lemma pack_inv_extend:
  assumes inv: "pack_inv C p seen st" and new: "pos \<notin> fst ` set seen"
    and fresh: "map_of (currentData st) (contentHash C d) = None"
    and fits: "currentSize st + length d \<le> maxSecretDataSize"
  shows "pack_inv C p (seen @ [(pos, d)])
    (st\<lparr>currentData := currentData st @ [(contentHash C d, d)], currentSize := currentSize st + length d,
        currentPending := currentPending st @ [(pos, contentHash C d)]\<rparr>)" (is "pack_inv C p _ ?st")
proof -
  have "pending_at C ?st pos' d'" if "pending_at C st pos' d'" for pos' d'
    using that by (auto simp: pending_at_def map_add_def)
  moreover have "pending_at C ?st pos d"
    using fresh by (simp add: pending_at_def map_add_def)
  ultimately show ?thesis
    using inv new fits unfolding pack_inv_def by (auto simp: data_size_def)
qed

lemma pack_inv_add:
  assumes inv: "pack_inv C p seen st" and new: "pos \<notin> fst ` set seen" and small: "length d \<le> maxSecretDataSize"
    and inj: "inj_on (contentHash C) (insert d (snd ` set seen))"
  shows "pack_inv C p (seen @ [(pos, d)]) (add_data C p pos d st)"
proof (cases "map_of (currentData st) (contentHash C d)")
  case (Some d0)
  then have "(contentHash C d, d0) \<in> set (currentData st)"
    by (rule map_of_SomeD)
  then have "contentHash C d = contentHash C d0" "d0 \<in> snd ` set seen"
    using inv unfolding pack_inv_def by blast+
  then have "d0 = d"
    using inj by (auto dest: inj_onD)
  then show ?thesis
    using pack_inv_duplicate [OF inv new] Some by (simp add: add_data_def Let_def)
next
  case None
  let ?full = "currentSize st + length d > maxSecretDataSize \<and> length (currentData st) > 0"
  let ?st = "if ?full then finalizeCurrent C p st else st"
  have eq: "add_data C p pos d st = ?st\<lparr>currentData := currentData ?st @ [(contentHash C d, d)],
      currentSize := currentSize ?st + length d, currentPending := currentPending ?st @ [(pos, contentHash C d)]\<rparr>"
    using None by (simp add: add_data_def Let_def)
  have inv': "pack_inv C p seen ?st"
    using inv pack_inv_finalize(1) [OF inv] by simp
  have fresh: "map_of (currentData ?st) (contentHash C d) = None"
    using None pack_inv_finalize(2) [OF inv] by simp
  have size: "currentSize ?st = data_size (currentData ?st)"
    using inv' unfolding pack_inv_def by blast
  have "currentSize ?st + length d \<le> maxSecretDataSize"
  proof (cases ?full)
    case True
    then have "currentData ?st = []"
      using pack_inv_finalize(2) [OF inv] by simp
    then show ?thesis
      using size small by (simp add: data_size_def)
  next
    case False
    then show ?thesis
      using size small by (auto simp: data_size_def)
  qed
  then show ?thesis
    unfolding eq by (rule pack_inv_extend [OF inv' new fresh])
qed

definition encodes :: "codec \<Rightarrow> k8s_object \<Rightarrow> string \<Rightarrow> bool" where
  "encodes C x d \<longleftrightarrow> (\<exists>m. Marshal C x = Inr m \<and>
     (if length m > gzipThreshold then gzipData C m = Inr d else d = m))"

lemma encode_object_Inr:
  assumes "encode_object C i j x = Inr d"
  shows "encodes C x d" "length d \<le> maxSecretDataSize"
  using assms by (auto simp: encode_object_def encodes_def Let_def split: sum.splits if_splits)

lemma encodes_unique: "encodes C x d \<Longrightarrow> encodes C x d' \<Longrightarrow> d = d'"
  by (auto simp: encodes_def split: if_splits)

lemma pack_items_inv:
  assumes "pack_items C p its st = Inr st'" "pack_inv C p seen st" "distinct (map fst its)"
    "fst ` set its \<inter> fst ` set seen = {}"
    "inj_on (contentHash C) ({d. \<exists>pos x. (pos, x) \<in> set its \<and> encodes C x d} \<union> snd ` set seen)"
  shows "\<exists>seen'. pack_inv C p seen' st' \<and> set seen \<subseteq> set seen'
    \<and> (\<forall>(pos, x) \<in> set its. \<exists>d. encodes C x d \<and> (pos, d) \<in> set seen')"
  using assms
proof (induction C p its st arbitrary: seen rule: pack_items.induct)
  case (2 C p pos x its st)
  obtain i j where pos: "pos = (i, j)"
    by (cases pos)
  obtain d where d: "encode_object C (fst pos) (snd pos) x = Inr d"
    and rest: "pack_items C p its (add_data C p pos d st) = Inr st'"
    using 2(2) by (auto split: sum.splits)
  have enc: "encodes C x d" "length d \<le> maxSecretDataSize"
    using encode_object_Inr [OF d] by auto
  have inv: "pack_inv C p (seen @ [(pos, d)]) (add_data C p pos d st)"
  proof (rule pack_inv_add [OF 2(3) _ enc(2)])
    show "pos \<notin> fst ` set seen"
      using 2(5) by auto
    show "inj_on (contentHash C) (insert d (snd ` set seen))"
      by (rule inj_on_subset [OF 2(6)]) (use enc(1) pos in auto)
  qed
  have "\<exists>seen'. pack_inv C p seen' st' \<and> set (seen @ [(pos, d)]) \<subseteq> set seen'
    \<and> (\<forall>(pos, x) \<in> set its. \<exists>d. encodes C x d \<and> (pos, d) \<in> set seen')"
  proof (rule 2(1) [OF d rest inv])
    show "distinct (map fst its)" "fst ` set its \<inter> fst ` set (seen @ [(pos, d)]) = {}"
      using 2(4,5) by auto
    show "inj_on (contentHash C) ({d. \<exists>pos x. (pos, x) \<in> set its \<and> encodes C x d} \<union> snd ` set (seen @ [(pos, d)]))"
      by (rule inj_on_subset [OF 2(6)]) (use enc(1) pos in auto)
  qed
  then show ?case
    using enc(1) by auto
qed auto

subsection \<open>Sizes\<close>

definition size_inv :: "secret_packer \<Rightarrow> pack_state \<Rightarrow> bool" where
  "size_inv p st \<longleftrightarrow> currentSize st = data_size (currentData st) \<and> currentSize st \<le> maxSecretDataSize
     \<and> (\<forall>s \<in> set (Secrets (result st)). secret_ok p s)"

lemma size_inv_finalize: "size_inv p st \<Longrightarrow> size_inv p (finalizeCurrent C p st)"
  by (auto simp: size_inv_def finalizeCurrent_def Let_def data_size_def secret_ok_def newSecret_def)

lemma size_inv_add:
  assumes "size_inv p st" "length d \<le> maxSecretDataSize"
  shows "size_inv p (add_data C p pos d st)"
proof -
  let ?full = "currentSize st + length d > maxSecretDataSize \<and> length (currentData st) > 0"
  let ?st = "if ?full then finalizeCurrent C p st else st"
  have st: "size_inv p ?st"
    using assms(1) size_inv_finalize by simp
  have "currentSize ?st + length d \<le> maxSecretDataSize"
    using assms by (auto simp: size_inv_def finalizeCurrent_def Let_def data_size_def)
  then show ?thesis
    using st assms(1) by (auto simp: add_data_def Let_def size_inv_def data_size_def)
qed

lemma size_inv_items: "pack_items C p its st = Inr st' \<Longrightarrow> size_inv p st \<Longrightarrow> size_inv p st'"
proof (induction C p its st rule: pack_items.induct)
  case (2 C p pos x its st)
  then show ?case
    using encode_object_Inr(2) size_inv_add by (auto split: sum.splits)
qed auto

lemma Pack_items:
  assumes "Pack C p phases = Inr r"
  obtains st where "pack_items C p (items 0 phases) empty_pack = Inr st" "r = result (finalizeCurrent C p st)"
  using assms by (auto simp: Pack_def pack_phases_items split: sum.splits)

lemma resolve_packed:
  assumes laws: "codec_laws C" and enc: "encodes C x d" and m: "Marshal C x = Inr m" "length m \<le> maxDecompressedSize"
    and get: "getSecret ns name = Inr s" "map_of (sec_Data s) key = Some d"
  shows "resolveObjectRef C getSecret \<lparr>ref_Name = name, ref_Namespace = ns, ref_Key = key\<rparr> = Inr x"
proof -
  have um: "Unmarshal C m = Inr x" "\<not> gzip_magic m"
    using laws m(1) by (auto simp: codec_laws_def)
  show ?thesis
  proof (cases "length m > gzipThreshold")
    case True
    then have "gzipBestCompression C m = Inr d"
      using enc m(1) by (simp add: encodes_def gzipData_def)
    then have "gzip_magic d" "gzipNewReader C d = None" "gzipStream C d = (m, None)"
      using laws by (auto simp: codec_laws_def)
    then show ?thesis
      using get um m(2) by (simp add: resolveObjectRef_def Let_def ReadAll_limited_def)
  next
    case False
    then have "d = m"
      using enc m(1) by (simp add: encodes_def)
    then show ?thesis
      using get um by (simp add: resolveObjectRef_def Let_def)
  qed
qed

lemma Pack_resolves:
  assumes "codec_laws C" "Pack C p phases = Inr r"
    and inj: "inj_on (contentHash C) {d. \<exists>pos x. (pos, x) \<in> set (items 0 phases) \<and> encodes C x d}"
    and store: "\<And>s. s \<in> set (Secrets r) \<Longrightarrow> getSecret (SystemNamespace p) (sec_Name s) = Inr s"
    and obj: "i < length phases" "j < length (ph_Objects (phases ! i))" "co_Object (ph_Objects (phases ! i) ! j) = Some x"
    and size: "Marshal C x = Inr m" "length m \<le> maxDecompressedSize"
  shows "\<exists>ref. map_of (Refs r) (i, j) = Some ref \<and> ref_Name ref \<noteq> [] \<and> resolveObjectRef C getSecret ref = Inr x"
proof -
  obtain st where st: "pack_items C p (items 0 phases) empty_pack = Inr st" "r = result (finalizeCurrent C p st)"
    by (rule Pack_items [OF assms(2)])
  obtain seen where seen: "pack_inv C p seen st"
    "\<forall>(pos, x) \<in> set (items 0 phases). \<exists>d. encodes C x d \<and> (pos, d) \<in> set seen"
    using pack_items_inv [OF st(1) pack_inv_empty distinct_items] inj by auto
  have "((i, j), x) \<in> set (items 0 phases)"
    using items_mem [OF obj, of 0] by simp
  then obtain d where d: "encodes C x d" "((i, j), d) \<in> set seen"
    using seen(2) by auto
  have "packed_at C p r (i, j) d"
    using pack_inv_finalize [OF seen(1)] d(2) unfolding st(2) pack_inv_def pending_at_def by fastforce
  moreover have named: "sec_Name s \<noteq> []" if "s \<in> set (Secrets r)" for s
    using pack_inv_finalize [OF seen(1)] that unfolding st(2) pack_inv_def secret_ok_def by blast
  ultimately obtain s where s: "s \<in> set (Secrets r)" "map_of (sec_Data s) (contentHash C d) = Some d"
    "map_of (Refs r) (i, j) = Some \<lparr>ref_Name = sec_Name s, ref_Namespace = SystemNamespace p, ref_Key = contentHash C d\<rparr>"
    unfolding packed_at_def by blast
  show ?thesis
    using resolve_packed [where getSecret = getSecret, OF assms(1) d(1) size store [OF s(1)] s(2)] s(3) named [OF s(1)] by simp
qed

section \<open>Properties\<close>

text \<open>
  Every Secret that packing produces is immutable, of the object-data type, in the system namespace, not empty,
  and its data together stay within the maximum size.
\<close>

lemma Pack_secrets_bounded:
  assumes "Pack C p phases = Inr r" "s \<in> set (Secrets r)"
  shows "sec_Namespace s = SystemNamespace p \<and> sec_Immutable s \<and> sec_Type s = SecretTypeObjectData
    \<and> sec_Data s \<noteq> [] \<and> sum_list (map (length \<circ> snd) (sec_Data s)) \<le> 900 * 1024"
proof -
  obtain st where st: "pack_items C p (items 0 phases) empty_pack = Inr st" "r = result (finalizeCurrent C p st)"
    by (rule Pack_items [OF assms(1)])
  have "size_inv p empty_pack"
    by (simp add: size_inv_def empty_pack_def data_size_def)
  then have "size_inv p (finalizeCurrent C p st)"
    by (rule size_inv_finalize [OF size_inv_items [OF st(1)]])
  then show ?thesis
    using assms(2) st(2) by (auto simp: size_inv_def secret_ok_def data_size_def)
qed

text \<open>
  A codec for the witnesses: an object with a body only is serialised as its body, and compression
  replaces a repetition of one character by its count.
\<close>

definition plain_object :: "string \<Rightarrow> k8s_object" where
  "plain_object b = \<lparr>obj_Group = [], obj_Version = [], obj_Kind = [], obj_Namespace = [], obj_Name = [],
     obj_Labels = [], obj_Annotations = [], obj_Metadata = [], obj_Fields = [([], b)]\<rparr>"

definition magic :: string where
  "magic = [char_of (31::nat), char_of (139::nat)]"

definition rle :: "string \<Rightarrow> string" where
  "rle d = (if d \<noteq> [] \<and> d = replicate (length d) (hd d) then magic @ CHR ''r'' # hd d # show_nat (length d)
            else magic @ CHR ''l'' # d)"

definition unrle :: "string \<Rightarrow> string" where
  "unrle z = (case drop 2 z of
     t # c # n \<Rightarrow> if t = CHR ''r'' then replicate (read_nat n) c else c # n
   | [t] \<Rightarrow> []
   | [] \<Rightarrow> [])"

definition ex_codec :: codec where
  "ex_codec = \<lparr>Marshal = (\<lambda>x. let b = snd (hd (obj_Fields x)) in if x = plain_object b \<and> \<not> gzip_magic b then Inr b
                              else Inl (ErrText ''unsupported'')),
     Unmarshal = (\<lambda>d. Inr (plain_object d)), gzipBestCompression = (\<lambda>d. Inr (rle d)),
     gzipNewReader = (\<lambda>z. None), gzipStream = (\<lambda>z. (unrle z, None)), Sum256 = id, RawURLEncoding = id\<rparr>"

lemma unrle_rle: "unrle (rle d) = d"
proof (cases "d \<noteq> [] \<and> d = replicate (length d) (hd d)")
  case True
  then show ?thesis
    by (simp add: rle_def unrle_def magic_def read_nat_show_nat)
next
  case False
  then show ?thesis
    by (cases d) (auto simp: rle_def unrle_def magic_def)
qed

lemma gzip_magic_rle: "gzip_magic (rle d)"
  by (simp add: gzip_magic_def rle_def magic_def)

lemma ex_codec_laws: "codec_laws ex_codec"
  by (auto simp: codec_laws_def ex_codec_def Let_def unrle_rle gzip_magic_rle split: if_splits)

lemma ex_codec_inj: "inj_on (contentHash ex_codec) D"
  by (simp add: inj_on_def contentHash_def ex_codec_def)

definition ex_packer :: secret_packer where
  "ex_packer = \<lparr>RevisionName = ''ext-1'', OwnerName = ''ext'', SystemNamespace = ''olm''\<rparr>"

definition ex_phases :: "string \<Rightarrow> cos_phase list" where
  "ex_phases b = [\<lparr>ph_Name = ''deploy'', ph_Objects = [\<lparr>co_Object = Some (plain_object b),
     co_Ref = \<lparr>ref_Name = [], ref_Namespace = [], ref_Key = []\<rparr>, co_CollisionProtection = []\<rparr>],
     ph_CollisionProtection = []\<rparr>]"

lemma ex_small_pack:
  "Pack ex_codec ex_packer (ex_phases ''x'') = Inr
     \<lparr>Secrets = [newSecret ex_codec ex_packer [(''x'', ''x'')]],
      Refs = [((0, 0), \<lparr>ref_Name = sec_Name (newSecret ex_codec ex_packer [(''x'', ''x'')]),
                       ref_Namespace = ''olm'', ref_Key = ''x''\<rparr>)]\<rparr>"
  by (simp add: Pack_def ex_phases_def ex_packer_def empty_pack_def encode_object_def ex_codec_def plain_object_def
      gzip_magic_def add_data_def contentHash_def finalizeCurrent_def Let_def)

lemma Pack_secrets_bounded_witness:
  "sec_Immutable (newSecret ex_codec ex_packer [(''x'', ''x'')])"
  using Pack_secrets_bounded [OF ex_small_pack, of "newSecret ex_codec ex_packer [(''x'', ''x'')]"] by simp

text \<open>
  An object whose serialised form is larger than ten mebibytes and compresses below the Secret limit
  is packed without an error, but the reference recorded for it never resolves, even with the Secrets in place.
\<close>

lemma Pack_unresolvable:
  assumes laws: "codec_laws C" and m: "Marshal C x = Inr m" "length m > maxDecompressedSize"
    and z: "gzipData C m = Inr z" "length z \<le> maxSecretDataSize"
    and phases: "phases = [\<lparr>ph_Name = n, ph_Objects = [\<lparr>co_Object = Some x, co_Ref = r0, co_CollisionProtection = cp\<rparr>],
        ph_CollisionProtection = cp'\<rparr>]"
  shows "\<exists>r ref. Pack C p phases = Inr r \<and> map_of (Refs r) (0, 0) = Some ref \<and>
    (\<forall>getSecret. (\<forall>s \<in> set (Secrets r). getSecret (SystemNamespace p) (sec_Name s) = Inr s) \<longrightarrow>
       (\<exists>e. resolveObjectRef C getSecret ref = Inl e))"
proof -
  let ?s = "newSecret C p [(contentHash C z, z)]"
  have enc: "encode_object C 0 0 x = Inr z"
    using m z by (simp add: encode_object_def Let_def)
  have pack: "Pack C p phases = Inr \<lparr>Secrets = [?s],
      Refs = [((0, 0), \<lparr>ref_Name = sec_Name ?s, ref_Namespace = SystemNamespace p, ref_Key = contentHash C z\<rparr>)]\<rparr>"
    by (simp add: phases Pack_def enc add_data_def empty_pack_def finalizeCurrent_def Let_def)
  have st: "gzip_magic z" "gzipNewReader C z = None" "gzipStream C z = (m, None)"
    using laws z(1) by (auto simp: codec_laws_def gzipData_def)
  have "\<exists>e. resolveObjectRef C getSecret \<lparr>ref_Name = sec_Name ?s, ref_Namespace = SystemNamespace p, ref_Key = contentHash C z\<rparr> = Inl e"
    if "getSecret (SystemNamespace p) (sec_Name ?s) = Inr ?s" for getSecret
    using that m(2) st
    by (simp add: resolveObjectRef_def Let_def ReadAll_limited_def newSecret_def)
  then show ?thesis
    unfolding pack by simp
qed

lemma Pack_unresolvable_witness:
  "\<exists>r ref. Pack ex_codec ex_packer (ex_phases (replicate (11 * 1024 * 1024) CHR ''a'')) = Inr r \<and>
    map_of (Refs r) (0, 0) = Some ref \<and>
    (\<forall>getSecret. (\<forall>s \<in> set (Secrets r). getSecret (SystemNamespace ex_packer) (sec_Name s) = Inr s) \<longrightarrow>
       (\<exists>e. resolveObjectRef ex_codec getSecret ref = Inl e))"
proof (rule Pack_unresolvable [OF ex_codec_laws _ _ _ _ ex_phases_def])
  let ?m = "replicate (11 * 1024 * 1024) CHR ''a''"
  show "Marshal ex_codec (plain_object ?m) = Inr ?m"
    by (simp add: ex_codec_def plain_object_def gzip_magic_def)
  show "length ?m > maxDecompressedSize"
    by simp
  show "gzipData ex_codec ?m = Inr (rle ?m)"
    by (simp add: gzipData_def ex_codec_def)
  show "length (rle ?m) \<le> maxSecretDataSize"
    by (simp add: rle_def magic_def show_nat.simps)
qed

end
