(* ===== verification/ApplierCommon.thy ===== *)
theory ApplierCommon
  imports Rbac ExtensionSteps PhaseSort SecretPacker
begin

text \<open>
  What the two appliers share: preflights (\<^verbatim>\<open>applier/preflight.go\<close>), the text of a failed
  pre-authorization and the user it is run for (\<^verbatim>\<open>applier/helm.go\<close>), string maps
  (\<^verbatim>\<open>mergeStringMaps\<close>) and the annotation stripping of \<^verbatim>\<open>shared/util/cache/transform.go\<close>.
\<close>

section \<open>Preflights\<close>

abbreviation StateNeedsInstall :: string where "StateNeedsInstall \<equiv> ''NeedsInstall''"
abbreviation StateNeedsUpgrade :: string where "StateNeedsUpgrade \<equiv> ''NeedsUpgrade''"
abbreviation StateUnchanged :: string where "StateUnchanged \<equiv> ''Unchanged''"
abbreviation StateError :: string where "StateError \<equiv> ''Error''"
abbreviation CRDUpgradeSafetyEnforcementNone :: string where "CRDUpgradeSafetyEnforcementNone \<equiv> ''None''"

record 'w preflight =
  pf_isCRDUpgradeSafety :: bool
  pf_Install :: "'w \<Rightarrow> k8s_object list \<Rightarrow> 'w \<times> goerr option"
  pf_Upgrade :: "'w \<Rightarrow> k8s_object list \<Rightarrow> 'w \<times> goerr option"

definition crd_upgrade_safety_of :: "cluster_extension \<Rightarrow> crd_upgrade_safety_config option" where
  "crd_upgrade_safety_of ext =
     (case spec_Install (ce_Spec ext) of None \<Rightarrow> None
      | Some ic \<Rightarrow> (case ic_Preflight ic of None \<Rightarrow> None | Some p \<Rightarrow> pf_CRDUpgradeSafety p))"

definition shouldSkipPreflight :: "'w preflight \<Rightarrow> cluster_extension \<Rightarrow> bool" where
  "shouldSkipPreflight p ext =
     (case crd_upgrade_safety_of ext of
        Some c \<Rightarrow> pf_isCRDUpgradeSafety p \<and> crdus_Enforcement c = CRDUpgradeSafetyEnforcementNone
      | None \<Rightarrow> False)"

fun run_preflights ::
  "'w preflight list \<Rightarrow> cluster_extension \<Rightarrow> string \<Rightarrow> k8s_object list \<Rightarrow> 'w \<Rightarrow> 'w \<times> goerr option" where
  "run_preflights [] ext state objs w = (w, None)"
| "run_preflights (p # ps) ext state objs w =
     (if shouldSkipPreflight p ext then run_preflights ps ext state objs w
      else
        case (if state = StateNeedsInstall then pf_Install p w objs
              else if state = StateNeedsUpgrade then pf_Upgrade p w objs
              else (w, None)) of
          (w', Some err) \<Rightarrow> (w', Some err)
        | (w', None) \<Rightarrow> run_preflights ps ext state objs w')"

definition quiet_preflights :: "'w preflight list \<Rightarrow> bool" where
  "quiet_preflights ps \<longleftrightarrow> (\<forall>p \<in> set ps. \<forall>w objs. fst (pf_Install p w objs) = w \<and> fst (pf_Upgrade p w objs) = w)"

section \<open>Pre-authorization\<close>

definition sorted_list :: "string list \<Rightarrow> string" where
  "sorted_list xs = ''['' @ join_str '','' (sort xs) @ '']''"

definition ruleDescription :: "string \<Rightarrow> policy_rule \<Rightarrow> string" where
  "ruleDescription ns rule =
     ''Namespace:'' @ quote ns
     @ (if length (pr_APIGroups rule) > 0 then '' APIGroups:'' @ sorted_list (pr_APIGroups rule) else [])
     @ (if length (pr_Resources rule) > 0 then '' Resources:'' @ sorted_list (pr_Resources rule) else [])
     @ (if length (pr_ResourceNames rule) > 0 then '' ResourceNames:'' @ sorted_list (pr_ResourceNames rule) else [])
     @ (if length (pr_Verbs rule) > 0 then '' Verbs:'' @ sorted_list (pr_Verbs rule) else [])
     @ (if length (pr_NonResourceURLs rule) > 0 then '' NonResourceURLs:'' @ sorted_list (pr_NonResourceURLs rule) else [])"

definition formatPreAuthorizerOutput :: "scoped_policy_rules list \<times> goerr option \<Rightarrow> goerr option" where
  "formatPreAuthorizerOutput out =
     (case out of (missingRules, authErr) \<Rightarrow>
       (let descriptions = sort (concat (map (\<lambda>p. map (ruleDescription (spr_Namespace p)) (spr_MissingRules p)) missingRules));
            errs = (if length missingRules > 0
                    then [ErrText (''service account requires the following permissions to manage cluster extension:''
                            @ newline @ ''  '' @ join_str (newline @ ''  '') descriptions)]
                    else [])
                 @ (case authErr of Some e \<Rightarrow> [ErrWrap ''authorization evaluation error: '' e] | None \<Rightarrow> [])
        in if length errs > 0 then Some (ErrText (''pre-authorization failed: '' @ Error (ErrJoin errs))) else None))"

definition getUserInfo :: "cluster_extension \<Rightarrow> string" where
  "getUserInfo ext =
     ''system:serviceaccount:'' @ spec_Namespace (ce_Spec ext) @ '':'' @ spec_ServiceAccount (ce_Spec ext)"

definition finalizer_update :: "string \<Rightarrow> string \<Rightarrow> string \<Rightarrow> attributes_record" where
  "finalizer_update user name res =
     \<lparr>ar_User = user, ar_Verb = ''update'', ar_Namespace = [], ar_APIGroup = ''olm.operatorframework.io'',
      ar_APIVersion = ''v1'', ar_Resource = res, ar_Subresource = [], ar_Name = name, ar_ResourceRequest = True, ar_Path = []\<rparr>"

definition extManagementPerms :: "cluster_extension \<Rightarrow> string \<Rightarrow> attributes_record list" where
  "extManagementPerms ext user = [finalizer_update user (ce_Name ext) ''clusterextensions/finalizers'']"

section \<open>String maps and annotations\<close>

definition maps_Copy :: "labels \<Rightarrow> labels \<Rightarrow> labels" where
  "maps_Copy dst src = foldl (\<lambda>m (k, v). map_put k v m) dst src"

definition mergeStringMaps :: "labels \<Rightarrow> labels \<Rightarrow> labels" where
  "mergeStringMaps m1 m2 = maps_Copy (maps_Copy [] m1) m2"

abbreviation lastAppliedKey :: string where
  "lastAppliedKey \<equiv> ''kubectl.kubernetes.io/last-applied-configuration''"

definition stripAnnotations :: "k8s_object \<Rightarrow> k8s_object" where
  "stripAnnotations obj = obj\<lparr>obj_Annotations := filter (\<lambda>(k, v). k \<noteq> lastAppliedKey) (obj_Annotations obj)\<rparr>"

section \<open>Lemmas\<close>

lemma map_of_Copy:
  "distinct (map fst src) \<Longrightarrow> map_of (maps_Copy dst src) k = (case map_of src k of Some v \<Rightarrow> Some v | None \<Rightarrow> map_of dst k)"
proof (induction src arbitrary: dst)
  case (Cons p src)
  obtain l v where p: "p = (l, v)" by (cases p)
  have "maps_Copy dst (p # src) = maps_Copy (map_put l v dst) src"
    by (simp add: maps_Copy_def p)
  moreover have "map_of src l = None"
    using Cons.prems by (simp add: p map_of_eq_None_iff)
  ultimately show ?case
    using Cons by (auto simp: p split: option.split)
qed (simp add: maps_Copy_def)

lemma map_of_merge:
  "distinct (map fst m1) \<Longrightarrow> distinct (map fst m2) \<Longrightarrow>
     map_of (mergeStringMaps m1 m2) k = (case map_of m2 k of Some v \<Rightarrow> Some v | None \<Rightarrow> map_of m1 k)"
  by (simp add: mergeStringMaps_def map_of_Copy split: option.split)

lemma run_preflights_quiet:
  "quiet_preflights ps \<Longrightarrow> fst (run_preflights ps ext state objs w) = w"
proof (induction ps)
  case (Cons p ps)
  then have p: "fst (pf_Install p w objs) = w" "fst (pf_Upgrade p w objs) = w" "fst (run_preflights ps ext state objs w) = w"
    by (simp_all add: quiet_preflights_def)
  let ?out = "if state = StateNeedsInstall then pf_Install p w objs
      else if state = StateNeedsUpgrade then pf_Upgrade p w objs else (w, None)"
  have "?out = (w, snd ?out)"
    using p(1,2) by (simp add: prod_eq_iff)
  then obtain oe where "?out = (w, oe)" by blast
  then show ?case
    using p(3) by (simp split: option.split)
qed simp

end
