(* ===== verification/BoxcutterSteps.thy ===== *)
theory BoxcutterSteps
  imports ExtensionSteps
begin

text \<open>
  The steps used with the Boxcutter applier (\<^verbatim>\<open>controllers/boxcutter_reconcile_steps.go\<close>):
  the revision states read from the ClusterObjectSets of an extension, the storage migration
  step, the apply step that mirrors the conditions of the revisions, and the list of the steps.
  \<^verbatim>\<open>slices.SortFunc\<close> is an argument, since it is not stable: what holds of it is the locale
  \<^verbatim>\<open>go_sorter\<close>.
\<close>

section \<open>Revision states\<close>

definition compare_revision :: "cluster_object_set cmp" where
  "compare_revision a b = cmp_ord (cosp_Revision (cos_Spec a)) (cosp_Revision (cos_Spec b))"

definition revision_metadata_of :: "cluster_object_set \<Rightarrow> revision_metadata" where
  "revision_metadata_of r =
     \<lparr>rm_RevisionName = cos_Name r,
      rm_Package = label_of (cos_Annotations r) PackageNameKey,
      rm_Image = label_of (cos_Annotations r) BundleReferenceKey,
      rm_BundleMetadata = \<lparr>bm_Name = label_of (cos_Annotations r) BundleNameKey,
                           bm_Version = label_of (cos_Annotations r) BundleVersionKey\<rparr>,
      rm_Conditions = cos_Conditions r\<rparr>"

fun collect_states :: "cond_api \<Rightarrow> cluster_object_set list \<Rightarrow> revision_states \<Rightarrow> revision_states" where
  "collect_states A [] rs = rs"
| "collect_states A (r # revs) rs =
     (if cosp_LifecycleState (cos_Spec r) = LifecycleStateArchived then collect_states A revs rs
      else if apiIsStatusConditionTrue A (cos_Conditions r) TypeSucceeded
      then collect_states A revs (rs\<lparr>Installed := Some (revision_metadata_of r)\<rparr>)
      else collect_states A revs (rs\<lparr>RollingOut := RollingOut rs @ [revision_metadata_of r]\<rparr>))"

type_synonym 'w revision_lister = "'w \<Rightarrow> labels \<Rightarrow> 'w \<times> cluster_object_set list res"

definition BoxcutterGetRevisionStates ::
  "(cluster_object_set cmp \<Rightarrow> cluster_object_set list \<Rightarrow> cluster_object_set list) \<Rightarrow> cond_api \<Rightarrow> 'w revision_lister
   \<Rightarrow> 'w \<Rightarrow> cluster_extension \<Rightarrow> 'w \<times> revision_states res" where
  "BoxcutterGetRevisionStates SortFunc A ListRevisions w ext =
     (case ListRevisions w [(OwnerNameKey, ce_Name ext)] of
        (w', Inl err) \<Rightarrow> (w', Inl (ErrWrap ''listing revisions: '' err))
      | (w', Inr items) \<Rightarrow>
          (w', Inr (collect_states A (SortFunc compare_revision items) \<lparr>Installed = None, RollingOut = []\<rparr>)))"

section \<open>Migration step\<close>

definition MigrateStorage ::
  "('w \<Rightarrow> cluster_extension \<Rightarrow> labels \<Rightarrow> 'w \<times> goerr option) \<Rightarrow> ('w, 'fs) step" where
  "MigrateStorage Migrate w state ext =
     (case Migrate w ext (owner_labels ext) of
        (w', Some err) \<Rightarrow> (w', state, ext, Inl (ErrWrap ''migrating storage: '' err))
      | (w', None) \<Rightarrow> (w', state, ext, Inr None))"

section \<open>Apply step\<close>

text \<open>
  \<^verbatim>\<open>FindStatusCondition\<close> returns a pointer into the conditions of the revision, so that the
  generation is also written there: \<^verbatim>\<open>touch\<close>.
\<close>

fun touch :: "int \<Rightarrow> string \<Rightarrow> condition list \<Rightarrow> condition list" where
  "touch g t [] = []"
| "touch g t (c # cs) =
     (if cond_Type c = t then c\<lparr>cond_ObservedGeneration := g\<rparr> # cs else c # touch g t cs)"

definition mirrored_types :: "string list" where
  "mirrored_types = [TypeAvailable, TypeProgressing]"

fun mirror_conditions ::
  "cond_api \<Rightarrow> int \<Rightarrow> string list \<Rightarrow> condition list \<Rightarrow> condition list \<Rightarrow> condition list \<times> condition list" where
  "mirror_conditions A g [] src dst = (src, dst)"
| "mirror_conditions A g (cndType # ts) src dst =
     (case apiFindStatusCondition A src cndType of
        None \<Rightarrow> mirror_conditions A g ts src dst
      | Some cnd \<Rightarrow>
          mirror_conditions A g ts (touch g cndType src)
            (apiSetStatusCondition A dst (cnd\<lparr>cond_ObservedGeneration := g\<rparr>)))"

definition add_active :: "revision_status \<Rightarrow> cluster_extension \<Rightarrow> cluster_extension" where
  "add_active r ext = ext\<lparr>ce_Status := (ce_Status ext)\<lparr>st_ActiveRevisions := st_ActiveRevisions (ce_Status ext) @ [r]\<rparr>\<rparr>"

definition clear_active :: "cluster_extension \<Rightarrow> cluster_extension" where
  "clear_active ext = ext\<lparr>ce_Status := (ce_Status ext)\<lparr>st_ActiveRevisions := []\<rparr>\<rparr>"

definition mirror_installed ::
  "cond_api \<Rightarrow> revision_metadata option \<Rightarrow> cluster_extension \<Rightarrow> revision_metadata option \<times> cluster_extension" where
  "mirror_installed A inst ext =
     (case inst of
        None \<Rightarrow> (None, ext)
      | Some i \<Rightarrow>
          (case mirror_conditions A (ce_Generation ext) mirrored_types (rm_Conditions i) (conditions ext) of
             (src, dst) \<Rightarrow>
               (Some (i\<lparr>rm_Conditions := src\<rparr>),
                add_active \<lparr>rs_Name = rm_RevisionName i, rs_Conditions = []\<rparr>
                  (clear_active (setInstallStatus (set_conditions dst ext) (Some (rm_BundleMetadata i)))))))"

fun mirror_rolling ::
  "cond_api \<Rightarrow> revision_metadata list \<Rightarrow> cluster_extension \<Rightarrow> revision_metadata list \<times> cluster_extension" where
  "mirror_rolling A [] ext = ([], ext)"
| "mirror_rolling A (r # rs) ext =
     (case mirror_conditions A (ce_Generation ext) mirrored_types (rm_Conditions r) [] of
        (src, dst) \<Rightarrow>
          (let ext1 = (if rs = []
                       then set_conditions (snd (mirror_conditions A (ce_Generation ext) [TypeProgressing] src
                              (conditions ext))) ext
                       else ext);
               ext2 = add_active \<lparr>rs_Name = rm_RevisionName r, rs_Conditions = dst\<rparr> ext1
           in case mirror_rolling A rs ext2 of (rs', ext3) \<Rightarrow> (r\<lparr>rm_Conditions := src\<rparr> # rs', ext3)))"

definition ApplyBundleWithBoxcutter :: "cond_api \<Rightarrow> ('w, 'fs) applier \<Rightarrow> ('w, 'fs) step" where
  "ApplyBundleWithBoxcutter A apply_fn w state ext =
     (case resolvedRevisionMetadata state of
        None \<Rightarrow> (w, state, ext, Inl nil_deref)
      | Some resolved \<Rightarrow>
          (case apply_fn w (imageFS state) ext (owner_labels ext) (revision_annotations resolved) of
             (w', _, _, Some err) \<Rightarrow>
               (let ext1 = setStatusProgressing A ext
                             (Some (wrapErrorWithResolutionInfo (rm_BundleMetadata resolved) err))
                in if is_terminal err then (w', state, ext1, Inl err)
                   else case revisionStates state of
                          None \<Rightarrow> (w', state, ext1, Inl nil_deref)
                        | Some rs \<Rightarrow> (w', state, setInstalledStatusFromRevisionStates A ext1 rs, Inl err))
           | (w', _, _, None) \<Rightarrow>
               (case revisionStates state of
                  None \<Rightarrow> (w', state, clear_active ext, Inl nil_deref)
                | Some rs \<Rightarrow>
                    (case mirror_installed A (Installed rs) (clear_active ext) of (inst, ext1) \<Rightarrow>
                       case mirror_rolling A (RollingOut rs) ext1 of (rolling, ext2) \<Rightarrow>
                         (let rs' = \<lparr>Installed = inst, RollingOut = rolling\<rparr>
                          in (w', state\<lparr>revisionStates := Some rs'\<rparr>,
                              setInstalledStatusFromRevisionStates A ext2 rs', Inr None))))))"

section \<open>The steps with Boxcutter\<close>

definition boxcutter_steps where
  "boxcutter_steps S A Finalize getServiceAccount Migrate GetRevisionStates resolver client Pull apply_fn =
     [HandleFinalizers A Finalize,
      ValidateClusterExtension A [ServiceAccountValidator getServiceAccount],
      MigrateStorage Migrate,
      RetrieveRevisionStates A GetRevisionStates,
      ResolveBundle S A resolver client,
      UnpackBundle A Pull,
      ApplyBundleWithBoxcutter A apply_fn]"

section \<open>Lemmas\<close>

definition is_active :: "cluster_object_set \<Rightarrow> bool" where
  "is_active r \<longleftrightarrow> cosp_LifecycleState (cos_Spec r) \<noteq> LifecycleStateArchived"

definition has_succeeded :: "cond_api \<Rightarrow> cluster_object_set \<Rightarrow> bool" where
  "has_succeeded A r \<longleftrightarrow> apiIsStatusConditionTrue A (cos_Conditions r) TypeSucceeded"

lemma compare_revision_preorder [cmp_intro]: "cmp_preorder compare_revision"
  unfolding compare_revision_def [abs_def] by (rule cmp_preorder_comap [OF cmp_ord_preorder])

lemma compare_revision_le: "compare_revision a b \<le> 0 \<longleftrightarrow> cosp_Revision (cos_Spec a) \<le> cosp_Revision (cos_Spec b)"
  by (simp add: compare_revision_def cmp_ord_le)

lemma collect_rolling:
  "RollingOut (collect_states A revs rs) =
     RollingOut rs @ map revision_metadata_of (filter (\<lambda>r. is_active r \<and> \<not> has_succeeded A r) revs)"
  by (induction A revs rs rule: collect_states.induct) (simp_all add: is_active_def has_succeeded_def)

lemma collect_installed:
  "Installed (collect_states A revs rs) =
     (case filter (\<lambda>r. is_active r \<and> has_succeeded A r) revs of [] \<Rightarrow> Installed rs
      | xs \<Rightarrow> Some (revision_metadata_of (last xs)))"
  by (induction A revs rs rule: collect_states.induct)
    (simp_all add: is_active_def has_succeeded_def split: list.splits)

lemma sorted_wrt_last: "sorted_wrt P ys \<Longrightarrow> (\<And>x. P x x) \<Longrightarrow> x \<in> set ys \<Longrightarrow> P x (last ys)"
  by (induction ys) (auto simp: sorted_wrt_append)

lemma find_touch: "find_cond (touch g t cs) u =
    (if u = t then map_option (\<lambda>c. c\<lparr>cond_ObservedGeneration := g\<rparr>) (find_cond cs u) else find_cond cs u)"
  by (induction g t cs rule: touch.induct) (auto simp: find_cond_def)

lemma mirror_installed_same [simp]:
  "mirror_installed A inst ext = (inst', ext') \<Longrightarrow> same_object ext' e = same_object ext e"
  by (auto simp: mirror_installed_def add_active_def clear_active_def setInstallStatus_def set_conditions_def
      same_object_def split: option.splits prod.splits)

lemma set_conditions_id [simp]: "set_conditions (conditions ext) ext = ext"
  by (simp add: set_conditions_def)

lemma mirror_rolling_Cons:
  assumes "mirror_rolling A (r # rs) ext = (rs', ext')"
  obtains src dst cs rs1 where
    "mirror_conditions A (ce_Generation ext) mirrored_types (rm_Conditions r) [] = (src, dst)"
    "cs = (if rs = [] then snd (mirror_conditions A (ce_Generation ext) [TypeProgressing] src (conditions ext))
           else conditions ext)"
    "mirror_rolling A rs (add_active \<lparr>rs_Name = rm_RevisionName r, rs_Conditions = dst\<rparr> (set_conditions cs ext)) = (rs1, ext')"
    "rs' = r\<lparr>rm_Conditions := src\<rparr> # rs1"
proof -
  obtain src dst where m: "mirror_conditions A (ce_Generation ext) mirrored_types (rm_Conditions r) [] = (src, dst)"
    by (cases "mirror_conditions A (ce_Generation ext) mirrored_types (rm_Conditions r) []")
  define cs where "cs = (if rs = [] then snd (mirror_conditions A (ce_Generation ext) [TypeProgressing] src (conditions ext))
           else conditions ext)"
  have "(if rs = [] then set_conditions (snd (mirror_conditions A (ce_Generation ext) [TypeProgressing] src (conditions ext))) ext
          else ext) = set_conditions cs ext"
    by (simp add: cs_def del: mirror_conditions.simps)
  then show thesis
    using that [OF m cs_def] assms m by (simp add: Let_def del: mirror_conditions.simps split: prod.splits)
qed

lemma mirror_rolling_same [simp]:
  "mirror_rolling A rs ext = (rs', ext') \<Longrightarrow> same_object ext' e = same_object ext e"
proof (induction rs arbitrary: ext rs' ext')
  case (Cons r rs)
  show ?case
    by (rule mirror_rolling_Cons [OF Cons.prems], drule Cons.IH)
      (simp add: add_active_def set_conditions_def same_object_def del: mirror_conditions.simps)
qed simp

text \<open>Finding returns the first condition of the type, as the pointer semantics needs.\<close>

definition finds_first :: "cond_api \<Rightarrow> bool" where
  "finds_first A \<longleftrightarrow> apiFindStatusCondition A = find_cond"

lemma doc_finds_first [simp]: "finds_first (doc_cond_api now)"
  by (simp add: finds_first_def doc_cond_api_def)

definition active_names :: "cluster_extension \<Rightarrow> string list" where
  "active_names ext = map rs_Name (st_ActiveRevisions (ce_Status ext))"

definition found_like :: "condition option \<Rightarrow> int \<Rightarrow> condition option \<Rightarrow> condition option \<Rightarrow> bool" where
  "found_like shown g after before \<longleftrightarrow>
     (case shown of
        Some c \<Rightarrow> (\<exists>d. after = Some d \<and> cond_like d (c\<lparr>cond_ObservedGeneration := g\<rparr>))
      | None \<Rightarrow> after = before)"

lemma mirror_progressing:
  assumes "cond_laws A" "finds_first A"
    and "mirror_conditions A g mirrored_types src dst = (src', dst')"
  shows "find_cond src' TypeProgressing = map_option (\<lambda>c. c\<lparr>cond_ObservedGeneration := g\<rparr>) (find_cond src TypeProgressing)"
    and "found_like (find_cond src TypeProgressing) g (find_cond dst' TypeProgressing) (find_cond dst TypeProgressing)"
proof -
  note laws = cond_laws_set_other [OF assms(1)] cond_laws_set_same [OF assms(1)]
  have other: "find_cond (apiSetStatusCondition A cs c) t = find_cond cs t" if "t \<noteq> cond_Type c" for cs c t
    using laws(1) [OF that] assms(2) by (simp add: finds_first_def)
  have same: "\<exists>d. find_cond (apiSetStatusCondition A cs c) (cond_Type c) = Some d \<and> cond_like d c" for cs c
    using laws(2) assms(2) by (simp add: finds_first_def)
  show "find_cond src' TypeProgressing = map_option (\<lambda>c. c\<lparr>cond_ObservedGeneration := g\<rparr>) (find_cond src TypeProgressing)"
    using assms(2,3) by (auto simp: mirrored_types_def finds_first_def find_touch split: option.splits)
  show "found_like (find_cond src TypeProgressing) g (find_cond dst' TypeProgressing) (find_cond dst TypeProgressing)"
  proof (cases "find_cond src TypeProgressing")
    case None
    then show ?thesis
      using assms(2,3) by (auto simp: mirrored_types_def finds_first_def find_touch found_like_def other find_cond_type split: option.splits)
  next
    case (Some c)
    have "cond_Type c = TypeProgressing" by (rule find_cond_type [OF Some])
    then show ?thesis
      using assms(2,3) Some same [of _ "c\<lparr>cond_ObservedGeneration := g\<rparr>"]
      by (auto simp: mirrored_types_def finds_first_def find_touch found_like_def split: option.splits)
  qed
qed

lemma mirror_one_progressing:
  assumes "cond_laws A" "finds_first A"
  shows "found_like (find_cond src TypeProgressing) g
    (find_cond (snd (mirror_conditions A g [TypeProgressing] src dst)) TypeProgressing) (find_cond dst TypeProgressing)"
proof (cases "find_cond src TypeProgressing")
  case (Some c)
  have "cond_Type c = TypeProgressing" by (rule find_cond_type [OF Some])
  then show ?thesis
    using assms(2) Some cond_laws_set_same [OF assms(1), of _ "c\<lparr>cond_ObservedGeneration := g\<rparr>"]
    by (simp add: finds_first_def found_like_def)
qed (use assms(2) in \<open>simp add: finds_first_def found_like_def\<close>)

lemma add_active_sel [simp]:
  "active_names (add_active r ext) = active_names ext @ [rs_Name r]"
  "st_Install (ce_Status (add_active r ext)) = st_Install (ce_Status ext)"
  "conditions (add_active r ext) = conditions ext"
  "ce_Generation (add_active r ext) = ce_Generation ext"
  by (simp_all add: add_active_def active_names_def)

lemma clear_active_sel [simp]:
  "active_names (clear_active ext) = []"
  "st_Install (ce_Status (clear_active ext)) = st_Install (ce_Status ext)"
  "conditions (clear_active ext) = conditions ext"
  "ce_Generation (clear_active ext) = ce_Generation ext"
  by (simp_all add: clear_active_def active_names_def)

lemma set_conditions_active [simp]: "active_names (set_conditions cs ext) = active_names ext"
  by (simp add: set_conditions_def active_names_def)

lemma setInstallStatus_active [simp]: "active_names (setInstallStatus ext i) = active_names ext"
  by (simp add: setInstallStatus_def active_names_def)

lemma mirror_rolling_names:
  "mirror_rolling A rs ext = (rs', ext') \<Longrightarrow>
     active_names ext' = active_names ext @ map rm_RevisionName rs
     \<and> st_Install (ce_Status ext') = st_Install (ce_Status ext) \<and> length rs' = length rs"
proof (induction rs arbitrary: ext rs' ext')
  case (Cons r rs)
  show ?case
    by (rule mirror_rolling_Cons [OF Cons.prems], drule Cons.IH) (simp del: mirror_conditions.simps)
qed simp

lemma mirror_rolling_last:
  assumes "cond_laws A" "finds_first A"
  shows "mirror_rolling A rs ext = (rs', ext') \<Longrightarrow> rs \<noteq> [] \<Longrightarrow>
    found_like (find_cond (rm_Conditions (last rs)) TypeProgressing) (ce_Generation ext)
      (find_cond (conditions ext') TypeProgressing) (find_cond (conditions ext) TypeProgressing)
    \<and> find_cond (rm_Conditions (last rs')) TypeProgressing =
        map_option (\<lambda>c. c\<lparr>cond_ObservedGeneration := ce_Generation ext\<rparr>) (find_cond (rm_Conditions (last rs)) TypeProgressing)"
proof (induction rs arbitrary: ext rs' ext')
  case (Cons r rs)
  obtain src dst cs rs1 where m: "mirror_conditions A (ce_Generation ext) mirrored_types (rm_Conditions r) [] = (src, dst)"
    and cs: "cs = (if rs = [] then snd (mirror_conditions A (ce_Generation ext) [TypeProgressing] src (conditions ext))
           else conditions ext)"
    and step: "mirror_rolling A rs (add_active \<lparr>rs_Name = rm_RevisionName r, rs_Conditions = dst\<rparr> (set_conditions cs ext)) = (rs1, ext')"
    and rs': "rs' = r\<lparr>rm_Conditions := src\<rparr> # rs1"
    by (rule mirror_rolling_Cons [OF Cons.prems(1)])
  show ?case
  proof (cases "rs = []")
    case True
    then have "conditions ext' = cs" "rs1 = []" using step by auto
    then show ?thesis
      using True mirror_progressing(1) [OF assms m] mirror_one_progressing [OF assms, of src "ce_Generation ext" "conditions ext"]
      by (cases "find_cond (rm_Conditions r) TypeProgressing")
        (auto simp: cs rs' found_like_def cond_like_def simp del: mirror_conditions.simps)
  next
    case False
    then show ?thesis
      using Cons.IH [OF step False] rs' cs mirror_rolling_names [OF step] by (auto simp del: mirror_conditions.simps)
  qed
qed simp

interpretation migrate_step: object_keeping "MigrateStorage m" for m
  by unfold_locales (auto simp: MigrateStorage_def split: prod.splits option.splits)

interpretation boxcutter_apply: object_keeping "ApplyBundleWithBoxcutter A a" for A a
proof
  fix w s ext w' s' ext' x
  assume "ApplyBundleWithBoxcutter A a w s ext = (w', s', ext', x)"
  then show "same_object ext' ext"
    by (auto simp: ApplyBundleWithBoxcutter_def Let_def clear_active_def same_object_def [of "clear_active _"]
        split: option.splits prod.splits if_splits) (simp_all add: same_object_def clear_active_def)
qed

interpretation boxcutter_work: object_keeping_steps
  "tl (boxcutter_steps S A Finalize sa m g r c p a)" for S A Finalize sa m g r c p a
  by (rule object_keeping_steps.intro)
    (auto simp: boxcutter_steps_def intro: validate.object_keeping_axioms retrieve.object_keeping_axioms
      migrate_step.object_keeping_axioms resolve_step.object_keeping_axioms unpack.object_keeping_axioms
      boxcutter_apply.object_keeping_axioms)

lemma boxcutter_steps_keep:
  assumes "\<And>w e w' e' x. Finalize w e = (w', e', x) \<Longrightarrow> same_object e' e"
  shows "object_keeping_steps (boxcutter_steps S A Finalize sa m g r c p a)"
proof (rule object_keeping_steps.intro)
  fix step assume "step \<in> set (boxcutter_steps S A Finalize sa m g r c p a)"
  then have "step = HandleFinalizers A Finalize \<or> step \<in> set (tl (boxcutter_steps S A Finalize sa m g r c p a))"
    by (auto simp: boxcutter_steps_def)
  moreover have "object_keeping (HandleFinalizers A Finalize)"
    by (rule HandleFinalizers_keeps, rule assms)
  ultimately show "object_keeping step"
    using boxcutter_work.all_keep by blast
qed

section \<open>Properties\<close>

text \<open>
  The revision states of an extension. The installed revision is the highest-numbered revision that is
  not archived and has succeeded, and there is none exactly if no such revision exists; the revisions rolling out are all the others that
  are not archived, oldest first.
\<close>

lemma BoxcutterGetRevisionStates_correct:
  assumes "go_sorter SortFunc" "ListRevisions w [(OwnerNameKey, ce_Name ext)] = (w', Inr items)"
  shows "\<exists>revs rs. BoxcutterGetRevisionStates SortFunc A ListRevisions w ext = (w', Inr rs)
    \<and> mset revs = mset items \<and> sorted_wrt (\<lambda>a b. cosp_Revision (cos_Spec a) \<le> cosp_Revision (cos_Spec b)) revs
    \<and> RollingOut rs = map revision_metadata_of (filter (\<lambda>r. is_active r \<and> \<not> has_succeeded A r) revs)
    \<and> (Installed rs = None \<longleftrightarrow> (\<forall>r \<in> set items. is_active r \<longrightarrow> \<not> has_succeeded A r))
    \<and> (\<forall>i. Installed rs = Some i \<longrightarrow>
         (\<exists>r \<in> set items. is_active r \<and> has_succeeded A r \<and> i = revision_metadata_of r \<and>
            (\<forall>r' \<in> set items. is_active r' \<longrightarrow> has_succeeded A r' \<longrightarrow>
               cosp_Revision (cos_Spec r') \<le> cosp_Revision (cos_Spec r))))"
proof -
  define revs where "revs = SortFunc compare_revision items"
  define rs where "rs = collect_states A revs \<lparr>Installed = None, RollingOut = []\<rparr>"
  let ?le = "\<lambda>a b. cosp_Revision (cos_Spec a) \<le> cosp_Revision (cos_Spec b)"
  let ?good = "filter (\<lambda>r. is_active r \<and> has_succeeded A r) revs"
  have perm: "mset revs = mset items"
    unfolding revs_def by (rule go_sorter.perm [OF assms(1)])
  have elems: "set revs = set items"
    unfolding revs_def by (rule go_sorter.elems [OF assms(1)])
  have srt: "sorted_wrt ?le revs"
    using go_sorter.sorted [OF assms(1) compare_revision_preorder, of items]
    by (simp add: revs_def compare_revision_le)
  have inst: "Installed rs = (case ?good of [] \<Rightarrow> None | xs \<Rightarrow> Some (revision_metadata_of (last xs)))"
    by (simp add: rs_def collect_installed split: list.split)
  have "Installed rs = None \<longleftrightarrow> ?good = []"
    unfolding inst by (simp split: list.split)
  then have none: "Installed rs = None \<longleftrightarrow> (\<forall>r \<in> set items. is_active r \<longrightarrow> \<not> has_succeeded A r)"
    by (auto simp: filter_empty_conv elems)
  have best: "\<exists>r \<in> set items. is_active r \<and> has_succeeded A r \<and> i = revision_metadata_of r \<and>
      (\<forall>r' \<in> set items. is_active r' \<longrightarrow> has_succeeded A r' \<longrightarrow> ?le r' r)" if "Installed rs = Some i" for i
  proof -
    have ne: "?good \<noteq> []" and i: "i = revision_metadata_of (last ?good)"
      using that unfolding inst by (auto split: list.splits)
    have "last ?good \<in> set ?good" by (rule last_in_set [OF ne])
    moreover have "?le r' (last ?good)" if "r' \<in> set ?good" for r'
      by (rule sorted_wrt_last [of ?le, OF sorted_wrt_filter [OF srt] _ that]) simp
    ultimately show ?thesis
      unfolding elems [symmetric] i by (intro bexI [of _ "last ?good"]) simp_all
  qed
  have "BoxcutterGetRevisionStates SortFunc A ListRevisions w ext = (w', Inr rs)"
    by (simp add: BoxcutterGetRevisionStates_def assms(2) revs_def rs_def)
  moreover have "RollingOut rs = map revision_metadata_of (filter (\<lambda>r. is_active r \<and> \<not> has_succeeded A r) revs)"
    by (simp add: rs_def collect_rolling)
  ultimately show ?thesis
    using perm srt none best by (intro exI [of _ revs] exI [of _ rs] conjI allI impI) assumption+
qed

definition ex_revision :: "int \<Rightarrow> string \<Rightarrow> condition list \<Rightarrow> cluster_object_set" where
  "ex_revision n state cs =
     \<lparr>cos_Name = ''ext-'' @ show_int n, cos_UID = ''uid'' @ show_int n, cos_Generation = 1, cos_CreationTimestamp = 0,
      cos_DeletionTimestamp = None, cos_Labels = [(OwnerNameKey, ''ext'')],
      cos_Annotations = [(BundleNameKey, ''op.v'' @ show_int n)], cos_Finalizers = [], cos_Owner = Some ''ext'',
      cos_Spec = \<lparr>cosp_LifecycleState = state, cosp_Revision = n, cosp_Phases = [], cosp_ProgressDeadlineMinutes = 0,
        cosp_ProgressionProbes = [], cosp_CollisionProtection = CollisionProtectionPrevent\<rparr>,
      cos_Conditions = cs\<rparr>"

lemma BoxcutterGetRevisionStates_correct_witness:
  "\<exists>rs. BoxcutterGetRevisionStates SortStableFunc (doc_cond_api 7)
      (\<lambda>w l. (w, Inr [ex_revision 2 LifecycleStateActive [], ex_revision 1 LifecycleStateActive
          [mk_cond TypeSucceeded ConditionTrue ReasonSucceeded [] 1]])) (0::nat) ex_extension = (0, Inr rs)
    \<and> Installed rs \<noteq> None"
proof -
  let ?items = "[ex_revision 2 LifecycleStateActive [], ex_revision 1 LifecycleStateActive
          [mk_cond TypeSucceeded ConditionTrue ReasonSucceeded [] 1]]"
  have "\<not> (\<forall>r \<in> set ?items. is_active r \<longrightarrow> \<not> has_succeeded (doc_cond_api 7) r)"
    by (simp add: ex_revision_def is_active_def has_succeeded_def doc_cond_api_def find_cond_def mk_cond_def)
  then show ?thesis
    using BoxcutterGetRevisionStates_correct [of SortStableFunc "\<lambda>w l. (w, Inr ?items)" "0::nat" ex_extension 0 ?items
        "doc_cond_api 7"] stable.go_sorter_axioms by blast
qed

definition shown_progressing :: "revision_states \<Rightarrow> condition option" where
  "shown_progressing rs =
     (case (if RollingOut rs = [] then None else find_cond (rm_Conditions (last (RollingOut rs))) TypeProgressing) of
        Some c \<Rightarrow> Some c
      | None \<Rightarrow> (case Installed rs of Some i \<Rightarrow> find_cond (rm_Conditions i) TypeProgressing | None \<Rightarrow> None))"

lemma found_like_shift:
  "found_like a g x y \<Longrightarrow> found_like b g y z \<Longrightarrow> found_like (case a of Some c \<Rightarrow> Some c | None \<Rightarrow> b) g x z"
  by (auto simp: found_like_def split: option.splits)

lemma mirror_installed_facts:
  assumes "cond_laws A" "finds_first A" "mirror_installed A inst ext = (inst', ext')" "active_names ext = []"
  shows "active_names ext' = (case inst of Some i \<Rightarrow> [rm_RevisionName i] | None \<Rightarrow> [])"
    "ce_Generation ext' = ce_Generation ext"
    "map_option rm_BundleMetadata inst' = map_option rm_BundleMetadata inst"
    "map_option rm_Image inst' = map_option rm_Image inst"
    "found_like (case inst of Some i \<Rightarrow> find_cond (rm_Conditions i) TypeProgressing | None \<Rightarrow> None) (ce_Generation ext)
       (find_cond (conditions ext') TypeProgressing) (find_cond (conditions ext) TypeProgressing)"
proof -
  consider "inst = None" "inst' = None" "ext' = ext"
    | i src dst where "inst = Some i" "mirror_conditions A (ce_Generation ext) mirrored_types (rm_Conditions i) (conditions ext) = (src, dst)"
      "inst' = Some (i\<lparr>rm_Conditions := src\<rparr>)"
      "ext' = add_active \<lparr>rs_Name = rm_RevisionName i, rs_Conditions = []\<rparr>
                  (clear_active (setInstallStatus (set_conditions dst ext) (Some (rm_BundleMetadata i))))"
    using assms(3) by (auto simp: mirror_installed_def split: option.splits prod.splits)
  then show "active_names ext' = (case inst of Some i \<Rightarrow> [rm_RevisionName i] | None \<Rightarrow> [])"
    "ce_Generation ext' = ce_Generation ext"
    "map_option rm_BundleMetadata inst' = map_option rm_BundleMetadata inst"
    "map_option rm_Image inst' = map_option rm_Image inst"
    "found_like (case inst of Some i \<Rightarrow> find_cond (rm_Conditions i) TypeProgressing | None \<Rightarrow> None) (ce_Generation ext)
       (find_cond (conditions ext') TypeProgressing) (find_cond (conditions ext) TypeProgressing)"
    using assms(4) mirror_progressing(2) [OF assms(1,2)]
    by (cases; simp add: found_like_def; fail)+
qed

lemma determineFailureReason_touched:
  assumes "finds_first A" "length rs' = length rs"
    "rs \<noteq> [] \<Longrightarrow> find_cond (rm_Conditions (last rs')) TypeProgressing =
        map_option (\<lambda>c. c\<lparr>cond_ObservedGeneration := g\<rparr>) (find_cond (rm_Conditions (last rs)) TypeProgressing)"
  shows "determineFailureReason A rs' = determineFailureReason A rs"
proof (cases "rs = []")
  case False
  then have ne: "rs' \<noteq> []"
    using assms(2) by auto
  then have "rs' ! (length rs' - 1) = last rs'" "rs ! (length rs - 1) = last rs"
    using last_conv_nth [OF ne] last_conv_nth [OF False] by simp_all
  then show ?thesis
    using ne False assms(1) assms(3) [OF False]
    by (cases "find_cond (rm_Conditions (last rs)) TypeProgressing")
      (simp_all add: determineFailureReason_def finds_first_def Let_def)
qed (use assms(2) in simp)

lemma setInstalled_progressing:
  assumes "cond_laws A" "finds_first A"
  shows "find_cond (conditions (setInstalledStatusFromRevisionStates A ext rs)) TypeProgressing
    = find_cond (conditions ext) TypeProgressing"
  using cond_laws_set_other [OF assms(1), of TypeProgressing] assms(2)
  by (simp add: finds_first_def setInstalledStatusFromRevisionStates_def setInstalledStatusConditionFalse_def
      setInstalledStatusConditionSuccess_def set_condition_def SetStatusCondition_def mk_cond_def split: option.split)

lemma setInstalled_active [simp]:
  "active_names (setInstalledStatusFromRevisionStates A ext rs) = active_names ext"
  by (simp add: setInstalledStatusFromRevisionStates_def setInstalledStatusConditionFalse_def
      setInstalledStatusConditionSuccess_def set_condition_def split: option.split)

text \<open>
  What the extension shows once the applier has accepted the bundle. The active revisions are the installed one followed by the ones rolling out;
  Progressing is the condition of the newest revision rolling out if it has one, otherwise that of the installed revision, otherwise
  what it was before; Installed says whether a revision is installed, with a reason that depends on the newest
  revision rolling out.
\<close>

lemma ApplyBundleWithBoxcutter_mirrors:
  assumes "cond_laws A" "finds_first A" "resolvedRevisionMetadata st = Some m" "revisionStates st = Some rs"
    "apply_fn w (imageFS st) ext (owner_labels ext) (revision_annotations m) = (w', b, msg, None)"
  shows "\<exists>st' ext'. ApplyBundleWithBoxcutter A apply_fn w st ext = (w', st', ext', Inr None)
    \<and> active_names ext' = (case Installed rs of Some i \<Rightarrow> [rm_RevisionName i] | None \<Rightarrow> []) @ map rm_RevisionName (RollingOut rs)
    \<and> st_Install (ce_Status ext') = map_option rm_BundleMetadata (Installed rs)
    \<and> found_like (shown_progressing rs) (ce_Generation ext)
        (find_cond (conditions ext') TypeProgressing) (find_cond (conditions ext) TypeProgressing)
    \<and> (case Installed rs of
         Some i \<Rightarrow> has_cond A ext' TypeInstalled ConditionTrue ReasonSucceeded
           (truncateMessage (''Installed bundle '' @ rm_Image i @ '' successfully''))
       | None \<Rightarrow> has_cond A ext' TypeInstalled ConditionFalse (determineFailureReason A (RollingOut rs)) ''No bundle installed'')"
proof -
  obtain inst ext1 where m1: "mirror_installed A (Installed rs) (clear_active ext) = (inst, ext1)"
    by (cases "mirror_installed A (Installed rs) (clear_active ext)")
  obtain rolling ext2 where m2: "mirror_rolling A (RollingOut rs) ext1 = (rolling, ext2)"
    by (cases "mirror_rolling A (RollingOut rs) ext1")
  define rs' where "rs' = \<lparr>Installed = inst, RollingOut = rolling\<rparr>"
  note inst = mirror_installed_facts [OF assms(1,2) m1]
  note roll = mirror_rolling_names [OF m2] mirror_rolling_last [OF assms(1,2) m2]
  have run: "ApplyBundleWithBoxcutter A apply_fn w st ext
      = (w', st\<lparr>revisionStates := Some rs'\<rparr>, setInstalledStatusFromRevisionStates A ext2 rs', Inr None)"
    using assms(3-5) m1 m2 by (simp add: ApplyBundleWithBoxcutter_def rs'_def Let_def)
  have prog: "found_like (shown_progressing rs) (ce_Generation ext)
        (find_cond (conditions ext2) TypeProgressing) (find_cond (conditions ext) TypeProgressing)"
  proof (cases "RollingOut rs = []")
    case True
    then show ?thesis
      using m2 inst(5) by (simp add: shown_progressing_def)
  next
    case False
    then show ?thesis
      using found_like_shift [OF conjunct1 [OF roll(2) [OF False]]] inst(2,5) by (simp add: shown_progressing_def)
  qed
  have reason: "determineFailureReason A rolling = determineFailureReason A (RollingOut rs)"
    by (rule determineFailureReason_touched [OF assms(2)]) (use roll in auto)
  have bndl: "map_option rm_BundleMetadata (Installed rs') = map_option rm_BundleMetadata (Installed rs)"
    using inst(3) by (simp add: rs'_def)
  have names: "active_names ext2 = (case Installed rs of Some i \<Rightarrow> [rm_RevisionName i] | None \<Rightarrow> []) @ map rm_RevisionName (RollingOut rs)"
    using inst(1) roll(1) by simp
  have installed: "(case Installed rs of
         Some i \<Rightarrow> has_cond A (setInstalledStatusFromRevisionStates A ext2 rs') TypeInstalled ConditionTrue ReasonSucceeded
           (truncateMessage (''Installed bundle '' @ rm_Image i @ '' successfully''))
       | None \<Rightarrow> has_cond A (setInstalledStatusFromRevisionStates A ext2 rs') TypeInstalled ConditionFalse
           (determineFailureReason A (RollingOut rs)) ''No bundle installed'')"
    using inst(3,4) has_cond_installed [OF assms(1), where rs = rs' and ext = ext2] reason
    by (cases inst; cases "Installed rs") (simp_all add: rs'_def)
  show ?thesis
    unfolding run using names bndl prog installed
    by (intro exI [of _ "st\<lparr>revisionStates := Some rs'\<rparr>"] exI [of _ "setInstalledStatusFromRevisionStates A ext2 rs'"] conjI)
      (simp_all add: setInstalled_progressing [OF assms(1,2)])
qed

lemma ApplyBundleWithBoxcutter_mirrors_witness:
  "\<exists>st' ext'. ApplyBundleWithBoxcutter (doc_cond_api 7) (\<lambda>w fs e l r. (w, True, [], None)) (0::nat)
       (zero_state\<lparr>resolvedRevisionMetadata := Installed ex_states, revisionStates := Some ex_states\<rparr> :: unit reconcile_state)
       ex_extension = (0, st', ext', Inr None) \<and> active_names ext' = [[]]"
  using ApplyBundleWithBoxcutter_mirrors [of "doc_cond_api 7"
      "zero_state\<lparr>resolvedRevisionMetadata := Installed ex_states, revisionStates := Some ex_states\<rparr> :: unit reconcile_state"
      "the (Installed ex_states)" ex_states "\<lambda>w fs e l r. (w, True, [], None)" "0::nat" ex_extension 0 True "[]"]
  by (auto simp: doc_cond_laws ex_states_def)

end
