(* ===== verification/RevisionGenerator.thy ===== *)
theory RevisionGenerator
  imports ApplierCommon BoxcutterSteps
begin

text \<open>
  Generating the ClusterObjectSet of a bundle or of a Helm release: \<^verbatim>\<open>SimpleRevisionGenerator\<close> of
  \<^verbatim>\<open>applier/boxcutter.go\<close>, its progression probes and the helpers that move objects between their
  inline form and the references into Secrets.  An apply configuration is the record \<^verbatim>\<open>cos_ac\<close>; its
  spec is a \<^verbatim>\<open>cos_spec\<close> whose unset fields have the zero value, and an unset reference is the
  zero reference.  Manifest provider, scheme and YAML decoder are arguments.
\<close>

section \<open>Apply configurations\<close>

record cos_ac =
  ac_Name :: string
  ac_Labels :: labels
  ac_Annotations :: labels
  ac_OwnerReferences :: "owner_reference list"
  ac_Spec :: cos_spec

definition zero_ref :: object_source_ref where
  "zero_ref = \<lparr>ref_Name = [], ref_Namespace = [], ref_Key = []\<rparr>"

definition inline_object :: "k8s_object \<Rightarrow> cos_object" where
  "inline_object x = \<lparr>co_Object = Some x, co_Ref = zero_ref, co_CollisionProtection = []\<rparr>"

section \<open>Progression probes\<close>

abbreviation SelectorTypeGroupKind :: string where "SelectorTypeGroupKind \<equiv> ''GroupKind''"
abbreviation ProbeTypeConditionEqual :: string where "ProbeTypeConditionEqual \<equiv> ''ConditionEqual''"
abbreviation ProbeTypeFieldsEqual :: string where "ProbeTypeFieldsEqual \<equiv> ''FieldsEqual''"
abbreviation ProbeTypeFieldValue :: string where "ProbeTypeFieldValue \<equiv> ''FieldValue''"

definition zero_assertion :: assertion where
  "zero_assertion = \<lparr>as_Type = [], as_ConditionEqual = \<lparr>cep_Type = [], cep_Status = []\<rparr>,
     as_FieldsEqual = \<lparr>fep_FieldA = [], fep_FieldB = []\<rparr>, as_FieldValue = \<lparr>fvp_FieldPath = [], fvp_Value = []\<rparr>\<rparr>"

definition condition_assertion :: "string \<Rightarrow> assertion" where
  "condition_assertion t = zero_assertion\<lparr>as_Type := ProbeTypeConditionEqual,
     as_ConditionEqual := \<lparr>cep_Type = t, cep_Status = ''True''\<rparr>\<rparr>"

definition readyConditionAssertion :: assertion where
  "readyConditionAssertion = condition_assertion ''Ready''"

definition availableConditionAssertion :: assertion where
  "availableConditionAssertion = condition_assertion ''Available''"

definition replicasUpdatedAssertion :: assertion where
  "replicasUpdatedAssertion = zero_assertion\<lparr>as_Type := ProbeTypeFieldsEqual,
     as_FieldsEqual := \<lparr>fep_FieldA = ''status.updatedReplicas'', fep_FieldB = ''status.replicas''\<rparr>\<rparr>"

definition phase_assertion :: "string \<Rightarrow> assertion" where
  "phase_assertion v = zero_assertion\<lparr>as_Type := ProbeTypeFieldValue,
     as_FieldValue := \<lparr>fvp_FieldPath = ''status.phase'', fvp_Value = v\<rparr>\<rparr>"

definition kind_probe :: "string \<times> string \<Rightarrow> assertion list \<Rightarrow> progression_probe" where
  "kind_probe gk as = \<lparr>pp_Selector = \<lparr>os_Type = SelectorTypeGroupKind, os_GroupKind = gk,
       os_Label = \<lparr>ls_MatchLabels = [], ls_MatchExpressions = []\<rparr>\<rparr>, pp_Assertions = as\<rparr>"

definition defaultProgressionProbes :: "progression_probe list" where
  "defaultProgressionProbes =
     [kind_probe (''apiextensions.k8s.io'', ''CustomResourceDefinition'') [condition_assertion ''Established''],
      kind_probe (''cert-manager.io'', ''Certificate'') [readyConditionAssertion],
      kind_probe (''cert-manager.io'', ''Issuer'') [readyConditionAssertion],
      kind_probe ([], ''Namespace'') [phase_assertion ''Active''],
      kind_probe ([], ''PersistentVolumeClaim'') [phase_assertion ''Bound''],
      kind_probe (''apps'', ''StatefulSet'') [replicasUpdatedAssertion, availableConditionAssertion],
      kind_probe (''apps'', ''Deployment'') [replicasUpdatedAssertion, availableConditionAssertion]]"

section \<open>Generating revisions\<close>

abbreviation ServiceAccountNameKey :: string where "ServiceAccountNameKey \<equiv> ''olm.operatorframework.io/service-account-name''"
abbreviation ServiceAccountNamespaceKey :: string where
  "ServiceAccountNamespaceKey \<equiv> ''olm.operatorframework.io/service-account-namespace''"
abbreviation PropertyOLMProperties :: string where "PropertyOLMProperties \<equiv> ''olm.properties''"

definition sanitizedUnstructured :: "k8s_object \<Rightarrow> k8s_object" where
  "sanitizedUnstructured obj =
     obj\<lparr>obj_Fields := filter (\<lambda>(k, v). k \<noteq> ''status'') (obj_Fields obj), obj_Metadata := []\<rparr>"

definition annotation_updates :: "labels \<Rightarrow> labels" where
  "annotation_updates ls =
     (if label_of ls BundleVersionKey \<noteq> [] then [(BundleVersionKey, label_of ls BundleVersionKey)] else [])
     @ (if label_of ls PackageNameKey \<noteq> [] then [(PackageNameKey, label_of ls PackageNameKey)] else [])"

definition finish_object :: "labels \<Rightarrow> k8s_object \<Rightarrow> k8s_object" where
  "finish_object ls obj =
     (let obj1 = sanitizedUnstructured (stripAnnotations obj); updates = annotation_updates ls in
      if length updates > 0 then obj1\<lparr>obj_Annotations := mergeStringMaps (obj_Annotations obj1) updates\<rparr> else obj1)"

definition buildClusterObjectSet :: "cos_object list \<Rightarrow> cluster_extension \<Rightarrow> labels \<Rightarrow> cos_ac" where
  "buildClusterObjectSet objects ext annotations =
     (let p = spec_ProgressDeadlineMinutes (ce_Spec ext) in
      \<lparr>ac_Name = [],
       ac_Labels = owner_labels ext,
       ac_Annotations = map_put ServiceAccountNamespaceKey (spec_Namespace (ce_Spec ext))
                          (map_put ServiceAccountNameKey (spec_ServiceAccount (ce_Spec ext)) annotations),
       ac_OwnerReferences = [],
       ac_Spec = \<lparr>cosp_LifecycleState = LifecycleStateActive, cosp_Revision = 0, cosp_Phases = PhaseSort objects,
         cosp_ProgressDeadlineMinutes = (if p > 0 then p else 0),
         cosp_ProgressionProbes = defaultProgressionProbes, cosp_CollisionProtection = []\<rparr>\<rparr>)"

definition splitManifestDocuments :: "string \<Rightarrow> string list" where
  "splitManifestDocuments file =
     filter (\<lambda>m. length m \<noteq> 0) (map trim_space (split_on (char_of (10::nat)) file))"

fun helm_objects ::
  "(string \<Rightarrow> k8s_object res) \<Rightarrow> labels \<Rightarrow> labels \<Rightarrow> string list \<Rightarrow> cos_object list res" where
  "helm_objects unmarshal relLabels objectLabels [] = Inr []"
| "helm_objects unmarshal relLabels objectLabels (doc # docs) =
     (case unmarshal doc of
        Inl err \<Rightarrow> Inl err
      | Inr obj \<Rightarrow>
          (case helm_objects unmarshal relLabels objectLabels docs of
             Inl err \<Rightarrow> Inl err
           | Inr rest \<Rightarrow>
               Inr (inline_object (finish_object relLabels
                      (obj\<lparr>obj_Labels := mergeStringMaps (obj_Labels obj) objectLabels\<rparr>)) # rest)))"

definition GenerateRevisionFromHelmRelease ::
  "(string \<Rightarrow> k8s_object res) \<Rightarrow> helm_release \<Rightarrow> cluster_extension \<Rightarrow> labels \<Rightarrow> cos_ac res" where
  "GenerateRevisionFromHelmRelease unmarshal helmRelease ext objectLabels =
     (case helm_objects unmarshal (hr_Labels helmRelease) objectLabels (splitManifestDocuments (hr_Manifest helmRelease)) of
        Inl err \<Rightarrow> Inl err
      | Inr objs \<Rightarrow>
          let ls = hr_Labels helmRelease;
              r = buildClusterObjectSet objs ext
                    [(BundleNameKey, label_of ls BundleNameKey), (PackageNameKey, label_of ls PackageNameKey),
                     (BundleVersionKey, label_of ls BundleVersionKey), (BundleReferenceKey, label_of ls BundleReferenceKey)]
          in Inr (r\<lparr>ac_Name := ce_Name ext @ ''-1'',
                    ac_Spec := (ac_Spec r)\<lparr>cosp_Revision := 1, cosp_CollisionProtection := CollisionProtectionNone\<rparr>\<rparr>))"

record 'fs revision_source =
  ManifestProviderGet :: "'fs \<Rightarrow> cluster_extension \<Rightarrow> k8s_object list res"
  getBundleAnnotations :: "'fs \<Rightarrow> labels res"
  GVKForObject :: "k8s_object \<Rightarrow> (string \<times> string \<times> string) res"
  ToUnstructured :: "k8s_object \<Rightarrow> k8s_object res"

fun bundle_objects :: "'fs revision_source \<Rightarrow> labels \<Rightarrow> labels \<Rightarrow> k8s_object list \<Rightarrow> cos_object list res" where
  "bundle_objects src revisionAnnotations objectLabels [] = Inr []"
| "bundle_objects src revisionAnnotations objectLabels (obj0 # objs) =
     (let obj = obj0\<lparr>obj_Labels := mergeStringMaps (obj_Labels obj0) objectLabels\<rparr> in
      case GVKForObject src obj of
        Inl err \<Rightarrow> Inl err
      | Inr (g, v, k) \<Rightarrow>
          (case ToUnstructured src obj of
             Inl err \<Rightarrow> Inl err
           | Inr unstr \<Rightarrow>
               (case bundle_objects src revisionAnnotations objectLabels objs of
                  Inl err \<Rightarrow> Inl err
                | Inr rest \<Rightarrow>
                    Inr (inline_object (finish_object revisionAnnotations
                           (unstr\<lparr>obj_Group := g, obj_Version := v, obj_Kind := k\<rparr>)) # rest))))"

definition GenerateRevision ::
  "'fs revision_source \<Rightarrow> 'fs \<Rightarrow> cluster_extension \<Rightarrow> labels \<Rightarrow> labels \<Rightarrow> cos_ac res" where
  "GenerateRevision src bundleFS ext objectLabels revisionAnnotations0 =
     (case ManifestProviderGet src bundleFS ext of
        Inl err \<Rightarrow> Inl err
      | Inr plain \<Rightarrow>
          (case getBundleAnnotations src bundleFS of
             Inl err \<Rightarrow> Inl (ErrWrap ''error getting bundle annotations: '' err)
           | Inr bundleAnnotations \<Rightarrow>
               let revisionAnnotations =
                     (case map_of bundleAnnotations PropertyOLMProperties of
                        Some v \<Rightarrow> map_put PropertyOLMProperties v revisionAnnotations0
                      | None \<Rightarrow> revisionAnnotations0)
               in (case bundle_objects src revisionAnnotations objectLabels plain of
                     Inl err \<Rightarrow> Inl err
                   | Inr objs \<Rightarrow>
                       let r = buildClusterObjectSet objs ext revisionAnnotations
                       in Inr (r\<lparr>ac_Spec := (ac_Spec r)\<lparr>cosp_CollisionProtection := CollisionProtectionPrevent\<rparr>\<rparr>))))"

section \<open>Objects of a revision\<close>

definition getObjects :: "cos_ac \<Rightarrow> k8s_object list" where
  "getObjects r = List.map_filter co_Object (concat (map ph_Objects (cosp_Phases (ac_Spec r))))"

definition revisionManagementPerms :: "cos_ac \<Rightarrow> string \<Rightarrow> attributes_record list" where
  "revisionManagementPerms r user = [finalizer_update user (ac_Name r) ''clusterobjectsets/finalizers'']"

definition saveInlineObjects :: "cos_ac \<Rightarrow> k8s_object option list list" where
  "saveInlineObjects r = map (\<lambda>p. map co_Object (ph_Objects p)) (cosp_Phases (ac_Spec r))"

fun restore_objects :: "cos_object list \<Rightarrow> k8s_object option list \<Rightarrow> cos_object list option" where
  "restore_objects objs [] = Some objs"
| "restore_objects [] (s # saved) = None"
| "restore_objects (obj # objs) (s # saved) =
     map_option (\<lambda>rest. obj\<lparr>co_Object := s, co_Ref := zero_ref\<rparr> # rest) (restore_objects objs saved)"

fun restore_phases :: "cos_phase list \<Rightarrow> k8s_object option list list \<Rightarrow> cos_phase list option" where
  "restore_phases phs [] = Some phs"
| "restore_phases [] (s # saved) = (if s = [] then restore_phases [] saved else None)"
| "restore_phases (p # phs) (s # saved) =
     (case restore_objects (ph_Objects p) s of
        None \<Rightarrow> None
      | Some objs \<Rightarrow> map_option (\<lambda>rest. p\<lparr>ph_Objects := objs\<rparr> # rest) (restore_phases phs saved))"

definition with_phases :: "cos_phase list \<Rightarrow> cos_ac \<Rightarrow> cos_ac" where
  "with_phases phs r = r\<lparr>ac_Spec := (ac_Spec r)\<lparr>cosp_Phases := phs\<rparr>\<rparr>"

definition restoreInlineObjects :: "cos_ac \<Rightarrow> k8s_object option list list \<Rightarrow> cos_ac option" where
  "restoreInlineObjects r saved = map_option (\<lambda>phs. with_phases phs r) (restore_phases (cosp_Phases (ac_Spec r)) saved)"

definition extractPhasesForPacking :: "cos_phase list \<Rightarrow> cos_phase list" where
  "extractPhasesForPacking phases =
     map (\<lambda>p. \<lparr>ph_Name = ph_Name p,
                ph_Objects = map (\<lambda>c. \<lparr>co_Object = co_Object c, co_Ref = zero_ref,
                                       co_CollisionProtection = co_CollisionProtection c\<rparr>) (ph_Objects p),
                ph_CollisionProtection = []\<rparr>) phases"

definition replace_object :: "((nat \<times> nat) \<times> object_source_ref) list \<Rightarrow> nat \<times> nat \<Rightarrow> cos_object \<Rightarrow> cos_object" where
  "replace_object refs pos c =
     (case map_of refs pos of None \<Rightarrow> c | Some r \<Rightarrow> c\<lparr>co_Object := None, co_Ref := r\<rparr>)"

definition replace_phases :: "((nat \<times> nat) \<times> object_source_ref) list \<Rightarrow> cos_phase list \<Rightarrow> cos_phase list" where
  "replace_phases refs phases =
     map (\<lambda>(i, p). p\<lparr>ph_Objects := map (\<lambda>(j, c). replace_object refs (i, j) c) (enumerate 0 (ph_Objects p))\<rparr>)
       (enumerate 0 phases)"

definition replaceInlineWithRefs :: "cos_ac \<Rightarrow> pack_result \<Rightarrow> cos_ac" where
  "replaceInlineWithRefs r pack = with_phases (replace_phases (Refs pack) (cosp_Phases (ac_Spec r))) r"

section \<open>Lemmas\<close>

definition all_inline :: "cos_ac \<Rightarrow> bool" where
  "all_inline r \<longleftrightarrow> (\<forall>p \<in> set (cosp_Phases (ac_Spec r)). \<forall>c \<in> set (ph_Objects p). co_Object c \<noteq> None \<and> co_Ref c = zero_ref)"

lemma restore_objects_shape:
  "\<lbrakk>length xs = length cs; \<forall>i < length cs. xs ! i = replace_object refs (f i) (cs ! i);
    \<forall>c \<in> set cs. co_Ref c = zero_ref\<rbrakk> \<Longrightarrow> restore_objects xs (map co_Object cs) = Some cs"
proof (induction cs arbitrary: xs f)
  case (Cons c cs)
  then obtain y ys where xs: "xs = y # ys" by (cases xs) auto
  have "restore_objects ys (map co_Object cs) = Some cs"
    using Cons.prems by (intro Cons.IH [of ys "\<lambda>i. f (Suc i)"]) (auto simp: xs)
  moreover have "y\<lparr>co_Object := co_Object c, co_Ref := zero_ref\<rparr> = c"
    using Cons.prems(2,3) by (auto simp: xs replace_object_def split: option.splits)
  ultimately show ?case by (simp add: xs)
qed simp

lemma restore_phases_shape:
  "\<lbrakk>length qs = length ps;
    \<forall>i < length ps. qs ! i = (ps ! i)\<lparr>ph_Objects := map (\<lambda>(j, c). replace_object refs (f i, j) c) (enumerate 0 (ph_Objects (ps ! i)))\<rparr>;
    \<forall>p \<in> set ps. \<forall>c \<in> set (ph_Objects p). co_Ref c = zero_ref\<rbrakk>
   \<Longrightarrow> restore_phases qs (map (\<lambda>p. map co_Object (ph_Objects p)) ps) = Some ps"
proof (induction ps arbitrary: qs f)
  case (Cons p ps)
  then obtain q qs' where qs: "qs = q # qs'" by (cases qs) auto
  have q: "q = p\<lparr>ph_Objects := map (\<lambda>(j, c). replace_object refs (f 0, j) c) (enumerate 0 (ph_Objects p))\<rparr>"
    using Cons.prems(2) [rule_format, of 0] by (simp add: qs)
  have "restore_phases qs' (map (\<lambda>p. map co_Object (ph_Objects p)) ps) = Some ps"
    using Cons.prems by (intro Cons.IH [of qs' "\<lambda>i. f (Suc i)"]) (auto simp: qs)
  moreover have "restore_objects (ph_Objects q) (map co_Object (ph_Objects p)) = Some (ph_Objects p)"
    by (rule restore_objects_shape [where f = "\<lambda>j. (f 0, j)" and refs = refs])
      (use Cons.prems(3) in \<open>auto simp: q nth_enumerate_eq\<close>)
  ultimately show ?case by (simp add: qs q)
qed simp

lemma restore_replace:
  assumes "all_inline r"
  shows "restoreInlineObjects (replaceInlineWithRefs r pack) (saveInlineObjects r) = Some r"
proof -
  have "restore_phases (replace_phases (Refs pack) (cosp_Phases (ac_Spec r))) (saveInlineObjects r) = Some (cosp_Phases (ac_Spec r))"
    unfolding saveInlineObjects_def
    by (rule restore_phases_shape [where f = id and refs = "Refs pack"])
      (use assms in \<open>auto simp: all_inline_def replace_phases_def nth_enumerate_eq\<close>)
  then show ?thesis
    by (simp add: restoreInlineObjects_def replaceInlineWithRefs_def with_phases_def)
qed

definition managed_object :: "labels \<Rightarrow> k8s_object \<Rightarrow> bool" where
  "managed_object ls x \<longleftrightarrow> (\<forall>k v. map_of ls k = Some v \<longrightarrow> map_of (obj_Labels x) k = Some v)
     \<and> ''status'' \<notin> fst ` set (obj_Fields x) \<and> obj_Metadata x = [] \<and> lastAppliedKey \<notin> fst ` set (obj_Annotations x)"

lemma map_put_keys: "fst ` set (map_put k v m) = insert k (fst ` set m)"
  by (induction k v m rule: map_put.induct) auto

lemma maps_Copy_keys: "fst ` set (maps_Copy dst src) = fst ` set dst \<union> fst ` set src"
proof (induction src arbitrary: dst)
  case (Cons p src)
  have "maps_Copy dst (p # src) = maps_Copy (map_put (fst p) (snd p) dst) src"
    by (simp add: maps_Copy_def split_beta)
  then show ?case
    by (simp add: Cons.IH map_put_keys)
qed (simp add: maps_Copy_def)

lemma merge_keys: "fst ` set (mergeStringMaps m1 m2) = fst ` set m1 \<union> fst ` set m2"
  by (simp add: mergeStringMaps_def maps_Copy_keys)

lemma annotation_updates_keys: "fst ` set (annotation_updates ls) \<subseteq> {BundleVersionKey, PackageNameKey}"
  by (auto simp: annotation_updates_def)

lemma finish_object_managed:
  assumes "\<forall>k v. map_of ls k = Some v \<longrightarrow> map_of (obj_Labels x) k = Some v"
  shows "managed_object ls (finish_object anns x)"
proof -
  have "lastAppliedKey \<notin> fst ` set (annotation_updates anns)"
    using annotation_updates_keys by force
  then show ?thesis
    using assms by (auto simp: managed_object_def finish_object_def sanitizedUnstructured_def stripAnnotations_def Let_def merge_keys)
qed

definition keeps_labels :: "'fs revision_source \<Rightarrow> bool" where
  "keeps_labels src \<longleftrightarrow> (\<forall>x u. ToUnstructured src x = Inr u \<longrightarrow> obj_Labels u = obj_Labels x)"

lemma bundle_objects_managed:
  assumes "keeps_labels src" "distinct (map fst ls)"
  shows "bundle_objects src anns ls plain = Inr objs \<Longrightarrow> \<forall>x \<in> set plain. distinct (map fst (obj_Labels x)) \<Longrightarrow>
    length objs = length plain \<and> (\<forall>c \<in> set objs. \<exists>x. c = inline_object x \<and> managed_object ls x)"
proof (induction plain arbitrary: objs)
  case (Cons x plain)
  let ?x = "x\<lparr>obj_Labels := mergeStringMaps (obj_Labels x) ls\<rparr>"
  from Cons.prems(1) obtain g v k u rest where run: "GVKForObject src ?x = Inr (g, v, k)" "ToUnstructured src ?x = Inr u"
    "bundle_objects src anns ls plain = Inr rest"
    "objs = inline_object (finish_object anns (u\<lparr>obj_Group := g, obj_Version := v, obj_Kind := k\<rparr>)) # rest"
    by (auto simp: Let_def split: sum.splits)
  have "obj_Labels u = mergeStringMaps (obj_Labels x) ls"
    using assms(1) run(2) by (auto simp: keeps_labels_def)
  then have "managed_object ls (finish_object anns (u\<lparr>obj_Group := g, obj_Version := v, obj_Kind := k\<rparr>))"
    using Cons.prems(2) assms(2) by (intro finish_object_managed) (simp add: map_of_merge)
  then show ?case
    using Cons.IH [OF run(3)] Cons.prems(2) run(4) by auto
qed simp

lemma getObjects_inline:
  assumes "\<forall>c \<in> set objs. \<exists>x. c = inline_object x \<and> P x" "cosp_Phases (ac_Spec r) = PhaseSort objs"
  shows "length (getObjects r) = length objs" "\<forall>x \<in> set (getObjects r). P x" "all_inline r"
proof -
  let ?cs = "concat (map ph_Objects (PhaseSort objs))"
  have m: "mset ?cs = mset objs" by (rule PhaseSort_mset)
  then have same: "set ?cs = set objs" by (metis set_mset_mset)
  have "filter (\<lambda>c. co_Object c \<noteq> None) ?cs = ?cs"
    using assms(1) unfolding same [symmetric] filter_id_conv by (force simp: inline_object_def)
  then have "getObjects r = map (the \<circ> co_Object) ?cs"
    by (simp add: getObjects_def assms(2) List.map_filter_def del: not_None_eq)
  moreover have "length ?cs = length objs"
    by (rule mset_eq_length [OF m])
  moreover have "\<forall>c \<in> set ?cs. P (the (co_Object c))"
    using assms(1) unfolding same [symmetric] by (force simp: inline_object_def)
  ultimately show "length (getObjects r) = length objs" "\<forall>x \<in> set (getObjects r). P x"
    by (simp_all del: length_concat set_concat)
  show "all_inline r"
    using assms(1) unfolding same [symmetric] by (force simp: all_inline_def assms(2) inline_object_def)
qed

section \<open>Properties\<close>


definition ex_source :: "unit revision_source" where
  "ex_source = \<lparr>ManifestProviderGet = (\<lambda>_ _. Inr [ex_configmap]), getBundleAnnotations = (\<lambda>_. Inr []),
     GVKForObject = (\<lambda>x. Inr (obj_Group x, obj_Version x, obj_Kind x)), ToUnstructured = Inr\<rparr>"


end
