(* ===== verification/BoxcutterApplier.thy ===== *)
theory BoxcutterApplier
  imports RevisionGenerator
begin

text \<open>
  The Boxcutter applier and the migration from Helm releases (\<^verbatim>\<open>applier/boxcutter.go\<close>): existing
  revisions, the comparison by server-side apply, preflights, the creation of an externalized
  revision in three steps, garbage collection of archived revisions and the owner references of
  the Secrets.  The Kubernetes client is a record of calls that thread the state of the cluster.
\<close>

section \<open>Client\<close>

record 'w bc_client =
  ListCOS :: "'w \<Rightarrow> labels \<Rightarrow> 'w \<times> cluster_object_set list res"
  ApplyCOS :: "'w \<Rightarrow> cos_ac \<Rightarrow> 'w \<times> goerr option"
  DeleteCOS :: "'w \<Rightarrow> string \<Rightarrow> 'w \<times> goerr option"
  GetCOS :: "'w \<Rightarrow> string \<Rightarrow> 'w \<times> cluster_object_set res"
  UpdateCOSStatus :: "'w \<Rightarrow> cluster_object_set \<Rightarrow> 'w \<times> goerr option"
  CreateSecret :: "'w \<Rightarrow> secret \<Rightarrow> 'w \<times> goerr option"
  ListSecrets :: "'w \<Rightarrow> string \<Rightarrow> labels \<Rightarrow> 'w \<times> secret list res"
  PatchSecret :: "'w \<Rightarrow> secret \<Rightarrow> 'w \<times> goerr option"

record ('w, 'fs) boxcutter =
  bc_Client :: "'w bc_client"
  bc_SortFunc :: "cluster_object_set cmp \<Rightarrow> cluster_object_set list \<Rightarrow> cluster_object_set list"
  bc_OwnerGVK :: "(string \<times> string) res"
  bc_GenerateRevision :: "'fs \<Rightarrow> cluster_extension \<Rightarrow> labels \<Rightarrow> labels \<Rightarrow> cos_ac res"
  bc_Preflights :: "'w preflight list"
  bc_PreAuthorizer :: "(string \<Rightarrow> string \<Rightarrow> (string \<Rightarrow> attributes_record list) list \<Rightarrow> scoped_policy_rules list \<times> goerr option) option"
  bc_PrintObj :: "k8s_object \<Rightarrow> string res"
  bc_Codec :: codec
  bc_SystemNamespace :: string

definition is_status :: "string \<Rightarrow> goerr \<Rightarrow> bool" where
  "is_status reason err = (as_status err = Some reason)"

section \<open>Existing revisions\<close>

definition getExistingRevisions ::
  "('w, 'fs) boxcutter \<Rightarrow> 'w \<Rightarrow> string \<Rightarrow> 'w \<times> cluster_object_set list res" where
  "getExistingRevisions bc w extName =
     (case ListCOS (bc_Client bc) w [(OwnerNameKey, extName)] of
        (w', Inl err) \<Rightarrow> (w', Inl (ErrWrap ''listing revisions: '' err))
      | (w', Inr found) \<Rightarrow> (w', Inr (bc_SortFunc bc compare_revision found)))"

definition latestRevisionNumber :: "cluster_object_set list \<Rightarrow> int" where
  "latestRevisionNumber prevRevisions =
     (if length prevRevisions = 0 then 0 else cosp_Revision (cos_Spec (prevRevisions ! (length prevRevisions - 1))))"

abbreviation ClusterObjectSetRetentionLimit :: nat where "ClusterObjectSetRetentionLimit \<equiv> 5"

fun gc_loop :: "'w bc_client \<Rightarrow> nat \<Rightarrow> nat \<Rightarrow> cluster_object_set list \<Rightarrow> 'w \<Rightarrow> 'w \<times> goerr option" where
  "gc_loop c n index [] w = (w, None)"
| "gc_loop c n index (r # rs) w =
     (if int index < int n - int ClusterObjectSetRetentionLimit
         \<and> cosp_LifecycleState (cos_Spec r) = LifecycleStateArchived
      then (case DeleteCOS c w (cos_Name r) of
              (w', Some err) \<Rightarrow>
                if \<not> is_status ''NotFound'' err then (w', Some (ErrWrap ''deleting archived revision: '' err))
                else gc_loop c n (Suc index) rs w'
            | (w', None) \<Rightarrow> gc_loop c n (Suc index) rs w')
      else gc_loop c n (Suc index) rs w)"

definition garbageCollectOldRevisions :: "'w bc_client \<Rightarrow> cluster_object_set list \<Rightarrow> 'w \<Rightarrow> 'w \<times> goerr option" where
  "garbageCollectOldRevisions c revisionList w = gc_loop c (length revisionList) 0 revisionList w"

section \<open>Pre-authorization\<close>

fun revisionManifestReader :: "(k8s_object \<Rightarrow> string res) \<Rightarrow> k8s_object list \<Rightarrow> string res" where
  "revisionManifestReader PrintObj [] = Inr []"
| "revisionManifestReader PrintObj (x # xs) =
     (case PrintObj x of
        Inl err \<Rightarrow> Inl err
      | Inr t \<Rightarrow> map_sum id (\<lambda>rest. ''---'' @ newline @ t @ rest) (revisionManifestReader PrintObj xs))"

definition bcRunPreAuthorizationChecks :: "('w, 'fs) boxcutter \<Rightarrow> string \<Rightarrow> cos_ac \<Rightarrow> goerr option" where
  "bcRunPreAuthorizationChecks bc user r =
     (case bc_PreAuthorizer bc of
        None \<Rightarrow> None
      | Some pre \<Rightarrow>
          (case revisionManifestReader (bc_PrintObj bc) (getObjects r) of
             Inl err \<Rightarrow> Some err
           | Inr manifest \<Rightarrow> formatPreAuthorizerOutput (pre user manifest [revisionManagementPerms r])))"

section \<open>Owner references of Secrets\<close>

definition cos_owner_ref :: "string \<Rightarrow> string \<Rightarrow> owner_reference" where
  "cos_owner_ref cosName cosUID =
     \<lparr>or_APIVersion = ''olm.operatorframework.io/v1'', or_Kind = ClusterObjectSetKind, or_Name = cosName,
      or_UID = cosUID, or_Controller = True, or_BlockOwnerDeletion = True\<rparr>"

definition has_owner_uid :: "string \<Rightarrow> secret \<Rightarrow> bool" where
  "has_owner_uid uid s = list_ex (\<lambda>r. or_UID r = uid) (sec_OwnerReferences s)"

fun patchOwnerRefsOnSecrets :: "'w bc_client \<Rightarrow> string \<Rightarrow> string \<Rightarrow> secret list \<Rightarrow> 'w \<Rightarrow> 'w \<times> goerr option" where
  "patchOwnerRefsOnSecrets c cosName cosUID [] w = (w, None)"
| "patchOwnerRefsOnSecrets c cosName cosUID (s # ss) w =
     (if has_owner_uid cosUID s then patchOwnerRefsOnSecrets c cosName cosUID ss w
      else
        case PatchSecret c w (s\<lparr>sec_OwnerReferences := sec_OwnerReferences s @ [cos_owner_ref cosName cosUID]\<rparr>) of
          (w', Some err) \<Rightarrow>
            (w', Some (ErrWrap (''patching ownerReference on Secret '' @ sec_Namespace s @ ''/'' @ sec_Name s @ '': '') err))
        | (w', None) \<Rightarrow> patchOwnerRefsOnSecrets c cosName cosUID ss w')"

definition patchSecretOwnerReferences :: "'w bc_client \<Rightarrow> cos_ac \<Rightarrow> secret list \<Rightarrow> 'w \<Rightarrow> 'w \<times> goerr option" where
  "patchSecretOwnerReferences c r secrets w =
     (if length secrets = 0 then (w, None)
      else
        case GetCOS c w (ac_Name r) of
          (w', Inl err) \<Rightarrow> (w', Some (ErrWrap (''getting COS '' @ quote (ac_Name r) @ '' for ownerReference: '') err))
        | (w', Inr cos) \<Rightarrow> patchOwnerRefsOnSecrets c (cos_Name cos) (cos_UID cos) secrets w')"

definition ensureSecretOwnerReferences ::
  "('w, 'fs) boxcutter \<Rightarrow> cluster_object_set \<Rightarrow> 'w \<Rightarrow> 'w \<times> goerr option" where
  "ensureSecretOwnerReferences bc cos w =
     (case ListSecrets (bc_Client bc) w (bc_SystemNamespace bc) [(RevisionNameKey, cos_Name cos)] of
        (w', Inl err) \<Rightarrow> (w', Some (ErrWrap (''listing ref Secrets for revision '' @ quote (cos_Name cos) @ '': '') err))
      | (w', Inr found) \<Rightarrow>
          let needsPatch = filter (\<lambda>s. \<not> has_owner_uid (cos_UID cos) s) found in
          if length needsPatch = 0 then (w', None)
          else patchOwnerRefsOnSecrets (bc_Client bc) (cos_Name cos) (cos_UID cos) needsPatch w')"

section \<open>Creating a revision\<close>

definition with_revision :: "string \<Rightarrow> int \<Rightarrow> cos_ac \<Rightarrow> cos_ac" where
  "with_revision name n r = r\<lparr>ac_Name := name, ac_Spec := (ac_Spec r)\<lparr>cosp_Revision := n\<rparr>\<rparr>"

definition packer_for :: "('w, 'fs) boxcutter \<Rightarrow> cluster_extension \<Rightarrow> string \<Rightarrow> secret_packer" where
  "packer_for bc ext revisionName =
     \<lparr>RevisionName = revisionName, OwnerName = ce_Name ext, SystemNamespace = bc_SystemNamespace bc\<rparr>"

fun create_secrets :: "'w bc_client \<Rightarrow> secret list \<Rightarrow> 'w \<Rightarrow> 'w \<times> goerr option" where
  "create_secrets c [] w = (w, None)"
| "create_secrets c (s # ss) w =
     (case CreateSecret c w s of
        (w', Some err) \<Rightarrow>
          if \<not> is_status ''AlreadyExists'' err
          then (w', Some (ErrWrap (''creating ref Secret '' @ quote (sec_Name s) @ '': '') err))
          else create_secrets c ss w'
      | (w', None) \<Rightarrow> create_secrets c ss w')"

definition apply_externalized :: "'w bc_client \<Rightarrow> cos_ac \<Rightarrow> pack_result \<Rightarrow> 'w \<Rightarrow> 'w \<times> goerr option" where
  "apply_externalized c r pack w =
     (case create_secrets c (Secrets pack) w of
        (w1, Some err) \<Rightarrow> (w1, Some err)
      | (w1, None) \<Rightarrow>
          (case ApplyCOS c w1 r of
             (w2, Some err) \<Rightarrow> (w2, Some (ErrWrap ''creating new Revision: '' err))
           | (w2, None) \<Rightarrow>
               (case patchSecretOwnerReferences c r (Secrets pack) w2 of
                  (w3, Some err) \<Rightarrow> (w3, Some (ErrWrap ''patching ownerReferences on ref Secrets: '' err))
                | (w3, None) \<Rightarrow> (w3, None))))"

definition createExternalizedRevision ::
  "('w, 'fs) boxcutter \<Rightarrow> cluster_extension \<Rightarrow> cos_ac \<Rightarrow> cluster_object_set list \<Rightarrow> 'w \<Rightarrow> 'w \<times> goerr option" where
  "createExternalizedRevision bc ext desired0 prevRevisions w =
     (let revisionNumber = latestRevisionNumber prevRevisions + 1;
          revisionName = ce_Name ext @ ''-'' @ show_int revisionNumber;
          desired = with_revision revisionName revisionNumber desired0
      in case garbageCollectOldRevisions (bc_Client bc) prevRevisions w of
           (w1, Some err) \<Rightarrow> (w1, Some (ErrWrap ''garbage collecting old revisions: '' err))
         | (w1, None) \<Rightarrow>
             (case bcRunPreAuthorizationChecks bc (getUserInfo ext) desired of
                Some err \<Rightarrow> (w1, Some (ErrWrap ''creating new Revision: '' err))
              | None \<Rightarrow>
                  (case Pack (bc_Codec bc) (packer_for bc ext revisionName)
                          (extractPhasesForPacking (cosp_Phases (ac_Spec desired))) of
                     Inl err \<Rightarrow> (w1, Some (ErrWrap ''packing objects into Secrets: '' err))
                   | Inr pack \<Rightarrow> apply_externalized (bc_Client bc) (replaceInlineWithRefs desired pack) pack w1)))"

section \<open>Apply\<close>

definition ext_owner_ref :: "string \<times> string \<Rightarrow> cluster_extension \<Rightarrow> owner_reference" where
  "ext_owner_ref gvk ext =
     \<lparr>or_APIVersion = fst gvk, or_Kind = snd gvk, or_Name = ce_Name ext, or_UID = ce_UID ext,
      or_Controller = True, or_BlockOwnerDeletion = True\<rparr>"

definition add_owner :: "owner_reference \<Rightarrow> cos_ac \<Rightarrow> cos_ac" where
  "add_owner o1 r = r\<lparr>ac_OwnerReferences := ac_OwnerReferences r @ [o1]\<rparr>"

text \<open>The comparison with the newest revision by applying the desired one under its name.\<close>

definition compare_with_current ::
  "('w, 'fs) boxcutter \<Rightarrow> cluster_extension \<Rightarrow> cos_ac \<Rightarrow> cluster_object_set \<Rightarrow> 'w \<Rightarrow> 'w \<times> (cos_ac \<times> string) res" where
  "compare_with_current bc ext desired0 current w =
     (let desired = with_revision (cos_Name current) (cosp_Revision (cos_Spec current)) desired0 in
      case Pack (bc_Codec bc) (packer_for bc ext (cos_Name current))
             (extractPhasesForPacking (cosp_Phases (ac_Spec desired))) of
        Inl err \<Rightarrow> (w, Inl (ErrWrap ''packing for SSA comparison: '' err))
      | Inr pack \<Rightarrow>
          (case ApplyCOS (bc_Client bc) w (replaceInlineWithRefs desired pack) of (w', oerr) \<Rightarrow>
             (case restoreInlineObjects (replaceInlineWithRefs desired pack) (saveInlineObjects desired) of
                None \<Rightarrow> (w', Inl (ErrPanic ''index out of range''))
              | Some desired' \<Rightarrow>
                  (case oerr of
                     None \<Rightarrow> (w', Inr (desired', StateUnchanged))
                   | Some err \<Rightarrow>
                       if is_status ''Invalid'' err then (w', Inr (desired', StateNeedsUpgrade))
                       else (w', Inl (ErrWrap (''patching '' @ cos_Name current @ '' Revision: '') err))))))"

definition finish_apply ::
  "('w, 'fs) boxcutter \<Rightarrow> cluster_extension \<Rightarrow> cluster_object_set list \<Rightarrow> cos_ac \<Rightarrow> string \<Rightarrow> 'w
   \<Rightarrow> 'w \<times> bool \<times> string \<times> goerr option" where
  "finish_apply bc ext existing desired state w =
     (case run_preflights (bc_Preflights bc) ext state (getObjects desired) w of
        (w1, Some err) \<Rightarrow> (w1, False, [], Some err)
      | (w1, None) \<Rightarrow>
          if state \<noteq> StateUnchanged
          then (case createExternalizedRevision bc ext desired existing w1 of
                  (w2, Some err) \<Rightarrow> (w2, False, [], Some err)
                | (w2, None) \<Rightarrow> (w2, True, [], None))
          else if existing \<noteq> [] \<and> cos_Name (last existing) \<noteq> []
          then (case ensureSecretOwnerReferences bc (last existing) w1 of
                  (w2, Some err) \<Rightarrow> (w2, False, [], Some (ErrWrap ''ensuring ownerReferences on ref Secrets: '' err))
                | (w2, None) \<Rightarrow> (w2, True, [], None))
          else (w1, True, [], None))"

definition BoxcutterApply :: "('w, 'fs) boxcutter \<Rightarrow> ('w, 'fs) applier" where
  "BoxcutterApply bc w contentFS ext objectLabels revisionAnnotations =
     (case getExistingRevisions bc w (ce_Name ext) of
        (w1, Inl err) \<Rightarrow> (w1, False, [], Some err)
      | (w1, Inr existing) \<Rightarrow>
          (case contentFS of
             None \<Rightarrow>
               if length existing = 0
               then (w1, False, [], Some (ErrText ''catalog content unavailable and no revision installed''))
               else (w1, True, [], None)
           | Some fs \<Rightarrow>
               (case bc_GenerateRevision bc fs ext objectLabels revisionAnnotations of
                  Inl err \<Rightarrow> (w1, False, [], Some err)
                | Inr desired0 \<Rightarrow>
                    (case bc_OwnerGVK bc of
                       Inl err \<Rightarrow> (w1, False, [], Some (ErrWrap ''get GVK for owner: '' err))
                     | Inr gvk \<Rightarrow>
                         let desired = add_owner (ext_owner_ref gvk ext) desired0 in
                         if length existing > 0
                         then (case compare_with_current bc ext desired (last existing) w1 of
                                 (w2, Inl err) \<Rightarrow> (w2, False, [], Some err)
                               | (w2, Inr (desired', state)) \<Rightarrow> finish_apply bc ext existing desired' state w2)
                         else finish_apply bc ext existing desired StateNeedsInstall w1))))"

section \<open>Migration from Helm\<close>

abbreviation MigratedFromHelmKey :: string where "MigratedFromHelmKey \<equiv> ''olm.operatorframework.io/migrated-from-helm''"

record 'w helm_actions =
  ha_Get :: "'w \<Rightarrow> string \<Rightarrow> 'w \<times> helm_release option \<times> goerr option"
  ha_History :: "'w \<Rightarrow> string \<Rightarrow> 'w \<times> helm_release option list \<times> goerr option"

record 'w storage_migrator =
  sm_Client :: "'w bc_client"
  sm_Conds :: cond_api
  sm_ActionClientFor :: "'w \<Rightarrow> cluster_extension \<Rightarrow> 'w \<times> 'w helm_actions res"
  sm_isReleaseNotFound :: "goerr \<Rightarrow> bool"
  sm_Unmarshal :: "string \<Rightarrow> k8s_object res"
  sm_OwnerGVK :: "(string \<times> string) res"

definition ensureRevisionStatus :: "'w storage_migrator \<Rightarrow> string \<Rightarrow> 'w \<Rightarrow> 'w \<times> goerr option" where
  "ensureRevisionStatus m name w =
     (case GetCOS (sm_Client m) w name of
        (w1, Inl err) \<Rightarrow> (w1, Some (ErrWrap ''getting existing revision for status check: '' err))
      | (w1, Inr r) \<Rightarrow>
          if label_of (cos_Labels r) MigratedFromHelmKey \<noteq> ''true'' then (w1, None)
          else if apiIsStatusConditionTrue (sm_Conds m) (cos_Conditions r) TypeSucceeded then (w1, None)
          else
            (case UpdateCOSStatus (sm_Client m) w1
                    (r\<lparr>cos_Conditions := apiSetStatusCondition (sm_Conds m) (cos_Conditions r)
                        (mk_cond TypeSucceeded ConditionTrue ReasonSucceeded
                           ''Revision succeeded - migrated from Helm release'' (cos_Generation r))\<rparr>) of
               (w2, Some err) \<Rightarrow> (w2, Some (ErrWrap ''updating migrated revision status: '' err))
             | (w2, None) \<Rightarrow> (w2, None)))"

fun ensureMigratedRevisionStatus :: "'w storage_migrator \<Rightarrow> cluster_object_set list \<Rightarrow> 'w \<Rightarrow> 'w \<times> goerr option" where
  "ensureMigratedRevisionStatus m [] w = (w, None)"
| "ensureMigratedRevisionStatus m (r # rs) w =
     (if cosp_Revision (cos_Spec r) \<noteq> 1 then ensureMigratedRevisionStatus m rs w
      else if apiIsStatusConditionTrue (sm_Conds m) (cos_Conditions r) TypeSucceeded then (w, None)
      else ensureRevisionStatus m (cos_Name r) w)"

fun latest_deployed :: "helm_release option list \<Rightarrow> helm_release option \<Rightarrow> helm_release option" where
  "latest_deployed [] latest = latest"
| "latest_deployed (None # rels) latest = latest_deployed rels latest"
| "latest_deployed (Some rel # rels) latest =
     (if hr_Status rel \<noteq> Some ''deployed'' then latest_deployed rels latest
      else case latest of
             None \<Rightarrow> latest_deployed rels (Some rel)
           | Some l \<Rightarrow> latest_deployed rels (if hr_Version rel > hr_Version l then Some rel else latest))"

definition findLatestDeployedRelease ::
  "'w storage_migrator \<Rightarrow> 'w helm_actions \<Rightarrow> string \<Rightarrow> 'w \<Rightarrow> 'w \<times> helm_release option res" where
  "findLatestDeployedRelease m ac name w =
     (case ha_History ac w name of
        (w', history, Some err) \<Rightarrow> if sm_isReleaseNotFound m err then (w', Inr None) else (w', Inl err)
      | (w', history, None) \<Rightarrow> (w', Inr (latest_deployed history None)))"

definition migrate_release ::
  "'w storage_migrator \<Rightarrow> helm_release \<Rightarrow> cluster_extension \<Rightarrow> labels \<Rightarrow> 'w \<Rightarrow> 'w \<times> goerr option" where
  "migrate_release m rel ext objectLabels w =
     (case GenerateRevisionFromHelmRelease (sm_Unmarshal m) rel ext objectLabels of
        Inl err \<Rightarrow> (w, Some err)
      | Inr r0 \<Rightarrow>
          let r1 = r0\<lparr>ac_Labels := map_put MigratedFromHelmKey ''true'' (ac_Labels r0)\<rparr> in
          (case sm_OwnerGVK m of
             Inl err \<Rightarrow> (w, Some (ErrWrap ''get GVK for owner: '' err))
           | Inr gvk \<Rightarrow>
               let r = add_owner (ext_owner_ref gvk ext) r1 in
               (case ApplyCOS (sm_Client m) w r of
                  (w', Some err) \<Rightarrow> (w', Some err)
                | (w', None) \<Rightarrow> ensureRevisionStatus m (ac_Name r) w')))"

definition Migrate :: "'w storage_migrator \<Rightarrow> 'w \<Rightarrow> cluster_extension \<Rightarrow> labels \<Rightarrow> 'w \<times> goerr option" where
  "Migrate m w ext objectLabels =
     (case ListCOS (sm_Client m) w [(OwnerNameKey, ce_Name ext)] of
        (w1, Inl err) \<Rightarrow> (w1, Some (ErrWrap ''listing ClusterObjectSets before attempting migration: '' err))
      | (w1, Inr existing) \<Rightarrow>
          if length existing \<noteq> 0 then ensureMigratedRevisionStatus m existing w1
          else
            (case sm_ActionClientFor m w1 ext of
               (w2, Inl err) \<Rightarrow> (w2, Some err)
             | (w2, Inr ac) \<Rightarrow>
                 (case ha_Get ac w2 (ce_Name ext) of
                    (w3, orel, Some err) \<Rightarrow> if sm_isReleaseNotFound m err then (w3, None) else (w3, Some err)
                  | (w3, orel, None) \<Rightarrow>
                      (case orel of
                         Some rel \<Rightarrow>
                           if hr_Status rel = Some ''deployed'' then migrate_release m rel ext objectLabels w3
                           else (case findLatestDeployedRelease m ac (ce_Name ext) w3 of
                                   (w4, Inl err) \<Rightarrow> (w4, Some err)
                                 | (w4, Inr None) \<Rightarrow> (w4, None)
                                 | (w4, Inr (Some r)) \<Rightarrow> migrate_release m r ext objectLabels w4)
                       | None \<Rightarrow>
                           (case findLatestDeployedRelease m ac (ce_Name ext) w3 of
                              (w4, Inl err) \<Rightarrow> (w4, Some err)
                            | (w4, Inr None) \<Rightarrow> (w4, None)
                            | (w4, Inr (Some r)) \<Rightarrow> migrate_release m r ext objectLabels w4)))))"

section \<open>Traces\<close>

text \<open>
  A client that records the calls it gets and answers by an arbitrary function of the calls so
  far: what holds for it holds for every behaviour of the cluster.
\<close>

datatype bc_call =
    CallList labels
  | CallApply cos_ac
  | CallDelete string
  | CallGet string
  | CallUpdateStatus cluster_object_set
  | CallCreate secret
  | CallListSecrets string labels
  | CallPatch secret

record bc_answers =
  an_list :: "bc_call list \<Rightarrow> cluster_object_set list res"
  an_err :: "bc_call list \<Rightarrow> goerr option"
  an_get :: "bc_call list \<Rightarrow> cluster_object_set res"
  an_secrets :: "bc_call list \<Rightarrow> secret list res"

definition recorder :: "bc_answers \<Rightarrow> bc_call list bc_client" where
  "recorder an =
     \<lparr>ListCOS = (\<lambda>w l. let w' = w @ [CallList l] in (w', an_list an w')),
      ApplyCOS = (\<lambda>w r. let w' = w @ [CallApply r] in (w', an_err an w')),
      DeleteCOS = (\<lambda>w n. let w' = w @ [CallDelete n] in (w', an_err an w')),
      GetCOS = (\<lambda>w n. let w' = w @ [CallGet n] in (w', an_get an w')),
      UpdateCOSStatus = (\<lambda>w r. let w' = w @ [CallUpdateStatus r] in (w', an_err an w')),
      CreateSecret = (\<lambda>w s. let w' = w @ [CallCreate s] in (w', an_err an w')),
      ListSecrets = (\<lambda>w ns l. let w' = w @ [CallListSecrets ns l] in (w', an_secrets an w')),
      PatchSecret = (\<lambda>w s. let w' = w @ [CallPatch s] in (w', an_err an w'))\<rparr>"

lemma recorder_sel [simp]:
  "ListCOS (recorder an) w l = (w @ [CallList l], an_list an (w @ [CallList l]))"
  "ApplyCOS (recorder an) w r = (w @ [CallApply r], an_err an (w @ [CallApply r]))"
  "DeleteCOS (recorder an) w n = (w @ [CallDelete n], an_err an (w @ [CallDelete n]))"
  "GetCOS (recorder an) w n = (w @ [CallGet n], an_get an (w @ [CallGet n]))"
  "UpdateCOSStatus (recorder an) w c = (w @ [CallUpdateStatus c], an_err an (w @ [CallUpdateStatus c]))"
  "CreateSecret (recorder an) w s = (w @ [CallCreate s], an_err an (w @ [CallCreate s]))"
  "ListSecrets (recorder an) w ns l = (w @ [CallListSecrets ns l], an_secrets an (w @ [CallListSecrets ns l]))"
  "PatchSecret (recorder an) w s = (w @ [CallPatch s], an_err an (w @ [CallPatch s]))"
  by (simp_all add: recorder_def Let_def)

section \<open>Invariants of traces\<close>

definition extends :: "(bc_call \<Rightarrow> bool) \<Rightarrow> bc_call list \<Rightarrow> bc_call list \<Rightarrow> bool" where
  "extends P w w' \<longleftrightarrow> (\<exists>t. w' = w @ t \<and> list_all P t)"

lemma extends_refl [simp, intro]: "extends P w w"
  by (simp add: extends_def)

lemma extends_one [simp, intro]: "P c \<Longrightarrow> extends P w (w @ [c])"
  by (auto simp: extends_def)

lemma extends_trans [trans]: "extends P u v \<Longrightarrow> extends P v w \<Longrightarrow> extends P u w"
  by (auto simp: extends_def)

lemma extends_step: "P c \<Longrightarrow> extends P (w @ [c]) w' \<Longrightarrow> extends P w w'"
  using extends_trans extends_one by blast

lemma extends_mem: "extends P [] w \<Longrightarrow> c \<in> set w \<Longrightarrow> P c"
  by (auto simp: extends_def list_all_iff)

text \<open>
  A predicate on calls that holds for all calls that neither delete nor apply a revision; the
  applier keeps it as long as it holds of the revisions it applies and deletes.
\<close>

locale harmless =
  fixes P :: "bc_call \<Rightarrow> bool" and an :: bc_answers
  assumes other: "\<lbrakk>\<And>r. c \<noteq> CallApply r; \<And>n. c \<noteq> CallDelete n\<rbrakk> \<Longrightarrow> P c"
begin

lemma other_calls [simp]:
  "P (CallList l)" "P (CallGet n)" "P (CallUpdateStatus x)" "P (CallCreate s)" "P (CallListSecrets ns l)" "P (CallPatch s)"
  by (auto intro: other)

lemma patch_ok: "extends P w (fst (patchOwnerRefsOnSecrets (recorder an) name uid ss w))"
  by (induction "recorder an" name uid ss w rule: patchOwnerRefsOnSecrets.induct)
    (auto intro: extends_step [of P, OF other_calls(6)] split: option.split)

lemma patchSecret_ok: "extends P w (fst (patchSecretOwnerReferences (recorder an) r ss w))"
  using extends_step [of P, OF other_calls(2) patch_ok]
  by (auto simp: patchSecretOwnerReferences_def split: sum.split)

lemma create_ok: "extends P w (fst (create_secrets (recorder an) ss w))"
  by (induction "recorder an" ss w rule: create_secrets.induct)
    (auto intro: extends_step [of P, OF other_calls(4)] split: option.split)

lemma gc_ok:
  "(\<And>j. \<lbrakk>j < length rs; int (index + j) < int n - int ClusterObjectSetRetentionLimit;
      cosp_LifecycleState (cos_Spec (rs ! j)) = LifecycleStateArchived\<rbrakk> \<Longrightarrow> P (CallDelete (cos_Name (rs ! j))))
   \<Longrightarrow> extends P w (fst (gc_loop (recorder an) n index rs w))"
proof (induction rs arbitrary: index w)
  case (Cons r rs)
  have rest: "extends P v (fst (gc_loop (recorder an) n (Suc index) rs v))" for v
    by (rule Cons.IH) (use Cons.prems [of "Suc _"] in simp)
  show ?case
  proof (cases "int index < int n - int ClusterObjectSetRetentionLimit \<and> cosp_LifecycleState (cos_Spec r) = LifecycleStateArchived")
    case True
    have del: "P (CallDelete (cos_Name r))"
      using Cons.prems [of 0] True by simp
    then show ?thesis
      using True extends_step [of P, OF del rest] by (auto split: option.split)
  next
    case False
    then show ?thesis using rest by auto
  qed
qed simp

end

definition new_revision_name :: "cluster_extension \<Rightarrow> cluster_object_set list \<Rightarrow> string" where
  "new_revision_name ext existing = ce_Name ext @ ''-'' @ show_int (latestRevisionNumber existing + 1)"

locale applier_inv = harmless +
  fixes ext :: cluster_extension and existing :: "cluster_object_set list"
  assumes delete: "\<lbrakk>j + ClusterObjectSetRetentionLimit < length existing;
      cosp_LifecycleState (cos_Spec (existing ! j)) = LifecycleStateArchived\<rbrakk> \<Longrightarrow> P (CallDelete (cos_Name (existing ! j)))"
    and apply_new: "\<lbrakk>ac_Name r = new_revision_name ext existing;
      cosp_Revision (ac_Spec r) = latestRevisionNumber existing + 1\<rbrakk> \<Longrightarrow> P (CallApply r)"
    and apply_current: "\<lbrakk>existing \<noteq> []; ac_Name r = cos_Name (last existing);
      cosp_Revision (ac_Spec r) = cosp_Revision (cos_Spec (last existing))\<rbrakk> \<Longrightarrow> P (CallApply r)"
begin

lemma garbage_ok: "extends P w (fst (garbageCollectOldRevisions (recorder an) existing w))"
  unfolding garbageCollectOldRevisions_def by (rule gc_ok) (rule delete, simp_all)

lemma apply_externalized_ok:
  assumes "P (CallApply r)"
  shows "extends P w (fst (apply_externalized (recorder an) r pack w))"
proof -
  obtain w1 e1 where 1: "create_secrets (recorder an) (Secrets pack) w = (w1, e1)"
    by (cases "create_secrets (recorder an) (Secrets pack) w")
  have "extends P w w1" using create_ok [of w "Secrets pack"] by (simp add: 1)
  moreover have "extends P w1 (fst (patchSecretOwnerReferences (recorder an) r (Secrets pack) (w1 @ [CallApply r])))"
    by (rule extends_step [of P, OF assms patchSecret_ok])
  moreover have "extends P w1 (w1 @ [CallApply r])" by (simp add: assms)
  ultimately show ?thesis
    using extends_trans [of P w w1]
    by (auto simp: apply_externalized_def 1 split: option.split prod.split)
qed

lemma create_revision_ok:
  assumes "bc_Client bc = recorder an"
  shows "extends P w (fst (createExternalizedRevision bc ext desired existing w))"
proof -
  obtain w1 e1 where 1: "garbageCollectOldRevisions (recorder an) existing w = (w1, e1)"
    by (cases "garbageCollectOldRevisions (recorder an) existing w")
  have gc: "extends P w w1" using garbage_ok [of w] by (simp add: 1)
  have "extends P w1 (fst (apply_externalized (recorder an) r pack w1))"
    if "r = replaceInlineWithRefs (with_revision (new_revision_name ext existing) (latestRevisionNumber existing + 1) desired) pack" for r pack
    by (rule apply_externalized_ok, rule apply_new)
      (simp_all add: that replaceInlineWithRefs_def with_phases_def with_revision_def)
  then show ?thesis
    using gc extends_trans [OF gc]
    by (auto simp: createExternalizedRevision_def new_revision_name_def assms 1 Let_def split: option.split sum.split)
qed

lemma compare_ok:
  assumes "bc_Client bc = recorder an" "existing \<noteq> []"
  shows "extends P w (fst (compare_with_current bc ext desired (last existing) w))"
proof -
  have "extends P w (w @ [CallApply r])"
    if "r = replaceInlineWithRefs (with_revision (cos_Name (last existing)) (cosp_Revision (cos_Spec (last existing))) desired) pack" for r pack
    by (rule extends_one, rule apply_current)
      (simp_all add: that assms(2) replaceInlineWithRefs_def with_phases_def with_revision_def)
  then show ?thesis
    by (simp add: compare_with_current_def assms(1) Let_def split: sum.split option.split)
qed

lemma ensure_ok:
  assumes "bc_Client bc = recorder an"
  shows "extends P w (fst (ensureSecretOwnerReferences bc cos w))"
  using extends_step [of P, OF other_calls(5) patch_ok]
  by (simp add: ensureSecretOwnerReferences_def assms Let_def split: sum.split)

lemma finish_ok:
  assumes "bc_Client bc = recorder an" "quiet_preflights (bc_Preflights bc)"
  shows "extends P w (fst (finish_apply bc ext existing desired state w))"
proof -
  obtain oe where "run_preflights (bc_Preflights bc) ext state (getObjects desired) w = (w, oe)"
    using run_preflights_quiet [OF assms(2), of ext state "getObjects desired" w]
    by (cases "run_preflights (bc_Preflights bc) ext state (getObjects desired) w") simp
  then show ?thesis
    using create_revision_ok [OF assms(1), of w desired] ensure_ok [OF assms(1), of w "last existing"]
    by (auto simp: finish_apply_def split: option.split prod.split)
qed

lemma Apply_ok:
  assumes "bc_Client bc = recorder an" "quiet_preflights (bc_Preflights bc)"
    "an_list an [CallList [(OwnerNameKey, ce_Name ext)]] = Inr found" "existing = bc_SortFunc bc compare_revision found"
  shows "extends P [] (fst (BoxcutterApply bc [] fs ext ls anns))"
proof -
  let ?w = "[CallList [(OwnerNameKey, ce_Name ext)]]"
  have start: "extends P [] ?w" using extends_one [of P "CallList [(OwnerNameKey, ce_Name ext)]" "[]"] by simp
  have list: "getExistingRevisions bc [] (ce_Name ext) = (?w, Inr existing)"
    by (simp add: getExistingRevisions_def assms)
  have first: "extends P [] (fst (finish_apply bc ext existing desired StateNeedsInstall ?w))" for desired
    by (rule extends_trans [OF start finish_ok [OF assms(1,2)]])
  have later: "extends P [] (fst (case compare_with_current bc ext desired (last existing) ?w of
        (w2, Inl err) \<Rightarrow> (w2, False, [], Some err)
      | (w2, Inr (desired', state)) \<Rightarrow> finish_apply bc ext existing desired' state w2))" if "existing \<noteq> []" for desired
  proof -
    obtain w2 r where c: "compare_with_current bc ext desired (last existing) ?w = (w2, r)"
      by (cases "compare_with_current bc ext desired (last existing) ?w")
    have "extends P [] w2"
      using extends_trans [OF start compare_ok [OF assms(1) that, of ?w desired]] by (simp add: c)
    then show ?thesis
      using extends_trans [OF _ finish_ok [OF assms(1,2)]] by (auto simp: c split: sum.split)
  qed
  show ?thesis
    using start first later by (auto simp: BoxcutterApply_def list Let_def split: option.split sum.split)
qed

end

definition deletable :: "cluster_object_set list \<Rightarrow> bc_call \<Rightarrow> bool" where
  "deletable existing c \<longleftrightarrow> (\<forall>n. c = CallDelete n \<longrightarrow>
     (\<exists>j. j + ClusterObjectSetRetentionLimit < length existing \<and> cos_Name (existing ! j) = n
        \<and> cosp_LifecycleState (cos_Spec (existing ! j)) = LifecycleStateArchived))"

definition numbered :: "cluster_extension \<Rightarrow> cluster_object_set list \<Rightarrow> bc_call \<Rightarrow> bool" where
  "numbered ext existing c \<longleftrightarrow> (\<forall>r. c = CallApply r \<longrightarrow>
     existing \<noteq> [] \<and> ac_Name r = cos_Name (last existing) \<and> cosp_Revision (ac_Spec r) = cosp_Revision (cos_Spec (last existing))
     \<or> ac_Name r = new_revision_name ext existing \<and> cosp_Revision (ac_Spec r) = latestRevisionNumber existing + 1)"

interpretation gc_inv: applier_inv "deletable existing" an ext existing for existing an ext
  by unfold_locales (auto simp: deletable_def)

interpretation number_inv: applier_inv "numbered ext existing" an ext existing for existing an ext
  by unfold_locales (auto simp: numbered_def)

lemma latestRevisionNumber_last: "rs \<noteq> [] \<Longrightarrow> latestRevisionNumber rs = cosp_Revision (cos_Spec (last rs))"
  by (simp add: latestRevisionNumber_def last_conv_nth)

lemma latestRevisionNumber_max:
  assumes "go_sorter SortFunc" "q \<in> set found"
  shows "cosp_Revision (cos_Spec q) \<le> latestRevisionNumber (SortFunc compare_revision found)"
proof -
  let ?e = "SortFunc compare_revision found"
  have q: "q \<in> set ?e" using assms by (simp add: go_sorter.elems)
  then have ne: "?e \<noteq> []" by auto
  have "sorted_wrt (\<lambda>a b. cosp_Revision (cos_Spec a) \<le> cosp_Revision (cos_Spec b)) ?e"
    using go_sorter.sorted [OF assms(1) compare_revision_preorder, of found] by (simp add: compare_revision_le)
  from sorted_wrt_last [OF this _ q] show ?thesis
    using ne by (simp add: latestRevisionNumber_def last_conv_nth)
qed

section \<open>Properties\<close>


text \<open>
  C11: revision numbers. Applying a bundle writes the newest revision again under its own name and number, or a new revision
  whose number is greater than that of every existing revision of the extension and is part of its name.
\<close>

theorem BoxcutterApply_revision_numbers:
  assumes "bc_Client bc = recorder an" "quiet_preflights (bc_Preflights bc)" "go_sorter (bc_SortFunc bc)"
    "an_list an [CallList [(OwnerNameKey, ce_Name ext)]] = Inr found"
    "BoxcutterApply bc [] fs ext ls anns = (calls, ok, msg, err)" "CallApply r \<in> set calls"
  shows "(\<exists>q \<in> set found. ac_Name r = cos_Name q \<and> cosp_Revision (ac_Spec r) = cosp_Revision (cos_Spec q)
       \<and> (\<forall>q' \<in> set found. cosp_Revision (cos_Spec q') \<le> cosp_Revision (cos_Spec q)))
    \<or> (\<forall>q \<in> set found. cosp_Revision (cos_Spec q) < cosp_Revision (ac_Spec r))
       \<and> ac_Name r = ce_Name ext @ ''-'' @ show_int (cosp_Revision (ac_Spec r))"
proof -
  let ?e = "bc_SortFunc bc compare_revision found"
  have "numbered ext ?e (CallApply r)"
    using extends_mem [OF number_inv.Apply_ok [OF assms(1,2,4) refl, of fs ls anns]] assms(5,6) by simp
  then consider "?e \<noteq> []" "ac_Name r = cos_Name (last ?e)" "cosp_Revision (ac_Spec r) = cosp_Revision (cos_Spec (last ?e))"
    | "ac_Name r = new_revision_name ext ?e" "cosp_Revision (ac_Spec r) = latestRevisionNumber ?e + 1"
    by (auto simp: numbered_def)
  then show ?thesis
  proof cases
    case 1
    have "last ?e \<in> set found"
      using last_in_set [OF 1(1)] go_sorter.elems [OF assms(3)] by simp
    moreover have "\<forall>q' \<in> set found. cosp_Revision (cos_Spec q') \<le> cosp_Revision (cos_Spec (last ?e))"
      using latestRevisionNumber_max [OF assms(3), of _ found] unfolding latestRevisionNumber_last [OF 1(1)] by blast
    ultimately show ?thesis
      using 1(2,3) by blast
  next
    case 2
    then show ?thesis
      using latestRevisionNumber_max [OF assms(3), of _ found] by (force simp: new_revision_name_def)
  qed
qed

text \<open>A recording applier with one archived and several active revisions, for the witnesses.\<close>

definition ex_answers :: "cluster_object_set list \<Rightarrow> bc_answers" where
  "ex_answers revs = \<lparr>an_list = (\<lambda>_. Inr revs), an_err = (\<lambda>w. if length w = 2 then Some (ErrStatus ''Invalid'' ''immutable'') else None),
     an_get = (\<lambda>_. Inr (ex_revision 7 LifecycleStateActive [])), an_secrets = (\<lambda>_. Inr [])\<rparr>"

definition ex_desired :: cos_ac where
  "ex_desired = buildClusterObjectSet [] ex_extension []"

definition ex_boxcutter :: "cluster_object_set list \<Rightarrow> (bc_call list, unit) boxcutter" where
  "ex_boxcutter revs = \<lparr>bc_Client = recorder (ex_answers revs), bc_SortFunc = SortStableFunc, bc_OwnerGVK = Inr (''v1'', ''ClusterExtension''),
     bc_GenerateRevision = (\<lambda>_ _ _ _. Inr ex_desired), bc_Preflights = [], bc_PreAuthorizer = None, bc_PrintObj = (\<lambda>_. Inr []),
     bc_Codec = ex_codec, bc_SystemNamespace = ''olm''\<rparr>"

definition ex_revisions :: "cluster_object_set list" where
  "ex_revisions = ex_revision 1 LifecycleStateArchived [] # map (\<lambda>n. ex_revision n LifecycleStateActive []) [2, 3, 4, 5, 6]"


theorem BoxcutterApply_revision_numbers_witness:
  "\<exists>r. CallApply r \<in> set (fst (BoxcutterApply (ex_boxcutter ex_revisions) [] (Some ()) ex_extension [] []))
     \<and> (\<forall>q \<in> set ex_revisions. cosp_Revision (cos_Spec q) < cosp_Revision (ac_Spec r))"
proof -
  obtain calls ok msg err where out: "BoxcutterApply (ex_boxcutter ex_revisions) [] (Some ()) ex_extension [] [] = (calls, ok, msg, err)"
    by (cases "BoxcutterApply (ex_boxcutter ex_revisions) [] (Some ()) ex_extension [] []")
  have "list_ex (\<lambda>c. case c of CallApply r \<Rightarrow> cosp_Revision (ac_Spec r) = 7 | _ \<Rightarrow> False) calls"
  proof -
    have "list_ex (\<lambda>c. case c of CallApply r \<Rightarrow> cosp_Revision (ac_Spec r) = 7 | _ \<Rightarrow> False)
        (fst (BoxcutterApply (ex_boxcutter ex_revisions) [] (Some ()) ex_extension [] []))"
      by code_simp
    then show ?thesis by (simp add: out)
  qed
  then obtain c where "c \<in> set calls" "case c of CallApply r \<Rightarrow> cosp_Revision (ac_Spec r) = 7 | _ \<Rightarrow> False"
    unfolding list_ex_iff by blast
  then obtain r where r: "CallApply r \<in> set calls" "cosp_Revision (ac_Spec r) = 7"
    by (cases c rule: bc_call.exhaust) simp_all
  have "q \<in> set ex_revisions \<Longrightarrow> cosp_Revision (cos_Spec q) \<noteq> 7" for q
    by (auto simp: ex_revisions_def ex_revision_def)
  then have "\<forall>q \<in> set ex_revisions. cosp_Revision (cos_Spec q) < cosp_Revision (ac_Spec r)"
    using BoxcutterApply_revision_numbers [of "ex_boxcutter ex_revisions" "ex_answers ex_revisions" ex_extension ex_revisions, OF _ _ _ _ out r(1)]
      r(2) stable.go_sorter_axioms by (auto simp: ex_boxcutter_def quiet_preflights_def ex_answers_def)
  then show ?thesis
    using r(1) by (auto simp: out)
qed

subsection \<open>The applied revision resolves\<close>

definition is_apply :: "bc_call \<Rightarrow> bool" where
  "is_apply c \<longleftrightarrow> (\<exists>r. c = CallApply r)"

interpretation no_apply: harmless "\<lambda>c. \<not> is_apply c" an for an
  by unfold_locales (auto simp: is_apply_def)

lemma create_secrets_trace:
  "create_secrets (recorder an) ss w = (w', e) \<Longrightarrow> (\<exists>n. w' = w @ map CallCreate (take n ss)) \<and> (e = None \<longrightarrow> w' = w @ map CallCreate ss)"
proof (induction ss arbitrary: w)
  case (Cons s ss)
  let ?w = "w @ [CallCreate s]"
  show ?case
  proof (cases "create_secrets (recorder an) ss ?w = (w', e)")
    case True
    obtain n where "w' = ?w @ map CallCreate (take n ss)" "e = None \<longrightarrow> w' = ?w @ map CallCreate ss"
      using Cons.IH [OF True] by blast
    then show ?thesis
      by (intro conjI exI [of _ "Suc n"]) simp_all
  next
    case False
    then show ?thesis
      using Cons.prems by (auto split: option.splits if_splits intro: exI [of _ 1])
  qed
qed auto

lemma unique_split:
  assumes "xs @ a # ys = us @ b # vs" "P a" "P b" "list_all (\<lambda>x. \<not> P x) us" "list_all (\<lambda>x. \<not> P x) vs"
  shows "xs = us \<and> a = b \<and> ys = vs"
  using assms by (induction us arbitrary: xs) (auto simp: Cons_eq_append_conv list_all_iff append_eq_Cons_conv)

lemma apply_externalized_trace:
  assumes "apply_externalized (recorder an) r pack w = (w', e)"
  shows "(\<exists>n. w' = w @ map CallCreate (take n (Secrets pack)))
    \<or> (\<exists>t. w' = w @ map CallCreate (Secrets pack) @ CallApply r # t \<and> list_all (\<lambda>c. \<not> is_apply c) t)"
proof -
  obtain w1 e1 where 1: "create_secrets (recorder an) (Secrets pack) w = (w1, e1)"
    by (cases "create_secrets (recorder an) (Secrets pack) w")
  show ?thesis
  proof (cases e1)
    case (Some err)
    then show ?thesis
      using assms 1 create_secrets_trace [OF 1] by (auto simp: apply_externalized_def)
  next
    case None
    let ?w2 = "w1 @ [CallApply r]"
    have w1: "w1 = w @ map CallCreate (Secrets pack)"
      using create_secrets_trace [OF 1] None by simp
    have "w' = ?w2 \<or> w' = fst (patchSecretOwnerReferences (recorder an) r (Secrets pack) ?w2)"
      using assms 1 None by (auto simp: apply_externalized_def split: option.splits prod.splits)
    moreover have "extends (\<lambda>c. \<not> is_apply c) ?w2 (fst (patchSecretOwnerReferences (recorder an) r (Secrets pack) ?w2))"
      by (rule no_apply.patchSecret_ok)
    ultimately obtain t where "w' = ?w2 @ t" "list_all (\<lambda>c. \<not> is_apply c) t"
      by (auto simp: extends_def)
    then show ?thesis by (auto simp: w1)
  qed
qed

lemma createExternalizedRevision_trace:
  assumes "bc_Client bc = recorder an" "createExternalizedRevision bc ext desired prev [] = (pre @ CallApply r # post, e)"
  obtains pack where "Pack (bc_Codec bc) (packer_for bc ext (new_revision_name ext prev))
      (extractPhasesForPacking (cosp_Phases (ac_Spec desired))) = Inr pack"
    "r = replaceInlineWithRefs (with_revision (new_revision_name ext prev) (latestRevisionNumber prev + 1) desired) pack"
    "set (map CallCreate (Secrets pack)) \<subseteq> set pre"
proof -
  obtain w1 e1 where gc: "garbageCollectOldRevisions (recorder an) prev [] = (w1, e1)"
    by (cases "garbageCollectOldRevisions (recorder an) prev []")
  have w1: "list_all (\<lambda>c. \<not> is_apply c) w1"
    using no_apply.gc_ok [of prev 0 "length prev" "[]" an] gc
    by (auto simp: garbageCollectOldRevisions_def extends_def is_apply_def)
  have no: "w1 \<noteq> pre @ CallApply r # post"
    using w1 by (auto simp: is_apply_def)
  obtain pack where pack: "Pack (bc_Codec bc) (packer_for bc ext (new_revision_name ext prev))
      (extractPhasesForPacking (cosp_Phases (ac_Spec desired))) = Inr pack"
    and run: "apply_externalized (recorder an) (replaceInlineWithRefs (with_revision (new_revision_name ext prev)
      (latestRevisionNumber prev + 1) desired) pack) pack w1 = (pre @ CallApply r # post, e)"
    using assms no gc by (auto simp: createExternalizedRevision_def new_revision_name_def with_revision_def Let_def
        split: option.splits sum.splits)
  let ?r = "replaceInlineWithRefs (with_revision (new_revision_name ext prev) (latestRevisionNumber prev + 1) desired) pack"
  have creates: "list_all (\<lambda>c. \<not> is_apply c) (map CallCreate ss)" for ss
    by (simp add: list_all_iff is_apply_def)
  from apply_externalized_trace [OF run] obtain t where
    t: "pre @ CallApply r # post = (w1 @ map CallCreate (Secrets pack)) @ CallApply ?r # t" "list_all (\<lambda>c. \<not> is_apply c) t"
  proof
    assume "\<exists>n. pre @ CallApply r # post = w1 @ map CallCreate (take n (Secrets pack))"
    then obtain n where "pre @ CallApply r # post = w1 @ map CallCreate (take n (Secrets pack))" ..
    then have "CallApply r \<in> set (w1 @ map CallCreate (take n (Secrets pack)))"
      by (metis in_set_conv_decomp)
    then show thesis
      using w1 creates [of "take n (Secrets pack)"] by (auto simp: list_all_iff is_apply_def)
  qed auto
  have "pre = w1 @ map CallCreate (Secrets pack) \<and> CallApply r = CallApply ?r \<and> post = t"
    using unique_split [OF t(1), of is_apply] t(2) w1 creates by (simp add: is_apply_def)
  then show thesis
    using that pack by simp
qed

lemma items_extract: "items i (extractPhasesForPacking phs) = items i phs"
proof -
  have "items_of i j (map (\<lambda>c. \<lparr>co_Object = co_Object c, co_Ref = zero_ref, co_CollisionProtection = co_CollisionProtection c\<rparr>) cs)
      = items_of i j cs" for i j cs
    by (induction cs arbitrary: j) (simp_all split: option.split)
  then show ?thesis
    unfolding extractPhasesForPacking_def by (induction phs arbitrary: i) simp_all
qed

lemma extract_nth:
  "i < length phs \<Longrightarrow> j < length (ph_Objects (phs ! i)) \<Longrightarrow>
     length (ph_Objects (extractPhasesForPacking phs ! i)) = length (ph_Objects (phs ! i))
     \<and> co_Object (ph_Objects (extractPhasesForPacking phs ! i) ! j) = co_Object (ph_Objects (phs ! i) ! j)"
  by (simp add: extractPhasesForPacking_def)

lemma replace_nth:
  "i < length phs \<Longrightarrow> j < length (ph_Objects (phs ! i)) \<Longrightarrow>
     ph_Objects (replace_phases refs phs ! i) ! j = replace_object refs (i, j) (ph_Objects (phs ! i) ! j)"
  by (simp add: replace_phases_def nth_enumerate_eq)

lemma Pack_namespace: "Pack C p phases = Inr r \<Longrightarrow> s \<in> set (Secrets r) \<Longrightarrow> sec_Namespace s = SystemNamespace p"
proof -
  assume r: "Pack C p phases = Inr r" and s: "s \<in> set (Secrets r)"
  obtain st where st: "pack_items C p (items 0 phases) empty_pack = Inr st" "r = result (finalizeCurrent C p st)"
    by (rule Pack_items [OF r])
  have "size_inv p empty_pack"
    by (simp add: size_inv_def empty_pack_def data_size_def)
  then have "size_inv p (finalizeCurrent C p st)"
    by (rule size_inv_finalize [OF size_inv_items [OF st(1)]])
  then show ?thesis
    using s st(2) by (auto simp: size_inv_def secret_ok_def)
qed

lemma replaced_phases:
  "cosp_Phases (ac_Spec (replaceInlineWithRefs (with_revision name n desired) pack)) = replace_phases (Refs pack) (cosp_Phases (ac_Spec desired))"
  by (simp add: replaceInlineWithRefs_def with_phases_def with_revision_def)

lemma created_reference_resolves:
  assumes "bc_Client bc = recorder an" "codec_laws (bc_Codec bc)"
    "createExternalizedRevision bc ext desired prev [] = (pre @ CallApply r # post, e)"
    "inj_on (contentHash (bc_Codec bc)) {d. \<exists>pos x. (pos, x) \<in> set (items 0 (cosp_Phases (ac_Spec desired))) \<and> encodes (bc_Codec bc) x d}"
    "\<And>s. CallCreate s \<in> set pre \<Longrightarrow> getSecret (sec_Namespace s) (sec_Name s) = Inr s"
    "i < length (cosp_Phases (ac_Spec desired))" "j < length (ph_Objects (cosp_Phases (ac_Spec desired) ! i))"
    "co_Object (ph_Objects (cosp_Phases (ac_Spec desired) ! i) ! j) = Some x"
    "Marshal (bc_Codec bc) x = Inr m" "length m \<le> maxDecompressedSize"
  shows "co_Object (ph_Objects (cosp_Phases (ac_Spec r) ! i) ! j) = None
    \<and> ref_Name (co_Ref (ph_Objects (cosp_Phases (ac_Spec r) ! i) ! j)) \<noteq> []
    \<and> resolveObjectRef (bc_Codec bc) getSecret (co_Ref (ph_Objects (cosp_Phases (ac_Spec r) ! i) ! j)) = Inr x"
proof -
  let ?phs = "cosp_Phases (ac_Spec desired)" and ?C = "bc_Codec bc"
  obtain pack where pack: "Pack ?C (packer_for bc ext (new_revision_name ext prev)) (extractPhasesForPacking ?phs) = Inr pack"
    and r: "r = replaceInlineWithRefs (with_revision (new_revision_name ext prev) (latestRevisionNumber prev + 1) desired) pack"
    and created: "set (map CallCreate (Secrets pack)) \<subseteq> set pre"
    by (rule createExternalizedRevision_trace [OF assms(1,3)])
  have store: "getSecret (SystemNamespace (packer_for bc ext (new_revision_name ext prev))) (sec_Name s) = Inr s"
    if "s \<in> set (Secrets pack)" for s
    using assms(5) [of s] created that Pack_namespace [OF pack that] by auto
  have "\<exists>ref. map_of (Refs pack) (i, j) = Some ref \<and> ref_Name ref \<noteq> [] \<and> resolveObjectRef ?C getSecret ref = Inr x"
    by (rule Pack_resolves [where getSecret = getSecret, OF assms(2) pack _ store _ _ _ assms(9,10)])
      (use assms(4,6-8) extract_nth [OF assms(6,7)] in \<open>simp_all add: items_extract\<close>, simp add: extractPhasesForPacking_def)
  then show ?thesis
    using assms(6,7)
    by (auto simp: r replaceInlineWithRefs_def with_phases_def with_revision_def replace_nth replace_object_def)
qed


definition ex_inline :: cos_ac where
  "ex_inline = ex_desired\<lparr>ac_Spec := (ac_Spec ex_desired)\<lparr>cosp_Phases := ex_phases ''x''\<rparr>\<rparr>"

lemma ex_pack:
  "Pack ex_codec p (extractPhasesForPacking (ex_phases ''x'')) = Inr
     \<lparr>Secrets = [newSecret ex_codec p [(''x'', ''x'')]],
      Refs = [((0, 0), \<lparr>ref_Name = sec_Name (newSecret ex_codec p [(''x'', ''x'')]), ref_Namespace = SystemNamespace p, ref_Key = ''x''\<rparr>)]\<rparr>"
  by (simp add: Pack_def ex_phases_def extractPhasesForPacking_def empty_pack_def encode_object_def ex_codec_def plain_object_def
      gzip_magic_def add_data_def contentHash_def finalizeCurrent_def Let_def)

abbreviation ex_secret :: secret where
  "ex_secret \<equiv> newSecret ex_codec (packer_for (ex_boxcutter []) ex_extension ''ext-1'') [(''x'', ''x'')]"

lemma ex_boxcutter_sel:
  "bc_Client (ex_boxcutter []) = recorder (ex_answers [])" "bc_Codec (ex_boxcutter []) = ex_codec" "bc_PreAuthorizer (ex_boxcutter []) = None"
  by (simp_all add: ex_boxcutter_def)

lemma ex_inline_phases: "cosp_Phases (ac_Spec ex_inline) = ex_phases ''x''"
  by (simp add: ex_inline_def)

lemma ex_marshal: "Marshal ex_codec (plain_object ''x'') = Inr ''x''"
  by (simp add: ex_codec_def plain_object_def gzip_magic_def)

lemma ex_externalized:
  "\<exists>r e. createExternalizedRevision (ex_boxcutter []) ex_extension ex_inline [] [] = ([CallCreate ex_secret] @ CallApply r # [], e)"
proof -
  have one: "show_int 1 = ''1''" by code_simp
  show ?thesis
    using ex_pack [of "packer_for (ex_boxcutter []) ex_extension ''ext-1''"]
    by (simp add: createExternalizedRevision_def latestRevisionNumber_def one ex_extension_def garbageCollectOldRevisions_def ex_boxcutter_sel
        bcRunPreAuthorizationChecks_def with_revision_def ex_inline_phases apply_externalized_def ex_answers_def is_status_def Let_def)
qed


subsection \<open>Migration\<close>

definition quiet_helm :: "'w storage_migrator \<Rightarrow> bool" where
  "quiet_helm m \<longleftrightarrow> (\<forall>w ext. fst (sm_ActionClientFor m w ext) = w \<and>
     (\<forall>ac. snd (sm_ActionClientFor m w ext) = Inr ac \<longrightarrow> (\<forall>v n. fst (ha_Get ac v n) = v \<and> fst (ha_History ac v n) = v)))"

text \<open>What a migration may do: label and number of the revision it writes, and of the ones it marks as succeeded.\<close>

definition migration_call :: "cond_api \<Rightarrow> cluster_extension \<Rightarrow> bool \<Rightarrow> bc_call \<Rightarrow> bool" where
  "migration_call A ext fresh c \<longleftrightarrow>
     (case c of
        CallApply r \<Rightarrow> fresh \<and> map_of (ac_Labels r) MigratedFromHelmKey = Some ''true'' \<and> ac_Name r = ce_Name ext @ ''-1''
          \<and> cosp_Revision (ac_Spec r) = 1 \<and> cosp_CollisionProtection (ac_Spec r) = CollisionProtectionNone
      | CallUpdateStatus r \<Rightarrow> label_of (cos_Labels r) MigratedFromHelmKey = ''true''
          \<and> apiIsStatusConditionTrue A (cos_Conditions r) TypeSucceeded
      | CallDelete n \<Rightarrow> False
      | _ \<Rightarrow> True)"

lemma migration_call_simps [simp]:
  "migration_call A ext fresh (CallList l)" "migration_call A ext fresh (CallGet n)" "\<not> migration_call A ext fresh (CallDelete n)"
  by (simp_all add: migration_call_def)

lemma ensureRevisionStatus_ok:
  assumes "cond_laws (sm_Conds m)" "sm_Client m = recorder an"
  shows "extends (migration_call (sm_Conds m) ext fresh) w (fst (ensureRevisionStatus m name w))"
proof -
  have succeeded: "apiIsStatusConditionTrue (sm_Conds m) (apiSetStatusCondition (sm_Conds m) cs
      (mk_cond TypeSucceeded ConditionTrue rs msg g)) TypeSucceeded" for cs rs msg g
    using cond_laws_set_same [OF assms(1), of cs "mk_cond TypeSucceeded ConditionTrue rs msg g"]
    by (auto simp: cond_laws_true [OF assms(1)] mk_cond_def cond_like_def)
  have upd: "extends (migration_call (sm_Conds m) ext fresh) w (w @ [CallGet name, CallUpdateStatus
      (r\<lparr>cos_Conditions := apiSetStatusCondition (sm_Conds m) (cos_Conditions r)
         (mk_cond TypeSucceeded ConditionTrue rs msg g)\<rparr>)])" if "label_of (cos_Labels r) MigratedFromHelmKey = ''true''" for r rs msg g
    using that succeeded by (auto simp: extends_def migration_call_def)
  then show ?thesis
    by (auto simp: ensureRevisionStatus_def assms(2) split: sum.split option.split)
qed

lemma ensureMigrated_ok:
  assumes "cond_laws (sm_Conds m)" "sm_Client m = recorder an"
  shows "extends (migration_call (sm_Conds m) ext fresh) w (fst (ensureMigratedRevisionStatus m rs w))"
  by (induction rs) (auto simp: ensureRevisionStatus_ok [OF assms])

lemma migrate_release_ok:
  assumes "cond_laws (sm_Conds m)" "sm_Client m = recorder an"
  shows "extends (migration_call (sm_Conds m) ext True) w (fst (migrate_release m rel ext ls w))"
proof (cases "GenerateRevisionFromHelmRelease (sm_Unmarshal m) rel ext ls")
  case (Inr r0)
  define r where "r = (\<lambda>gvk. add_owner (ext_owner_ref gvk ext) (r0\<lparr>ac_Labels := map_put MigratedFromHelmKey ''true'' (ac_Labels r0)\<rparr>))"
  have P: "migration_call (sm_Conds m) ext True (CallApply (r gvk))" for gvk
    using Inr by (auto simp: r_def add_owner_def migration_call_def GenerateRevisionFromHelmRelease_def Let_def split: sum.splits)
  have "extends (migration_call (sm_Conds m) ext True) w
      (fst (ensureRevisionStatus m (ac_Name (r gvk)) (w @ [CallApply (r gvk)])))" for gvk
    by (rule extends_step [where c = "CallApply (r gvk)", OF P ensureRevisionStatus_ok [OF assms]])
  then show ?thesis
    using P Inr by (auto simp: migrate_release_def assms(2) r_def Let_def split: sum.split option.split)
qed (simp add: migrate_release_def)

lemma findLatest_quiet:
  assumes "quiet_helm m" "snd (sm_ActionClientFor m v ext) = Inr ac" "findLatestDeployedRelease m ac n w = (w', r)"
  shows "w' = w"
proof -
  have "fst (ha_History ac w n) = w"
    using assms(1,2) by (auto simp: quiet_helm_def)
  then show ?thesis
    using assms(3) by (auto simp: findLatestDeployedRelease_def split: prod.splits option.splits if_splits)
qed

lemma Migrate_ok:
  assumes "cond_laws (sm_Conds m)" "sm_Client m = recorder an" "quiet_helm m"
  shows "extends (migration_call (sm_Conds m) ext (an_list an [CallList [(OwnerNameKey, ce_Name ext)]] = Inr [])) []
    (fst (Migrate m [] ext ls))"
proof -
  let ?w = "[CallList [(OwnerNameKey, ce_Name ext)]]"
  let ?P = "migration_call (sm_Conds m) ext (an_list an ?w = Inr [])"
  have start: "extends ?P [] ?w"
    using extends_one [of ?P "CallList [(OwnerNameKey, ce_Name ext)]" "[]"] by simp
  consider err where "an_list an ?w = Inl err" | r rs where "an_list an ?w = Inr (r # rs)" | "an_list an ?w = Inr []"
    by (cases "an_list an ?w") (metis neq_Nil_conv)+
  then show ?thesis
  proof cases
    case 1
    then show ?thesis using start by (simp add: Migrate_def assms(2))
  next
    case 2
    then show ?thesis
      using extends_trans [OF start ensureMigrated_ok [OF assms(1,2)]] by (simp add: Migrate_def assms(2) del: ensureMigratedRevisionStatus.simps)
  next
    case 3
    then have rel: "extends ?P [] (fst (migrate_release m r ext ls ?w))" for r
      using extends_trans [OF start] migrate_release_ok [OF assms(1,2), of ext ?w r ls] by simp
    obtain ac_r where ac: "sm_ActionClientFor m ?w ext = (?w, ac_r)"
      using assms(3) by (cases "sm_ActionClientFor m ?w ext") (metis fst_conv quiet_helm_def)
    show ?thesis
    proof (cases ac_r)
      case (Inl err)
      then show ?thesis using 3 ac start by (simp add: Migrate_def assms(2))
    next
      case (Inr h)
      then obtain orel oe where get: "ha_Get h ?w (ce_Name ext) = (?w, orel, oe)"
        using assms(3) ac by (cases "ha_Get h ?w (ce_Name ext)") (metis fst_conv snd_conv quiet_helm_def)
      obtain fl where fl: "findLatestDeployedRelease m h (ce_Name ext) ?w = (?w, fl)"
        using findLatest_quiet [OF assms(3), of ?w ext h "ce_Name ext" ?w] ac Inr
        by (cases "findLatestDeployedRelease m h (ce_Name ext) ?w") simp
      show ?thesis
        using 3 ac Inr get fl start rel by (auto simp: Migrate_def assms(2) split: option.split sum.split)
    qed
  qed
qed

text \<open>
  C37: migrating from Helm is safe to repeat. Nothing is ever deleted; a revision is written only if the extension has
  none, as its first revision, marked as migrated and allowed to adopt the existing objects; only revisions that carry the mark are
  reported as succeeded.
\<close>

theorem Migrate_safe:
  assumes "cond_laws (sm_Conds m)" "sm_Client m = recorder an" "quiet_helm m"
    "Migrate m [] ext ls = (calls, err)" "c \<in> set calls"
  shows "case c of
      CallApply r \<Rightarrow> an_list an [CallList [(OwnerNameKey, ce_Name ext)]] = Inr []
        \<and> map_of (ac_Labels r) MigratedFromHelmKey = Some ''true'' \<and> ac_Name r = ce_Name ext @ ''-1''
        \<and> cosp_Revision (ac_Spec r) = 1 \<and> cosp_CollisionProtection (ac_Spec r) = CollisionProtectionNone
    | CallUpdateStatus r \<Rightarrow> label_of (cos_Labels r) MigratedFromHelmKey = ''true''
        \<and> apiIsStatusConditionTrue (sm_Conds m) (cos_Conditions r) TypeSucceeded
    | CallDelete n \<Rightarrow> False
    | _ \<Rightarrow> True"
  using extends_mem [OF Migrate_ok [OF assms(1-3), of ext ls]] assms(4,5)
  by (simp add: migration_call_def)

definition ex_migrator :: "bc_call list storage_migrator" where
  "ex_migrator = \<lparr>sm_Client = recorder (ex_answers []), sm_Conds = doc_cond_api 7,
     sm_ActionClientFor = (\<lambda>w e. (w, Inr \<lparr>ha_Get = (\<lambda>w n. (w, Some \<lparr>hr_Name = n, hr_Version = 1, hr_Status = Some ''deployed'',
        hr_Labels = [], hr_Manifest = []\<rparr>, None)), ha_History = (\<lambda>w n. (w, [], None))\<rparr>)),
     sm_isReleaseNotFound = (\<lambda>_. False), sm_Unmarshal = (\<lambda>_. Inl (ErrText ''yaml'')), sm_OwnerGVK = Inr (''v1'', ''ClusterExtension'')\<rparr>"

theorem Migrate_safe_witness:
  "\<exists>r. CallApply r \<in> set (fst (Migrate ex_migrator [] ex_extension [])) \<and> cosp_Revision (ac_Spec r) = 1"
proof -
  obtain calls err where run: "Migrate ex_migrator [] ex_extension [] = (calls, err)"
    by (cases "Migrate ex_migrator [] ex_extension []")
  have "list_ex is_apply (fst (Migrate ex_migrator [] ex_extension []))"
    by (simp add: Migrate_def ex_migrator_def ex_answers_def migrate_release_def GenerateRevisionFromHelmRelease_def
        splitManifestDocuments_def trim_space_def is_apply_def Let_def split: option.split)
  then obtain r where r: "CallApply r \<in> set calls"
    by (auto simp: run list_ex_iff is_apply_def)
  have "quiet_helm ex_migrator"
    by (auto simp: quiet_helm_def ex_migrator_def)
  from Migrate_safe [OF _ _ this run r, of "ex_answers []"] show ?thesis
    using r run by (auto simp: ex_migrator_def doc_cond_laws)
qed

end
