(* ===== verification/ObjectSetController.thy ===== *)
theory ObjectSetController
  imports BoxcutterApplier
begin

text \<open>
  The ClusterObjectSet controller (\<^verbatim>\<open>controllers/clusterobjectset_controller.go\<close>) and the factory of its revision engines
  (\<^verbatim>\<open>controllers/revision_engine_factory.go\<close>): a revision is turned into Boxcutter phases, handed to the engine, and the
  engine's report becomes conditions; previous revisions are archived once the rollout is complete; an archived revision is
  torn down.  The engine, the tracking cache, the API client and the clock are arguments.  A finalizer patch returns the
  object the API server sends back.  The patch documents are literals that always serialise.
\<close>

section \<open>What the engine gets and reports\<close>

datatype prober =
    ConditionProbe condition_equal_probe
  | FieldsEqualProbe fields_equal_probe
  | FieldValueProbe field_value_probe
  | GroupKindSelector "string \<times> string" "prober list"
  | LabelSelector selector "prober list"
  | ObservedGenerationProbe prober

record bc_phase =
  bph_Name :: string
  bph_Objects :: "k8s_object list"

record bc_revision =
  bcr_Name :: string
  bcr_Revision :: int
  bcr_Phases :: "bc_phase list"
  bcr_Owner :: cluster_object_set

datatype reconcile_option =
    WithPreviousOwners "cluster_object_set list"
  | WithProbe "prober list"
  | WithObjectCollisionProtection k8s_object string

datatype action = ActionCollision | ActionProgressed | ActionOther string

record object_result =
  ores_Action :: action
  ores_String :: string
  ores_Object :: k8s_object
  ores_OwnerReferences :: "owner_reference list"
  ores_ProbeTrue :: bool
  ores_ProbeMessages :: "string list"

record phase_result =
  pres_ValidationError :: "goerr option"
  pres_Objects :: "object_result list"
  pres_IsComplete :: bool

record revision_result =
  rres_ValidationError :: "goerr option"
  rres_Phases :: "phase_result list"
  rres_InTransition :: bool
  rres_IsComplete :: bool

text \<open>An engine acts with the rights of a service account; what distinguishes engines is this account.\<close>

record revision_engine =
  eng_Namespace :: string
  eng_ServiceAccount :: string

record 'w object_set_reconciler =
  osr_Conds :: cond_api
  osr_Codec :: codec
  osr_Get :: "'w \<Rightarrow> string \<Rightarrow> 'w \<times> cluster_object_set res"
  osr_UpdateStatus :: "'w \<Rightarrow> cluster_object_set \<Rightarrow> 'w \<times> goerr option"
  osr_PatchFinalizers :: "'w \<Rightarrow> cluster_object_set \<Rightarrow> string list \<Rightarrow> 'w \<times> cluster_object_set res"
  osr_PatchLifecycleState :: "'w \<Rightarrow> cluster_object_set \<Rightarrow> string \<Rightarrow> 'w \<times> goerr option"
  osr_GetSecret :: "'w \<Rightarrow> string \<Rightarrow> string \<Rightarrow> secret res"
  osr_List :: "'w \<Rightarrow> labels \<Rightarrow> 'w \<times> cluster_object_set list res"
  osr_Watch :: "'w \<Rightarrow> cluster_object_set \<Rightarrow> (string \<times> string \<times> string) list \<Rightarrow> 'w \<times> goerr option"
  osr_Free :: "'w \<Rightarrow> cluster_object_set \<Rightarrow> 'w \<times> goerr option"
  osr_NewClient :: "string \<Rightarrow> string \<Rightarrow> goerr option"
  osr_EngineReconcile :: "'w \<Rightarrow> revision_engine \<Rightarrow> bc_revision \<Rightarrow> reconcile_option list \<Rightarrow> 'w \<times> revision_result res"
  osr_EngineTeardown :: "'w \<Rightarrow> revision_engine \<Rightarrow> bc_revision \<Rightarrow> 'w \<times> bool option res"
  osr_LabelSelectorAsSelector :: "label_selector \<Rightarrow> selector res"
  osr_showSelector :: "label_selector \<Rightarrow> string"
  osr_showOwner :: "owner_reference \<Rightarrow> string"
  osr_Now :: "'w \<Rightarrow> time"

abbreviation teardownFinalizer :: string where "teardownFinalizer \<equiv> ''olm.operatorframework.io/teardown''"
abbreviation GroupVersion :: string where "GroupVersion \<equiv> ''olm.operatorframework.io/v1''"
abbreviation ReasonArchived :: string where "ReasonArchived \<equiv> ''Archived''"
abbreviation ReasonProbeFailure :: string where "ReasonProbeFailure \<equiv> ''ProbeFailure''"
abbreviation ReasonProbesSucceeded :: string where "ReasonProbesSucceeded \<equiv> ''ProbesSucceeded''"
abbreviation ReasonReconciling :: string where "ReasonReconciling \<equiv> ''Reconciling''"
abbreviation ProbeTypeConditionEqual :: string where "ProbeTypeConditionEqual \<equiv> ''ConditionEqual''"
abbreviation ProbeTypeFieldsEqual :: string where "ProbeTypeFieldsEqual \<equiv> ''FieldsEqual''"
abbreviation ProbeTypeFieldValue :: string where "ProbeTypeFieldValue \<equiv> ''FieldValue''"
abbreviation SelectorTypeGroupKind :: string where "SelectorTypeGroupKind \<equiv> ''GroupKind''"
abbreviation SelectorTypeLabel :: string where "SelectorTypeLabel \<equiv> ''Label''"

section \<open>Conditions\<close>

text \<open>Setting a condition also says whether it changed anything.\<close>

definition set_cos_cond :: "cond_api \<Rightarrow> condition \<Rightarrow> cluster_object_set \<Rightarrow> cluster_object_set \<times> bool" where
  "set_cos_cond A c cos =
     (let cs = apiSetStatusCondition A (cos_Conditions cos) c in (cos\<lparr>cos_Conditions := cs\<rparr>, cs \<noteq> cos_Conditions cos))"

definition markAsProgressing :: "cond_api \<Rightarrow> cluster_object_set \<Rightarrow> string \<Rightarrow> string \<Rightarrow> cluster_object_set" where
  "markAsProgressing A cos reason message =
     fst (set_cos_cond A (mk_cond TypeProgressing ConditionTrue reason message (cos_Generation cos)) cos)"

definition markAsNotProgressing :: "cond_api \<Rightarrow> cluster_object_set \<Rightarrow> string \<Rightarrow> string \<Rightarrow> cluster_object_set \<times> bool" where
  "markAsNotProgressing A cos reason message =
     set_cos_cond A (mk_cond TypeProgressing ConditionFalse reason message (cos_Generation cos)) cos"

definition markAsAvailable :: "cond_api \<Rightarrow> cluster_object_set \<Rightarrow> string \<Rightarrow> string \<Rightarrow> cluster_object_set \<times> bool" where
  "markAsAvailable A cos reason message =
     set_cos_cond A (mk_cond TypeAvailable ConditionTrue reason message (cos_Generation cos)) cos"

definition markAsUnavailable :: "cond_api \<Rightarrow> cluster_object_set \<Rightarrow> string \<Rightarrow> string \<Rightarrow> cluster_object_set" where
  "markAsUnavailable A cos reason message =
     fst (set_cos_cond A (mk_cond TypeAvailable ConditionFalse reason message (cos_Generation cos)) cos)"

definition markAsAvailableUnknown :: "cond_api \<Rightarrow> cluster_object_set \<Rightarrow> string \<Rightarrow> string \<Rightarrow> cluster_object_set \<times> bool" where
  "markAsAvailableUnknown A cos reason message =
     set_cos_cond A (mk_cond TypeAvailable ConditionUnknown reason message (cos_Generation cos)) cos"

definition markAsArchived :: "cond_api \<Rightarrow> cluster_object_set \<Rightarrow> cluster_object_set \<times> bool" where
  "markAsArchived A cos =
     (case markAsNotProgressing A cos ReasonArchived ''revision is archived'' of (cos1, updated) \<Rightarrow>
      case markAsAvailableUnknown A cos1 ReasonArchived ''revision is archived'' of (cos2, changed) \<Rightarrow> (cos2, changed \<or> updated))"

definition setRetryingConditions :: "cond_api \<Rightarrow> cluster_object_set \<Rightarrow> string \<Rightarrow> cluster_object_set" where
  "setRetryingConditions A cos message =
     (let cos1 = markAsProgressing A cos ReasonRetrying message
      in if apiFindStatusCondition A (cos_Conditions cos1) TypeAvailable \<noteq> None
         then fst (markAsAvailableUnknown A cos1 ReasonReconciling message) else cos1)"

section \<open>Engines\<close>

text \<open>Annotations come from the API server, where an empty map is left out: no annotations means a nil map.\<close>

definition getServiceAccount :: "cluster_object_set \<Rightarrow> (string \<times> string) res" where
  "getServiceAccount cos =
     (if cos_Annotations cos = [] then Inl (ErrText (''revision '' @ quote (cos_Name cos) @ '' is missing required annotations''))
      else let saName = trim_space (label_of (cos_Annotations cos) ServiceAccountNameKey);
               saNamespace = trim_space (label_of (cos_Annotations cos) ServiceAccountNamespaceKey)
           in if saName = [] then Inl (ErrText (''revision '' @ quote (cos_Name cos) @ '' is missing ServiceAccount name annotation''))
              else if saNamespace = [] then Inl (ErrText (''revision '' @ quote (cos_Name cos) @ '' is missing ServiceAccount namespace annotation''))
              else Inr (saNamespace, saName))"

definition createScopedClient :: "(string \<Rightarrow> string \<Rightarrow> goerr option) \<Rightarrow> string \<Rightarrow> string \<Rightarrow> revision_engine res" where
  "createScopedClient newClient namespace serviceAccountName =
     (case newClient namespace serviceAccountName of
        Some err \<Rightarrow> Inl (ErrWrap (''failed to create client for ServiceAccount '' @ namespace @ ''/'' @ serviceAccountName @ '': '') err)
      | None \<Rightarrow> Inr \<lparr>eng_Namespace = namespace, eng_ServiceAccount = serviceAccountName\<rparr>)"

definition CreateRevisionEngine :: "(string \<Rightarrow> string \<Rightarrow> goerr option) \<Rightarrow> cluster_object_set \<Rightarrow> revision_engine res" where
  "CreateRevisionEngine newClient cos =
     (case getServiceAccount cos of
        Inl err \<Rightarrow> Inl err
      | Inr (saNamespace, saName) \<Rightarrow> createScopedClient newClient saNamespace saName)"

section \<open>Probes\<close>

fun build_assertions :: "assertion list \<Rightarrow> prober list res" where
  "build_assertions [] = Inr []"
| "build_assertions (a # as) =
     (case (if as_Type a = ProbeTypeConditionEqual then Inr (ConditionProbe (as_ConditionEqual a))
            else if as_Type a = ProbeTypeFieldsEqual then Inr (FieldsEqualProbe (as_FieldsEqual a))
            else if as_Type a = ProbeTypeFieldValue then Inr (FieldValueProbe (as_FieldValue a))
            else Inl (ErrText (''unknown progressionProbe assertion probe type: '' @ as_Type a))) of
        Inl err \<Rightarrow> Inl err
      | Inr p \<Rightarrow> map_sum id ((#) p) (build_assertions as))"

definition selector_probe :: "'w object_set_reconciler \<Rightarrow> object_selector \<Rightarrow> prober list \<Rightarrow> prober res" where
  "selector_probe r s assertions =
     (if os_Type s = SelectorTypeGroupKind then Inr (GroupKindSelector (os_GroupKind s) assertions)
      else if os_Type s = SelectorTypeLabel
      then (case osr_LabelSelectorAsSelector r (os_Label s) of
              Inl err \<Rightarrow> Inl (ErrWrap (''invalid label selector in progressionProbe ('' @ osr_showSelector r (os_Label s) @ ''): '') err)
            | Inr selector \<Rightarrow> Inr (LabelSelector selector assertions))
      else Inl (ErrText (''unknown progressionProbe selector type: '' @ os_Type s)))"

fun buildProgressionProbes :: "'w object_set_reconciler \<Rightarrow> progression_probe list \<Rightarrow> prober list res" where
  "buildProgressionProbes r [] = Inr []"
| "buildProgressionProbes r (p # ps) =
     (case build_assertions (pp_Assertions p) of
        Inl err \<Rightarrow> Inl err
      | Inr assertions \<Rightarrow>
          (case selector_probe r (pp_Selector p) assertions of
             Inl err \<Rightarrow> Inl err
           | Inr probe \<Rightarrow> map_sum id ((#) (ObservedGenerationProbe probe)) (buildProgressionProbes r ps)))"

section \<open>Phases\<close>

definition listPreviousRevisions :: "'w object_set_reconciler \<Rightarrow> 'w \<Rightarrow> cluster_object_set \<Rightarrow> 'w \<times> cluster_object_set list res" where
  "listPreviousRevisions r w cos =
     (case map_of (cos_Labels cos) OwnerNameKey of
        None \<Rightarrow> (w, Inr [])
      | Some ownerLabel \<Rightarrow>
          (case osr_List r w [(OwnerNameKey, ownerLabel)] of
             (w', Inl err) \<Rightarrow> (w', Inl (ErrWrap ''listing revisions: '' err))
           | (w', Inr found) \<Rightarrow>
               (w', Inr (filter (\<lambda>a. cos_Name a \<noteq> cos_Name cos
                            \<and> \<not> (cosp_LifecycleState (cos_Spec a) = LifecycleStateArchived \<or> cos_DeletionTimestamp a \<noteq> None)
                            \<and> \<not> cosp_Revision (cos_Spec a) \<ge> cosp_Revision (cos_Spec cos)) found))))"

definition siblingRevisionNames :: "'w object_set_reconciler \<Rightarrow> 'w \<Rightarrow> cluster_object_set \<Rightarrow> 'w \<times> string list option res" where
  "siblingRevisionNames r w cos =
     (case map_of (cos_Labels cos) OwnerNameKey of
        None \<Rightarrow> (w, Inr None)
      | Some ownerLabel \<Rightarrow>
          (case osr_List r w [(OwnerNameKey, ownerLabel)] of
             (w', Inl err) \<Rightarrow> (w', Inl (ErrWrap ''listing sibling revisions: '' err))
           | (w', Inr found) \<Rightarrow> (w', Inr (Some (map cos_Name found)))))"

definition EffectiveCollisionProtection :: "string list \<Rightarrow> string" where
  "EffectiveCollisionProtection cp = fold (\<lambda>c ecp. if c \<noteq> [] then c else ecp) cp CollisionProtectionPrevent"

definition source_object :: "'w object_set_reconciler \<Rightarrow> 'w \<Rightarrow> string \<Rightarrow> cos_object \<Rightarrow> k8s_object res" where
  "source_object r w phase specObj =
     (case co_Object specObj of
        Some obj \<Rightarrow> Inr obj
      | None \<Rightarrow>
          if ref_Name (co_Ref specObj) \<noteq> []
          then (case resolveObjectRef (osr_Codec r) (osr_GetSecret r w) (co_Ref specObj) of
                  Inl err \<Rightarrow> Inl (ErrWrap (''resolving ref in phase '' @ quote phase @ '': '') err)
                | Inr resolved \<Rightarrow> Inr resolved)
          else Inl (ErrText (''object in phase '' @ quote phase @ '' has neither object nor ref'')))"

definition owner_labelled :: "cluster_object_set \<Rightarrow> k8s_object \<Rightarrow> k8s_object" where
  "owner_labelled cos obj = obj\<lparr>obj_Labels := map_put OwnerNameKey (label_of (cos_Labels cos) OwnerNameKey) (obj_Labels obj)\<rparr>"

definition collision_options :: "cluster_object_set \<Rightarrow> cos_phase \<Rightarrow> cos_object \<Rightarrow> k8s_object \<Rightarrow> reconcile_option list" where
  "collision_options cos specPhase specObj obj =
     (let cp = EffectiveCollisionProtection
            [cosp_CollisionProtection (cos_Spec cos), ph_CollisionProtection specPhase, co_CollisionProtection specObj]
      in if cp \<in> {CollisionProtectionIfNoController, CollisionProtectionNone} then [WithObjectCollisionProtection obj cp] else [])"

fun build_objects ::
  "'w object_set_reconciler \<Rightarrow> 'w \<Rightarrow> cluster_object_set \<Rightarrow> cos_phase \<Rightarrow> cos_object list \<Rightarrow> (k8s_object list \<times> reconcile_option list) res" where
  "build_objects r w cos specPhase [] = Inr ([], [])"
| "build_objects r w cos specPhase (specObj # rest) =
     (case source_object r w (ph_Name specPhase) specObj of
        Inl err \<Rightarrow> Inl err
      | Inr obj0 \<Rightarrow>
          (let obj = owner_labelled cos obj0
           in map_sum id (\<lambda>(objs, opts). (obj # objs, collision_options cos specPhase specObj obj @ opts))
                (build_objects r w cos specPhase rest)))"

fun build_phases ::
  "'w object_set_reconciler \<Rightarrow> 'w \<Rightarrow> cluster_object_set \<Rightarrow> cos_phase list \<Rightarrow> (bc_phase list \<times> reconcile_option list) res" where
  "build_phases r w cos [] = Inr ([], [])"
| "build_phases r w cos (specPhase # rest) =
     (case build_objects r w cos specPhase (ph_Objects specPhase) of
        Inl err \<Rightarrow> Inl err
      | Inr (objs, opts) \<Rightarrow>
          map_sum id (\<lambda>(phases, opts'). (\<lparr>bph_Name = ph_Name specPhase, bph_Objects = objs\<rparr> # phases, opts @ opts'))
            (build_phases r w cos rest))"

definition buildBoxcutterPhases ::
  "'w object_set_reconciler \<Rightarrow> 'w \<Rightarrow> cluster_object_set \<Rightarrow> 'w \<times> (bc_phase list \<times> reconcile_option list) res" where
  "buildBoxcutterPhases r w cos =
     (case listPreviousRevisions r w cos of
        (w1, Inl err) \<Rightarrow> (w1, Inl (ErrWrap ''listing previous revisions: '' err))
      | (w1, Inr previous) \<Rightarrow>
          (w1, case buildProgressionProbes r (cosp_ProgressionProbes (cos_Spec cos)) of
                 Inl err \<Rightarrow> Inl err
               | Inr progressionProbes \<Rightarrow>
                   map_sum id (\<lambda>(phases, opts). (phases, [WithPreviousOwners previous, WithProbe progressionProbes] @ opts))
                     (build_phases r w1 cos (cosp_Phases (cos_Spec cos)))))"

section \<open>Finalizers and watches\<close>

definition ensureFinalizer :: "'w object_set_reconciler \<Rightarrow> 'w \<Rightarrow> cluster_object_set \<Rightarrow> string \<Rightarrow> 'w \<times> cluster_object_set \<times> goerr option" where
  "ensureFinalizer r w obj finalizer =
     (if finalizer \<in> set (cos_Finalizers obj) then (w, obj, None)
      else let obj1 = obj\<lparr>cos_Finalizers := cos_Finalizers obj @ [finalizer]\<rparr>
           in case osr_PatchFinalizers r w obj1 (cos_Finalizers obj1) of
                (w', Inl err) \<Rightarrow> (w', obj1, Some (ErrWrap ''adding finalizer: '' err))
              | (w', Inr obj2) \<Rightarrow> (w', obj2, None))"

definition removeFinalizer :: "'w object_set_reconciler \<Rightarrow> 'w \<Rightarrow> cluster_object_set \<Rightarrow> string \<Rightarrow> 'w \<times> cluster_object_set \<times> goerr option" where
  "removeFinalizer r w obj finalizer =
     (if finalizer \<notin> set (cos_Finalizers obj) then (w, obj, None)
      else let obj1 = obj\<lparr>cos_Finalizers := filter (\<lambda>f. f \<noteq> finalizer) (cos_Finalizers obj)\<rparr>
           in case osr_PatchFinalizers r w obj1 (cos_Finalizers obj1) of
                (w', Inl err) \<Rightarrow> (w', obj1, Some (ErrWrap ''removing finalizer: '' err))
              | (w', Inr obj2) \<Rightarrow> (w', obj2, None))"

definition establishWatch :: "'w object_set_reconciler \<Rightarrow> 'w \<Rightarrow> cluster_object_set \<Rightarrow> bc_revision \<Rightarrow> 'w \<times> goerr option" where
  "establishWatch r w cos revision =
     osr_Watch r w cos (remdups (concat (map (\<lambda>phase. map (\<lambda>obj. (obj_Group obj, obj_Version obj, obj_Kind obj)) (bph_Objects phase))
       (bcr_Phases revision))))"

definition skipProgressDeadlineExceededPredicate :: "cond_api \<Rightarrow> cluster_object_set \<Rightarrow> bool" where
  "skipProgressDeadlineExceededPredicate A cos =
     (if cos_DeletionTimestamp cos \<noteq> None then True
      else case apiFindStatusCondition A (cos_Conditions cos) TypeProgressing of
             Some cnd \<Rightarrow> \<not> (cond_Status cnd = ConditionFalse \<and> cond_Reason cnd = ReasonProgressDeadlineExceeded)
           | None \<Rightarrow> True)"

section \<open>Deleting and archiving\<close>

definition delete_revision ::
  "'w object_set_reconciler \<Rightarrow> 'w \<Rightarrow> cluster_object_set \<Rightarrow> 'w \<times> cluster_object_set \<times> ctrl_result \<times> goerr option" where
  "delete_revision r w cos =
     (case osr_Free r w cos of
        (w1, Some err) \<Rightarrow>
          (w1, fst (markAsAvailableUnknown (osr_Conds r) cos ReasonReconciling (Error err)), zero_result,
           Some (ErrText (''error stopping informers: '' @ Error err)))
      | (w1, None) \<Rightarrow>
          (case removeFinalizer r w1 cos teardownFinalizer of
             (w2, cos1, Some err) \<Rightarrow> (w2, cos1, zero_result, Some (ErrText (''error removing teardown finalizer: '' @ Error err)))
           | (w2, cos1, None) \<Rightarrow> (w2, cos1, zero_result, None)))"

definition archive ::
  "'w object_set_reconciler \<Rightarrow> 'w \<Rightarrow> revision_engine \<Rightarrow> cluster_object_set \<Rightarrow> bc_revision
     \<Rightarrow> 'w \<times> cluster_object_set \<times> ctrl_result \<times> goerr option" where
  "archive r w eng cos revision =
     (case osr_EngineTeardown r w eng revision of
        (w1, Inl err0) \<Rightarrow>
          (let err = ErrText (''error archiving revision: '' @ Error err0)
           in (w1, setRetryingConditions (osr_Conds r) cos (Error err), zero_result, Some err))
      | (w1, Inr tdres) \<Rightarrow>
          if tdres = Some False
          then (w1, setRetryingConditions (osr_Conds r) cos ''removing revision resources that are not owned by another revision'',
                \<lparr>RequeueAfter = 5 * second\<rparr>, None)
          else (case markAsArchived (osr_Conds r) cos of
                  (cos1, True) \<Rightarrow> (w1, cos1, zero_result, None)
                | (cos1, False) \<Rightarrow>
                    (case removeFinalizer r w1 cos1 teardownFinalizer of
                       (w2, cos2, Some err) \<Rightarrow> (w2, cos2, zero_result, Some (ErrText (''error removing teardown finalizer: '' @ Error err)))
                     | (w2, cos2, None) \<Rightarrow> (w2, cos2, zero_result, None))))"

section \<open>Reports\<close>

definition foreignRevisionController :: "owner_reference list \<Rightarrow> string list \<Rightarrow> owner_reference option" where
  "foreignRevisionController refs siblings =
     List.find (\<lambda>ref. or_Controller ref \<and> or_Kind ref = ClusterObjectSetKind \<and> or_APIVersion ref = GroupVersion
       \<and> or_Name ref \<notin> set siblings) refs"

definition collision_texts :: "(owner_reference \<Rightarrow> string) \<Rightarrow> string list option \<Rightarrow> object_result \<Rightarrow> string list" where
  "collision_texts showOwner siblings ores =
     (if ores_Action ores = ActionCollision then [ores_String ores] else [])
     @ (case siblings of
          None \<Rightarrow> []
        | Some names \<Rightarrow>
            if ores_Action ores = ActionProgressed
            then (case foreignRevisionController (ores_OwnerReferences ores) names of
                    None \<Rightarrow> []
                  | Some ref \<Rightarrow> [ores_String ores @ newline @ ''Conflicting Owner: '' @ showOwner ref])
            else [])"

fun phase_problem :: "(owner_reference \<Rightarrow> string) \<Rightarrow> string list option \<Rightarrow> nat \<Rightarrow> phase_result list \<Rightarrow> string option" where
  "phase_problem showOwner siblings i [] = None"
| "phase_problem showOwner siblings i (pres # rest) =
     (case pres_ValidationError pres of
        Some verr \<Rightarrow> Some (''phase '' @ show_nat i @ '' validation error: '' @ Error verr)
      | None \<Rightarrow>
          (let collidingObjs = concat (map (collision_texts showOwner siblings) (pres_Objects pres))
           in if collidingObjs \<noteq> []
              then Some (''revision object collisions in phase '' @ show_nat i @ newline @ join_str (newline @ newline) collidingObjs)
              else phase_problem showOwner siblings (Suc i) rest))"

definition group_version :: "k8s_object \<Rightarrow> string" where
  "group_version obj = (if obj_Group obj = [] then obj_Version obj else obj_Group obj @ ''/'' @ obj_Version obj)"

definition probe_failure :: "object_result \<Rightarrow> string" where
  "probe_failure ores =
     (let obj = ores_Object ores
      in ''Object '' @ obj_Kind obj @ ''.'' @ group_version obj @ '' '' @ obj_Namespace obj @ ''/'' @ obj_Name obj @ '': ''
         @ join_str '' and '' (ores_ProbeMessages ores))"

fun probeFailureMsgs :: "phase_result list \<Rightarrow> string list" where
  "probeFailureMsgs [] = []"
| "probeFailureMsgs (pres # rest) =
     (if pres_IsComplete pres then []
      else case List.find (\<lambda>ores. \<not> ores_ProbeTrue ores) (pres_Objects pres) of
             None \<Rightarrow> []
           | Some ores \<Rightarrow> [probe_failure ores]) @ probeFailureMsgs rest"

fun archive_previous :: "'w object_set_reconciler \<Rightarrow> cluster_object_set list \<Rightarrow> 'w \<Rightarrow> 'w \<times> goerr option" where
  "archive_previous r [] w = (w, None)"
| "archive_previous r (a # rest) w =
     (case osr_PatchLifecycleState r w a LifecycleStateArchived of
        (w1, Some err) \<Rightarrow> (w1, Some (ErrWrap ''archive previous Revision: '' err))
      | (w1, None) \<Rightarrow> archive_previous r rest w1)"

definition rolled_out :: "cond_api \<Rightarrow> cluster_object_set \<Rightarrow> string \<Rightarrow> cluster_object_set" where
  "rolled_out A cos revVersion =
     (let cos1 = markAsProgressing A cos ReasonSucceeded (''Revision '' @ revVersion @ '' has rolled out.'');
          cos2 = fst (markAsAvailable A cos1 ReasonProbesSucceeded ''Objects are available and pass all probes.'')
      in fst (set_cos_cond A (mk_cond TypeSucceeded ConditionTrue ReasonSucceeded ''Revision succeeded rolling out.'' (cos_Generation cos2)) cos2))"

definition not_rolled_out :: "cond_api \<Rightarrow> cluster_object_set \<Rightarrow> string \<Rightarrow> phase_result list \<Rightarrow> cluster_object_set" where
  "not_rolled_out A cos revVersion phases =
     (let msgs = probeFailureMsgs phases;
          rolling = ''Revision '' @ revVersion @ '' is rolling out.'';
          cos1 = (if msgs \<noteq> [] then markAsUnavailable A cos ReasonProbeFailure (join_str newline msgs)
                  else markAsUnavailable A cos ReasonRollingOut rolling)
      in if apiFindStatusCondition A (cos_Conditions cos1) TypeProgressing = None
         then markAsProgressing A cos1 ReasonRollingOut rolling else cos1)"

definition report_rollout ::
  "'w object_set_reconciler \<Rightarrow> 'w \<Rightarrow> string list option \<Rightarrow> cluster_object_set \<Rightarrow> revision_result
     \<Rightarrow> 'w \<times> cluster_object_set \<times> ctrl_result \<times> goerr option" where
  "report_rollout r w siblings cos0 rres =
     (let A = osr_Conds r in
      case rres_ValidationError rres of
        Some verr \<Rightarrow>
          (w, setRetryingConditions A cos0 (''revision validation error: '' @ Error verr), \<lparr>RequeueAfter = 10 * second\<rparr>, None)
      | None \<Rightarrow>
          (case phase_problem (osr_showOwner r) siblings 0 (rres_Phases rres) of
             Some msg \<Rightarrow> (w, setRetryingConditions A cos0 msg, \<lparr>RequeueAfter = 10 * second\<rparr>, None)
           | None \<Rightarrow>
               (let revVersion = label_of (cos_Annotations cos0) BundleVersionKey;
                    cos = (if rres_InTransition rres
                           then markAsProgressing A cos0 ReasonRollingOut (''Revision '' @ revVersion @ '' is rolling out.'') else cos0)
                in if rres_IsComplete rres
                   then (case listPreviousRevisions r w cos of
                           (w1, Inl err) \<Rightarrow> (w1, cos, zero_result, Some (ErrText (''listing previous revisions: '' @ Error err)))
                         | (w1, Inr previous) \<Rightarrow>
                             (case archive_previous r previous w1 of
                                (w2, Some err) \<Rightarrow> (w2, cos, zero_result, Some err)
                              | (w2, None) \<Rightarrow> (w2, rolled_out A cos revVersion, zero_result, None)))
                   else (w, not_rolled_out A cos revVersion (rres_Phases rres), zero_result, None))))"

section \<open>Reconcile\<close>

definition roll_out ::
  "'w object_set_reconciler \<Rightarrow> 'w \<Rightarrow> revision_engine \<Rightarrow> string list option \<Rightarrow> cluster_object_set \<Rightarrow> bc_revision \<Rightarrow> reconcile_option list
     \<Rightarrow> 'w \<times> cluster_object_set \<times> ctrl_result \<times> goerr option" where
  "roll_out r w eng siblings cos0 revision opts =
     (case ensureFinalizer r w cos0 teardownFinalizer of
        (w1, cos, Some err) \<Rightarrow> (w1, cos, zero_result, Some (ErrText (''error ensuring teardown finalizer: '' @ Error err)))
      | (w1, cos, None) \<Rightarrow>
          (let owned = revision\<lparr>bcr_Owner := cos\<rparr> in
           case establishWatch r w1 cos owned of
             (w2, Some err) \<Rightarrow>
               (let werr = ErrText (''establish watch: '' @ Error err)
                in (w2, setRetryingConditions (osr_Conds r) cos (Error werr), zero_result, Some werr))
           | (w2, None) \<Rightarrow>
               (case osr_EngineReconcile r w2 eng owned opts of
                  (w3, Inl err) \<Rightarrow>
                    (w3, setRetryingConditions (osr_Conds r) cos (Error err), zero_result, Some (ErrText (''revision reconcile: '' @ Error err)))
                | (w3, Inr rres) \<Rightarrow> report_rollout r w3 siblings cos rres)))"

definition cos_reconcile ::
  "'w object_set_reconciler \<Rightarrow> 'w \<Rightarrow> cluster_object_set \<Rightarrow> 'w \<times> cluster_object_set \<times> ctrl_result \<times> goerr option" where
  "cos_reconcile r w cos =
     (let A = osr_Conds r;
          retry = (\<lambda>w' msg err. (w', setRetryingConditions A cos (Error err), zero_result, Some (ErrText (msg @ Error err))))
      in if cos_DeletionTimestamp cos \<noteq> None then delete_revision r w cos
         else case buildBoxcutterPhases r w cos of
           (w1, Inl err) \<Rightarrow> retry w1 ''converting to boxcutter revision: '' err
         | (w1, Inr (phases, opts)) \<Rightarrow>
             (case siblingRevisionNames r w1 cos of
                (w2, Inl err) \<Rightarrow> retry w2 ''listing sibling revisions: '' err
              | (w2, Inr siblings) \<Rightarrow>
                  (case CreateRevisionEngine (osr_NewClient r) cos of
                     Inl err \<Rightarrow> retry w2 ''failed to create revision engine: '' err
                   | Inr eng \<Rightarrow>
                       (let revision = \<lparr>bcr_Name = cos_Name cos, bcr_Revision = cosp_Revision (cos_Spec cos), bcr_Phases = phases,
                              bcr_Owner = cos\<rparr>
                        in if cosp_LifecycleState (cos_Spec cos) = LifecycleStateArchived
                           then (case osr_Free r w2 cos of
                                   (w3, Some err) \<Rightarrow>
                                     (w3, fst (markAsAvailableUnknown A cos ReasonReconciling (Error err)), zero_result,
                                      Some (ErrText (''error stopping informers: '' @ Error err)))
                                 | (w3, None) \<Rightarrow> archive r w3 eng cos revision)
                           else roll_out r w2 eng siblings cos revision opts))))"

definition checkForUnexpectedClusterObjectSetFieldChange :: "cluster_object_set \<Rightarrow> cluster_object_set \<Rightarrow> bool" where
  "checkForUnexpectedClusterObjectSetFieldChange a b = (cos_Spec a \<noteq> cos_Spec b)"

definition progress_deadline ::
  "cond_api \<Rightarrow> time \<Rightarrow> cluster_object_set \<Rightarrow> cluster_object_set \<times> ctrl_result \<times> goerr option \<Rightarrow> cluster_object_set \<times> ctrl_result \<times> goerr option" where
  "progress_deadline A now existing out =
     (case out of (cos, res, reconcileErr) \<Rightarrow>
      let pd = cosp_ProgressDeadlineMinutes (cos_Spec existing)
      in if pd > 0
         then let isStillProgressing =
                    (case apiFindStatusCondition A (cos_Conditions cos) TypeProgressing of
                       None \<Rightarrow> False
                     | Some cnd \<Rightarrow> cond_Status cnd = ConditionTrue \<and> cond_Reason cnd \<noteq> ReasonSucceeded);
                  succeeded = apiIsStatusConditionTrue A (cos_Conditions cos) TypeSucceeded;
                  timeout = minutes pd
              in if isStillProgressing \<and> \<not> succeeded
                 then if now - cos_CreationTimestamp existing > timeout
                      then (fst (markAsNotProgressing A cos ReasonProgressDeadlineExceeded
                              (''Revision has not rolled out for '' @ show_int pd @ '' minute(s).'')), zero_result, None)
                      else if reconcileErr = None
                      then (cos, \<lparr>RequeueAfter = round_second (cos_CreationTimestamp existing + timeout + 2 * second - now)\<rparr>, None)
                      else out
                 else out
         else out)"

definition ObjectSet_Reconcile :: "'w object_set_reconciler \<Rightarrow> 'w \<Rightarrow> string \<Rightarrow> 'w \<times> ctrl_result \<times> goerr option" where
  "ObjectSet_Reconcile r w name =
     (case osr_Get r w name of
        (w0, Inl err) \<Rightarrow> (w0, zero_result, if as_status err = Some ''NotFound'' then None else Some err)
      | (w0, Inr existing) \<Rightarrow>
          (case cos_reconcile r w0 existing of (w1, cos0, res0, err0) \<Rightarrow>
           case progress_deadline (osr_Conds r) (osr_Now r w1) existing (cos0, res0, err0) of (cos, res, reconcileErr) \<Rightarrow>
             if checkForUnexpectedClusterObjectSetFieldChange existing cos
             then (w1, res, Some (ErrPanic ''spec or metadata changed by reconciler''))
             else if cos_Conditions existing \<noteq> cos_Conditions cos
             then (case osr_UpdateStatus r w1 cos of (w2, oe) \<Rightarrow> (w2, res, add_error reconcileErr ''error updating status: '' oe))
             else (w1, res, reconcileErr)))"

section \<open>Conditions, lemmas\<close>

lemmas mark_defs = markAsProgressing_def markAsNotProgressing_def markAsAvailable_def markAsUnavailable_def
  markAsAvailableUnknown_def

lemma set_cos_cond_fst: "fst (set_cos_cond A c cos) = cos\<lparr>cos_Conditions := apiSetStatusCondition A (cos_Conditions cos) c\<rparr>"
  by (simp add: set_cos_cond_def Let_def)

text \<open>What the condition writers leave alone: everything but the conditions.\<close>

definition same_cos :: "cluster_object_set \<Rightarrow> cluster_object_set \<Rightarrow> bool" where
  "same_cos a b \<longleftrightarrow> a\<lparr>cos_Conditions := []\<rparr> = b\<lparr>cos_Conditions := []\<rparr>"

lemma same_cos_refl [simp, intro]: "same_cos a a"
  by (simp add: same_cos_def)

lemma same_cos_fields:
  assumes "same_cos a b"
  shows "cos_Spec a = cos_Spec b" "cos_Name a = cos_Name b" "cos_Labels a = cos_Labels b" "cos_Finalizers a = cos_Finalizers b"
    "cos_DeletionTimestamp a = cos_DeletionTimestamp b" "cos_Generation a = cos_Generation b"
  using assms by (cases a; cases b; simp add: same_cos_def)+

lemma same_cos_set: "same_cos (fst (set_cos_cond A c a)) b = same_cos a b"
  by (simp add: set_cos_cond_fst same_cos_def)

lemma same_cos_marks [simp]:
  "same_cos (markAsProgressing A a rs m) b = same_cos a b" "same_cos (fst (markAsNotProgressing A a rs m)) b = same_cos a b"
  "same_cos (fst (markAsAvailable A a rs m)) b = same_cos a b" "same_cos (markAsUnavailable A a rs m) b = same_cos a b"
  "same_cos (fst (markAsAvailableUnknown A a rs m)) b = same_cos a b" "same_cos (setRetryingConditions A a m) b = same_cos a b"
  "same_cos (fst (markAsArchived A a)) b = same_cos a b" "same_cos (rolled_out A a v) b = same_cos a b"
  "same_cos (not_rolled_out A a v ps) b = same_cos a b"
  by (simp_all add: mark_defs setRetryingConditions_def markAsArchived_def rolled_out_def not_rolled_out_def same_cos_set Let_def
      split: prod.split)
    (simp add: set_cos_cond_def same_cos_def Let_def split: prod.split)

text \<open>Which condition of a type an object set has.\<close>

definition cos_has :: "cond_api \<Rightarrow> cluster_object_set \<Rightarrow> string \<Rightarrow> string \<Rightarrow> string \<Rightarrow> bool" where
  "cos_has A cos t s reason \<longleftrightarrow>
     (\<exists>d. apiFindStatusCondition A (cos_Conditions cos) t = Some d \<and> cond_Status d = s \<and> cond_Reason d = reason)"

abbreviation cos_succeeded :: "cond_api \<Rightarrow> cluster_object_set \<Rightarrow> bool" where
  "cos_succeeded A cos \<equiv> apiIsStatusConditionTrue A (cos_Conditions cos) TypeSucceeded"

lemma set_cos_cond_find:
  assumes "cond_laws A"
  shows "cos_has A (fst (set_cos_cond A (mk_cond t s rs m g) cos)) t s rs"
    "t' \<noteq> t \<Longrightarrow> apiFindStatusCondition A (cos_Conditions (fst (set_cos_cond A (mk_cond t s rs m g) cos))) t'
       = apiFindStatusCondition A (cos_Conditions cos) t'"
  using cond_laws_set_same [OF assms, of "cos_Conditions cos" "mk_cond t s rs m g"]
    cond_laws_set_other [OF assms, of t' "mk_cond t s rs m g" "cos_Conditions cos"]
  by (auto simp: cos_has_def set_cos_cond_fst cond_like_def mk_cond_def)

lemma set_cos_cond_unrelated:
  assumes "cond_laws A" "t \<noteq> TypeSucceeded"
  shows "cos_succeeded A (fst (set_cos_cond A (mk_cond t s rs m g) cos)) = cos_succeeded A cos"
proof -
  have "apiFindStatusCondition A (cos_Conditions (fst (set_cos_cond A (mk_cond t s rs m g) cos))) TypeSucceeded
      = apiFindStatusCondition A (cos_Conditions cos) TypeSucceeded"
    by (rule set_cos_cond_find(2) [OF assms(1)]) (use assms(2) in simp)
  then show ?thesis by (simp only: cond_laws_true [OF assms(1)])
qed

lemma set_cos_cond_succeeded:
  "cond_laws A \<Longrightarrow> cos_succeeded A (fst (set_cos_cond A (mk_cond TypeSucceeded ConditionTrue rs m g) cos))"
  using set_cos_cond_find(1) [of A TypeSucceeded ConditionTrue] cond_laws_true [of A] unfolding cos_has_def by blast

lemma marks_succeeded:
  assumes "cond_laws A"
  shows "cos_succeeded A (markAsProgressing A a rs m) = cos_succeeded A a"
    "cos_succeeded A (fst (markAsNotProgressing A a rs m)) = cos_succeeded A a"
    "cos_succeeded A (fst (markAsAvailable A a rs m)) = cos_succeeded A a"
    "cos_succeeded A (markAsUnavailable A a rs m) = cos_succeeded A a"
    "cos_succeeded A (fst (markAsAvailableUnknown A a rs m)) = cos_succeeded A a"
  unfolding mark_defs by (rule set_cos_cond_unrelated [OF assms], simp)+

lemma markAsArchived_fst:
  "fst (markAsArchived A a) = fst (markAsAvailableUnknown A (fst (markAsNotProgressing A a ReasonArchived ''revision is archived''))
     ReasonArchived ''revision is archived'')"
  by (simp add: markAsArchived_def split: prod.split)

lemma writers_succeeded:
  assumes "cond_laws A"
  shows "cos_succeeded A (setRetryingConditions A a m) = cos_succeeded A a"
    "cos_succeeded A (fst (markAsArchived A a)) = cos_succeeded A a"
    "cos_succeeded A (not_rolled_out A a v ps) = cos_succeeded A a"
    "cos_succeeded A (rolled_out A a v)"
proof -
  note marks = marks_succeeded [OF assms]
  show "cos_succeeded A (setRetryingConditions A a m) = cos_succeeded A a"
    by (simp only: setRetryingConditions_def Let_def marks if_distrib [of "\<lambda>c. cos_succeeded A c"] if_cancel)
  show "cos_succeeded A (fst (markAsArchived A a)) = cos_succeeded A a"
    by (simp only: markAsArchived_fst marks)
  show "cos_succeeded A (not_rolled_out A a v ps) = cos_succeeded A a"
    by (simp only: not_rolled_out_def Let_def marks if_distrib [of "\<lambda>c. cos_succeeded A c"] if_cancel)
  show "cos_succeeded A (rolled_out A a v)"
    unfolding rolled_out_def Let_def by (rule set_cos_cond_succeeded [OF assms])
qed

section \<open>Traces\<close>

text \<open>
  The world that records every call and answers it with an arbitrary function of the calls so far.  Reading a Secret is
  answered from the history without being a call of its own.
\<close>

datatype os_call =
    OsGet string
  | OsUpdateStatus cluster_object_set
  | OsPatchFinalizers cluster_object_set "string list"
  | OsSetLifecycleState cluster_object_set string
  | OsList labels
  | OsWatch cluster_object_set "(string \<times> string \<times> string) list"
  | OsFree cluster_object_set
  | OsReconcile revision_engine bc_revision "reconcile_option list"
  | OsTeardown revision_engine bc_revision

record os_answers =
  osa_get :: "os_call list \<Rightarrow> cluster_object_set res"
  osa_err :: "os_call list \<Rightarrow> goerr option"
  osa_patch :: "os_call list \<Rightarrow> cluster_object_set res"
  osa_list :: "os_call list \<Rightarrow> cluster_object_set list res"
  osa_reconcile :: "os_call list \<Rightarrow> revision_result res"
  osa_teardown :: "os_call list \<Rightarrow> bool option res"

definition observed :: "os_answers \<Rightarrow> os_call list object_set_reconciler \<Rightarrow> os_call list object_set_reconciler" where
  "observed an r =
     r\<lparr>osr_Get := (\<lambda>w n. let w' = w @ [OsGet n] in (w', osa_get an w')),
       osr_UpdateStatus := (\<lambda>w c. let w' = w @ [OsUpdateStatus c] in (w', osa_err an w')),
       osr_PatchFinalizers := (\<lambda>w c fs. let w' = w @ [OsPatchFinalizers c fs] in (w', osa_patch an w')),
       osr_PatchLifecycleState := (\<lambda>w c l. let w' = w @ [OsSetLifecycleState c l] in (w', osa_err an w')),
       osr_List := (\<lambda>w l. let w' = w @ [OsList l] in (w', osa_list an w')),
       osr_Watch := (\<lambda>w c g. let w' = w @ [OsWatch c g] in (w', osa_err an w')),
       osr_Free := (\<lambda>w c. let w' = w @ [OsFree c] in (w', osa_err an w')),
       osr_EngineReconcile := (\<lambda>w e v opts. let w' = w @ [OsReconcile e v opts] in (w', osa_reconcile an w')),
       osr_EngineTeardown := (\<lambda>w e v. let w' = w @ [OsTeardown e v] in (w', osa_teardown an w'))\<rparr>"

lemma observed_sel [simp]:
  "osr_Get (observed an r) w n = (w @ [OsGet n], osa_get an (w @ [OsGet n]))"
  "osr_UpdateStatus (observed an r) w c = (w @ [OsUpdateStatus c], osa_err an (w @ [OsUpdateStatus c]))"
  "osr_PatchFinalizers (observed an r) w c fs = (w @ [OsPatchFinalizers c fs], osa_patch an (w @ [OsPatchFinalizers c fs]))"
  "osr_PatchLifecycleState (observed an r) w c l = (w @ [OsSetLifecycleState c l], osa_err an (w @ [OsSetLifecycleState c l]))"
  "osr_List (observed an r) w ls = (w @ [OsList ls], osa_list an (w @ [OsList ls]))"
  "osr_Watch (observed an r) w c g = (w @ [OsWatch c g], osa_err an (w @ [OsWatch c g]))"
  "osr_Free (observed an r) w c = (w @ [OsFree c], osa_err an (w @ [OsFree c]))"
  "osr_EngineReconcile (observed an r) w e v opts = (w @ [OsReconcile e v opts], osa_reconcile an (w @ [OsReconcile e v opts]))"
  "osr_EngineTeardown (observed an r) w e v = (w @ [OsTeardown e v], osa_teardown an (w @ [OsTeardown e v]))"
  "osr_Conds (observed an r) = osr_Conds r" "osr_showOwner (observed an r) = osr_showOwner r"
  by (simp_all add: observed_def Let_def)

text \<open>The call \<open>c\<close> was made after the calls \<open>h0\<close>, and the history went on to \<open>h\<close>.\<close>

definition made :: "'c list \<Rightarrow> 'c \<Rightarrow> 'c list \<Rightarrow> bool" where
  "made h0 c h \<longleftrightarrow> (\<exists>t. h = h0 @ c # t)"

lemma made_now [simp, intro]: "made h c (h @ [c])"
  by (simp add: made_def)

lemma made_later: "made h0 c h \<Longrightarrow> made h0 c (h @ t)"
  by (auto simp: made_def)

text \<open>What the laws of Kubernetes give about a finalizer patch guarded by the resource version: only the finalizers differ.\<close>

definition patch_keeps :: "os_answers \<Rightarrow> bool" where
  "patch_keeps an \<longleftrightarrow>
     (\<forall>h obj fs obj'. osa_patch an (h @ [OsPatchFinalizers obj fs]) = Inr obj' \<longrightarrow> obj' = obj\<lparr>cos_Finalizers := fs\<rparr>)"

text \<open>Reports without validation errors, collisions or objects controlled by a revision of another owner.\<close>

definition clean_object :: "string list option \<Rightarrow> object_result \<Rightarrow> bool" where
  "clean_object siblings ores \<longleftrightarrow>
     ores_Action ores \<noteq> ActionCollision
     \<and> (\<forall>names ref. siblings = Some names \<and> ores_Action ores = ActionProgressed \<and> ref \<in> set (ores_OwnerReferences ores)
          \<and> or_Controller ref \<and> or_Kind ref = ClusterObjectSetKind \<and> or_APIVersion ref = GroupVersion \<longrightarrow> or_Name ref \<in> set names)"

definition clean_report :: "string list option \<Rightarrow> revision_result \<Rightarrow> bool" where
  "clean_report siblings rep \<longleftrightarrow>
     rres_ValidationError rep = None
     \<and> (\<forall>p \<in> set (rres_Phases rep). pres_ValidationError p = None \<and> (\<forall>ores \<in> set (pres_Objects p). clean_object siblings ores))"

definition listed :: "os_answers \<Rightarrow> cluster_object_set \<Rightarrow> os_call list \<Rightarrow> cluster_object_set list \<Rightarrow> bool" where
  "listed an cos h found \<longleftrightarrow>
     (\<exists>owner h0. map_of (cos_Labels cos) OwnerNameKey = Some owner \<and> made h0 (OsList [(OwnerNameKey, owner)]) h
        \<and> osa_list an (h0 @ [OsList [(OwnerNameKey, owner)]]) = Inr found)"

definition siblings_seen :: "os_answers \<Rightarrow> cluster_object_set \<Rightarrow> os_call list \<Rightarrow> string list option \<Rightarrow> bool" where
  "siblings_seen an cos h siblings \<longleftrightarrow>
     (case siblings of
        None \<Rightarrow> map_of (cos_Labels cos) OwnerNameKey = None
      | Some names \<Rightarrow> \<exists>found. listed an cos h found \<and> names = map cos_Name found)"

definition rollout_seen :: "os_answers \<Rightarrow> cluster_object_set \<Rightarrow> os_call list \<Rightarrow> bool" where
  "rollout_seen an cos h \<longleftrightarrow>
     (\<exists>siblings h0 eng v opts rep. siblings_seen an cos h siblings \<and> made h0 (OsReconcile eng v opts) h
        \<and> osa_reconcile an (h0 @ [OsReconcile eng v opts]) = Inr rep \<and> clean_report siblings rep \<and> rres_IsComplete rep)"

definition torn_down :: "os_answers \<Rightarrow> os_call list \<Rightarrow> bool" where
  "torn_down an h \<longleftrightarrow>
     (\<exists>h0 eng v out. made h0 (OsTeardown eng v) h \<and> osa_teardown an (h0 @ [OsTeardown eng v]) = Inr out \<and> out \<noteq> Some False)"

lemma listed_later: "listed an cos h found \<Longrightarrow> listed an cos (h @ t) found"
  unfolding listed_def by (elim exE conjE, intro exI conjI, assumption, erule made_later)

lemma siblings_later: "siblings_seen an cos h siblings \<Longrightarrow> siblings_seen an cos (h @ t) siblings"
  by (cases siblings) (auto simp: siblings_seen_def intro: listed_later)

lemma rollout_later: "rollout_seen an cos h \<Longrightarrow> rollout_seen an cos (h @ t)"
  unfolding rollout_seen_def by (elim exE conjE, intro exI conjI, erule siblings_later, erule made_later)

definition superseded :: "cluster_object_set \<Rightarrow> cluster_object_set \<Rightarrow> bool" where
  "superseded cos a \<longleftrightarrow>
     cos_Name a \<noteq> cos_Name cos \<and> cosp_LifecycleState (cos_Spec a) \<noteq> LifecycleStateArchived \<and> cos_DeletionTimestamp a = None
     \<and> cosp_Revision (cos_Spec a) < cosp_Revision (cos_Spec cos)"

text \<open>
  The protocol of the controller for an object set \<open>cos\<close>: which call may follow which history.  Revisions are archived after a clean
  and complete report only; the engine applies objects only for an active revision that carries the finalizer and is watched;
  the finalizer goes away on deletion, or after a complete teardown whose conditions had been stored.
\<close>

definition allowed :: "os_answers \<Rightarrow> cond_api \<Rightarrow> cluster_object_set \<Rightarrow> os_call list \<Rightarrow> os_call \<Rightarrow> bool" where
  "allowed an A cos h c \<longleftrightarrow>
     (case c of
        OsSetLifecycleState a l \<Rightarrow>
          l = LifecycleStateArchived \<and> superseded cos a \<and> (\<exists>found. listed an cos h found \<and> a \<in> set found) \<and> rollout_seen an cos h
      | OsReconcile eng v opts \<Rightarrow>
          cos_DeletionTimestamp cos = None \<and> cosp_LifecycleState (cos_Spec cos) \<noteq> LifecycleStateArchived
          \<and> teardownFinalizer \<in> set (cos_Finalizers (bcr_Owner v)) \<and> (\<exists>g. OsWatch (bcr_Owner v) g \<in> set h)
      | OsTeardown eng v \<Rightarrow>
          cos_DeletionTimestamp cos = None \<and> cosp_LifecycleState (cos_Spec cos) = LifecycleStateArchived \<and> OsFree cos \<in> set h
      | OsPatchFinalizers obj fs \<Rightarrow>
          teardownFinalizer \<in> set fs \<or> (cos_DeletionTimestamp cos \<noteq> None \<and> OsFree cos \<in> set h)
          \<or> (cosp_LifecycleState (cos_Spec cos) = LifecycleStateArchived \<and> torn_down an h
             \<and> cos_has A cos TypeProgressing ConditionFalse ReasonArchived \<and> cos_has A cos TypeAvailable ConditionUnknown ReasonArchived)
      | OsUpdateStatus c' \<Rightarrow>
          (cos_succeeded A c' \<longrightarrow> cos_succeeded A cos \<or> rollout_seen an cos h) \<and> (cos_succeeded A cos \<longrightarrow> cos_succeeded A c')
      | _ \<Rightarrow> True)"

lemma allowed_always [simp]:
  "allowed an A cos h (OsGet n)" "allowed an A cos h (OsList ls)" "allowed an A cos h (OsWatch c g)" "allowed an A cos h (OsFree c)"
  by (simp_all add: allowed_def)

definition same_identity :: "cluster_object_set \<Rightarrow> cluster_object_set \<Rightarrow> bool" where
  "same_identity a b \<longleftrightarrow> cos_Name a = cos_Name b \<and> cos_Labels a = cos_Labels b \<and> cos_Spec a = cos_Spec b
     \<and> cos_DeletionTimestamp a = cos_DeletionTimestamp b"

lemma same_cos_identity: "same_cos a b \<Longrightarrow> same_identity a b"
  by (simp add: same_identity_def same_cos_fields)

text \<open>What a reconcile keeps of the object set it was called for.\<close>

definition kept :: "os_answers \<Rightarrow> cond_api \<Rightarrow> cluster_object_set \<Rightarrow> os_call list \<Rightarrow> cluster_object_set \<Rightarrow> bool" where
  "kept an A cos0 w cos \<longleftrightarrow> same_identity cos cos0 \<and> (cos_succeeded A cos \<longrightarrow> cos_succeeded A cos0 \<or> rollout_seen an cos0 w)
     \<and> (cos_succeeded A cos0 \<longrightarrow> cos_succeeded A cos)"

lemma kept_refl [simp]: "kept an A cos w cos"
  by (simp add: kept_def same_identity_def)

lemma kept_later: "kept an A cos0 w cos \<Longrightarrow> kept an A cos0 (w @ t) cos"
  using rollout_later unfolding kept_def by auto

lemma kept_same:
  "kept an A cos0 w cos \<Longrightarrow> same_identity cos' cos \<Longrightarrow> cos_succeeded A cos' = cos_succeeded A cos \<Longrightarrow> kept an A cos0 w cos'"
  unfolding kept_def same_identity_def by simp

lemma kept_writers:
  assumes "cond_laws A" "kept an A cos0 w cos"
  shows "kept an A cos0 w (setRetryingConditions A cos m)" "kept an A cos0 w (markAsProgressing A cos rs m)"
    "kept an A cos0 w (fst (markAsNotProgressing A cos rs m))" "kept an A cos0 w (fst (markAsAvailableUnknown A cos rs m))"
    "kept an A cos0 w (fst (markAsArchived A cos))" "kept an A cos0 w (not_rolled_out A cos v ps)"
  by (rule kept_same [OF assms(2) same_cos_identity];
      simp only: same_cos_marks same_cos_refl marks_succeeded [OF assms(1)] writers_succeeded [OF assms(1)])+

lemma kept_rolled_out:
  assumes "cond_laws A" "kept an A cos0 w cos" "rollout_seen an cos0 w"
  shows "kept an A cos0 w (rolled_out A cos v)"
proof -
  have "same_identity (rolled_out A cos v) cos" by (rule same_cos_identity) simp
  then show ?thesis using assms writers_succeeded(4) [OF assms(1)] by (simp add: kept_def same_identity_def)
qed

subsection \<open>The protocol, operation by operation\<close>

lemma listPreviousRevisions_ok:
  assumes "same_identity cos cos0" "listPreviousRevisions (observed an r) w cos = (w', out)"
  shows "grows (allowed an A cos0) w w'"
    "out = Inr previous \<Longrightarrow> a \<in> set previous \<Longrightarrow> superseded cos0 a \<and> (\<exists>found. listed an cos0 w' found \<and> a \<in> set found)"
proof -
  show "grows (allowed an A cos0) w w'"
    using assms(2) by (auto simp: listPreviousRevisions_def intro!: grows_one split: option.splits sum.splits)
  assume a: "out = Inr previous" "a \<in> set previous"
  obtain owner found where owner: "map_of (cos_Labels cos) OwnerNameKey = Some owner"
    and w': "w' = w @ [OsList [(OwnerNameKey, owner)]]" "osa_list an w' = Inr found" and in_found: "a \<in> set found" "superseded cos a"
    using assms(2) a by (auto simp: listPreviousRevisions_def superseded_def split: option.splits sum.splits)
  have "superseded cos0 a" using in_found(2) assms(1) by (simp add: superseded_def same_identity_def)
  moreover have "listed an cos0 w' found"
    unfolding listed_def using owner w' assms(1) by (intro exI [of _ owner] exI [of _ w]) (simp add: same_identity_def)
  ultimately show "superseded cos0 a \<and> (\<exists>found. listed an cos0 w' found \<and> a \<in> set found)"
    using in_found(1) by blast
qed

lemma archive_previous_ok:
  assumes "\<And>a. a \<in> set previous \<Longrightarrow> superseded cos a \<and> (\<exists>found. listed an cos w found \<and> a \<in> set found)" "rollout_seen an cos w"
  shows "grows (allowed an A cos) w (fst (archive_previous (observed an r) previous w))"
  using assms
proof (induction previous arbitrary: w)
  case (Cons a rest)
  let ?w = "w @ [OsSetLifecycleState a LifecycleStateArchived]"
  have step: "grows (allowed an A cos) w ?w"
    using Cons.prems by (intro grows_one) (simp add: allowed_def)
  have "grows (allowed an A cos) ?w (fst (archive_previous (observed an r) rest ?w))"
    by (rule Cons.IH) (use Cons.prems in \<open>auto intro: listed_later rollout_later\<close>)
  then show ?case
    using step grows_trans [OF _ step] by (auto split: option.split)
qed simp

lemma phase_problem_clean:
  "phase_problem showOwner siblings i ps = None \<Longrightarrow> p \<in> set ps \<Longrightarrow>
     pres_ValidationError p = None \<and> (\<forall>ores \<in> set (pres_Objects p). clean_object siblings ores)"
proof (induction ps arbitrary: i)
  case (Cons q ps)
  have q: "pres_ValidationError q = None" "concat (map (collision_texts showOwner siblings) (pres_Objects q)) = []"
    and rest: "phase_problem showOwner siblings (Suc i) ps = None"
    using Cons.prems(1) by (auto simp: Let_def split: option.splits if_splits)
  have clean: "clean_object siblings ores" if "collision_texts showOwner siblings ores = []" for ores
    using that by (auto simp: collision_texts_def clean_object_def foreignRevisionController_def find_None_iff split: if_splits option.splits)
  then have "clean_object siblings ores" if "ores \<in> set (pres_Objects q)" for ores
    using that q(2) by auto
  then show ?case using Cons.IH [OF rest] Cons.prems(2) q(1) by auto
qed simp

lemma kept_identity: "kept an A cos0 w cos \<Longrightarrow> same_identity cos cos0"
  by (simp add: kept_def)

lemma report_rollout_ok:
  assumes A: "cond_laws (osr_Conds r)" and kept: "kept an (osr_Conds r) cos0 w cos" and sib: "siblings_seen an cos0 w siblings"
    and rep: "made h0 (OsReconcile eng v opts) w" "osa_reconcile an (h0 @ [OsReconcile eng v opts]) = Inr rres"
    and run: "report_rollout (observed an r) w siblings cos rres = (w', cos', res, e)"
  shows "grows (allowed an (osr_Conds r) cos0) w w' \<and> kept an (osr_Conds r) cos0 w' cos'"
proof (cases "rres_ValidationError rres = None \<and> phase_problem (osr_showOwner r) siblings 0 (rres_Phases rres) = None")
  case False
  then show ?thesis
    using run kept_writers(1) [OF A kept] by (auto simp: report_rollout_def Let_def split: option.splits)
next
  case True
  let ?A = "osr_Conds r" and ?v = "label_of (cos_Annotations cos) BundleVersionKey"
  define cos1 where "cos1 = (if rres_InTransition rres
    then markAsProgressing ?A cos ReasonRollingOut (''Revision '' @ ?v @ '' is rolling out.'') else cos)"
  have k1: "kept an ?A cos0 w cos1" using kept kept_writers(2) [OF A kept] by (simp add: cos1_def)
  show ?thesis
  proof (cases "rres_IsComplete rres")
    case False
    then have "w' = w" "cos' = not_rolled_out ?A cos1 ?v (rres_Phases rres)"
      using run True by (simp_all add: report_rollout_def Let_def cos1_def)
    then show ?thesis using kept_writers(6) [OF A k1] by simp
  next
    case complete: True
    have "clean_report siblings rres"
      using True phase_problem_clean by (auto simp: clean_report_def)
    then have seen: "rollout_seen an cos0 w"
      unfolding rollout_seen_def using sib rep complete by blast
    obtain w1 out where list: "listPreviousRevisions (observed an r) w cos1 = (w1, out)" by fastforce
    note prev = listPreviousRevisions_ok [OF kept_identity [OF k1] list]
    obtain t where t: "w1 = w @ t" using grows_prefix [OF prev(1)] by blast
    show ?thesis
    proof (cases out)
      case (Inl err)
      then have "w' = w1" "cos' = cos1"
        using run True complete list by (simp_all add: report_rollout_def Let_def cos1_def)
      then show ?thesis using prev(1) [where A = ?A] kept_later [OF k1, of t] t by simp
    next
      case (Inr previous)
      obtain w2 oe where arch: "archive_previous (observed an r) previous w1 = (w2, oe)" by fastforce
      have seen1: "rollout_seen an cos0 w1" unfolding t by (rule rollout_later [OF seen])
      have g: "grows (allowed an ?A cos0) w1 w2"
        using archive_previous_ok [OF prev(2) [OF Inr] seen1, of previous ?A r] by (simp add: arch)
      obtain u where u: "w2 = w1 @ u" using grows_prefix [OF g] by blast
      have k2: "kept an ?A cos0 w2 cos1" unfolding u t by (intro kept_later k1)
      have seen2: "rollout_seen an cos0 w2" unfolding u by (rule rollout_later [OF seen1])
      have "w' = w2" "cos' = cos1 \<or> cos' = rolled_out ?A cos1 ?v"
        using run True complete list Inr arch by (auto simp: report_rollout_def Let_def cos1_def split: option.splits)
      then show ?thesis
        using grows_trans [OF g prev(1)] k2 kept_rolled_out [OF A k2 seen2] by auto
    qed
  qed
qed

lemma patch_keepsD:
  "patch_keeps an \<Longrightarrow> osa_patch an (h @ [OsPatchFinalizers (obj\<lparr>cos_Finalizers := fs\<rparr>) fs]) = Inr obj' \<Longrightarrow> obj' = obj\<lparr>cos_Finalizers := fs\<rparr>"
  by (fastforce simp: patch_keeps_def)

lemma removeFinalizer_ok:
  assumes "patch_keeps an" "removeFinalizer (observed an r) w cos f = (w', cos', e)" "kept an A cos0 w cos"
    "allowed an A cos0 w (OsPatchFinalizers (cos\<lparr>cos_Finalizers := filter (\<lambda>g. g \<noteq> f) (cos_Finalizers cos)\<rparr>)
       (filter (\<lambda>g. g \<noteq> f) (cos_Finalizers cos)))"
  shows "grows (allowed an A cos0) w w' \<and> kept an A cos0 w' cos'"
proof (cases "f \<in> set (cos_Finalizers cos)")
  case True
  let ?fs = "filter (\<lambda>g. g \<noteq> f) (cos_Finalizers cos)"
  let ?cos = "cos\<lparr>cos_Finalizers := ?fs\<rparr>" and ?c = "OsPatchFinalizers (cos\<lparr>cos_Finalizers := ?fs\<rparr>) ?fs"
  have "w' = w @ [?c]" "cos' = ?cos"
    using assms(1,2) True by (auto simp: removeFinalizer_def Let_def dest: patch_keepsD split: sum.splits)
  moreover have "kept an A cos0 (w @ [?c]) ?cos"
    by (rule kept_same [OF kept_later [OF assms(3)]]) (simp_all add: same_identity_def)
  ultimately show ?thesis using assms(4) by auto
qed (use assms(2,3) in \<open>simp add: removeFinalizer_def\<close>)

lemma ensureFinalizer_ok:
  assumes "patch_keeps an" "ensureFinalizer (observed an r) w cos teardownFinalizer = (w', cos', e)" "kept an A cos0 w cos"
  shows "grows (allowed an A cos0) w w' \<and> kept an A cos0 w' cos' \<and> (\<exists>t. w' = w @ t) \<and> teardownFinalizer \<in> set (cos_Finalizers cos')"
proof (cases "teardownFinalizer \<in> set (cos_Finalizers cos)")
  case False
  let ?fs = "cos_Finalizers cos @ [teardownFinalizer]"
  let ?cos = "cos\<lparr>cos_Finalizers := ?fs\<rparr>" and ?c = "OsPatchFinalizers (cos\<lparr>cos_Finalizers := ?fs\<rparr>) ?fs"
  have "w' = w @ [?c]" "cos' = ?cos"
    using assms(1,2) False by (auto simp: ensureFinalizer_def Let_def dest: patch_keepsD split: sum.splits)
  moreover have "kept an A cos0 (w @ [?c]) ?cos"
    by (rule kept_same [OF kept_later [OF assms(3)]]) (simp_all add: same_identity_def)
  moreover have "allowed an A cos0 w ?c" by (simp add: allowed_def)
  ultimately show ?thesis by auto
qed (use assms(2,3) in \<open>simp add: ensureFinalizer_def\<close>)

lemma roll_out_ok:
  assumes A: "cond_laws (osr_Conds r)" and patch: "patch_keeps an" and sib: "siblings_seen an cos w siblings"
    and active: "cos_DeletionTimestamp cos = None" "cosp_LifecycleState (cos_Spec cos) \<noteq> LifecycleStateArchived"
    and run: "roll_out (observed an r) w eng siblings cos v opts = (w', cos', res, e)"
  shows "grows (allowed an (osr_Conds r) cos) w w' \<and> kept an (osr_Conds r) cos w' cos'"
proof -
  let ?A = "osr_Conds r"
  obtain w1 cos1 e1 where fin: "ensureFinalizer (observed an r) w cos teardownFinalizer = (w1, cos1, e1)" by (metis prod_cases3)
  note f = ensureFinalizer_ok [OF patch fin kept_refl [of an ?A cos w]]
  define v1 where "v1 = v\<lparr>bcr_Owner := cos1\<rparr>"
  obtain g where g: "establishWatch (observed an r) w1 cos1 v1 = (w1 @ [OsWatch cos1 g], osa_err an (w1 @ [OsWatch cos1 g]))"
    by (simp add: establishWatch_def)
  define w2 where "w2 = w1 @ [OsWatch cos1 g]"
  define w3 where "w3 = w2 @ [OsReconcile eng v1 opts]"
  have engine: "osr_EngineReconcile (observed an r) w2 eng v1 opts = (w3, osa_reconcile an w3)" by (simp add: w3_def)
  have watch: "establishWatch (observed an r) w1 cos1 v1 = (w2, osa_err an w2)" using g by (simp add: w2_def)
  have g2: "grows (allowed an ?A cos) w w2"
    unfolding w2_def by (rule grows_trans [OF grows_one]) (use f in simp_all)
  have "allowed an ?A cos w2 (OsReconcile eng v1 opts)"
    using active f by (auto simp: allowed_def v1_def w2_def)
  then have g3: "grows (allowed an ?A cos) w w3"
    unfolding w3_def using grows_trans [OF grows_one g2] by blast
  have k2: "kept an ?A cos w2 cos1" unfolding w2_def using f by (intro kept_later) simp
  have k3: "kept an ?A cos w3 cos1" unfolding w3_def by (rule kept_later [OF k2])
  obtain t where t: "w3 = w @ t" using grows_prefix [OF g3] by blast
  have sib3: "siblings_seen an cos w3 siblings" unfolding t by (rule siblings_later [OF sib])
  show ?thesis
  proof (cases "e1 = None \<and> osa_err an w2 = None")
    case False
    then have "w' = w1 \<and> cos' = cos1 \<or> w' = w2 \<and> (\<exists>m. cos' = setRetryingConditions ?A cos1 m)"
      using run fin watch by (auto simp: roll_out_def Let_def v1_def [symmetric] split: option.splits)
    then show ?thesis using f g2 kept_writers(1) [OF A k2] by auto
  next
    case True
    show ?thesis
    proof (cases "osa_reconcile an w3")
      case (Inl err)
      then have "w' = w3" "cos' = setRetryingConditions ?A cos1 (Error err)"
        using run fin watch engine True by (simp_all add: roll_out_def Let_def v1_def [symmetric] del: observed_sel(8))
      then show ?thesis using g3 kept_writers(1) [OF A k3] by simp
    next
      case (Inr rres)
      then have "report_rollout (observed an r) w3 siblings cos1 rres = (w', cos', res, e)"
        using run fin watch engine True by (simp add: roll_out_def Let_def v1_def [symmetric] del: observed_sel(8))
      from report_rollout_ok [OF A k3 sib3 _ _ this, of w2 eng v1 opts] Inr
      show ?thesis using grows_trans [OF _ g3] by (auto simp: w3_def)
    qed
  qed
qed

lemma set_cos_cond_unchanged: "set_cos_cond A c cos = (cos', False) \<Longrightarrow> cos' = cos"
  by (simp add: set_cos_cond_def Let_def) auto

lemma markAsArchived_unchanged:
  assumes "cond_laws A" "markAsArchived A cos = (cos', False)"
  shows "cos' = cos" "cos_has A cos TypeProgressing ConditionFalse ReasonArchived" "cos_has A cos TypeAvailable ConditionUnknown ReasonArchived"
proof -
  let ?p = "markAsNotProgressing A cos ReasonArchived ''revision is archived''"
  let ?a = "markAsAvailableUnknown A (fst ?p) ReasonArchived ''revision is archived''"
  have "snd ?p = False" "snd ?a = False" "fst ?a = cos'"
    using assms(2) by (simp_all add: markAsArchived_def split: prod.splits)
  then have p: "?p = (fst ?p, False)" and a: "?a = (cos', False)" by (simp_all only: prod_eq_iff fst_conv snd_conv)
  have eq: "fst ?p = cos" using p unfolding markAsNotProgressing_def by (rule set_cos_cond_unchanged)
  then have a': "markAsAvailableUnknown A cos ReasonArchived ''revision is archived'' = (cos', False)" using a by simp
  then show "cos' = cos" unfolding markAsAvailableUnknown_def by (rule set_cos_cond_unchanged)
  then show "cos_has A cos TypeAvailable ConditionUnknown ReasonArchived"
    using a' set_cos_cond_find(1) [OF assms(1), of TypeAvailable ConditionUnknown ReasonArchived "''revision is archived''" "cos_Generation cos" cos]
    by (simp add: markAsAvailableUnknown_def)
  show "cos_has A cos TypeProgressing ConditionFalse ReasonArchived"
    using eq set_cos_cond_find(1) [OF assms(1), of TypeProgressing ConditionFalse ReasonArchived "''revision is archived''" "cos_Generation cos" cos]
    by (simp add: markAsNotProgressing_def)
qed

lemma archive_ok:
  assumes A: "cond_laws (osr_Conds r)" and patch: "patch_keeps an"
    and archived: "cos_DeletionTimestamp cos = None" "cosp_LifecycleState (cos_Spec cos) = LifecycleStateArchived" "OsFree cos \<in> set w"
    and run: "archive (observed an r) w eng cos v = (w', cos', res, e)"
  shows "grows (allowed an (osr_Conds r) cos) w w' \<and> kept an (osr_Conds r) cos w' cos'"
proof -
  let ?A = "osr_Conds r"
  define w1 where "w1 = w @ [OsTeardown eng v]"
  have td: "osr_EngineTeardown (observed an r) w eng v = (w1, osa_teardown an w1)" by (simp add: w1_def)
  have g1: "grows (allowed an ?A cos) w w1"
    unfolding w1_def using archived by (intro grows_one) (simp add: allowed_def)
  have k: "kept an ?A cos w1 cos" by simp
  show ?thesis
  proof (cases "\<exists>out. osa_teardown an w1 = Inr out \<and> out \<noteq> Some False \<and> snd (markAsArchived ?A cos) = False")
    case False
    then have "w' = w1 \<and> ((\<exists>m. cos' = setRetryingConditions ?A cos m) \<or> cos' = fst (markAsArchived ?A cos))"
      using run td by (auto simp: archive_def Let_def simp del: observed_sel(9) split: sum.splits if_splits prod.splits bool.splits)
    then show ?thesis using g1 kept_writers [OF A k] by auto
  next
    case True
    then obtain out where out: "osa_teardown an w1 = Inr out" "out \<noteq> Some False" and "snd (markAsArchived ?A cos) = False" by blast
    then have mark: "markAsArchived ?A cos = (fst (markAsArchived ?A cos), False)" by (simp add: prod_eq_iff)
    note unchanged = markAsArchived_unchanged [OF A mark]
    have "torn_down an w1" unfolding torn_down_def w1_def using out w1_def made_now by metis
    then have allow: "allowed an ?A cos w1 (OsPatchFinalizers c fs)" for c fs
      using archived unchanged by (simp add: allowed_def)
    obtain w2 cos2 oe where rm: "removeFinalizer (observed an r) w1 cos teardownFinalizer = (w2, cos2, oe)" by (metis prod_cases3)
    have "w' = w2 \<and> cos' = cos2"
      using run td out rm mark unchanged(1) by (simp add: archive_def Let_def del: observed_sel(9) split: option.splits)
    then show ?thesis using removeFinalizer_ok [OF patch rm k allow] grows_trans [OF _ g1] by simp
  qed
qed

lemma delete_ok:
  assumes A: "cond_laws (osr_Conds r)" and patch: "patch_keeps an" and del: "cos_DeletionTimestamp cos \<noteq> None"
    and run: "delete_revision (observed an r) w cos = (w', cos', res, e)"
  shows "grows (allowed an (osr_Conds r) cos) w w' \<and> kept an (osr_Conds r) cos w' cos'"
proof -
  let ?A = "osr_Conds r"
  define w1 where "w1 = w @ [OsFree cos]"
  have free: "osr_Free (observed an r) w cos = (w1, osa_err an w1)" by (simp add: w1_def)
  have g1: "grows (allowed an ?A cos) w w1" unfolding w1_def by (intro grows_one) simp
  have k: "kept an ?A cos w1 cos" by simp
  have allow: "allowed an ?A cos w1 (OsPatchFinalizers c fs)" for c fs
    using del by (simp add: allowed_def w1_def)
  obtain w2 cos2 oe where rm: "removeFinalizer (observed an r) w1 cos teardownFinalizer = (w2, cos2, oe)" by (metis prod_cases3)
  show ?thesis
  proof (cases "osa_err an w1")
    case None
    then have "w' = w2 \<and> cos' = cos2"
      using run free rm by (simp add: delete_revision_def del: observed_sel(7) split: option.splits)
    then show ?thesis using removeFinalizer_ok [OF patch rm k allow] grows_trans [OF _ g1] by simp
  next
    case (Some err)
    then have "w' = w1 \<and> cos' = fst (markAsAvailableUnknown ?A cos ReasonReconciling (Error err))"
      using run free by (simp add: delete_revision_def del: observed_sel(7))
    then show ?thesis using g1 kept_writers(4) [OF A k] by simp
  qed
qed

lemma buildBoxcutterPhases_ok:
  "buildBoxcutterPhases (observed an r) w cos = (w', out) \<Longrightarrow> grows (allowed an A cos) w w'"
proof -
  assume run: "buildBoxcutterPhases (observed an r) w cos = (w', out)"
  obtain w1 prev where list: "listPreviousRevisions (observed an r) w cos = (w1, prev)" by fastforce
  then have "w' = w1" using run by (auto simp: buildBoxcutterPhases_def split: sum.splits)
  then show ?thesis using listPreviousRevisions_ok(1) [OF _ list] by (simp add: same_identity_def)
qed

lemma siblingRevisionNames_ok:
  assumes "siblingRevisionNames (observed an r) w cos = (w', out)"
  shows "grows (allowed an A cos) w w'" "out = Inr siblings \<Longrightarrow> siblings_seen an cos w' siblings"
proof -
  show "grows (allowed an A cos) w w'"
    using assms by (auto simp: siblingRevisionNames_def intro!: grows_one split: option.splits sum.splits)
  assume out: "out = Inr siblings"
  show "siblings_seen an cos w' siblings"
  proof (cases "map_of (cos_Labels cos) OwnerNameKey")
    case None
    then show ?thesis using assms out by (auto simp: siblingRevisionNames_def siblings_seen_def)
  next
    case (Some owner)
    then obtain found where "w' = w @ [OsList [(OwnerNameKey, owner)]]" "osa_list an w' = Inr found" "siblings = Some (map cos_Name found)"
      using assms out by (auto simp: siblingRevisionNames_def split: sum.splits)
    then have "listed an cos w' found" using Some unfolding listed_def by (intro exI [of _ owner] exI [of _ w]) simp
    then show ?thesis using \<open>siblings = _\<close> by (auto simp: siblings_seen_def)
  qed
qed

lemma cos_reconcile_ok:
  assumes A: "cond_laws (osr_Conds r)" and patch: "patch_keeps an" and run: "cos_reconcile (observed an r) w cos = (w', cos', res, e)"
  shows "grows (allowed an (osr_Conds r) cos) w w' \<and> kept an (osr_Conds r) cos w' cos'"
proof (cases "cos_DeletionTimestamp cos = None")
  case False
  then show ?thesis using run delete_ok [OF A patch] by (simp add: cos_reconcile_def Let_def)
next
  case live: True
  let ?A = "osr_Conds r"
  obtain w1 built where build: "buildBoxcutterPhases (observed an r) w cos = (w1, built)" by fastforce
  obtain w2 sib where sib: "siblingRevisionNames (observed an r) w1 cos = (w2, sib)" by fastforce
  note g1 = buildBoxcutterPhases_ok [OF build, of ?A]
  note g2 = grows_trans [OF siblingRevisionNames_ok(1) [OF sib] g1]
  have retry: "kept an ?A cos v (setRetryingConditions ?A cos m)" for v m by (rule kept_writers(1) [OF A kept_refl])
  have new: "osr_NewClient (observed an r) = osr_NewClient r" by (simp add: observed_def)
  show ?thesis
  proof (cases "\<exists>phases opts siblings eng. built = Inr (phases, opts) \<and> sib = Inr siblings \<and> CreateRevisionEngine (osr_NewClient r) cos = Inr eng")
    case False
    then have "(w' = w1 \<or> w' = w2) \<and> (\<exists>m. cos' = setRetryingConditions ?A cos m)"
      using run live build sib new by (auto simp: cos_reconcile_def Let_def split: sum.splits)
    then show ?thesis using g1 g2 retry by auto
  next
    case True
    then obtain phases opts siblings eng where ok: "built = Inr (phases, opts)" "sib = Inr siblings"
      "CreateRevisionEngine (osr_NewClient r) cos = Inr eng" by blast
    define v where "v = \<lparr>bcr_Name = cos_Name cos, bcr_Revision = cosp_Revision (cos_Spec cos), bcr_Phases = phases, bcr_Owner = cos\<rparr>"
    show ?thesis
    proof (cases "cosp_LifecycleState (cos_Spec cos) = LifecycleStateArchived")
      case False
      then have "roll_out (observed an r) w2 eng siblings cos v opts = (w', cos', res, e)"
        using run live build sib ok new by (simp add: cos_reconcile_def Let_def v_def)
      then show ?thesis
        using roll_out_ok [OF A patch siblingRevisionNames_ok(2) [OF sib ok(2)] live False] grows_trans [OF _ g2] by blast
    next
      case archived: True
      define w3 where "w3 = w2 @ [OsFree cos]"
      have free: "osr_Free (observed an r) w2 cos = (w3, osa_err an w3)" by (simp add: w3_def)
      have g3: "grows (allowed an ?A cos) w w3"
        unfolding w3_def by (rule grows_trans [OF grows_one g2]) simp
      have "w' = w3 \<and> (\<exists>m. cos' = fst (markAsAvailableUnknown ?A cos ReasonReconciling m))
          \<or> archive (observed an r) w3 eng cos v = (w', cos', res, e)"
        using run live build sib ok new free archived
        by (cases "osa_err an w3") (auto simp: cos_reconcile_def Let_def v_def simp del: observed_sel(7))
      then show ?thesis
        using g3 kept_writers(4) [OF A kept_refl] archive_ok [OF A patch live archived, of w3] grows_trans [OF _ g3]
        by (auto simp: w3_def)
    qed
  qed
qed

lemma progress_deadline_kept:
  assumes "cond_laws A" "kept an A cos0 w cos" "progress_deadline A now existing (cos, res, e) = (cos', res', e')"
  shows "kept an A cos0 w cos'"
proof -
  have "cos' = cos \<or> (\<exists>rs m. cos' = fst (markAsNotProgressing A cos rs m))"
    using assms(3) by (auto simp: progress_deadline_def Let_def split: if_splits)
  then show ?thesis using assms(2) kept_writers(3) [OF assms(1,2)] by auto
qed

text \<open>Every call of a whole reconcile follows the protocol for the object set that was read.\<close>

lemma ObjectSet_Reconcile_ok:
  assumes A: "cond_laws (osr_Conds r)" and patch: "patch_keeps an" and got: "osa_get an [OsGet name] = Inr cos"
  shows "grows (allowed an (osr_Conds r) cos) [] (fst (ObjectSet_Reconcile (observed an r) [] name))"
proof -
  let ?A = "osr_Conds r" and ?w = "[OsGet name]"
  obtain w1 cos1 res1 e1 where rec: "cos_reconcile (observed an r) ?w cos = (w1, cos1, res1, e1)" by (metis prod_cases4)
  obtain cos2 res2 e2 where pd: "progress_deadline ?A (osr_Now (observed an r) w1) cos (cos1, res1, e1) = (cos2, res2, e2)"
    by (metis prod_cases3)
  note ok = cos_reconcile_ok [OF A patch rec]
  have k: "kept an ?A cos w1 cos2" by (rule progress_deadline_kept [OF A _ pd]) (use ok in simp)
  have start: "grows (allowed an ?A cos) [] ?w" using grows_one [of "allowed an ?A cos" "[]" "OsGet name"] by simp
  have g: "grows (allowed an ?A cos) [] w1" using grows_trans [OF _ start] ok by blast
  have "allowed an ?A cos w1 (OsUpdateStatus cos2)" using k by (simp add: kept_def allowed_def)
  then have "grows (allowed an ?A cos) [] (w1 @ [OsUpdateStatus cos2])" using grows_trans [OF grows_one g] by blast
  then show ?thesis
    using g by (simp add: ObjectSet_Reconcile_def got rec pd split: if_splits)
qed

section \<open>Properties\<close>

text \<open>
  C7: only superseded revisions are archived, and only by a finished successor.  Whatever the cluster and the engine answer, a revision
  that a reconcile archives is a listed, active, undeleted revision of the same owner with a smaller number, and before the call
  the engine has reported a complete rollout without validation errors, collisions or objects of other owners.
\<close>

theorem archives_only_superseded:
  assumes "cond_laws (osr_Conds r)" "patch_keeps an" "osa_get an [OsGet name] = Inr cos"
    "fst (ObjectSet_Reconcile (observed an r) [] name) = pre @ OsSetLifecycleState a l # post"
  shows "l = LifecycleStateArchived \<and> superseded cos a \<and> (\<exists>found. listed an cos pre found \<and> a \<in> set found) \<and> rollout_seen an cos pre"
  using grows_mem [OF ObjectSet_Reconcile_ok [OF assms(1-3)] assms(4)] by (simp add: allowed_def)

text \<open>
  C8: the teardown finalizer brackets the life of the objects.  The engine applies objects only for an active revision that carries
  the finalizer and is being watched; a patch without the finalizer is sent for a revision that is not being deleted only when it is
  archived, its teardown has been reported complete, and the archived conditions had been stored by an earlier reconcile.
\<close>

theorem teardown_finalizer_protocol:
  assumes "cond_laws (osr_Conds r)" "patch_keeps an" "osa_get an [OsGet name] = Inr cos"
    "fst (ObjectSet_Reconcile (observed an r) [] name) = pre @ c # post"
  shows "(\<forall>eng v opts. c = OsReconcile eng v opts \<longrightarrow> cosp_LifecycleState (cos_Spec cos) \<noteq> LifecycleStateArchived
            \<and> teardownFinalizer \<in> set (cos_Finalizers (bcr_Owner v)) \<and> (\<exists>g. OsWatch (bcr_Owner v) g \<in> set pre))
    \<and> (\<forall>obj fs. c = OsPatchFinalizers obj fs \<and> teardownFinalizer \<notin> set fs \<and> cos_DeletionTimestamp cos = None \<longrightarrow>
          cosp_LifecycleState (cos_Spec cos) = LifecycleStateArchived \<and> torn_down an pre
          \<and> cos_has (osr_Conds r) cos TypeProgressing ConditionFalse ReasonArchived
          \<and> cos_has (osr_Conds r) cos TypeAvailable ConditionUnknown ReasonArchived)"
  using grows_mem [OF ObjectSet_Reconcile_ok [OF assms(1-3)] assms(4)] by (auto simp: allowed_def)

text \<open>
  C9: Succeeded is set once and stays.  A status written by a reconcile says that the revision succeeded only if it said so before or
  the engine has just reported a clean and complete rollout, and no reconcile takes it back.
\<close>

theorem succeeded_sound_and_persistent:
  assumes "cond_laws (osr_Conds r)" "patch_keeps an" "osa_get an [OsGet name] = Inr cos"
    "fst (ObjectSet_Reconcile (observed an r) [] name) = pre @ OsUpdateStatus cos' # post"
  shows "(cos_succeeded (osr_Conds r) cos' \<longrightarrow> cos_succeeded (osr_Conds r) cos \<or> rollout_seen an cos pre)
    \<and> (cos_succeeded (osr_Conds r) cos \<longrightarrow> cos_succeeded (osr_Conds r) cos')"
  using grows_mem [OF ObjectSet_Reconcile_ok [OF assms(1-3)] assms(4)] by (simp add: allowed_def)

subsection \<open>The progress deadline\<close>

lemma setRetrying_progressing:
  assumes "cond_laws A"
  shows "cos_has A (setRetryingConditions A cos m) TypeProgressing ConditionTrue ReasonRetrying"
proof -
  let ?c = "markAsProgressing A cos ReasonRetrying m"
  have "cos_has A ?c TypeProgressing ConditionTrue ReasonRetrying"
    unfolding markAsProgressing_def by (rule set_cos_cond_find(1) [OF assms])
  moreover have "apiFindStatusCondition A (cos_Conditions (fst (markAsAvailableUnknown A ?c ReasonReconciling m))) TypeProgressing
      = apiFindStatusCondition A (cos_Conditions ?c) TypeProgressing"
    unfolding markAsAvailableUnknown_def by (rule set_cos_cond_find(2) [OF assms]) simp
  ultimately show ?thesis
    by (simp add: setRetryingConditions_def Let_def cos_has_def)
qed

lemma minutes_exact: "0 \<le> pd \<Longrightarrow> pd \<le> 153722867 \<Longrightarrow> minutes pd = pd * 60 * second"
  by (simp add: minutes_def wrap64_def)

lemma deadline_exceeded:
  assumes "cond_laws A" "cos_has A cos TypeProgressing ConditionTrue ReasonRetrying" "\<not> cos_succeeded A cos"
    "0 < cosp_ProgressDeadlineMinutes (cos_Spec existing)" "now - cos_CreationTimestamp existing > minutes (cosp_ProgressDeadlineMinutes (cos_Spec existing))"
  shows "\<exists>m. progress_deadline A now existing (cos, res, e) = (fst (markAsNotProgressing A cos ReasonProgressDeadlineExceeded m), zero_result, None)"
proof -
  obtain d where "apiFindStatusCondition A (cos_Conditions cos) TypeProgressing = Some d" "cond_Status d = ConditionTrue" "cond_Reason d = ReasonRetrying"
    using assms(2) unfolding cos_has_def by blast
  then show ?thesis using assms(3-5) by (simp add: progress_deadline_def Let_def) (rule exI, rule refl)
qed

lemma exceeded_filtered:
  assumes "cond_laws A" "cos_DeletionTimestamp cos = None"
  shows "\<not> skipProgressDeadlineExceededPredicate A ((fst (markAsNotProgressing A cos ReasonProgressDeadlineExceeded m))\<lparr>cos_Spec := s\<rparr>)"
proof -
  let ?c = "fst (markAsNotProgressing A cos ReasonProgressDeadlineExceeded m)"
  have "cos_has A ?c TypeProgressing ConditionFalse ReasonProgressDeadlineExceeded"
    unfolding markAsNotProgressing_def by (rule set_cos_cond_find(1) [OF assms(1)])
  moreover have "cos_DeletionTimestamp ?c = None" using assms(2) by (simp add: markAsNotProgressing_def set_cos_cond_fst)
  ultimately show ?thesis by (auto simp: skipProgressDeadlineExceededPredicate_def cos_has_def)
qed

text \<open>
  The progress deadline stops the teardown of an archived revision.  When a revision that never succeeded is archived, its teardown is
  still incomplete and the deadline since its creation has passed, the reconcile neither fails nor asks to be called again, the finalizer
  stays, and the status it stores makes the event filter drop every later update of the object, whatever its spec, until it is deleted.
\<close>

lemma deadline_stops_teardown:
  assumes "cond_laws (osr_Conds r)" "osr_Get r w name = (w0, Inr cos)" "cos_DeletionTimestamp cos = None"
    "cosp_LifecycleState (cos_Spec cos) = LifecycleStateArchived" "\<not> cos_succeeded (osr_Conds r) cos"
    "buildBoxcutterPhases r w0 cos = (w1, Inr (phases, opts))" "siblingRevisionNames r w1 cos = (w2, Inr siblings)"
    "CreateRevisionEngine (osr_NewClient r) cos = Inr eng" "osr_Free r w2 cos = (w3, None)"
    "osr_EngineTeardown r w3 eng \<lparr>bcr_Name = cos_Name cos, bcr_Revision = cosp_Revision (cos_Spec cos), bcr_Phases = phases, bcr_Owner = cos\<rparr>
       = (w4, Inr (Some False))"
    "cosp_ProgressDeadlineMinutes (cos_Spec cos) \<in> {10..720}"
    "osr_Now r w4 > cos_CreationTimestamp cos + cosp_ProgressDeadlineMinutes (cos_Spec cos) * 60 * second"
  shows "\<exists>cos'. cos_Finalizers cos' = cos_Finalizers cos
    \<and> ObjectSet_Reconcile r w name =
        (if cos_Conditions cos \<noteq> cos_Conditions cos'
         then (case osr_UpdateStatus r w4 cos' of (w5, oe) \<Rightarrow> (w5, zero_result, add_error None ''error updating status: '' oe))
         else (w4, zero_result, None))
    \<and> (\<forall>s. \<not> skipProgressDeadlineExceededPredicate (osr_Conds r) (cos'\<lparr>cos_Spec := s\<rparr>))"
proof -
  let ?A = "osr_Conds r" and ?m = "''removing revision resources that are not owned by another revision''"
  let ?cos1 = "setRetryingConditions ?A cos ?m"
  have rec: "cos_reconcile r w0 cos = (w4, ?cos1, \<lparr>RequeueAfter = 5 * second\<rparr>, None)"
    using assms(3,4,6-10) by (simp add: cos_reconcile_def archive_def Let_def)
  have same: "same_cos ?cos1 cos" by simp
  have late: "osr_Now r w4 - cos_CreationTimestamp cos > minutes (cosp_ProgressDeadlineMinutes (cos_Spec cos))"
    using assms(11,12) minutes_exact [of "cosp_ProgressDeadlineMinutes (cos_Spec cos)"] by simp
  have "\<not> cos_succeeded ?A ?cos1" using assms(5) writers_succeeded(1) [OF assms(1)] by simp
  then obtain m where pd: "progress_deadline ?A (osr_Now r w4) cos (?cos1, \<lparr>RequeueAfter = 5 * second\<rparr>, None)
      = (fst (markAsNotProgressing ?A ?cos1 ReasonProgressDeadlineExceeded m), zero_result, None)"
    using deadline_exceeded [OF assms(1) setRetrying_progressing [OF assms(1)] _ _ late] assms(11) by fastforce
  define cos' where "cos' = fst (markAsNotProgressing ?A ?cos1 ReasonProgressDeadlineExceeded m)"
  have same': "same_cos cos' cos" unfolding cos'_def using same by simp
  have "ObjectSet_Reconcile r w name = (if cos_Conditions cos \<noteq> cos_Conditions cos'
         then (case osr_UpdateStatus r w4 cos' of (w5, oe) \<Rightarrow> (w5, zero_result, add_error None ''error updating status: '' oe))
         else (w4, zero_result, None))"
    using assms(2) rec pd same_cos_fields(1) [OF same']
    by (simp add: ObjectSet_Reconcile_def checkForUnexpectedClusterObjectSetFieldChange_def cos'_def [symmetric])
  moreover have "\<forall>s. \<not> skipProgressDeadlineExceededPredicate ?A (cos'\<lparr>cos_Spec := s\<rparr>)"
    unfolding cos'_def using exceeded_filtered [OF assms(1)] same_cos_fields(5) [OF same] assms(3) by simp
  ultimately show ?thesis using same_cos_fields(4) [OF same'] by blast
qed

subsection \<open>From the applier to the engine\<close>

definition same_source :: "'w object_set_reconciler \<Rightarrow> 'w \<Rightarrow> string \<Rightarrow> cos_object \<Rightarrow> cos_object \<Rightarrow> bool" where
  "same_source r w nm c d \<longleftrightarrow> source_object r w nm c = source_object r w nm d \<and> co_CollisionProtection c = co_CollisionProtection d"

definition same_phase :: "'w object_set_reconciler \<Rightarrow> 'w \<Rightarrow> cos_phase \<Rightarrow> cos_phase \<Rightarrow> bool" where
  "same_phase r w p q \<longleftrightarrow> ph_Name p = ph_Name q \<and> ph_CollisionProtection p = ph_CollisionProtection q
     \<and> list_all2 (same_source r w (ph_Name p)) (ph_Objects p) (ph_Objects q)"

definition same_target :: "cluster_object_set \<Rightarrow> cluster_object_set \<Rightarrow> bool" where
  "same_target a b \<longleftrightarrow> cos_Labels a = cos_Labels b \<and> cosp_CollisionProtection (cos_Spec a) = cosp_CollisionProtection (cos_Spec b)"

lemma same_target_simps:
  assumes "same_target a b"
  shows "owner_labelled a = owner_labelled b"
    "ph_CollisionProtection p = ph_CollisionProtection q \<Longrightarrow> co_CollisionProtection c = co_CollisionProtection d \<Longrightarrow>
       collision_options a p c = collision_options b q d"
  using assms by (auto simp: same_target_def owner_labelled_def collision_options_def fun_eq_iff)

lemma build_objects_cong:
  assumes "list_all2 (same_source r w (ph_Name p)) cs ds" "same_target a b" "ph_Name p = ph_Name q"
    "ph_CollisionProtection p = ph_CollisionProtection q"
  shows "build_objects r w a p cs = build_objects r w b q ds"
  using assms(1)
proof (induction rule: list_all2_induct)
  case (Cons c cs d ds)
  then have "source_object r w (ph_Name q) c = source_object r w (ph_Name q) d" "collision_options a p c = collision_options b q d"
    using assms(3) same_target_simps(2) [OF assms(2,4)] by (simp_all add: same_source_def)
  then show ?case using Cons.IH assms(3) same_target_simps(1) [OF assms(2)] by (simp split: sum.split)
qed simp

lemma build_phases_cong:
  "list_all2 (same_phase r w) ps qs \<Longrightarrow> same_target a b \<Longrightarrow> build_phases r w a ps = build_phases r w b qs"
proof (induction rule: list_all2_induct)
  case (Cons p ps q qs)
  note same = Cons.hyps(1) [unfolded same_phase_def]
  have "build_objects r w a p (ph_Objects p) = build_objects r w b q (ph_Objects q)"
    by (rule build_objects_cong [OF _ Cons.prems]) (use same in blast)+
  then show ?case using Cons.IH [OF Cons.prems] same by (simp split: sum.split)
qed simp

lemma replace_shape:
  "length (replace_phases refs phs) = length phs"
  "i < length phs \<Longrightarrow> ph_Name (replace_phases refs phs ! i) = ph_Name (phs ! i)
     \<and> ph_CollisionProtection (replace_phases refs phs ! i) = ph_CollisionProtection (phs ! i)
     \<and> length (ph_Objects (replace_phases refs phs ! i)) = length (ph_Objects (phs ! i))"
  by (simp_all add: replace_phases_def nth_enumerate_eq)

lemma replace_object_collision: "co_CollisionProtection (replace_object refs pos c) = co_CollisionProtection c"
  by (simp add: replace_object_def split: option.split)


section \<open>Witnesses\<close>

definition ex_object_set :: "string \<Rightarrow> int \<Rightarrow> string \<Rightarrow> condition list \<Rightarrow> cluster_object_set" where
  "ex_object_set name n state cs =
     \<lparr>cos_Name = name, cos_UID = name, cos_Generation = 1, cos_CreationTimestamp = 0, cos_DeletionTimestamp = None,
      cos_Labels = [(OwnerNameKey, ''ext'')], cos_Annotations = [(ServiceAccountNameKey, ''sa''), (ServiceAccountNamespaceKey, ''ns'')],
      cos_Finalizers = [teardownFinalizer], cos_Owner = None,
      cos_Spec = \<lparr>cosp_LifecycleState = state, cosp_Revision = n, cosp_Phases = [], cosp_ProgressDeadlineMinutes = 10,
        cosp_ProgressionProbes = [], cosp_CollisionProtection = []\<rparr>, cos_Conditions = cs\<rparr>"

definition ex_os_answers :: "cluster_object_set \<Rightarrow> bool option \<Rightarrow> os_answers" where
  "ex_os_answers cos td =
     \<lparr>osa_get = (\<lambda>h. Inr cos), osa_err = (\<lambda>h. None),
      osa_patch = (\<lambda>h. case last h of OsPatchFinalizers obj fs \<Rightarrow> Inr (obj\<lparr>cos_Finalizers := fs\<rparr>) | _ \<Rightarrow> Inl nil_deref),
      osa_list = (\<lambda>h. Inr [ex_object_set ''ext-1'' 1 LifecycleStateActive [], ex_object_set ''ext-2'' 2 LifecycleStateActive []]),
      osa_reconcile = (\<lambda>h. Inr \<lparr>rres_ValidationError = None, rres_Phases = [], rres_InTransition = False, rres_IsComplete = True\<rparr>),
      osa_teardown = (\<lambda>h. Inr td)\<rparr>"

definition ex_osr :: "'w object_set_reconciler" where
  "ex_osr =
     \<lparr>osr_Conds = doc_cond_api 1, osr_Codec = ex_codec, osr_Get = (\<lambda>w n. (w, Inl nil_deref)), osr_UpdateStatus = (\<lambda>w c. (w, None)),
      osr_PatchFinalizers = (\<lambda>w c fs. (w, Inr c)), osr_PatchLifecycleState = (\<lambda>w c l. (w, None)), osr_GetSecret = (\<lambda>w ns n. Inl nil_deref),
      osr_List = (\<lambda>w ls. (w, Inr [])), osr_Watch = (\<lambda>w c g. (w, None)), osr_Free = (\<lambda>w c. (w, None)), osr_NewClient = (\<lambda>ns n. None),
      osr_EngineReconcile = (\<lambda>w e v opts. (w, Inl nil_deref)), osr_EngineTeardown = (\<lambda>w e v. (w, Inr (Some False))),
      osr_LabelSelectorAsSelector = (\<lambda>s. Inr Everything), osr_showSelector = (\<lambda>s. []), osr_showOwner = or_Name,
      osr_Now = (\<lambda>w. 601 * second)\<rparr>"

lemma ex_osr_conds [simp]: "osr_Conds ex_osr = doc_cond_api 1"
  by (simp add: ex_osr_def)

lemma ex_os_laws: "cond_laws (osr_Conds ex_osr)" "patch_keeps (ex_os_answers cos td)" "osa_get (ex_os_answers cos td) h = Inr cos"
  by (simp_all add: doc_cond_laws patch_keeps_def ex_os_answers_def)

abbreviation ex_active :: cluster_object_set where "ex_active \<equiv> ex_object_set ''ext-2'' 2 LifecycleStateActive []"

lemma ex_engine: "CreateRevisionEngine (\<lambda>ns n. None) (ex_object_set m n state cs) = Inr \<lparr>eng_Namespace = ''ns'', eng_ServiceAccount = ''sa''\<rparr>"
  by (simp add: CreateRevisionEngine_def getServiceAccount_def createScopedClient_def ex_object_set_def label_of_def trim_space_def is_space_def)

lemma ex_phases_empty:
  "snd (buildBoxcutterPhases (observed (ex_os_answers cos td) ex_osr) w (ex_object_set ''ext-2'' 2 state cs)) = Inr
     ([], [WithPreviousOwners [ex_object_set ''ext-1'' 1 LifecycleStateActive []], WithProbe []])"
  "fst (buildBoxcutterPhases (observed (ex_os_answers cos td) ex_osr) w (ex_object_set ''ext-2'' 2 state cs)) = w @ [OsList [(OwnerNameKey, ''ext'')]]"
  by (simp_all add: buildBoxcutterPhases_def listPreviousRevisions_def ex_os_answers_def ex_object_set_def)

lemma ex_siblings:
  "siblingRevisionNames (observed (ex_os_answers cos td) ex_osr) w (ex_object_set ''ext-2'' 2 state cs) =
     (w @ [OsList [(OwnerNameKey, ''ext'')]], Inr (Some [''ext-1'', ''ext-2'']))"
  by (simp add: siblingRevisionNames_def ex_os_answers_def ex_object_set_def)

lemma ex_rolls_out:
  "\<exists>v opts res. cos_reconcile (observed (ex_os_answers ex_active None) ex_osr) [OsGet ''ext-2''] ex_active =
     ([OsGet ''ext-2'', OsList [(OwnerNameKey, ''ext'')], OsList [(OwnerNameKey, ''ext'')], OsWatch ex_active [],
       OsReconcile \<lparr>eng_Namespace = ''ns'', eng_ServiceAccount = ''sa''\<rparr> v opts, OsList [(OwnerNameKey, ''ext'')],
       OsSetLifecycleState (ex_object_set ''ext-1'' 1 LifecycleStateActive []) LifecycleStateArchived], rolled_out (doc_cond_api 1) ex_active [], res, None)
     \<and> bcr_Owner v = ex_active"
proof -
  let ?an = "ex_os_answers ex_active None"
  have sel: "cos_DeletionTimestamp ex_active = None" "cosp_LifecycleState (cos_Spec ex_active) = LifecycleStateActive"
    "teardownFinalizer \<in> set (cos_Finalizers ex_active)" "osr_NewClient (observed ?an ex_osr) = (\<lambda>ns n. None)"
    "label_of (cos_Annotations ex_active) BundleVersionKey = []" "osa_err ?an = (\<lambda>h. None)"
    "osa_reconcile ?an = (\<lambda>h. Inr \<lparr>rres_ValidationError = None, rres_Phases = [], rres_InTransition = False, rres_IsComplete = True\<rparr>)"
    by (simp_all add: ex_object_set_def observed_def ex_osr_def label_of_def ex_os_answers_def)
  have prev: "listPreviousRevisions (observed ?an ex_osr) w ex_active =
      (w @ [OsList [(OwnerNameKey, ''ext'')]], Inr [ex_object_set ''ext-1'' 1 LifecycleStateActive []])" for w
    by (simp add: listPreviousRevisions_def ex_os_answers_def ex_object_set_def)
  have build: "buildBoxcutterPhases (observed ?an ex_osr) w ex_active = (w @ [OsList [(OwnerNameKey, ''ext'')]], Inr
     ([], [WithPreviousOwners [ex_object_set ''ext-1'' 1 LifecycleStateActive []], WithProbe []]))" for w
    by (simp add: prod_eq_iff ex_phases_empty)
  show ?thesis
    by (simp add: cos_reconcile_def build ex_siblings ex_engine sel roll_out_def ensureFinalizer_def establishWatch_def report_rollout_def prev Let_def)
qed

lemma ex_trace:
  "\<exists>pre v opts cos'. fst (ObjectSet_Reconcile (observed (ex_os_answers ex_active None) ex_osr) [] ''ext-2'') =
     pre @ [OsReconcile \<lparr>eng_Namespace = ''ns'', eng_ServiceAccount = ''sa''\<rparr> v opts, OsList [(OwnerNameKey, ''ext'')],
       OsSetLifecycleState (ex_object_set ''ext-1'' 1 LifecycleStateActive []) LifecycleStateArchived, OsUpdateStatus cos']
     \<and> cos_succeeded (doc_cond_api 1) cos'"
proof -
  let ?r = "observed (ex_os_answers ex_active None) ex_osr" and ?cos = "rolled_out (doc_cond_api 1) ex_active []"
  obtain v opts res where rec: "cos_reconcile ?r [OsGet ''ext-2''] ex_active =
     ([OsGet ''ext-2'', OsList [(OwnerNameKey, ''ext'')], OsList [(OwnerNameKey, ''ext'')], OsWatch ex_active [],
       OsReconcile \<lparr>eng_Namespace = ''ns'', eng_ServiceAccount = ''sa''\<rparr> v opts, OsList [(OwnerNameKey, ''ext'')],
       OsSetLifecycleState (ex_object_set ''ext-1'' 1 LifecycleStateActive []) LifecycleStateArchived], ?cos, res, None)"
    using ex_rolls_out by blast
  have succ: "cos_succeeded (doc_cond_api 1) ?cos" by (rule writers_succeeded(4) [OF doc_cond_laws])
  have pd: "progress_deadline (doc_cond_api 1) now ex_active (?cos, res, None) = (?cos, res, None)" for now
    using succ by (simp add: progress_deadline_def Let_def)
  have "cos_Conditions ex_active \<noteq> cos_Conditions ?cos"
    using succ by (auto simp: ex_object_set_def doc_cond_api_def find_cond_def)
  moreover have "cos_Spec ?cos = cos_Spec ex_active" by (rule same_cos_fields) simp
  moreover have "osa_get (ex_os_answers ex_active None) h = Inr ex_active" for h
    by (simp add: ex_os_laws)
  ultimately show ?thesis
    using succ
    by (intro exI [of _ "[OsGet ''ext-2'', OsList [(OwnerNameKey, ''ext'')], OsList [(OwnerNameKey, ''ext'')], OsWatch ex_active []]"]
          exI [of _ v] exI [of _ opts] exI [of _ ?cos])
      (simp add: ObjectSet_Reconcile_def rec pd checkForUnexpectedClusterObjectSetFieldChange_def split: prod.split)
qed

theorem archives_only_superseded_witness:
  "\<exists>pre post. fst (ObjectSet_Reconcile (observed (ex_os_answers ex_active None) ex_osr) [] ''ext-2'')
       = pre @ OsSetLifecycleState (ex_object_set ''ext-1'' 1 LifecycleStateActive []) LifecycleStateArchived # post
     \<and> rollout_seen (ex_os_answers ex_active None) ex_active pre"
proof -
  obtain pre v opts cos' where t: "fst (ObjectSet_Reconcile (observed (ex_os_answers ex_active None) ex_osr) [] ''ext-2'') =
     (pre @ [OsReconcile \<lparr>eng_Namespace = ''ns'', eng_ServiceAccount = ''sa''\<rparr> v opts, OsList [(OwnerNameKey, ''ext'')]])
       @ OsSetLifecycleState (ex_object_set ''ext-1'' 1 LifecycleStateActive []) LifecycleStateArchived # [OsUpdateStatus cos']"
    using ex_trace by auto
  from archives_only_superseded [OF ex_os_laws(1,2) _ t] ex_os_laws(3) t show ?thesis by blast
qed

theorem succeeded_sound_and_persistent_witness:
  "\<exists>pre cos'. fst (ObjectSet_Reconcile (observed (ex_os_answers ex_active None) ex_osr) [] ''ext-2'') = pre @ [OsUpdateStatus cos']
     \<and> \<not> cos_succeeded (doc_cond_api 1) ex_active \<and> cos_succeeded (doc_cond_api 1) cos'
     \<and> rollout_seen (ex_os_answers ex_active None) ex_active pre"
proof -
  obtain pre cos' where t: "fst (ObjectSet_Reconcile (observed (ex_os_answers ex_active None) ex_osr) [] ''ext-2'') = pre @ OsUpdateStatus cos' # []"
    and succ: "cos_succeeded (doc_cond_api 1) cos'"
    using ex_trace by (metis append_Cons append_Nil append_assoc)
  have "\<not> cos_succeeded (doc_cond_api 1) ex_active" by (simp add: ex_object_set_def doc_cond_api_def find_cond_def)
  then show ?thesis
    using succeeded_sound_and_persistent [OF ex_os_laws(1,2) _ t] ex_os_laws(3) t succ by auto
qed

text \<open>An archived revision whose archived conditions have been stored.\<close>

definition ex_archived :: cluster_object_set where
  "ex_archived = ex_object_set ''ext-2'' 2 LifecycleStateArchived
     [mk_cond TypeProgressing ConditionFalse ReasonArchived ''revision is archived'' 1,
      mk_cond TypeAvailable ConditionUnknown ReasonArchived ''revision is archived'' 1]"

theorem teardown_finalizer_protocol_witness:
  "\<exists>pre post obj. fst (ObjectSet_Reconcile (observed (ex_os_answers ex_archived (Some True)) ex_osr) [] ''ext-2'') = pre @ OsPatchFinalizers obj [] # post
     \<and> torn_down (ex_os_answers ex_archived (Some True)) pre"
proof -
  let ?an = "ex_os_answers ex_archived (Some True)"
  let ?eng = "\<lparr>eng_Namespace = ''ns'', eng_ServiceAccount = ''sa''\<rparr>" and ?obj = "ex_archived\<lparr>cos_Finalizers := []\<rparr>"
  let ?v = "\<lparr>bcr_Name = cos_Name ex_archived, bcr_Revision = cosp_Revision (cos_Spec ex_archived), bcr_Phases = [], bcr_Owner = ex_archived\<rparr>"
  let ?pre = "[OsGet ''ext-2'', OsList [(OwnerNameKey, ''ext'')], OsList [(OwnerNameKey, ''ext'')], OsFree ex_archived, OsTeardown ?eng ?v]"
  have sel: "cos_DeletionTimestamp ex_archived = None" "cosp_LifecycleState (cos_Spec ex_archived) = LifecycleStateArchived"
    "cos_Finalizers ex_archived = [teardownFinalizer]" "osr_NewClient (observed ?an ex_osr) = (\<lambda>ns n. None)"
    "osa_err ?an = (\<lambda>h. None)" "osa_teardown ?an = (\<lambda>h. Inr (Some True))" "osa_patch ?an (h @ [OsPatchFinalizers ?obj []]) = Inr ?obj"
    "CreateRevisionEngine (\<lambda>ns n. None) ex_archived = Inr ?eng"
    "siblingRevisionNames (observed ?an ex_osr) w ex_archived = (w @ [OsList [(OwnerNameKey, ''ext'')]], Inr (Some [''ext-1'', ''ext-2'']))"
    for h w
    by (simp_all add: ex_archived_def ex_engine ex_siblings) (simp_all add: ex_object_set_def observed_def ex_osr_def ex_os_answers_def)
  have build: "\<exists>opts. buildBoxcutterPhases (observed ?an ex_osr) w ex_archived = (w @ [OsList [(OwnerNameKey, ''ext'')]], Inr ([], opts))" for w
    by (simp add: prod_eq_iff ex_phases_empty ex_archived_def)
  have mark: "markAsArchived (doc_cond_api 1) ex_archived = (ex_archived, False)"
    by code_simp
  have rec: "cos_reconcile (observed ?an ex_osr) [OsGet ''ext-2''] ex_archived = (?pre @ [OsPatchFinalizers ?obj []], ?obj, zero_result, None)"
    using build [of "[OsGet ''ext-2'']"] sel(7) [of ?pre]
    by (auto simp: cos_reconcile_def sel(1-6,8,9) archive_def mark removeFinalizer_def Let_def)
  have "progress_deadline (doc_cond_api 1) now ex_archived (?obj, zero_result, None) = (?obj, zero_result, None)" for now
    by (simp add: progress_deadline_def ex_archived_def ex_object_set_def doc_cond_api_def find_cond_def mk_cond_def)
  then have t: "fst (ObjectSet_Reconcile (observed ?an ex_osr) [] ''ext-2'') = ?pre @ OsPatchFinalizers ?obj [] # []"
    by (simp add: ObjectSet_Reconcile_def rec ex_os_laws sel checkForUnexpectedClusterObjectSetFieldChange_def)
  from teardown_finalizer_protocol [OF ex_os_laws(1,2) _ t] ex_os_laws(3) sel(1) have "torn_down ?an ?pre" by simp
  then show ?thesis using t by blast
qed

lemma deadline_stops_teardown_witness:
  "\<exists>cos'. ObjectSet_Reconcile (ex_osr\<lparr>osr_Get := (\<lambda>w n. (w, Inr (ex_object_set ''ext-2'' 2 LifecycleStateArchived [])))\<rparr>) () ''ext-2'' = ((), zero_result, None)
     \<and> cos_Finalizers cos' = [teardownFinalizer] \<and> \<not> skipProgressDeadlineExceededPredicate (doc_cond_api 1) cos'"
proof -
  let ?cos = "ex_object_set ''ext-2'' 2 LifecycleStateArchived []"
  let ?r = "(ex_osr :: unit object_set_reconciler)\<lparr>osr_Get := (\<lambda>w n. (w, Inr ?cos))\<rparr>"
  have conds: "osr_Conds ?r = doc_cond_api 1" by (simp add: ex_osr_def)
  have "\<exists>cos'. cos_Finalizers cos' = cos_Finalizers ?cos
    \<and> ObjectSet_Reconcile ?r () ''ext-2'' =
        (if cos_Conditions ?cos \<noteq> cos_Conditions cos'
         then (case osr_UpdateStatus ?r () cos' of (w5, oe) \<Rightarrow> (w5, zero_result, add_error None ''error updating status: '' oe))
         else ((), zero_result, None))
    \<and> (\<forall>s. \<not> skipProgressDeadlineExceededPredicate (osr_Conds ?r) (cos'\<lparr>cos_Spec := s\<rparr>))"
  proof (rule deadline_stops_teardown)
    show "cond_laws (osr_Conds ?r)" using doc_cond_laws by (simp add: conds)
    show "osr_Get ?r () ''ext-2'' = ((), Inr ?cos)" by simp
    show "buildBoxcutterPhases ?r () ?cos = ((), Inr ([], [WithPreviousOwners [], WithProbe []]))"
      by (simp add: buildBoxcutterPhases_def listPreviousRevisions_def ex_osr_def ex_object_set_def)
    show "siblingRevisionNames ?r () ?cos = ((), Inr (Some []))"
      by (simp add: siblingRevisionNames_def ex_osr_def ex_object_set_def)
    show "CreateRevisionEngine (osr_NewClient ?r) ?cos = Inr \<lparr>eng_Namespace = ''ns'', eng_ServiceAccount = ''sa''\<rparr>"
      using ex_engine by (simp add: ex_osr_def)
  qed (simp_all add: ex_osr_def ex_object_set_def doc_cond_api_def find_cond_def)
  then obtain cos' where c: "cos_Finalizers cos' = cos_Finalizers ?cos"
      "ObjectSet_Reconcile ?r () ''ext-2'' = (if cos_Conditions ?cos \<noteq> cos_Conditions cos'
         then (case osr_UpdateStatus ?r () cos' of (w5, oe) \<Rightarrow> (w5, zero_result, add_error None ''error updating status: '' oe))
         else ((), zero_result, None))"
      "\<not> skipProgressDeadlineExceededPredicate (doc_cond_api 1) (cos'\<lparr>cos_Spec := cos_Spec cos'\<rparr>)"
    unfolding conds by blast
  have "osr_UpdateStatus ?r () cos' = ((), None)" by (simp add: ex_osr_def)
  moreover have "cos_Finalizers ?cos = [teardownFinalizer]" by (simp add: ex_object_set_def)
  ultimately show ?thesis using c by (intro exI [of _ cos']) (simp add: add_error_def)
qed


end
