(* ===== verification/RukpakUtil.thy ===== *)
theory RukpakUtil
  imports ApplierCommon
begin

text \<open>
  Helpers the appliers and the renderer share: object names, conversion to unstructured objects,
  string maps and manifests (\<^verbatim>\<open>rukpak/util/util.go\<close>), and Helm charts found in a bundle's file
  system (\<^verbatim>\<open>shared/util/image/helm.go\<close>).  Reading files, Helm's archive loader, the runtime
  converter and the resource builder are arguments.
\<close>

section \<open>Object names\<close>

abbreviation maxNameLength :: nat where "maxNameLength \<equiv> 63"

definition slice_upto :: "string \<Rightarrow> int \<Rightarrow> string res" where
  "slice_upto s n =
     (if n < 0 \<or> int (length s) < n then Inl (ErrPanic ''slice bounds out of range'') else Inr (take (nat n) s))"

definition ObjectNameForBaseAndSuffix :: "string \<Rightarrow> string \<Rightarrow> string res" where
  "ObjectNameForBaseAndSuffix base suffix =
     map_sum id (\<lambda>b. b @ ''-'' @ suffix)
       (if length base + length suffix > maxNameLength
        then slice_upto base (int maxNameLength - int (length suffix) - 1)
        else Inr base)"

section \<open>Maps and manifests\<close>

definition MergeMaps :: "labels list \<Rightarrow> labels" where
  "MergeMaps ms = foldl (\<lambda>out m. foldl (\<lambda>out (k, v). map_put k v out) out m) [] ms"

record stream_result =
  sr_Err :: "goerr option"
  sr_Infos :: "k8s_object list res"

definition infosToObjects :: "k8s_object list \<Rightarrow> k8s_object list" where
  "infosToObjects infos = foldl (\<lambda>objects info. objects @ [info]) [] infos"

definition ManifestObjects :: "(string \<Rightarrow> string \<Rightarrow> stream_result) \<Rightarrow> string \<Rightarrow> string \<Rightarrow> k8s_object list res" where
  "ManifestObjects Stream r name =
     (let result = Stream r name
      in case sr_Err result of
           Some err \<Rightarrow> Inl err
         | None \<Rightarrow> map_sum id infosToObjects (sr_Infos result))"

section \<open>Charts in a file system\<close>

record chart_metadata =
  cm_Name :: string
  cm_Version :: string

record chart_file =
  cf_Name :: string
  cf_Data :: string

record chart =
  ch_Metadata :: "chart_metadata option"
  ch_Templates :: "chart_file list"

record 'fs chart_fs =
  fs_ReadDir :: "'fs \<Rightarrow> string list"
  fs_ReadFile :: "'fs \<Rightarrow> string \<Rightarrow> string res"
  LoadArchive :: "string \<Rightarrow> chart option res"

definition chart_path :: "string list \<Rightarrow> string" where
  "chart_path files =
     (case filter (\<lambda>n. has_suffix n ''.tgz'' \<or> has_suffix n ''.tar.gz'') files of [] \<Rightarrow> [] | n # _ \<Rightarrow> n)"

definition zero_metadata :: chart_metadata where
  "zero_metadata = \<lparr>cm_Name = [], cm_Version = []\<rparr>"

definition inspectChart :: "'fs chart_fs \<Rightarrow> string \<Rightarrow> (bool \<times> bool \<times> chart_metadata) res" where
  "inspectChart F data =
     (case LoadArchive F data of
        Inl err \<Rightarrow> Inl (ErrWrap ''loading chart archive: '' err)
      | Inr None \<Rightarrow> Inl nil_deref
      | Inr (Some c) \<Rightarrow>
          Inr (length (ch_Templates c) > 0, ch_Metadata c \<noteq> None,
               case ch_Metadata c of Some m \<Rightarrow> m | None \<Rightarrow> zero_metadata))"

definition IsBundleSourceChart :: "'fs chart_fs \<Rightarrow> 'fs \<Rightarrow> (bool \<times> chart_metadata) res" where
  "IsBundleSourceChart F bundleFS =
     (let chartPath = chart_path (fs_ReadDir F bundleFS)
      in case fs_ReadFile F bundleFS chartPath of
           Inl err \<Rightarrow> Inl err
         | Inr data \<Rightarrow>
             (case inspectChart F data of
                Inl (ErrPanic p) \<Rightarrow> Inl (ErrPanic p)
              | Inl err \<Rightarrow> Inl (ErrWrap (''reading '' @ chartPath @ '' from fs: '') err)
              | Inr (templatesExist, chartfileExists, m) \<Rightarrow> Inr (templatesExist \<and> chartfileExists, m)))"

text \<open>
  The expression \<^verbatim>\<open>{{\W+\.Release\.Namespace\W+}}\<close> under Go's leftmost-first search with greedy
  repetitions: \<^verbatim>\<open>nonword_then\<close> consumes one or more non-word characters, the longest run first, so that
  the continuation matches.
\<close>

definition word_char :: "char \<Rightarrow> bool" where
  "word_char c =
     (let n = (of_char c :: nat) in (48 \<le> n \<and> n \<le> 57) \<or> (65 \<le> n \<and> n \<le> 90) \<or> n = 95 \<or> (97 \<le> n \<and> n \<le> 122))"

definition literal_then :: "string \<Rightarrow> (string \<Rightarrow> string option) \<Rightarrow> string \<Rightarrow> string option" where
  "literal_then l k s = (if take (length l) s = l then k (drop (length l) s) else None)"

fun nonword_then :: "(string \<Rightarrow> string option) \<Rightarrow> string \<Rightarrow> string option" where
  "nonword_then k [] = None"
| "nonword_then k (c # cs) =
     (if word_char c then None else case nonword_then k cs of Some r \<Rightarrow> Some r | None \<Rightarrow> k cs)"

definition match_namespace :: "string \<Rightarrow> string option" where
  "match_namespace =
     literal_then ''{{'' (nonword_then (literal_then ''.Release.Namespace'' (nonword_then (literal_then ''}}'' Some))))"

fun replace_namespace :: "nat \<Rightarrow> string \<Rightarrow> string \<Rightarrow> string" where
  "replace_namespace 0 ns s = s"
| "replace_namespace (Suc n) ns [] = []"
| "replace_namespace (Suc n) ns (c # cs) =
     (case match_namespace (c # cs) of
        Some rest \<Rightarrow> ns @ replace_namespace n ns rest
      | None \<Rightarrow> c # replace_namespace n ns cs)"

definition WithInstallNamespace :: "string \<Rightarrow> chart \<Rightarrow> chart" where
  "WithInstallNamespace ns c =
     c\<lparr>ch_Templates := map (\<lambda>t. t\<lparr>cf_Data := replace_namespace (length (cf_Data t)) ns (cf_Data t)\<rparr>) (ch_Templates c)\<rparr>"

definition loadChartFS :: "'fs chart_fs \<Rightarrow> 'fs \<Rightarrow> string \<Rightarrow> chart option res" where
  "loadChartFS F bundleFS filename =
     (if filename = [] then Inl (ErrText ''chart file name was not provided'')
      else case fs_ReadFile F bundleFS filename of
             Inl err \<Rightarrow> Inl (ErrText (''reading chart '' @ filename @ ''; '' @ Error err))
           | Inr tarball \<Rightarrow> LoadArchive F tarball)"

definition enrichChart :: "chart option \<Rightarrow> (chart \<Rightarrow> chart) list \<Rightarrow> chart res" where
  "enrichChart oc options =
     (case oc of
        None \<Rightarrow> Inl (ErrText ''chart can not be nil'')
      | Some c \<Rightarrow> Inr (foldl (\<lambda>c f. f c) c options))"

definition LoadChartFSWithOptions :: "'fs chart_fs \<Rightarrow> 'fs \<Rightarrow> string \<Rightarrow> (chart \<Rightarrow> chart) list \<Rightarrow> chart res" where
  "LoadChartFSWithOptions F bundleFS filename options =
     (case loadChartFS F bundleFS filename of Inl err \<Rightarrow> Inl err | Inr oc \<Rightarrow> enrichChart oc options)"

section \<open>Lemmas\<close>

lemma map_of_MergeMaps2:
  "distinct (map fst m1) \<Longrightarrow> distinct (map fst m2) \<Longrightarrow>
     map_of (MergeMaps [m1, m2]) k = (case map_of m2 k of Some v \<Rightarrow> Some v | None \<Rightarrow> map_of m1 k)"
  using map_of_merge by (simp add: MergeMaps_def mergeStringMaps_def maps_Copy_def)

lemma nonword_then_shorter:
  "(\<And>t r. k t = Some r \<Longrightarrow> length r \<le> length t) \<Longrightarrow> nonword_then k s = Some r \<Longrightarrow> length r < length s"
  by (induction k s rule: nonword_then.induct) (fastforce split: if_splits option.splits)+

lemma match_namespace_shorter: "match_namespace s = Some r \<Longrightarrow> length r < length s"
proof -
  let ?close = "literal_then ''}}'' Some"
  let ?name = "literal_then ''.Release.Namespace'' (nonword_then ?close)"
  assume m: "match_namespace s = Some r"
  have c: "length y \<le> length x" if "?close x = Some y" for x y
    using that by (auto simp: literal_then_def split: if_splits)
  have n: "length y \<le> length x" if "?name x = Some y" for x y
    using that nonword_then_shorter [of ?close, OF c] by (fastforce simp: literal_then_def split: if_splits)
  show ?thesis
    using m nonword_then_shorter [of ?name, OF n]
    by (fastforce simp: match_namespace_def literal_then_def [of "''{{''"] split: if_splits)
qed

lemma replace_namespace_fuel: "length s \<le> n \<Longrightarrow> replace_namespace n ns s = replace_namespace (length s) ns s"
proof (induction "length s" arbitrary: s n rule: less_induct)
  case less
  show ?case
  proof (cases s)
    case (Cons c cs)
    obtain m where m: "n = Suc m" "length cs \<le> m" using less.prems Cons by (cases n) auto
    have *: "replace_namespace m ns t = replace_namespace (length cs) ns t" if "length t \<le> length cs" for t
      using that m less.hyps [of t m] less.hyps [of t "length cs"] by (simp add: Cons)
    show ?thesis
      using * [of cs] * match_namespace_shorter [of s] by (force simp: Cons m(1) split: option.split)
  qed (cases n; simp)
qed

text \<open>
  C40: the name made of a base and a suffix ends with the suffix, and a suffix of at most 62
  characters never panics; the name fits the limit of 63 characters except when base and suffix
  together are exactly 63 characters long, where it is one character too long.
\<close>

theorem ObjectNameForBaseAndSuffix_bounds:
  assumes "length suffix < maxNameLength"
  shows "\<exists>name. ObjectNameForBaseAndSuffix base suffix = Inr name
     \<and> name = take (length name - Suc (length suffix)) base @ ''-'' @ suffix
     \<and> (if length base + length suffix = maxNameLength then length name = Suc maxNameLength
        else length name = min maxNameLength (Suc (length base + length suffix)))"
proof (cases "length base + length suffix > maxNameLength")
  case True
  then have "nat (int maxNameLength - int (length suffix) - 1) = 62 - length suffix" by simp
  then show ?thesis
    using True assms by (auto simp: ObjectNameForBaseAndSuffix_def slice_upto_def)
next
  case False
  then show ?thesis by (auto simp: ObjectNameForBaseAndSuffix_def)
qed

theorem ObjectNameForBaseAndSuffix_bounds_witness:
  "length ''service'' < maxNameLength \<and>
   (\<exists>name. ObjectNameForBaseAndSuffix (replicate 56 (CHR 0x61)) ''service'' = Inr name \<and> length name = 64)"
  using ObjectNameForBaseAndSuffix_bounds [of "''service''" "replicate 56 (CHR 0x61)"] by auto

end
