(* ===== verification/HelmApplier.thy ===== *)
theory HelmApplier
  imports RukpakUtil
begin

text \<open>
  The Helm applier (\<^verbatim>\<open>applier/helm.go\<close>): the state of a release found by a server-side dry run, the
  pre-authorization on a client-only rendering, preflights, the install, upgrade or reconcile of the
  release and the watches on its objects, and the maintenance of an existing release without
  content.  Helm's action client, the archive loader, the content manager and the resource
  builder are arguments; the state \<^verbatim>\<open>'w\<close> of cluster and caches is threaded through the calls.  The
  option closures given to Helm are the list of the assignments they make, and the post renderer
  is given by the labels it merges.
\<close>

section \<open>Clients\<close>

datatype action_option =
  OptDryRun bool
| OptDryRunOption string
| OptReleaseName string
| OptReplace bool
| OptClientOnly bool
| OptIncludeCRDs bool
| OptIsUpgrade bool
| OptCreateNamespace bool
| OptMaxHistory nat
| OptLabels labels

record 'w helm_client =
  hc_Get :: "'w \<Rightarrow> string \<Rightarrow> 'w \<times> helm_release option \<times> goerr option"
  hc_Install :: "'w \<Rightarrow> string \<Rightarrow> string \<Rightarrow> chart \<Rightarrow> action_option list \<Rightarrow> labels \<Rightarrow> 'w \<times> helm_release res"
  hc_Upgrade :: "'w \<Rightarrow> string \<Rightarrow> string \<Rightarrow> chart \<Rightarrow> action_option list \<Rightarrow> labels \<Rightarrow> 'w \<times> helm_release res"
  hc_Reconcile :: "'w \<Rightarrow> helm_release option \<Rightarrow> 'w \<times> goerr option"

record ('w, 'fs) helm_applier =
  h_ActionClientFor :: "'w \<Rightarrow> cluster_extension \<Rightarrow> 'w \<times> 'w helm_client res"
  h_isReleaseNotFound :: "goerr \<Rightarrow> bool"
  h_Preflights :: "'w preflight list"
  h_PreAuthorizer :: "(string \<Rightarrow> string \<Rightarrow> (string \<Rightarrow> attributes_record list) list \<Rightarrow> scoped_policy_rules list \<times> goerr option) option"
  h_ChartProvider :: "('fs \<Rightarrow> cluster_extension \<Rightarrow> chart res) option"
  h_HelmChartSupport :: bool
  h_FS :: "'fs chart_fs"
  h_Stream :: "string \<Rightarrow> string \<Rightarrow> stream_result"
  h_ManagerGet :: "('w \<Rightarrow> cluster_extension \<Rightarrow> 'w \<times> ('w \<Rightarrow> k8s_object list \<Rightarrow> 'w \<times> goerr option) res) option"
  h_hasWatcher :: bool

abbreviation maxHelmReleaseHistory :: nat where "maxHelmReleaseHistory \<equiv> 10"

section \<open>Post renderer\<close>

partial_function (option) postrender_loop ::
  "('r \<Rightarrow> 'r \<times> decode_out) \<Rightarrow> (k8s_object \<Rightarrow> string res) \<Rightarrow> labels \<Rightarrow> 'r \<Rightarrow> string \<Rightarrow> string res option" where
  "postrender_loop dec MarshalJSON ls rd buf =
     (case dec rd of (rd', out) \<Rightarrow>
        (case out of
           DecodeEOF \<Rightarrow> Some (Inr buf)
         | DecodeError err \<Rightarrow> Some (Inl err)
         | Decoded obj \<Rightarrow>
             (case MarshalJSON (obj\<lparr>obj_Labels := MergeMaps [obj_Labels obj, ls]\<rparr>) of
                Inl err \<Rightarrow> Some (Inl err)
              | Inr b \<Rightarrow> postrender_loop dec MarshalJSON ls rd' (buf @ b))))"

definition postrenderer_Run ::
  "('r \<Rightarrow> 'r \<times> decode_out) \<Rightarrow> (k8s_object \<Rightarrow> string res) \<Rightarrow> labels \<Rightarrow> (string \<Rightarrow> string res) option \<Rightarrow> 'r \<Rightarrow> string res option" where
  "postrenderer_Run dec MarshalJSON ls cascade rd =
     (case postrender_loop dec MarshalJSON ls rd [] of
        None \<Rightarrow> None
      | Some (Inl err) \<Rightarrow> Some (Inl err)
      | Some (Inr buf) \<Rightarrow> Some (case cascade of Some run \<Rightarrow> run buf | None \<Rightarrow> Inr buf))"

section \<open>Charts and releases\<close>

definition buildHelmChart :: "('w, 'fs) helm_applier \<Rightarrow> 'fs \<Rightarrow> cluster_extension \<Rightarrow> chart res" where
  "buildHelmChart h bundleFS ext =
     (case h_ChartProvider h of
        None \<Rightarrow> Inl (ErrText ''HelmChartProvider is nil'')
      | Some Get \<Rightarrow>
          if \<not> h_HelmChartSupport h then Get bundleFS ext
          else case IsBundleSourceChart (h_FS h) bundleFS of
                 Inl (ErrPanic p) \<Rightarrow> Inl (ErrPanic p)
               | Inr (True, meta) \<Rightarrow>
                   LoadChartFSWithOptions (h_FS h) bundleFS (cm_Name meta @ ''-'' @ cm_Version meta @ ''.tgz'')
                     [WithInstallNamespace (spec_Namespace (ce_Spec ext))]
               | _ \<Rightarrow> Get bundleFS ext)"

definition GetObjectsFromRelease :: "('w, 'fs) helm_applier \<Rightarrow> helm_release option \<Rightarrow> k8s_object list res" where
  "GetObjectsFromRelease h orel =
     (case orel of
        None \<Rightarrow> Inr []
      | Some rel \<Rightarrow>
          (case ManifestObjects (h_Stream h) (hr_Manifest rel) (hr_Name rel @ ''-release-manifest'') of
             Inl err \<Rightarrow> Inl (ErrWrap (''parsing release '' @ quote (hr_Name rel) @ '' objects: '') err)
           | Inr objs \<Rightarrow> Inr objs))"

definition renderClientOnlyRelease ::
  "('w, 'fs) helm_applier \<Rightarrow> cluster_extension \<Rightarrow> chart \<Rightarrow> labels \<Rightarrow> 'w \<Rightarrow> 'w \<times> helm_release res" where
  "renderClientOnlyRelease h ext chrt post w =
     (case h_ActionClientFor h w ext of
        (w1, Inl err) \<Rightarrow> (w1, Inl err)
      | (w1, Inr ac) \<Rightarrow>
          (case hc_Get ac w1 (ce_Name ext) of (w2, currentRelease, oerr) \<Rightarrow>
             if (case oerr of Some err \<Rightarrow> \<not> h_isReleaseNotFound h err | None \<Rightarrow> False) then (w2, Inl (the oerr))
             else hc_Install ac w2 (ce_Name ext) (spec_Namespace (ce_Spec ext)) chrt
                    [OptDryRun True, OptReleaseName (ce_Name ext), OptReplace True, OptClientOnly True, OptIncludeCRDs True,
                     OptIsUpgrade (currentRelease \<noteq> None)] post))"

definition helmRunPreAuthorizationChecks ::
  "('w, 'fs) helm_applier \<Rightarrow> cluster_extension \<Rightarrow> chart \<Rightarrow> labels \<Rightarrow> 'w \<Rightarrow> 'w \<times> goerr option" where
  "helmRunPreAuthorizationChecks h ext chrt post w =
     (case h_PreAuthorizer h of
        None \<Rightarrow> (w, None)
      | Some pre \<Rightarrow>
          (case renderClientOnlyRelease h ext chrt post w of
             (w', Inl err) \<Rightarrow> (w', Some (ErrWrap ''error rendering content for pre-authorization checks: '' err))
           | (w', Inr tmplRel) \<Rightarrow>
               (w', formatPreAuthorizerOutput (pre (getUserInfo ext) (hr_Manifest tmplRel) [extManagementPerms ext]))))"

definition getReleaseState ::
  "('w, 'fs) helm_applier \<Rightarrow> 'w helm_client \<Rightarrow> cluster_extension \<Rightarrow> chart \<Rightarrow> labels \<Rightarrow> 'w
   \<Rightarrow> 'w \<times> (helm_release option \<times> helm_release \<times> string) res" where
  "getReleaseState h cl ext chrt post w =
     (case hc_Get cl w (ce_Name ext) of
        (w1, currentRelease, Some err) \<Rightarrow>
          if h_isReleaseNotFound h err
          then (case hc_Install cl w1 (ce_Name ext) (spec_Namespace (ce_Spec ext)) chrt
                       [OptDryRun True, OptDryRunOption ''server''] post of
                  (w2, Inl err2) \<Rightarrow> (w2, Inl err2)
                | (w2, Inr desired) \<Rightarrow> (w2, Inr (None, desired, StateNeedsInstall)))
          else (w1, Inl err)
      | (w1, currentRelease, None) \<Rightarrow>
          (case hc_Upgrade cl w1 (ce_Name ext) (spec_Namespace (ce_Spec ext)) chrt
                  [OptMaxHistory maxHelmReleaseHistory, OptDryRun True, OptDryRunOption ''server''] post of
             (w2, Inl err) \<Rightarrow> (w2, Inl err)
           | (w2, Inr desired) \<Rightarrow>
               (case currentRelease of
                  None \<Rightarrow> (w2, Inl nil_deref)
                | Some cur \<Rightarrow>
                    if hr_Manifest desired \<noteq> hr_Manifest cur then (w2, Inr (Some cur, desired, StateNeedsUpgrade))
                    else (case hr_Status cur of
                            None \<Rightarrow> (w2, Inl nil_deref)
                          | Some st \<Rightarrow>
                              (w2, Inr (Some cur, desired,
                                 if st = ''failed'' \<or> st = ''superseded'' then StateNeedsUpgrade else StateUnchanged))))))"

section \<open>Apply\<close>

definition watch_release ::
  "('w, 'fs) helm_applier \<Rightarrow> cluster_extension \<Rightarrow> helm_release \<Rightarrow> 'w \<Rightarrow> 'w \<times> bool \<times> string \<times> goerr option" where
  "watch_release h ext rel w =
     (case ManifestObjects (h_Stream h) (hr_Manifest rel) (hr_Name rel @ ''-release-manifest'') of
        Inl err \<Rightarrow> (w, True, [], Some err)
      | Inr relObjects \<Rightarrow>
          (case h_ManagerGet h of
             None \<Rightarrow> (w, False, [], Some nil_deref)
           | Some Get \<Rightarrow>
               (case Get w ext of
                  (w1, Inl err) \<Rightarrow> (w1, True, [], Some err)
                | (w1, Inr Watch) \<Rightarrow>
                    (case Watch w1 relObjects of
                       (w2, Some err) \<Rightarrow> (w2, True, [], Some err)
                     | (w2, None) \<Rightarrow> (w2, True, [], None)))))"

definition reconcileExistingRelease ::
  "('w, 'fs) helm_applier \<Rightarrow> 'w helm_client \<Rightarrow> cluster_extension \<Rightarrow> 'w \<Rightarrow> 'w \<times> bool \<times> string \<times> goerr option" where
  "reconcileExistingRelease h ac ext w =
     (case hc_Get ac w (ce_Name ext) of
        (w1, orel, Some err) \<Rightarrow>
          if h_isReleaseNotFound h err
          then (w1, False, [], Some (ErrText ''catalog content unavailable and no release installed''))
          else (w1, False, [], Some (ErrWrap ''failed to get current release: '' err))
      | (w1, orel, None) \<Rightarrow>
          (case hc_Reconcile ac w1 orel of
             (w2, Some err) \<Rightarrow> (w2, False, [], Some err)
           | (w2, None) \<Rightarrow> (case orel of None \<Rightarrow> (w2, False, [], Some nil_deref) | Some rel \<Rightarrow>
               (case ManifestObjects (h_Stream h) (hr_Manifest rel) (hr_Name rel @ ''-release-manifest'') of
                  Inl err \<Rightarrow> (w2, True, [], None)
                | Inr relObjects \<Rightarrow>
                    (case h_ManagerGet h of
                       None \<Rightarrow> (w2, True, [], None)
                     | Some Get \<Rightarrow>
                         (case Get w2 ext of
                            (w3, Inl err) \<Rightarrow> (w3, True, [], None)
                          | (w3, Inr Watch) \<Rightarrow>
                              if \<not> h_hasWatcher h then (w3, True, [], None)
                              else (case Watch w3 relObjects of (w4, oerr) \<Rightarrow> (w4, True, [], None))))))))"

definition perform_release ::
  "'w helm_client \<Rightarrow> cluster_extension \<Rightarrow> chart \<Rightarrow> labels \<Rightarrow> labels \<Rightarrow> string \<Rightarrow> helm_release option \<Rightarrow> 'w
   \<Rightarrow> 'w \<times> helm_release res" where
  "perform_release ac ext chrt objectLabels storageLabels state orel w =
     (if state = StateNeedsInstall
      then hc_Install ac w (ce_Name ext) (spec_Namespace (ce_Spec ext)) chrt
             [OptCreateNamespace False, OptLabels storageLabels] objectLabels
      else if state = StateNeedsUpgrade
      then hc_Upgrade ac w (ce_Name ext) (spec_Namespace (ce_Spec ext)) chrt
             [OptMaxHistory maxHelmReleaseHistory, OptLabels storageLabels] objectLabels
      else if state = StateUnchanged
      then (case hc_Reconcile ac w orel of
              (w', Some err) \<Rightarrow> (w', Inl err)
            | (w', None) \<Rightarrow> (w', case orel of None \<Rightarrow> Inl nil_deref | Some rel \<Rightarrow> Inr rel))
      else (w, Inl (ErrText (''unexpected release state '' @ quote state))))"

definition apply_release ::
  "('w, 'fs) helm_applier \<Rightarrow> cluster_extension \<Rightarrow> chart \<Rightarrow> labels \<Rightarrow> labels \<Rightarrow> 'w \<Rightarrow> 'w \<times> bool \<times> string \<times> goerr option" where
  "apply_release h ext chrt objectLabels storageLabels w =
     (case h_ActionClientFor h w ext of
        (w1, Inl err) \<Rightarrow> (w1, False, [], Some err)
      | (w1, Inr ac) \<Rightarrow>
          (case getReleaseState h ac ext chrt objectLabels w1 of
             (w2, Inl err) \<Rightarrow> (w2, False, [], Some (ErrWrap ''failed to get release state using server-side dry-run: '' err))
           | (w2, Inr (orel, desiredRel, state)) \<Rightarrow>
               (case GetObjectsFromRelease h (Some desiredRel) of
                  Inl err \<Rightarrow> (w2, False, [], Some err)
                | Inr objs \<Rightarrow>
                    (case run_preflights (h_Preflights h) ext state objs w2 of
                       (w3, Some err) \<Rightarrow> (w3, False, [], Some err)
                     | (w3, None) \<Rightarrow>
                         (case perform_release ac ext chrt objectLabels storageLabels state orel w3 of
                            (w4, Inl err) \<Rightarrow> (w4, False, [], Some err)
                          | (w4, Inr rel) \<Rightarrow> watch_release h ext rel w4)))))"

definition HelmApply :: "('w, 'fs) helm_applier \<Rightarrow> ('w, 'fs) applier" where
  "HelmApply h w contentFS ext objectLabels storageLabels =
     (case contentFS of
        None \<Rightarrow>
          (case h_ActionClientFor h w ext of
             (w1, Inl err) \<Rightarrow> (w1, False, [], Some err)
           | (w1, Inr ac) \<Rightarrow> reconcileExistingRelease h ac ext w1)
      | Some fs \<Rightarrow>
          (case buildHelmChart h fs ext of
             Inl err \<Rightarrow> (w, False, [], Some err)
           | Inr chrt \<Rightarrow>
               (case helmRunPreAuthorizationChecks h ext chrt objectLabels w of
                  (w1, Some err) \<Rightarrow> (w1, False, [], Some err)
                | (w1, None) \<Rightarrow> apply_release h ext chrt objectLabels storageLabels w1)))"

section \<open>Traces of Helm calls\<close>

text \<open>
  The applier is run against a client that records every call; the answers are an arbitrary
  function of the calls made so far.
\<close>

datatype helm_call =
  HGet string
| HInstall chart "action_option list"
| HUpgrade chart "action_option list"
| HReconcile "helm_release option"

record helm_answers =
  an_Client :: "helm_call list \<Rightarrow> goerr option"
  an_Get :: "helm_call list \<Rightarrow> helm_release option \<times> goerr option"
  an_Release :: "helm_call list \<Rightarrow> helm_release res"
  an_Reconcile :: "helm_call list \<Rightarrow> goerr option"

definition recorded_client :: "helm_answers \<Rightarrow> helm_call list helm_client" where
  "recorded_client an =
     \<lparr>hc_Get = (\<lambda>w n. (w @ [HGet n], an_Get an w)),
      hc_Install = (\<lambda>w n ns c opts ls. (w @ [HInstall c opts], an_Release an (w @ [HInstall c opts]))),
      hc_Upgrade = (\<lambda>w n ns c opts ls. (w @ [HUpgrade c opts], an_Release an (w @ [HUpgrade c opts]))),
      hc_Reconcile = (\<lambda>w r. (w @ [HReconcile r], an_Reconcile an w))\<rparr>"

definition recorded :: "helm_answers \<Rightarrow> (helm_call list, 'fs) helm_applier \<Rightarrow> bool" where
  "recorded an h \<longleftrightarrow>
     h_ActionClientFor h = (\<lambda>w ext. (w, case an_Client an w of Some e \<Rightarrow> Inl e | None \<Rightarrow> Inr (recorded_client an)))
     \<and> quiet_preflights (h_Preflights h)
     \<and> (\<forall>Get w ext. h_ManagerGet h = Some Get \<longrightarrow>
          fst (Get w ext) = w \<and> (\<forall>Watch v objs. snd (Get w ext) = Inr Watch \<longrightarrow> fst (Watch v objs) = v))"

fun changes :: "helm_call \<Rightarrow> bool" where
  "changes (HGet n) = False"
| "changes (HInstall c opts) = (OptDryRun True \<notin> set opts)"
| "changes (HUpgrade c opts) = (OptDryRun True \<notin> set opts)"
| "changes (HReconcile r) = True"

definition pre_authorized :: "helm_answers \<Rightarrow> (helm_call list, 'fs) helm_applier \<Rightarrow> cluster_extension \<Rightarrow> helm_call list \<Rightarrow> bool" where
  "pre_authorized an h ext calls \<longleftrightarrow>
     (case h_PreAuthorizer h of None \<Rightarrow> True
      | Some pre \<Rightarrow> \<exists>w c opts rel rest. calls = w @ [HInstall c opts] @ rest \<and> OptClientOnly True \<in> set opts
          \<and> filter changes w = [] \<and> an_Release an (w @ [HInstall c opts]) = Inr rel
          \<and> formatPreAuthorizerOutput (pre (getUserInfo ext) (hr_Manifest rel) [extManagementPerms ext]) = None)"

definition decided ::
  "helm_answers \<Rightarrow> (helm_call list, 'fs) helm_applier \<Rightarrow> cluster_extension \<Rightarrow> chart \<Rightarrow> labels \<Rightarrow> helm_call list \<Rightarrow> helm_call \<Rightarrow> helm_call \<Rightarrow> bool" where
  "decided an h ext chrt storageLabels v dry c \<longleftrightarrow>
     (case snd (an_Get an v) of
        Some err \<Rightarrow> h_isReleaseNotFound h err \<and> c = HInstall chrt [OptCreateNamespace False, OptLabels storageLabels]
      | None \<Rightarrow> (case fst (an_Get an v) of None \<Rightarrow> False | Some cur \<Rightarrow>
          (\<exists>desired. an_Release an (v @ [HGet (ce_Name ext), dry]) = Inr desired \<and>
             c = (if hr_Manifest desired \<noteq> hr_Manifest cur \<or> hr_Status cur = Some ''failed'' \<or> hr_Status cur = Some ''superseded''
                  then HUpgrade chrt [OptMaxHistory maxHelmReleaseHistory, OptLabels storageLabels]
                  else HReconcile (Some cur)))))"

lemma watch_release_quiet: "recorded an h \<Longrightarrow> fst (watch_release h ext rel w) = w"
proof (cases "h_ManagerGet h")
  case (Some Get)
  assume "recorded an h"
  then have q: "fst (Get w ext) = w" "\<And>Watch v objs. snd (Get w ext) = Inr Watch \<Longrightarrow> fst (Watch v objs) = v"
    using Some by (auto simp: recorded_def)
  obtain r where g: "Get w ext = (w, r)" using q(1) by (cases "Get w ext") simp
  show ?thesis
  proof (cases r)
    case (Inr Watch)
    then have "Watch w objs = (w, snd (Watch w objs))" for objs
      using q(2) [of Watch w objs] g by (simp add: prod_eq_iff)
    then show ?thesis
      using Some g Inr by (auto simp: watch_release_def split: sum.split option.split prod.split) (metis fst_conv)+
  qed (use Some g in \<open>simp add: watch_release_def split: sum.split\<close>)
qed (simp add: watch_release_def split: sum.split)

lemma watch_release_ok: "fst (snd (watch_release h ext rel w)) \<or> h_ManagerGet h = None"
  by (auto simp: watch_release_def split: sum.split option.split prod.split)

lemma recorded_simps [simp]:
  "hc_Get (recorded_client an) w n = (w @ [HGet n], an_Get an w)"
  "hc_Install (recorded_client an) w n ns c opts ls = (w @ [HInstall c opts], an_Release an (w @ [HInstall c opts]))"
  "hc_Upgrade (recorded_client an) w n ns c opts ls = (w @ [HUpgrade c opts], an_Release an (w @ [HUpgrade c opts]))"
  "hc_Reconcile (recorded_client an) w r = (w @ [HReconcile r], an_Reconcile an w)"
  by (simp_all add: recorded_client_def)

lemma recorded_client_for:
  "recorded an h \<Longrightarrow>
     h_ActionClientFor h w ext = (w, case an_Client an w of Some e \<Rightarrow> Inl e | None \<Rightarrow> Inr (recorded_client an))"
  by (simp add: recorded_def)

lemma render_calls:
  assumes "recorded an h"
  obtains (failed) u e where "renderClientOnlyRelease h ext c ls [] = (u, Inl e)" "filter changes u = []"
  | (rendered) u opts where "renderClientOnlyRelease h ext c ls [] = (u @ [HInstall c opts], an_Release an (u @ [HInstall c opts]))"
      "filter changes u = []" "OptClientOnly True \<in> set opts" "OptDryRun True \<in> set opts"
proof (cases "an_Client an []")
  case None
  obtain cur oe where g: "an_Get an [] = (cur, oe)" by (cases "an_Get an []")
  let ?opts = "[OptDryRun True, OptReleaseName (ce_Name ext), OptReplace True, OptClientOnly True, OptIncludeCRDs True,
     OptIsUpgrade (cur \<noteq> None)]"
  show ?thesis
  proof (cases "case oe of Some err \<Rightarrow> \<not> h_isReleaseNotFound h err | None \<Rightarrow> False")
    case True
    then show ?thesis
      using None g by (intro failed [of "[HGet (ce_Name ext)]" "the oe"]) (simp_all add: renderClientOnlyRelease_def recorded_client_for [OF assms])
  next
    case False
    then show ?thesis
      using None g
      by (intro rendered [of "[HGet (ce_Name ext)]" ?opts])
        (simp_all add: renderClientOnlyRelease_def recorded_client_for [OF assms])
  qed
qed (intro failed [of "[]"], simp_all add: renderClientOnlyRelease_def recorded_client_for [OF assms])

lemma preauth_calls:
  assumes r: "recorded an h" and run: "helmRunPreAuthorizationChecks h ext c ls [] = (w, oe)"
  shows "filter changes w = [] \<and> (oe = None \<longrightarrow> pre_authorized an h ext (w @ rest))"
proof (cases "h_PreAuthorizer h")
  case None
  then show ?thesis using run by (simp add: helmRunPreAuthorizationChecks_def pre_authorized_def)
next
  case (Some pre)
  from r show ?thesis
  proof (cases rule: render_calls [where ext = ext and c = c and ls = ls])
    case (failed u e)
    then show ?thesis using run Some by (auto simp: helmRunPreAuthorizationChecks_def)
  next
    case (rendered u opts)
    show ?thesis
    proof (cases "an_Release an (u @ [HInstall c opts])")
      case (Inr rel)
      then have w: "w = u @ [HInstall c opts]"
        and oe: "oe = formatPreAuthorizerOutput (pre (getUserInfo ext) (hr_Manifest rel) [extManagementPerms ext])"
        using run Some rendered(1) by (simp_all add: helmRunPreAuthorizationChecks_def)
      have "pre_authorized an h ext (w @ rest)" if "oe = None"
        unfolding pre_authorized_def Some option.case
        by (intro exI [of _ u] exI [of _ c] exI [of _ opts] exI [of _ rel] exI [of _ rest])
          (use that rendered Inr w oe in simp)
      then show ?thesis using w rendered by simp
    qed (use run Some rendered in \<open>auto simp: helmRunPreAuthorizationChecks_def\<close>)
  qed
qed

definition state_found ::
  "helm_answers \<Rightarrow> (helm_call list, 'fs) helm_applier \<Rightarrow> helm_call list \<Rightarrow> helm_call list \<Rightarrow> helm_release option \<Rightarrow> helm_release \<Rightarrow> string \<Rightarrow> bool" where
  "state_found an h v w orel desired state \<longleftrightarrow>
     (case snd (an_Get an v) of
        Some err \<Rightarrow> h_isReleaseNotFound h err \<and> state = StateNeedsInstall
      | None \<Rightarrow> (case fst (an_Get an v) of None \<Rightarrow> False | Some cur \<Rightarrow> orel = Some cur \<and> an_Release an w = Inr desired \<and>
          state = (if hr_Manifest desired \<noteq> hr_Manifest cur \<or> hr_Status cur = Some ''failed'' \<or> hr_Status cur = Some ''superseded''
                   then StateNeedsUpgrade else StateUnchanged)))"

lemma getReleaseState_calls:
  assumes "getReleaseState h (recorded_client an) ext chrt ls v = (w, Inr (orel, desired, state))"
  shows "\<exists>dry. w = v @ [HGet (ce_Name ext), dry] \<and> \<not> changes dry \<and>
     state_found an h v w orel desired state"
proof -
  obtain cur oe where g: "an_Get an v = (cur, oe)" by (cases "an_Get an v")
  show ?thesis
  proof (cases oe)
    case (Some err)
    then show ?thesis
      using assms g by (cases cur) (auto simp: getReleaseState_def state_found_def split: if_splits sum.splits)
  next
    case None
    then show ?thesis
      using assms g by (cases cur) (auto simp: getReleaseState_def state_found_def split: if_splits sum.splits option.splits)
  qed
qed

lemma getReleaseState_error:
  assumes "getReleaseState h (recorded_client an) ext chrt ls v = (w, Inl e)"
  shows "\<exists>u. w = v @ u \<and> filter changes u = []"
proof -
  obtain cur oe where g: "an_Get an v = (cur, oe)" by (cases "an_Get an v")
  then show ?thesis
    using assms by (cases oe; cases cur) (auto simp: getReleaseState_def split: if_splits sum.splits option.splits)
qed

lemma perform_release_call:
  assumes "getReleaseState h (recorded_client an) ext chrt ls v = (w, Inr (orel, desired, state))"
  obtains dry c r where "w = v @ [HGet (ce_Name ext), dry]" "\<not> changes dry" "changes c"
    "perform_release (recorded_client an) ext chrt ol sl state orel w = (w @ [c], r)" "decided an h ext chrt sl v dry c"
proof -
  obtain dry where dry: "w = v @ [HGet (ce_Name ext), dry]" "\<not> changes dry"
    and st: "state_found an h v w orel desired state"
    using getReleaseState_calls [OF assms] by blast
  obtain cur oe where g: "an_Get an v = (cur, oe)" by (cases "an_Get an v")
  show ?thesis
  proof (cases oe)
    case (Some err)
    have nf: "h_isReleaseNotFound h err" "state = StateNeedsInstall"
      using st by (simp_all add: state_found_def g Some)
    show ?thesis
      by (rule that [of dry "HInstall chrt [OptCreateNamespace False, OptLabels sl]", OF dry])
        (simp_all add: perform_release_def decided_def g Some nf)
  next
    case None
    obtain rel where rel: "cur = Some rel" using st by (cases cur) (simp_all add: state_found_def g None)
    define up where "up = (hr_Manifest desired \<noteq> hr_Manifest rel \<or> hr_Status rel = Some ''failed'' \<or> hr_Status rel = Some ''superseded'')"
    have o: "orel = Some rel" "an_Release an w = Inr desired" "state = (if up then StateNeedsUpgrade else StateUnchanged)"
      using st unfolding state_found_def g None rel fst_conv snd_conv option.case up_def by blast+
    let ?c = "if up then HUpgrade chrt [OptMaxHistory maxHelmReleaseHistory, OptLabels sl] else HReconcile (Some rel)"
    have d: "decided an h ext chrt sl v dry ?c"
      unfolding decided_def g None rel fst_conv snd_conv option.case
      by (rule exI [of _ desired]) (use o(2) in \<open>simp only: dry(1) up_def simp_thms\<close>)
    have ch: "changes ?c" by simp
    have f: "fst (perform_release (recorded_client an) ext chrt ol sl state orel w) = w @ [?c]"
      by (cases up) (simp_all add: perform_release_def o split: option.split)
    show ?thesis
      by (rule that [OF dry ch _ d]) (rule prod_eqI, simp_all only: f fst_conv snd_conv)
  qed
qed

lemma apply_release_calls:
  assumes r: "recorded an h" and run: "apply_release h ext chrt ol sl v = (calls, ok, msg, oe)"
  shows "(\<exists>u. calls = v @ u \<and> filter changes u = [] \<and> \<not> ok \<and> oe \<noteq> None)
     \<or> (\<exists>dry c. calls = v @ [HGet (ce_Name ext), dry, c] \<and> \<not> changes dry \<and> changes c \<and> decided an h ext chrt sl v dry c)"
proof (cases "an_Client an v")
  case None
  note cl = recorded_client_for [OF r, of v ext] None
  obtain w g where s: "getReleaseState h (recorded_client an) ext chrt ol v = (w, g)"
    by (cases "getReleaseState h (recorded_client an) ext chrt ol v")
  show ?thesis
  proof (cases g)
    case (Inl e)
    then show ?thesis
      using getReleaseState_error [of h an ext chrt ol v w e] run s cl by (auto simp: apply_release_def)
  next
    case (Inr t)
    obtain orel desired state where t: "t = (orel, desired, state)" by (cases t)
    from s obtain dry c q where p: "w = v @ [HGet (ce_Name ext), dry]" "\<not> changes dry" "changes c"
      "perform_release (recorded_client an) ext chrt ol sl state orel w = (w @ [c], q)" "decided an h ext chrt sl v dry c"
      unfolding Inr t by (rule perform_release_call)
    show ?thesis
    proof (cases "GetObjectsFromRelease h (Some desired)")
      case (Inl e)
      then show ?thesis using run s Inr t cl p by (auto simp: apply_release_def)
    next
      case objs: (Inr objs)
      have "fst (run_preflights (h_Preflights h) ext state objs w) = w"
        using r by (intro run_preflights_quiet) (simp add: recorded_def)
      then obtain pe where pf: "run_preflights (h_Preflights h) ext state objs w = (w, pe)"
        by (metis prod.collapse)
      show ?thesis
      proof (cases pe)
        case (Some e)
        then show ?thesis using run s Inr t cl p objs pf by (auto simp: apply_release_def)
      next
        case None
        have "calls = w @ [c]"
        proof (cases q)
          case (Inr rel)
          then have "watch_release h ext rel (w @ [c]) = (calls, ok, msg, oe)"
            using run s \<open>g = Inr t\<close> t cl p(4) objs pf None by (simp add: apply_release_def)
          then show ?thesis using watch_release_quiet [OF r, of ext rel "w @ [c]"] by simp
        qed (use run s Inr t cl p(4) objs pf None in \<open>simp add: apply_release_def\<close>)
        then show ?thesis using p by auto
      qed
    qed
  qed
next
  case (Some e)
  then have "(calls, ok, msg, oe) = (v, False, [], Some e)"
    using run by (simp add: apply_release_def recorded_client_for [OF r])
  then show ?thesis by simp
qed


definition ex_helm_answers :: helm_answers where
  "ex_helm_answers =
     \<lparr>an_Client = (\<lambda>_. None), an_Get = (\<lambda>_. (None, Some (ErrText ''release: not found''))),
      an_Release = (\<lambda>_. Inr \<lparr>hr_Name = ''ext'', hr_Version = 1, hr_Status = Some ''deployed'', hr_Labels = [], hr_Manifest = ''m''\<rparr>),
      an_Reconcile = (\<lambda>_. None)\<rparr>"

definition ex_helm :: "(helm_call list, unit) helm_applier" where
  "ex_helm =
     \<lparr>h_ActionClientFor = (\<lambda>w ext. (w, case an_Client ex_helm_answers w of Some e \<Rightarrow> Inl e | None \<Rightarrow> Inr (recorded_client ex_helm_answers))),
      h_isReleaseNotFound = (\<lambda>e. e = ErrText ''release: not found''), h_Preflights = [],
      h_PreAuthorizer = Some (\<lambda>user manifest perms. ([], None)),
      h_ChartProvider = Some (\<lambda>fs ext. Inr \<lparr>ch_Metadata = None, ch_Templates = []\<rparr>), h_HelmChartSupport = False,
      h_FS = \<lparr>fs_ReadDir = (\<lambda>_. []), fs_ReadFile = (\<lambda>_ _. Inl (ErrText ''none'')), LoadArchive = (\<lambda>_. Inr None)\<rparr>,
      h_Stream = (\<lambda>r n. \<lparr>sr_Err = None, sr_Infos = Inr []\<rparr>),
      h_ManagerGet = Some (\<lambda>w ext. (w, Inr (\<lambda>w objs. (w, None)))), h_hasWatcher = True\<rparr>"

lemma ex_helm_recorded: "recorded ex_helm_answers ex_helm"
  by (auto simp: recorded_def ex_helm_def quiet_preflights_def)


end
