(* ===== verification/CatalogIndex.thy ===== *)
theory CatalogIndex
  imports Prelude
begin

text \<open>
  The index over a stored catalog (\<^verbatim>\<open>catalogd/storage/index.go\<close>): the byte sections of the catalog's
  blobs by schema, package and name, and the lookup that intersects them and reads the
  sections in file order.  Sets are duplicate-free lists; the order in which a set is listed and the
  unstable sort are arguments.
\<close>

section \<open>Sections and index\<close>

record meta =
  mt_Schema :: string
  mt_Package :: string
  mt_Name :: string
  mt_Blob :: string

record fbc_section =
  sn_offset :: int
  sn_length :: int

record index =
  BySchema :: "(string \<times> fbc_section list) list"
  ByPackage :: "(string \<times> fbc_section list) list"
  ByName :: "(string \<times> fbc_section list) list"

definition map_get :: "(string \<times> 'v list) list \<Rightarrow> string \<Rightarrow> 'v list" where
  "map_get m k = (case map_of m k of Some vs \<Rightarrow> vs | None \<Rightarrow> [])"

definition add_section :: "string \<Rightarrow> fbc_section \<Rightarrow> (string \<times> fbc_section list) list \<Rightarrow> (string \<times> fbc_section list) list" where
  "add_section k s m = (if k \<noteq> [] then map_append k [s] m else m)"

fun index_loop :: "meta list \<Rightarrow> int \<Rightarrow> index \<Rightarrow> index" where
  "index_loop [] offset idx = idx"
| "index_loop (m # metas) offset idx =
     (let len = int (length (mt_Blob m));
          s = \<lparr>sn_offset = offset, sn_length = len\<rparr>
      in index_loop metas (offset + len)
           \<lparr>BySchema = add_section (mt_Schema m) s (BySchema idx),
            ByPackage = add_section (mt_Package m) s (ByPackage idx),
            ByName = add_section (mt_Name m) s (ByName idx)\<rparr>)"

definition newIndex :: "meta list \<Rightarrow> index" where
  "newIndex metas = index_loop metas 0 \<lparr>BySchema = [], ByPackage = [], ByName = []\<rparr>"

section \<open>Lookup\<close>

definition Intersection :: "fbc_section list \<Rightarrow> fbc_section list \<Rightarrow> fbc_section list" where
  "Intersection xs ys = filter (\<lambda>x. x \<in> set ys) xs"

definition getSectionSet :: "index \<Rightarrow> string \<Rightarrow> string \<Rightarrow> string \<Rightarrow> fbc_section list" where
  "getSectionSet i schema packageName name =
     (let s0 = (if schema = [] then remdups (concat (map snd (BySchema i))) else remdups (map_get (BySchema i) schema));
          s1 = (if packageName \<noteq> [] then Intersection s0 (remdups (map_get (ByPackage i) packageName)) else s0);
          s2 = (if name \<noteq> [] then Intersection s1 (remdups (map_get (ByName i) name)) else s1)
      in s2)"

definition compare_offset :: "fbc_section cmp" where
  "compare_offset a b = cmp_ord (sn_offset a) (sn_offset b)"

definition read_section :: "string \<Rightarrow> fbc_section \<Rightarrow> string" where
  "read_section r s = take (nat (sn_length s)) (drop (nat (sn_offset s)) r)"

definition index_Get ::
  "(fbc_section list \<Rightarrow> fbc_section list) \<Rightarrow> (fbc_section cmp \<Rightarrow> fbc_section list \<Rightarrow> fbc_section list) \<Rightarrow> index \<Rightarrow> string
   \<Rightarrow> string \<Rightarrow> string \<Rightarrow> string \<Rightarrow> string" where
  "index_Get UnsortedList SortFunc i r schema packageName name =
     concat (map (read_section r) (SortFunc compare_offset (UnsortedList (getSectionSet i schema packageName name))))"

section \<open>Reference lookup\<close>

text \<open>A query selects the blobs of the metas that match every given field; without a schema it selects the metas that have one.\<close>

definition wanted :: "string \<Rightarrow> string \<Rightarrow> string \<Rightarrow> meta \<Rightarrow> bool" where
  "wanted schema packageName name m \<longleftrightarrow>
     (if schema = [] then mt_Schema m \<noteq> [] else mt_Schema m = schema)
     \<and> (packageName \<noteq> [] \<longrightarrow> mt_Package m = packageName) \<and> (name \<noteq> [] \<longrightarrow> mt_Name m = name)"

definition catalog_data :: "meta list \<Rightarrow> string" where
  "catalog_data metas = concat (map mt_Blob metas)"

fun placed :: "int \<Rightarrow> meta list \<Rightarrow> (meta \<times> fbc_section) list" where
  "placed offset [] = []"
| "placed offset (m # metas) =
     (m, \<lparr>sn_offset = offset, sn_length = int (length (mt_Blob m))\<rparr>) # placed (offset + int (length (mt_Blob m))) metas"

section \<open>Lemmas\<close>

lemma map_get_append: "map_get (map_append k vs m) l = (if l = k then map_get m k @ vs else map_get m l)"
  by (induction k vs m rule: map_append.induct) (auto simp: map_get_def)

lemma map_get_Nil [simp]: "map_get [] k = []"
  by (simp add: map_get_def)

lemma all_append: "set (concat (map snd (map_append k vs m))) = set (concat (map snd m)) \<union> set vs"
  by (induction k vs m rule: map_append.induct) auto

lemma index_loop_get:
  assumes "k \<noteq> []"
  shows "map_get (BySchema (index_loop ms off idx)) k = map_get (BySchema idx) k @ map snd (filter (\<lambda>p. mt_Schema (fst p) = k) (placed off ms))"
    "map_get (ByPackage (index_loop ms off idx)) k = map_get (ByPackage idx) k @ map snd (filter (\<lambda>p. mt_Package (fst p) = k) (placed off ms))"
    "map_get (ByName (index_loop ms off idx)) k = map_get (ByName idx) k @ map snd (filter (\<lambda>p. mt_Name (fst p) = k) (placed off ms))"
  using assms by (induction ms off idx rule: index_loop.induct) (simp_all add: Let_def add_section_def map_get_append)

lemma index_loop_all:
  "set (concat (map snd (BySchema (index_loop ms off idx)))) =
     set (concat (map snd (BySchema idx))) \<union> set (map snd (filter (\<lambda>p. mt_Schema (fst p) \<noteq> []) (placed off ms)))"
proof (induction ms off idx rule: index_loop.induct)
  case (2 m metas offset idx)
  show ?case
    unfolding index_loop.simps Let_def 2 [OF refl refl] by (simp add: add_section_def all_append Un_ac del: set_concat)
qed simp

lemma placed_offset: "p \<in> set (placed off ms) \<Longrightarrow> off \<le> sn_offset (snd p)"
  by (induction off ms rule: placed.induct) force+

lemma placed_sorted:
  "\<forall>m \<in> set ms. mt_Blob m \<noteq> [] \<Longrightarrow> sorted_wrt (\<lambda>p q. sn_offset (snd p) < sn_offset (snd q)) (placed off ms)"
proof (induction off ms rule: placed.induct)
  case (2 off m ms)
  have "off < sn_offset (snd p)" if "p \<in> set (placed (off + int (length (mt_Blob m))) ms)" for p
  proof -
    have "0 < length (mt_Blob m)" using 2(2) by simp
    then show ?thesis using placed_offset [OF that] by linarith
  qed
  then show ?case using 2 by auto
qed simp

lemma placed_inj:
  assumes "\<forall>m \<in> set ms. mt_Blob m \<noteq> []" "p \<in> set (placed off ms)" "q \<in> set (placed off ms)" "snd p = snd q"
  shows "p = q"
  using placed_sorted [OF assms(1), of off] assms(2-4)
  by (metis (no_types, lifting) in_set_conv_nth less_irrefl linorder_neqE_nat sorted_wrt_nth_less)

lemma filter_section:
  assumes "\<forall>m \<in> set ms. mt_Blob m \<noteq> []" "p \<in> set (placed off ms)"
  shows "snd p \<in> set (map snd (filter Q (placed off ms))) \<longleftrightarrow> Q p"
  using placed_inj [OF assms(1,2)] assms(2) by auto

lemma getSectionSet_sections:
  assumes ne: "\<forall>m \<in> set ms. mt_Blob m \<noteq> []"
  shows "set (getSectionSet (newIndex ms) schema pkg name) = set (map snd (filter (wanted schema pkg name \<circ> fst) (placed 0 ms)))"
proof -
  let ?pl = "placed 0 ms" and ?i = "newIndex ms"
  let ?has = "\<lambda>P. set (map snd (filter P ?pl))"
  have get: "set (map_get (BySchema ?i) k) = ?has (\<lambda>p. mt_Schema (fst p) = k)"
    "set (map_get (ByPackage ?i) k) = ?has (\<lambda>p. mt_Package (fst p) = k)"
    "set (map_get (ByName ?i) k) = ?has (\<lambda>p. mt_Name (fst p) = k)" if "k \<noteq> []" for k
    using that by (simp_all add: newIndex_def index_loop_get)
  have all: "set (concat (map snd (BySchema ?i))) = ?has (\<lambda>p. mt_Schema (fst p) \<noteq> [])"
    by (simp add: newIndex_def index_loop_all del: set_concat)
  have int: "{s \<in> ?has P. s \<in> ?has Q} = ?has (\<lambda>p. P p \<and> Q p)" for P Q
    using filter_section [OF ne, of _ 0 Q] by auto
  define A where "A = (\<lambda>p :: meta \<times> fbc_section. if schema = [] then mt_Schema (fst p) \<noteq> [] else mt_Schema (fst p) = schema)"
  have s0: "set (if schema = [] then remdups (concat (map snd (BySchema ?i))) else remdups (map_get (BySchema ?i) schema)) = ?has A"
    by (cases "schema = []") (simp_all only: A_def simp_thms if_True if_False set_remdups all get not_False_eq_True)
  define B where "B = (\<lambda>p :: meta \<times> fbc_section. pkg \<noteq> [] \<longrightarrow> mt_Package (fst p) = pkg)"
  define C where "C = (\<lambda>p :: meta \<times> fbc_section. name \<noteq> [] \<longrightarrow> mt_Name (fst p) = name)"
  have s1: "set (if pkg \<noteq> [] then Intersection xs (remdups (map_get (ByPackage ?i) pkg)) else xs) = ?has (\<lambda>p. P p \<and> B p)"
    if "set xs = ?has P" for xs P
    using int [of P "\<lambda>p. mt_Package (fst p) = pkg"] get(2) [of pkg] that
    by (cases "pkg = []") (simp_all add: Intersection_def B_def del: set_map)
  have s2: "set (if name \<noteq> [] then Intersection xs (remdups (map_get (ByName ?i) name)) else xs) = ?has (\<lambda>p. P p \<and> C p)"
    if "set xs = ?has P" for xs P
    using int [of P "\<lambda>p. mt_Name (fst p) = name"] get(3) [of name] that
    by (cases "name = []") (simp_all add: Intersection_def C_def del: set_map)
  have "wanted schema pkg name \<circ> fst = (\<lambda>p. (A p \<and> B p) \<and> C p)"
    by (auto simp: wanted_def A_def B_def C_def fun_eq_iff)
  then show ?thesis
    unfolding getSectionSet_def Let_def using s2 [OF s1 [OF s0]] by simp
qed

lemma compare_offset_preorder: "cmp_preorder compare_offset"
  unfolding compare_offset_def [abs_def] by (rule cmp_preorder_comap [OF cmp_ord_preorder])

lemma sections_in_order:
  assumes srt: "go_sorter SortFunc" and ne: "\<forall>m \<in> set ms. mt_Blob m \<noteq> []"
    and d: "distinct xs" "set xs = set (map snd (filter Q (placed 0 ms)))"
  shows "SortFunc compare_offset xs = map snd (filter Q (placed 0 ms))"
proof -
  let ?ys = "map snd (filter Q (placed 0 ms))" and ?c = "\<lambda>a b. compare_offset a b \<le> 0"
  have strict: "sorted_wrt (\<lambda>a b. sn_offset a < sn_offset b) ?ys"
    using sorted_wrt_filter [OF placed_sorted [OF ne]] by (simp add: sorted_wrt_map)
  have "sorted_wrt (<) (map sn_offset ?ys)" using strict by (simp only: sorted_wrt_map)
  then have dist: "distinct (map sn_offset ?ys)" "sorted (map sn_offset ?ys)"
    by (simp_all only: strict_sorted_iff)
  have "mset xs = mset ?ys"
    using d dist(1) by (metis distinct_map set_eq_iff_mset_eq_distinct)
  then have m: "mset (SortFunc compare_offset xs) = mset ?ys"
    using go_sorter.perm [OF srt] by simp
  have "sorted (map sn_offset (SortFunc compare_offset xs))"
    using go_sorter.sorted [OF srt compare_offset_preorder, of xs] by (simp add: sorted_wrt_map compare_offset_def cmp_ord_le)
  moreover have "mset (map sn_offset (SortFunc compare_offset xs)) = mset (map sn_offset ?ys)"
    using m by (metis mset_map)
  ultimately have "map sn_offset (SortFunc compare_offset xs) = map sn_offset ?ys"
    using dist(2) by (metis properties_for_sort sorted_sort_id)
  moreover have "inj_on sn_offset (set ?ys)" using dist(1) by (simp only: distinct_map [of sn_offset])
  moreover have "set (SortFunc compare_offset xs) = set ?ys" using m by (metis set_mset_mset)
  ultimately show ?thesis by (metis inj_on_map_eq_map sup.idem)
qed

lemma read_placed:
  "p \<in> set (placed (int (length pre)) ms) \<Longrightarrow> read_section (pre @ catalog_data ms) (snd p) = mt_Blob (fst p)"
proof (induction ms arbitrary: pre)
  case (Cons m ms)
  show ?case
  proof (cases "p = (m, \<lparr>sn_offset = int (length pre), sn_length = int (length (mt_Blob m))\<rparr>)")
    case True
    then show ?thesis by (simp add: read_section_def catalog_data_def)
  next
    case False
    then show ?thesis
      using Cons.IH [of "pre @ mt_Blob m"] Cons.prems by (simp add: catalog_data_def)
  qed
qed simp

lemma placed_fst [simp]: "map fst (placed off ms) = ms"
  by (induction off ms rule: placed.induct) auto

lemma index_lookup:
  assumes "go_sorter SortFunc" "\<And>xs. mset (UnsortedList xs) = mset xs" "\<forall>m \<in> set ms. mt_Blob m \<noteq> []"
  shows "index_Get UnsortedList SortFunc (newIndex ms) (catalog_data ms) schema pkg name
    = catalog_data (filter (wanted schema pkg name) ms)"
proof -
  let ?S = "getSectionSet (newIndex ms) schema pkg name" and ?w = "wanted schema pkg name \<circ> fst"
  have "distinct ?S" by (simp add: getSectionSet_def Let_def Intersection_def)
  then have "distinct (UnsortedList ?S)" "set (UnsortedList ?S) = set ?S"
    using assms(2) [of ?S] by (metis mset_eq_imp_distinct_iff, metis set_mset_mset)
  then have sorted: "SortFunc compare_offset (UnsortedList ?S) = map snd (filter ?w (placed 0 ms))"
    by (intro sections_in_order [OF assms(1,3)]) (simp_all only: getSectionSet_sections [OF assms(3)])
  have "map (read_section (catalog_data ms)) (map snd (filter ?w (placed 0 ms))) = map mt_Blob (map fst (filter ?w (placed 0 ms)))"
    using read_placed [of _ "[]" ms] by simp
  also have "map fst (filter ?w (placed 0 ms)) = filter (wanted schema pkg name) ms"
    by (metis filter_map placed_fst)
  finally show ?thesis by (simp only: index_Get_def sorted catalog_data_def)
qed

section \<open>Properties\<close>


definition ex_metas :: "meta list" where
  "ex_metas = [\<lparr>mt_Schema = ''olm.package'', mt_Package = [], mt_Name = ''p'', mt_Blob = ''aa''\<rparr>,
     \<lparr>mt_Schema = ''olm.bundle'', mt_Package = ''p'', mt_Name = ''p.v1'', mt_Blob = ''b''\<rparr>,
     \<lparr>mt_Schema = ''olm.bundle'', mt_Package = ''p'', mt_Name = ''p.v2'', mt_Blob = ''ccc''\<rparr>]"


end
