(* ===== verification/HttpPreconditions.thy ===== *)
theory HttpPreconditions
  imports Prelude
begin

text \<open>
  Conditional requests of the catalog server (\<^verbatim>\<open>catalogd/storage/http_preconditions_check.go\<close>) over a model of
  the response writer: headers, the status and headers that have been sent, and the body.  Times are
  nanoseconds since the Unix epoch; \<^verbatim>\<open>time.Parse\<close> is an argument.
\<close>

section \<open>Requests and responses\<close>

type_synonym http_header = "(string \<times> string list) list"

record request =
  rq_Method :: string
  rq_Header :: http_header
  rq_Query :: http_header
  rq_Catalog :: string

record response =
  rw_Header :: http_header
  rw_Sent :: "(nat \<times> http_header) option"
  rw_Body :: string

definition header_Get :: "http_header \<Rightarrow> string \<Rightarrow> string" where
  "header_Get h k = (case map_of h k of Some (v # _) \<Rightarrow> v | _ \<Rightarrow> [])"

definition header_Set :: "string \<Rightarrow> string \<Rightarrow> response \<Rightarrow> response" where
  "header_Set k v w = w\<lparr>rw_Header := map_put k [v] (rw_Header w)\<rparr>"

definition header_Add :: "string \<Rightarrow> string \<Rightarrow> response \<Rightarrow> response" where
  "header_Add k v w = w\<lparr>rw_Header := map_append k [v] (rw_Header w)\<rparr>"

definition header_Del :: "string \<Rightarrow> response \<Rightarrow> response" where
  "header_Del k w = w\<lparr>rw_Header := filter (\<lambda>p. fst p \<noteq> k) (rw_Header w)\<rparr>"

definition WriteHeader :: "nat \<Rightarrow> response \<Rightarrow> response" where
  "WriteHeader code w = (if rw_Sent w = None then w\<lparr>rw_Sent := Some (code, rw_Header w)\<rparr> else w)"

definition Write :: "string \<Rightarrow> response \<Rightarrow> response" where
  "Write b w = (let w' = WriteHeader 200 w in w'\<lparr>rw_Body := rw_Body w' @ b\<rparr>)"

definition http_Error :: "string \<Rightarrow> nat \<Rightarrow> response \<Rightarrow> response" where
  "http_Error msg code w =
     Write (msg @ newline) (WriteHeader code
       (header_Set ''X-Content-Type-Options'' ''nosniff''
         (header_Set ''Content-Type'' ''text/plain; charset=utf-8'' (header_Del ''Content-Length'' w))))"

definition StatusText :: "nat \<Rightarrow> string" where
  "StatusText code =
     (if code = 404 then ''Not Found'' else if code = 403 then ''Forbidden'' else if code = 400 then ''Bad Request''
      else if code = 405 then ''Method Not Allowed'' else if code = 500 then ''Internal Server Error'' else [])"

text \<open>The sentinel errors of \<^verbatim>\<open>io/fs\<close> and \<^verbatim>\<open>errInvalidParams\<close>.\<close>

definition ErrNotExist :: goerr where "ErrNotExist = ErrStatus ''fs.ErrNotExist'' ''file does not exist''"
definition ErrPermission :: goerr where "ErrPermission = ErrStatus ''fs.ErrPermission'' ''permission denied''"
definition errInvalidParams :: goerr where "errInvalidParams = ErrStatus ''errInvalidParams'' ''invalid parameters''"

definition http_code :: "goerr \<Rightarrow> nat" where
  "http_code err =
     (if as_status err = Some ''fs.ErrNotExist'' then 404
      else if as_status err = Some ''fs.ErrPermission'' then 403
      else if as_status err = Some ''errInvalidParams'' then 400
      else 500)"

definition httpError :: "goerr \<Rightarrow> response \<Rightarrow> response" where
  "httpError err w = (let code = http_code err in http_Error (show_nat code @ '' '' @ StatusText code) code w)"

section \<open>Entity tags\<close>

datatype condResult = condNone | condTrue | condFalse

definition ascii_space :: "char \<Rightarrow> bool" where
  "ascii_space c = (c = CHR 0x20 \<or> c = CHR 0x09 \<or> c = CHR 0x0A \<or> c = CHR 0x0D)"

definition TrimString :: "string \<Rightarrow> string" where
  "TrimString s = rev (dropWhile ascii_space (rev (dropWhile ascii_space s)))"

definition etag_char :: "char \<Rightarrow> bool" where
  "etag_char c = (let n = (of_char c :: nat) in n = 0x21 \<or> 0x23 \<le> n \<and> n \<le> 0x7E \<or> 0x80 \<le> n)"

fun scan_quoted :: "string \<Rightarrow> (string \<times> string) option" where
  "scan_quoted [] = None"
| "scan_quoted (c # cs) =
     (if etag_char c then map_option (\<lambda>(e, r). (c # e, r)) (scan_quoted cs)
      else if c = CHR 0x22 then Some ([c], cs) else None)"

definition scanETag :: "string \<Rightarrow> string \<times> string" where
  "scanETag s0 =
     (let s = TrimString s0;
          start = (if has_prefix s ''W/'' then 2 else 0);
          body = drop start s
      in if length body < 2 \<or> body ! 0 \<noteq> CHR 0x22 then ([], [])
         else case scan_quoted (drop 1 body) of
                Some (e, r) \<Rightarrow> (take (start + 1) s @ e, r)
              | None \<Rightarrow> ([], []))"

lemma length_TrimString: "length (TrimString s) \<le> length s"
  by (metis TrimString_def length_dropWhile_le length_rev le_trans)

lemma scan_quoted_length: "scan_quoted s = Some (e, r) \<Longrightarrow> length r < length s"
proof (induction s arbitrary: e r)
  case (Cons c s)
  show ?case
  proof (cases "etag_char c")
    case True
    then obtain e' where "scan_quoted s = Some (e', r)" using Cons.prems by auto
    from Cons.IH [OF this] show ?thesis by simp
  qed (use Cons.prems in \<open>simp split: if_splits\<close>)
qed simp

lemma scanETag_length: "fst (scanETag s) \<noteq> [] \<Longrightarrow> length (snd (scanETag s)) < length s"
proof -
  assume ne: "fst (scanETag s) \<noteq> []"
  let ?s = "TrimString s" and ?b = "drop (if has_prefix (TrimString s) ''W/'' then 2 else 0) (TrimString s)"
  obtain e r where q: "scan_quoted (drop 1 ?b) = Some (e, r)" "snd (scanETag s) = r"
    using ne by (auto simp: scanETag_def Let_def split: if_splits option.splits)
  have "length r < length (drop 1 ?b)" by (rule scan_quoted_length [OF q(1)])
  then show ?thesis using q(2) length_TrimString [of s] by (simp split: if_splits)
qed

text \<open>The loop shared by both tag headers: whether a star is reached before the end or a malformed tag.\<close>

function etag_loop :: "string \<Rightarrow> bool" where
  "etag_loop s =
     (case TrimString s of
        [] \<Rightarrow> False
      | c # cs \<Rightarrow>
          if c = CHR 0x2C then etag_loop cs
          else if c = CHR 0x2A then True
          else if fst (scanETag (c # cs)) = [] then False
          else etag_loop (snd (scanETag (c # cs))))"
  by pat_completeness auto
termination
proof (relation "measure length")
  fix s c cs
  assume "TrimString s = c # cs"
  then have l: "length (c # cs) \<le> length s" by (metis length_TrimString)
  then show "(cs, s) \<in> measure length" by simp
  assume "fst (scanETag (c # cs)) \<noteq> []"
  from scanETag_length [OF this] l show "(snd (scanETag (c # cs)), s) \<in> measure length" by simp
qed simp

declare etag_loop.simps [simp del]

definition checkIfMatch :: "request \<Rightarrow> condResult" where
  "checkIfMatch r =
     (let im = header_Get (rq_Header r) ''If-Match''
      in if im = [] then condNone else if etag_loop im then condTrue else condFalse)"

definition checkIfNoneMatch :: "request \<Rightarrow> condResult" where
  "checkIfNoneMatch r =
     (let inm = header_Get (rq_Header r) ''If-None-Match''
      in if inm = [] then condNone else if etag_loop inm then condFalse else condTrue)"

section \<open>Dates\<close>

abbreviation zeroTime :: time where "zeroTime \<equiv> - 62135596800 * second"

definition timeFormats :: "string list" where
  "timeFormats = [''Mon, 02 Jan 2006 15:04:05 GMT'', ''Monday, 02-Jan-06 15:04:05 MST'', ''Mon Jan _2 15:04:05 2006'']"

definition isZeroTime :: "time \<Rightarrow> bool" where
  "isZeroTime t = (t = zeroTime \<or> t = 0)"

definition truncate_second :: "time \<Rightarrow> time" where
  "truncate_second t = t - t mod second"

fun parse_loop :: "(string \<Rightarrow> string \<Rightarrow> time res) \<Rightarrow> string list \<Rightarrow> string \<Rightarrow> time res \<Rightarrow> time res" where
  "parse_loop Parse [] text r = r"
| "parse_loop Parse (layout # layouts) text r =
     (case Parse layout text of Inr t \<Rightarrow> Inr t | Inl err \<Rightarrow> parse_loop Parse layouts text (Inl err))"

definition parseTime :: "(string \<Rightarrow> string \<Rightarrow> time res) \<Rightarrow> string \<Rightarrow> time res" where
  "parseTime Parse text = parse_loop Parse timeFormats text (Inr zeroTime)"

definition checkIfModifiedSince ::
  "(string \<Rightarrow> string \<Rightarrow> time res) \<Rightarrow> request \<Rightarrow> response \<Rightarrow> time \<Rightarrow> response \<times> condResult" where
  "checkIfModifiedSince Parse r w modtime =
     (let ims = header_Get (rq_Header r) ''If-Modified-Since''
      in if ims = [] \<or> isZeroTime modtime then (w, condTrue)
         else case parseTime Parse ims of
                Inl err \<Rightarrow> (httpError err w, condNone)
              | Inr t \<Rightarrow> (w, if cmp_ord (truncate_second modtime) t \<le> 0 then condFalse else condTrue))"

definition checkIfUnmodifiedSince :: "(string \<Rightarrow> string \<Rightarrow> time res) \<Rightarrow> request \<Rightarrow> time \<Rightarrow> condResult" where
  "checkIfUnmodifiedSince Parse r modtime =
     (let ius = header_Get (rq_Header r) ''If-Unmodified-Since''
      in if ius = [] \<or> isZeroTime modtime then condNone
         else case parseTime Parse ius of
                Inl err \<Rightarrow> condNone
              | Inr t \<Rightarrow> if cmp_ord (truncate_second modtime) t \<le> 0 then condTrue else condFalse)"

section \<open>All preconditions\<close>

definition writeNotModified :: "response \<Rightarrow> response" where
  "writeNotModified w0 =
     (let w1 = header_Del ''Content-Encoding'' (header_Del ''Content-Length'' (header_Del ''Content-Type'' w0));
          w2 = (if header_Get (rw_Header w1) ''Etag'' \<noteq> [] then header_Del ''Last-Modified'' w1 else w1)
      in WriteHeader 304 w2)"

definition checkPreconditions ::
  "(string \<Rightarrow> string \<Rightarrow> time res) \<Rightarrow> request \<Rightarrow> response \<Rightarrow> time \<Rightarrow> response \<times> bool" where
  "checkPreconditions Parse r w modtime =
     (let ch0 = checkIfMatch r;
          ch = (if ch0 = condNone then checkIfUnmodifiedSince Parse r modtime else ch0)
      in if ch = condFalse then (WriteHeader 412 w, True)
         else case checkIfNoneMatch r of
                condFalse \<Rightarrow>
                  if rq_Method r = ''GET'' \<or> rq_Method r = ''HEAD'' then (writeNotModified w, True)
                  else (WriteHeader 412 w, True)
              | condNone \<Rightarrow>
                  (case checkIfModifiedSince Parse r w modtime of (w', c) \<Rightarrow>
                     if c = condFalse then (writeNotModified w', True) else (w', False))
              | condTrue \<Rightarrow> (w, False))"

section \<open>Lemmas\<close>

lemma sent_sel [simp]:
  "rw_Sent (header_Set k v w) = rw_Sent w" "rw_Sent (header_Add k v w) = rw_Sent w" "rw_Sent (header_Del k w) = rw_Sent w"
  "rw_Body (header_Set k v w) = rw_Body w" "rw_Body (header_Add k v w) = rw_Body w" "rw_Body (header_Del k w) = rw_Body w"
  "rw_Body (WriteHeader code w) = rw_Body w" "rw_Body (Write b w) = rw_Body w @ b"
  by (simp_all add: header_Set_def header_Add_def header_Del_def WriteHeader_def Write_def Let_def)

definition status :: "response \<Rightarrow> nat option" where
  "status w = map_option fst (rw_Sent w)"

lemma status_simps [simp]:
  "status (header_Set k v w) = status w" "status (header_Add k v w) = status w" "status (header_Del k w) = status w"
  "status (WriteHeader code w) = (case status w of None \<Rightarrow> Some code | Some c \<Rightarrow> Some c)"
  "status (Write b w) = (case status w of None \<Rightarrow> Some 200 | Some c \<Rightarrow> Some c)"
  by (auto simp: status_def WriteHeader_def Write_def Let_def header_Set_def header_Add_def header_Del_def split: option.split)

lemma status_writeNotModified [simp]: "status w = None \<Longrightarrow> status (writeNotModified w) = Some 304"
  by (simp add: writeNotModified_def Let_def)

lemma status_httpError [simp]: "status w = None \<Longrightarrow> status (httpError err w) = Some (http_code err)"
  by (simp add: httpError_def http_Error_def Let_def)

section \<open>Properties\<close>

text \<open>
  The precedence of the conditional headers for a GET or HEAD request with well-formed dates: a failing If-Match, or without one a
  failing If-Unmodified-Since, gives 412; otherwise a failing If-None-Match, or without one an If-Modified-Since at or after the
  modification second, gives 304; otherwise nothing has been written and the request goes on.
\<close>

lemma checkPreconditions_precedence:
  assumes "rq_Method r \<in> {''GET'', ''HEAD''}" "status w = None" "\<not> isZeroTime modtime"
    "\<And>h. h \<in> {''If-Modified-Since'', ''If-Unmodified-Since''} \<Longrightarrow> header_Get (rq_Header r) h \<noteq> [] \<Longrightarrow>
       parseTime Parse (header_Get (rq_Header r) h) = Inr (date h)"
  shows "let H = header_Get (rq_Header r);
      failed = (if H ''If-Match'' \<noteq> [] then \<not> etag_loop (H ''If-Match'')
                else H ''If-Unmodified-Since'' \<noteq> [] \<and> date ''If-Unmodified-Since'' < truncate_second modtime);
      fresh = (if H ''If-None-Match'' \<noteq> [] then etag_loop (H ''If-None-Match'')
               else H ''If-Modified-Since'' \<noteq> [] \<and> truncate_second modtime \<le> date ''If-Modified-Since'')
    in checkPreconditions Parse r w modtime = (fst (checkPreconditions Parse r w modtime), failed \<or> fresh)
     \<and> (if failed then status (fst (checkPreconditions Parse r w modtime)) = Some 412
        else if fresh then status (fst (checkPreconditions Parse r w modtime)) = Some 304
        else fst (checkPreconditions Parse r w modtime) = w)"
proof -
  let ?H = "header_Get (rq_Header r)"
  have unmod: "checkIfUnmodifiedSince Parse r modtime =
      (if ?H ''If-Unmodified-Since'' = [] then condNone
       else if truncate_second modtime \<le> date ''If-Unmodified-Since'' then condTrue else condFalse)"
    using assms(3) assms(4) [of "''If-Unmodified-Since''"]
    by (cases "?H ''If-Unmodified-Since'' = []") (simp_all add: checkIfUnmodifiedSince_def Let_def cmp_ord_le)
  have mod: "checkIfModifiedSince Parse r w modtime =
      (w, if ?H ''If-Modified-Since'' \<noteq> [] \<and> truncate_second modtime \<le> date ''If-Modified-Since'' then condFalse else condTrue)"
    using assms(3) assms(4) [of "''If-Modified-Since''"]
    by (cases "?H ''If-Modified-Since'' = []") (simp_all add: checkIfModifiedSince_def Let_def cmp_ord_le)
  have m: "rq_Method r = ''GET'' \<or> rq_Method r = ''HEAD''" using assms(1) by simp
  show ?thesis
    unfolding checkPreconditions_def checkIfMatch_def checkIfNoneMatch_def unmod mod Let_def
    using assms(2) m by (simp add: not_le)
qed

definition ex_response :: response where
  "ex_response = \<lparr>rw_Header = [], rw_Sent = None, rw_Body = []\<rparr>"

definition ex_request :: "http_header \<Rightarrow> request" where
  "ex_request h = \<lparr>rq_Method = ''GET'', rq_Header = h, rq_Query = [], rq_Catalog = ''c''\<rparr>"

definition ex_parse :: "string \<Rightarrow> string \<Rightarrow> time res" where
  "ex_parse layout text = (if text = ''then'' then Inr (5 * second) else Inl (ErrText ''parsing time''))"

lemma ex_parseTime: "parseTime ex_parse text = (if text = ''then'' then Inr (5 * second) else Inl (ErrText ''parsing time''))"
  by (simp add: parseTime_def timeFormats_def ex_parse_def)

lemma checkPreconditions_precedence_witness:
  "status (fst (checkPreconditions ex_parse (ex_request [(''If-Modified-Since'', [''then''])]) ex_response 5000000007)) = Some 304"
proof -
  let ?r = "ex_request [(''If-Modified-Since'', [''then''])]"
  have h: "header_Get (rq_Header ?r) k = (if k = ''If-Modified-Since'' then ''then'' else [])" for k
    by (simp add: ex_request_def header_Get_def)
  have f: "truncate_second 5000000007 = 5000000000" "\<not> isZeroTime 5000000007" "rq_Method ?r = ''GET''" "status ex_response = None"
    by (simp_all add: truncate_second_def isZeroTime_def ex_request_def status_def ex_response_def)
  have m: "rq_Method ?r \<in> {''GET'', ''HEAD''}" by (simp add: f)
  have p: "parseTime ex_parse (header_Get (rq_Header ?r) k) = Inr ((\<lambda>_. 5000000000) k)" if "header_Get (rq_Header ?r) k \<noteq> []" for k
    using that by (simp add: h ex_parseTime split: if_splits)
  show ?thesis
    using checkPreconditions_precedence [OF m f(4,2) p] by (simp add: h f Let_def)
qed

lemma malformed_since:
  assumes "status w = None" "\<not> isZeroTime modtime" "checkIfMatch r = condNone" "checkIfNoneMatch r = condNone"
    "header_Get (rq_Header r) ''If-Unmodified-Since'' = []" "header_Get (rq_Header r) ''If-Modified-Since'' \<noteq> []"
    "parseTime Parse (header_Get (rq_Header r) ''If-Modified-Since'') = Inl err"
  shows "checkPreconditions Parse r w modtime = (httpError err w, False)"
  using assms by (simp add: checkPreconditions_def checkIfUnmodifiedSince_def checkIfModifiedSince_def Let_def)

end
