(* ===== verification/LocalDir.thy ===== *)
theory LocalDir
  imports CatalogIndex HttpPreconditions
begin

text \<open>
  The catalog store of catalogd (\<^verbatim>\<open>catalogd/storage/localdir.go\<close>), its HTTP handlers and the garbage
  collector of the store's directory (\<^verbatim>\<open>catalogd/garbagecollection\<close>).  The root directory is a list of entries; every
  file system call may fail as an argument says, and then changes nothing.  Storing is split into staging and
  swapping, between which the garbage collector, which takes no lock, may run.
\<close>

section \<open>Directory\<close>

datatype dir_file = Regular string time | NotRegular time

datatype node = Dir "(string \<times> dir_file) list" | File

type_synonym dir_root = "(string \<times> node) list"

datatype os_op =
  OpMkdirAll | OpReadDir | OpRemoveAll string | OpMkdirTemp | OpCreate string | OpWrite nat | OpEncode | OpRename | OpStat string

record 'fs localdir =
  ld_EnableMetasHandler :: bool
  ld_Fail :: "os_op \<Rightarrow> goerr option"
  ld_Random :: "nat \<Rightarrow> nat"
  ld_Now :: time
  ld_WalkMetasFS :: "'fs \<Rightarrow> meta list \<times> goerr option"
  ld_WalkCanceled :: bool
  ld_EncodeIndex :: "index \<Rightarrow> string"
  ld_DecodeIndex :: "string \<Rightarrow> index res"
  ld_UnsortedList :: "fbc_section list \<Rightarrow> fbc_section list"
  ld_SortFunc :: "fbc_section cmp \<Rightarrow> fbc_section list \<Rightarrow> fbc_section list"
  ld_Parse :: "string \<Rightarrow> string \<Rightarrow> time res"
  ld_FormatTime :: "time \<Rightarrow> string"
  ld_ServeContent :: "request \<Rightarrow> time \<Rightarrow> string \<Rightarrow> response \<Rightarrow> response"

definition os_RemoveAll :: "'fs localdir \<Rightarrow> string \<Rightarrow> dir_root \<Rightarrow> dir_root \<times> goerr option" where
  "os_RemoveAll ld name root =
     (case ld_Fail ld (OpRemoveAll name) of
        Some err \<Rightarrow> (root, Some err)
      | None \<Rightarrow> (filter (\<lambda>e. fst e \<noteq> name) root, None))"

definition os_Rename :: "'fs localdir \<Rightarrow> string \<Rightarrow> string \<Rightarrow> dir_root \<Rightarrow> dir_root \<times> goerr option" where
  "os_Rename ld old new root =
     (case ld_Fail ld OpRename of
        Some err \<Rightarrow> (root, Some err)
      | None \<Rightarrow>
          (case map_of root old of
             None \<Rightarrow> (root, Some ErrNotExist)
           | Some n \<Rightarrow>
               if map_of root new \<in> {None, Some (Dir [])}
               then (map_put new n (filter (\<lambda>e. fst e \<noteq> old) root), None)
               else (root, Some (ErrText ''file exists''))))"

function find_fresh :: "(nat \<Rightarrow> nat) \<Rightarrow> string \<Rightarrow> dir_root \<Rightarrow> nat \<Rightarrow> string option" where
  "find_fresh rnd prefix root attempt =
     (let name = prefix @ show_nat (rnd attempt)
      in if map_of root name = None then Some name
         else if attempt < 10000 then find_fresh rnd prefix root (attempt + 1) else None)"
  by pat_completeness auto
termination by (relation "measure (\<lambda>(_, _, _, attempt). 10000 - attempt)") auto

declare find_fresh.simps [simp del]

definition os_MkdirTemp :: "'fs localdir \<Rightarrow> string \<Rightarrow> dir_root \<Rightarrow> dir_root \<times> string res" where
  "os_MkdirTemp ld prefix root =
     (case ld_Fail ld OpMkdirTemp of
        Some err \<Rightarrow> (root, Inl err)
      | None \<Rightarrow>
          (case find_fresh (ld_Random ld) prefix root 0 of
             None \<Rightarrow> (root, Inl (ErrText ''file exists''))
           | Some name \<Rightarrow> (map_put name (Dir []) root, Inr name)))"

section \<open>Writers\<close>

fun write_metas :: "(os_op \<Rightarrow> goerr option) \<Rightarrow> nat \<Rightarrow> meta list \<Rightarrow> string \<Rightarrow> string \<times> goerr option" where
  "write_metas fail i [] data = (data, None)"
| "write_metas fail i (m # metas) data =
     (case fail (OpWrite i) of
        Some err \<Rightarrow> (data, Some err)
      | None \<Rightarrow> write_metas fail (Suc i) metas (data @ mt_Blob m))"

definition storeCatalogData :: "'fs localdir \<Rightarrow> meta list \<Rightarrow> (string \<times> dir_file) list \<times> goerr option" where
  "storeCatalogData ld metas =
     (case ld_Fail ld (OpCreate ''catalog.jsonl'') of
        Some err \<Rightarrow> ([], Some err)
      | None \<Rightarrow>
          (case write_metas (ld_Fail ld) 0 metas [] of (data, oerr) \<Rightarrow>
             ([(''catalog.jsonl'', Regular data (ld_Now ld))], oerr)))"

definition storeIndexData :: "'fs localdir \<Rightarrow> meta list \<Rightarrow> (string \<times> dir_file) list \<times> goerr option" where
  "storeIndexData ld metas =
     (let idx = newIndex metas
      in case ld_Fail ld (OpCreate ''index.json'') of
           Some err \<Rightarrow> ([], Some err)
         | None \<Rightarrow>
             (case ld_Fail ld OpEncode of
                Some err \<Rightarrow> ([(''index.json'', Regular [] (ld_Now ld))], Some err)
              | None \<Rightarrow> ([(''index.json'', Regular (ld_EncodeIndex ld idx) (ld_Now ld))], None)))"

text \<open>
  The errgroup: the writers run beside the walk and get the metas it delivers.  The first writer error cancels the walk, which
  then reports the cancellation, unless the walk has already delivered everything.
\<close>

definition store_metas :: "'fs localdir \<Rightarrow> 'fs \<Rightarrow> (string \<times> dir_file) list \<times> goerr option" where
  "store_metas ld fsys =
     (case ld_WalkMetasFS ld fsys of (metas, walkErr) \<Rightarrow>
        (let (f1, e1) = storeCatalogData ld metas;
             (f2, e2) = (if ld_EnableMetasHandler ld then storeIndexData ld metas else ([], None));
             writeErr = (case e1 of Some e \<Rightarrow> Some e | None \<Rightarrow> e2);
             walkErr' = (if writeErr \<noteq> None \<and> ld_WalkCanceled ld then Some (ErrText ''context canceled'') else walkErr)
         in (f1 @ f2, case walkErr' of
                        Some err \<Rightarrow> Some (ErrWrap ''error walking FBC root: '' err)
                      | None \<Rightarrow> writeErr)))"

section \<open>Store, Delete and ContentExists\<close>

definition temp_prefix :: "string \<Rightarrow> string" where
  "temp_prefix catalog = ''.'' @ catalog @ ''-''"

fun remove_entries :: "'fs localdir \<Rightarrow> string \<Rightarrow> string list \<Rightarrow> dir_root \<Rightarrow> dir_root \<times> goerr option" where
  "remove_entries ld prefix [] root = (root, None)"
| "remove_entries ld prefix (name # names) root =
     (if has_prefix name prefix
      then (case os_RemoveAll ld name root of
              (root', Some err) \<Rightarrow> (root', Some (ErrWrap (''error removing orphaned temp directory '' @ quote name @ '': '') err))
            | (root', None) \<Rightarrow> remove_entries ld prefix names root')
      else remove_entries ld prefix names root)"

definition removeOrphanedTempDirs :: "'fs localdir \<Rightarrow> string \<Rightarrow> dir_root \<Rightarrow> dir_root \<times> goerr option" where
  "removeOrphanedTempDirs ld catalog root =
     (case ld_Fail ld OpReadDir of
        Some err \<Rightarrow>
          if as_status err = Some ''fs.ErrNotExist'' then (root, None)
          else (root, Some (ErrWrap ''error reading storage directory: '' err))
      | None \<Rightarrow> remove_entries ld (temp_prefix catalog) (sort (map fst root)) root)"

definition Store_stage :: "'fs localdir \<Rightarrow> string \<Rightarrow> 'fs \<Rightarrow> dir_root \<Rightarrow> dir_root \<times> (string option \<times> goerr option)" where
  "Store_stage ld catalog fsys root =
     (case ld_Fail ld OpMkdirAll of
        Some err \<Rightarrow> (root, None, Some err)
      | None \<Rightarrow>
          (case removeOrphanedTempDirs ld catalog root of
             (root1, Some err) \<Rightarrow> (root1, None, Some (ErrWrap ''error removing orphaned temp directories: '' err))
           | (root1, None) \<Rightarrow>
               (case os_MkdirTemp ld (temp_prefix catalog) root1 of
                  (root2, Inl err) \<Rightarrow> (root2, None, Some err)
                | (root2, Inr tmp) \<Rightarrow>
                    (case store_metas ld fsys of (files, oerr) \<Rightarrow> (map_put tmp (Dir files) root2, Some tmp, oerr)))))"

definition Store_swap :: "'fs localdir \<Rightarrow> string \<Rightarrow> string \<Rightarrow> dir_root \<Rightarrow> dir_root \<times> goerr option" where
  "Store_swap ld catalog tmp root =
     (case os_RemoveAll ld catalog root of (root1, e1) \<Rightarrow>
        (case os_Rename ld tmp catalog root1 of (root2, e2) \<Rightarrow> (root2, join_opts [e1, e2])))"

definition Store :: "'fs localdir \<Rightarrow> dir_root \<Rightarrow> string \<Rightarrow> 'fs \<Rightarrow> dir_root \<times> goerr option" where
  "Store ld root catalog fsys =
     (case Store_stage ld catalog fsys root of
        (root1, None, oerr) \<Rightarrow> (root1, oerr)
      | (root1, Some tmp, Some err) \<Rightarrow> (fst (os_RemoveAll ld tmp root1), Some err)
      | (root1, Some tmp, None) \<Rightarrow>
          (case Store_swap ld catalog tmp root1 of (root2, oerr) \<Rightarrow> (fst (os_RemoveAll ld tmp root2), oerr)))"

definition Delete :: "'fs localdir \<Rightarrow> dir_root \<Rightarrow> string \<Rightarrow> dir_root \<times> goerr option" where
  "Delete ld root catalog = os_RemoveAll ld catalog root"

definition open_file :: "'fs localdir \<Rightarrow> dir_root \<Rightarrow> string \<Rightarrow> string \<Rightarrow> dir_file res" where
  "open_file ld root catalog name =
     (case ld_Fail ld (OpStat name) of
        Some err \<Rightarrow> Inl err
      | None \<Rightarrow>
          (case map_of root catalog of
             Some (Dir files) \<Rightarrow> (case map_of files name of Some f \<Rightarrow> Inr f | None \<Rightarrow> Inl ErrNotExist)
           | _ \<Rightarrow> Inl ErrNotExist))"

definition is_regular :: "dir_file res \<Rightarrow> bool" where
  "is_regular r = (case r of Inr (Regular data t) \<Rightarrow> True | _ \<Rightarrow> False)"

definition ContentExists :: "'fs localdir \<Rightarrow> dir_root \<Rightarrow> string \<Rightarrow> bool" where
  "ContentExists ld root catalog =
     (if \<not> is_regular (open_file ld root catalog ''catalog.jsonl'') then False
      else if ld_EnableMetasHandler ld then is_regular (open_file ld root catalog ''index.json'')
      else True)"

section \<open>HTTP handlers\<close>

definition catalogData :: "'fs localdir \<Rightarrow> dir_root \<Rightarrow> string \<Rightarrow> (string res \<times> time) res" where
  "catalogData ld root catalog =
     (case open_file ld root catalog ''catalog.jsonl'' of
        Inl err \<Rightarrow> Inl err
      | Inr (Regular data t) \<Rightarrow> Inr (Inr data, t)
      | Inr (NotRegular t) \<Rightarrow> Inr (Inl (ErrText ''is a directory''), t))"

definition serveJSONLines :: "request \<Rightarrow> string res \<Rightarrow> response \<Rightarrow> response" where
  "serveJSONLines r rs w0 =
     (let w = header_Add ''Content-Type'' ''application/jsonl'' w0
      in if rq_Method r = ''HEAD'' then w
         else case rs of
                Inl err \<Rightarrow> httpError err w
              | Inr data \<Rightarrow> if data = [] then w else Write data w)"

definition getIndex :: "'fs localdir \<Rightarrow> dir_root \<Rightarrow> string \<Rightarrow> index res" where
  "getIndex ld root catalog =
     (case open_file ld root catalog ''index.json'' of
        Inl err \<Rightarrow> Inl err
      | Inr (NotRegular t) \<Rightarrow> Inl (ErrText ''is a directory'')
      | Inr (Regular data t) \<Rightarrow> ld_DecodeIndex ld data)"

definition handleV1All :: "'fs localdir \<Rightarrow> dir_root \<Rightarrow> request \<Rightarrow> response \<Rightarrow> response" where
  "handleV1All ld root r w =
     (case catalogData ld root (rq_Catalog r) of
        Inl err \<Rightarrow> httpError err w
      | Inr (reader, modtime) \<Rightarrow>
          (let w1 = header_Add ''Content-Type'' ''application/jsonl'' w
           in case reader of
                Inl err \<Rightarrow> httpError err w1
              | Inr data \<Rightarrow> ld_ServeContent ld r modtime data w1))"

definition handleV1Metas :: "'fs localdir \<Rightarrow> dir_root \<Rightarrow> request \<Rightarrow> response \<Rightarrow> response" where
  "handleV1Metas ld root r w =
     (if list_ex (\<lambda>p. fst p \<notin> {''schema'', ''package'', ''name''}) (rq_Query r) then httpError errInvalidParams w
      else case catalogData ld root (rq_Catalog r) of
        Inl err \<Rightarrow> httpError err w
      | Inr (reader, modtime) \<Rightarrow>
          (case checkPreconditions (ld_Parse ld) r (header_Set ''Last-Modified'' (ld_FormatTime ld modtime) w) modtime of
             (w1, True) \<Rightarrow> w1
           | (w1, False) \<Rightarrow>
               (let schema = header_Get (rq_Query r) ''schema'';
                    pkg = header_Get (rq_Query r) ''package'';
                    name = header_Get (rq_Query r) ''name''
                in if schema = [] \<and> pkg = [] \<and> name = [] then serveJSONLines r reader w1
                   else case getIndex ld root (rq_Catalog r) of
                          Inl err \<Rightarrow> httpError err w1
                        | Inr idx \<Rightarrow>
                            serveJSONLines r (map_sum id (\<lambda>data.
                              index_Get (ld_UnsortedList ld) (ld_SortFunc ld) idx data schema pkg name) reader) w1)))"

datatype route = RouteAll | RouteMetas | RouteNone

definition StorageServerHandler :: "'fs localdir \<Rightarrow> dir_root \<Rightarrow> route \<Rightarrow> request \<Rightarrow> response \<Rightarrow> response" where
  "StorageServerHandler ld root rt r w =
     (if rq_Method r \<notin> {''GET'', ''HEAD''} then http_Error (StatusText 405) 405 w
      else case rt of
             RouteAll \<Rightarrow> handleV1All ld root r w
           | RouteMetas \<Rightarrow> if ld_EnableMetasHandler ld then handleV1Metas ld root r w else http_Error ''404 page not found'' 404 w
           | RouteNone \<Rightarrow> http_Error ''404 page not found'' 404 w)"

section \<open>Garbage collection\<close>

fun gc_entries :: "'fs localdir \<Rightarrow> string list \<Rightarrow> (string \<times> node) list \<Rightarrow> string list \<Rightarrow> dir_root \<Rightarrow> dir_root \<times> string list res" where
  "gc_entries ld expected [] removed root = (root, Inr removed)"
| "gc_entries ld expected ((name, n) # es) removed root =
     (if n \<noteq> File \<and> name \<in> set expected then gc_entries ld expected es removed root
      else
        case os_RemoveAll ld name root of
          (root', Some err) \<Rightarrow> (root', Inl (ErrWrap (''error removing cache directory entry '' @ quote name @ '': '') err))
        | (root', None) \<Rightarrow> gc_entries ld expected es (removed @ [name]) root')"

definition runGarbageCollection :: "'fs localdir \<Rightarrow> string list res \<Rightarrow> dir_root \<Rightarrow> dir_root \<times> string list res" where
  "runGarbageCollection ld listed root =
     (case listed of
        Inl err \<Rightarrow> (root, Inl (ErrWrap ''error listing clustercatalogs: '' err))
      | Inr catalogs \<Rightarrow>
          (case ld_Fail ld OpReadDir of
             Some err \<Rightarrow> (root, Inl (ErrWrap ''error reading cache directory: '' err))
           | None \<Rightarrow> gc_entries ld catalogs (sort_key fst root) [] root))"

section \<open>The storage contract\<close>

text \<open>
  What the controller relies on of a storage instance: a successful store makes exactly the given content
  available, a failed one leaves the old content, none or the new content, a delete removes it, and no operation touches another catalog.
\<close>

definition run_ops ::
  "('s \<Rightarrow> string \<Rightarrow> 'fs \<Rightarrow> 's \<times> goerr option) \<Rightarrow> ('s \<Rightarrow> string \<Rightarrow> 's \<times> goerr option)
   \<Rightarrow> 's \<Rightarrow> (string \<times> 'fs option) list \<Rightarrow> 's" where
  "run_ops store delete = foldl (\<lambda>s (c, ox). case ox of Some x \<Rightarrow> fst (store s c x) | None \<Rightarrow> fst (delete s c))"

locale storage_instance =
  fixes store :: "'s \<Rightarrow> string \<Rightarrow> 'fs \<Rightarrow> 's \<times> goerr option" and delete :: "'s \<Rightarrow> string \<Rightarrow> 's \<times> goerr option"
    and content :: "'s \<Rightarrow> string \<Rightarrow> string option" and data :: "'fs \<Rightarrow> string" and valid :: "string \<Rightarrow> bool"
  assumes store_ok: "valid c \<Longrightarrow> store s c x = (s', None) \<Longrightarrow> content s' c = Some (data x)"
    and store_err: "valid c \<Longrightarrow> store s c x = (s', Some e) \<Longrightarrow> content s' c \<in> {content s c, None, Some (data x)}"
    and store_other: "valid c \<Longrightarrow> valid d \<Longrightarrow> d \<noteq> c \<Longrightarrow> content (fst (store s c x)) d = content s d"
    and delete_ok: "valid c \<Longrightarrow> delete s c = (s', None) \<Longrightarrow> content s' c = None"
    and delete_err: "valid c \<Longrightarrow> delete s c = (s', Some e) \<Longrightarrow> content s' c = content s c"
    and delete_other: "valid c \<Longrightarrow> valid d \<Longrightarrow> d \<noteq> c \<Longrightarrow> content (fst (delete s c)) d = content s d"
begin

lemma served_was_stored:
  "valid c \<Longrightarrow> list_all (valid \<circ> fst) ps \<Longrightarrow> content (run_ops store delete s ps) c = Some d \<Longrightarrow>
     content s c = Some d \<or> (\<exists>x. (c, Some x) \<in> set ps \<and> data x = d)"
proof (induction ps arbitrary: s)
  case (Cons p ps)
  obtain k ox where p: "p = (k, ox)" by (cases p)
  define s1 where "s1 = (case ox of Some x \<Rightarrow> fst (store s k x) | None \<Rightarrow> fst (delete s k))"
  have k: "valid k" using Cons.prems(2) by (simp add: p)
  have "content s1 c = Some d \<or> (\<exists>x. (c, Some x) \<in> set ps \<and> data x = d)"
    using Cons.IH [OF Cons.prems(1), of s1] Cons.prems(2,3) by (cases ox) (simp_all add: p s1_def run_ops_def)
  moreover have "content s c = Some d \<or> (\<exists>x. ox = Some x \<and> k = c \<and> data x = d)" if s1: "content s1 c = Some d"
  proof (cases "k = c")
    case True
    show ?thesis
    proof (cases ox)
      case None
      then show ?thesis
        using s1 True k delete_ok [of c s] delete_err [of c s] by (cases "delete s c"; cases "snd (delete s c)") (auto simp: s1_def)
    next
      case (Some x)
      then show ?thesis
        using s1 True k store_ok [of c s x] store_err [of c s x] by (cases "store s c x"; cases "snd (store s c x)") (auto simp: s1_def)
    qed
  next
    case False
    then show ?thesis
      using s1 k Cons.prems(1) store_other [of k c s] delete_other [of k c s] by (auto simp: s1_def split: option.splits)
  qed
  ultimately show ?case by (auto simp: p)
qed (simp add: run_ops_def)

end

section \<open>Lemmas\<close>

definition valid_name :: "string \<Rightarrow> bool" where
  "valid_name c \<longleftrightarrow> c \<noteq> [] \<and> hd c \<noteq> CHR ''.''"

definition content :: "dir_root \<Rightarrow> string \<Rightarrow> string option" where
  "content root c =
     (case map_of root c of
        Some (Dir files) \<Rightarrow> (case map_of files ''catalog.jsonl'' of Some (Regular data t) \<Rightarrow> Some data | _ \<Rightarrow> None)
      | _ \<Rightarrow> None)"

lemma map_of_removed [simp]: "map_of (filter (\<lambda>e. fst e \<noteq> n) root) c = (if c = n then None else map_of root c)"
  by (induction root) auto

lemma RemoveAll_other: "d \<noteq> n \<Longrightarrow> map_of (fst (os_RemoveAll ld n root)) d = map_of root d"
  by (simp add: os_RemoveAll_def split: option.split)

lemma valid_not_temp: "valid_name c \<Longrightarrow> \<not> has_prefix c (temp_prefix k)"
  by (cases c) (simp_all add: valid_name_def temp_prefix_def)

lemma has_prefix_append [simp]: "has_prefix (p @ s) p"
  by (induction p) simp_all

lemma remove_entries_other:
  "\<not> has_prefix d p \<Longrightarrow> map_of (fst (remove_entries ld p names root)) d = map_of root d"
proof (induction ld p names root rule: remove_entries.induct)
  case (2 ld p name names root)
  obtain root' oe where r: "os_RemoveAll ld name root = (root', oe)" by (cases "os_RemoveAll ld name root")
  have "map_of root' d = map_of root d" if "has_prefix name p"
    using RemoveAll_other [of d name ld root] r that 2(3) by auto
  then show ?case using 2 r by (auto split: option.split)
qed simp

lemma find_fresh_Some:
  "find_fresh rnd p root attempt = Some name \<Longrightarrow> map_of root name = None \<and> has_prefix name p"
proof (induction rnd p root attempt rule: find_fresh.induct)
  case (1 rnd p root attempt)
  then show ?case
    by (subst (asm) (2) find_fresh.simps) (auto simp: Let_def split: if_splits)
qed

lemma write_metas_ok: "write_metas fail i ms acc = (d, None) \<Longrightarrow> d = acc @ catalog_data ms"
  by (induction fail i ms acc rule: write_metas.induct) (auto simp: catalog_data_def split: option.splits)

definition stored_files :: "'fs localdir \<Rightarrow> meta list \<Rightarrow> (string \<times> dir_file) list" where
  "stored_files ld metas =
     (''catalog.jsonl'', Regular (catalog_data metas) (ld_Now ld)) #
     (if ld_EnableMetasHandler ld then [(''index.json'', Regular (ld_EncodeIndex ld (newIndex metas)) (ld_Now ld))] else [])"

lemma storeCatalogData_ok:
  assumes "storeCatalogData ld metas = (fs, None)"
  shows "fs = [(''catalog.jsonl'', Regular (catalog_data metas) (ld_Now ld))]"
proof -
  obtain d e where w: "write_metas (ld_Fail ld) 0 metas [] = (d, e)" by (cases "write_metas (ld_Fail ld) 0 metas []")
  then show ?thesis
    using assms write_metas_ok [of "ld_Fail ld" 0 metas "[]" d] by (simp add: storeCatalogData_def split: option.splits)
qed

lemma storeIndexData_ok:
  "storeIndexData ld metas = (fs, None) \<Longrightarrow> fs = [(''index.json'', Regular (ld_EncodeIndex ld (newIndex metas)) (ld_Now ld))]"
  by (simp add: storeIndexData_def split: option.splits)

lemma store_metas_ok:
  assumes "store_metas ld x = (files, None)"
  shows "files = stored_files ld (fst (ld_WalkMetasFS ld x)) \<and> snd (ld_WalkMetasFS ld x) = None"
proof -
  obtain metas we where w: "ld_WalkMetasFS ld x = (metas, we)" by (cases "ld_WalkMetasFS ld x")
  obtain f1 e1 where c: "storeCatalogData ld metas = (f1, e1)" by (cases "storeCatalogData ld metas")
  obtain f2 e2 where i: "(if ld_EnableMetasHandler ld then storeIndexData ld metas else ([], None)) = (f2, e2)"
    by (cases "if ld_EnableMetasHandler ld then storeIndexData ld metas else ([], None)")
  have e: "files = f1 @ f2" "e1 = None" "e2 = None" "we = None"
    using assms by (auto simp: store_metas_def w c i Let_def split: option.splits if_splits)
  show ?thesis
    using storeCatalogData_ok [of ld metas f1] storeIndexData_ok [of ld metas f2] c i e w
    by (cases "ld_EnableMetasHandler ld") (simp_all add: stored_files_def)
qed

lemma stage_facts:
  assumes "Store_stage ld c x root = (root1, otmp, oe)"
  shows "valid_name d \<Longrightarrow> map_of root1 d = map_of root d"
    "otmp = Some tmp \<Longrightarrow> has_prefix tmp (temp_prefix c)"
    "otmp = Some tmp \<Longrightarrow> oe = None \<Longrightarrow> map_of root1 tmp = Some (Dir (stored_files ld (fst (ld_WalkMetasFS ld x))))"
    "otmp = None \<Longrightarrow> oe \<noteq> None"
proof -
  obtain r1 e1 where o: "removeOrphanedTempDirs ld c root = (r1, e1)" by (cases "removeOrphanedTempDirs ld c root")
  obtain r2 t where m: "os_MkdirTemp ld (temp_prefix c) r1 = (r2, t)" by (cases "os_MkdirTemp ld (temp_prefix c) r1")
  obtain fs e3 where s: "store_metas ld x = (fs, e3)" by (cases "store_metas ld x")
  have r1: "map_of r1 d = map_of root d" if "valid_name d" for d
    using o remove_entries_other [OF valid_not_temp [OF that], of ld c "sort (map fst root)" root]
    by (auto simp: removeOrphanedTempDirs_def split: option.splits if_splits)
  have r2: "(t = Inr tmp \<longrightarrow> has_prefix tmp (temp_prefix c)) \<and> (valid_name d \<longrightarrow> map_of r2 d = map_of r1 d)" for tmp d
    using m find_fresh_Some [of "ld_Random ld" "temp_prefix c" r1 0] valid_not_temp [of d c]
    by (auto simp: os_MkdirTemp_def split: option.splits)
  show "map_of root1 d = map_of root d" if "valid_name d"
    using assms o m s r1 [OF that] r2 [of _ d] that valid_not_temp [OF that, of c]
    by (auto simp: Store_stage_def split: option.splits sum.splits)
  show "has_prefix tmp (temp_prefix c)" if "otmp = Some tmp"
    using assms o m s r2 [of tmp] that by (auto simp: Store_stage_def split: option.splits sum.splits)
  show "map_of root1 tmp = Some (Dir (stored_files ld (fst (ld_WalkMetasFS ld x))))" if "otmp = Some tmp" "oe = None"
    using assms o m s store_metas_ok [of ld x fs] that by (auto simp: Store_stage_def split: option.splits sum.splits)
  show "oe \<noteq> None" if "otmp = None"
  proof
    assume "oe = None"
    then show False using assms o m s that by (simp add: Store_stage_def split: option.splits sum.splits)
  qed
qed

lemma swap_facts:
  assumes "Store_swap ld c tmp root = (root', oe)" "map_of root tmp = Some n" "tmp \<noteq> c"
  shows "oe = None \<Longrightarrow> map_of root' c = Some n" "map_of root' c \<in> {map_of root c, None, Some n}"
    "d \<noteq> c \<Longrightarrow> d \<noteq> tmp \<Longrightarrow> map_of root' d = map_of root d"
proof -
  obtain r1 e1 where r: "os_RemoveAll ld c root = (r1, e1)" by (cases "os_RemoveAll ld c root")
  obtain r2 e2 where n: "os_Rename ld tmp c r1 = (r2, e2)" by (cases "os_Rename ld tmp c r1")
  have e: "root' = r2" "oe = join_opts [e1, e2]" using assms(1) r n by (auto simp: Store_swap_def)
  have t: "map_of r1 tmp = Some n" using RemoveAll_other [of tmp c ld root] r assms(2,3) by simp
  have r1: "map_of r1 c \<in> {map_of root c, None}" using r by (auto simp: os_RemoveAll_def split: option.splits)
  have r2: "if e2 = None then map_of r2 c = Some n else r2 = r1"
    using n t by (auto simp: os_Rename_def split: option.splits if_splits)
  show "map_of root' c = Some n" if "oe = None"
    using that r2 e by (cases e1; cases e2) (simp_all add: join_opts_def errors_Join_def map_filter_simps)
  show "map_of root' c \<in> {map_of root c, None, Some n}"
    using r1 r2 e by (auto split: if_splits)
  show "map_of root' d = map_of root d" if "d \<noteq> c" "d \<noteq> tmp"
    using that n e RemoveAll_other [of d c ld root] r by (auto simp: os_Rename_def split: option.splits if_splits)
qed

definition store_data :: "'fs localdir \<Rightarrow> 'fs \<Rightarrow> string" where
  "store_data ld x = catalog_data (fst (ld_WalkMetasFS ld x))"

lemma content_stored: "map_of root c = Some (Dir (stored_files ld (fst (ld_WalkMetasFS ld x)))) \<Longrightarrow> content root c = Some (store_data ld x)"
  by (simp add: content_def stored_files_def store_data_def)

lemma Store_facts:
  assumes "Store ld root c x = (root', oe)" "valid_name c"
  shows "oe = None \<Longrightarrow> map_of root' c = Some (Dir (stored_files ld (fst (ld_WalkMetasFS ld x))))"
    "content root' c \<in> {content root c, None, Some (store_data ld x)}"
    "valid_name d \<Longrightarrow> d \<noteq> c \<Longrightarrow> map_of root' d = map_of root d"
proof -
  obtain r1 otmp e1 where st: "Store_stage ld c x root = (r1, otmp, e1)" by (cases "Store_stage ld c x root")
  note f = stage_facts [OF st]
  let ?n = "Dir (stored_files ld (fst (ld_WalkMetasFS ld x)))"
  have all: "(oe = None \<longrightarrow> map_of root' c = Some ?n) \<and> (map_of root' c \<in> {map_of root c, None, Some ?n})
      \<and> (\<forall>d. valid_name d \<longrightarrow> d \<noteq> c \<longrightarrow> map_of root' d = map_of root d)"
  proof (cases otmp)
    case None
    then show ?thesis using assms st f by (auto simp: Store_def)
  next
    case (Some tmp)
    have nv: "\<not> valid_name tmp" using f(2) [OF Some] valid_not_temp by blast
    then have tc: "tmp \<noteq> c" and rm: "\<And>d r. valid_name d \<Longrightarrow> map_of (fst (os_RemoveAll ld tmp r)) d = map_of r d"
      using assms(2) by (auto intro: RemoveAll_other)
    show ?thesis
    proof (cases e1)
      case (Some e)
      then show ?thesis using assms st \<open>otmp = Some tmp\<close> f(1) rm by (auto simp: Store_def)
    next
      case None
      obtain r2 e2 where sw: "Store_swap ld c tmp r1 = (r2, e2)" by (cases "Store_swap ld c tmp r1")
      note g = swap_facts [OF sw f(3) [OF Some None] tc]
      have "root' = fst (os_RemoveAll ld tmp r2)" "oe = e2"
        using assms(1) st sw Some None by (simp_all add: Store_def)
      then show ?thesis
        using g f(1) rm nv assms(2) by (metis (no_types, lifting))
    qed
  qed
  then show "oe = None \<Longrightarrow> map_of root' c = Some ?n" "valid_name d \<Longrightarrow> d \<noteq> c \<Longrightarrow> map_of root' d = map_of root d"
    by simp_all
  from all have "map_of root' c \<in> {map_of root c, None, Some ?n}" by simp
  then show "content root' c \<in> {content root c, None, Some (store_data ld x)}"
    using content_stored [of root' c ld x] by (auto simp: content_def)
qed

interpretation localdir: storage_instance "Store ld" "Delete ld" content "store_data ld" valid_name for ld :: "'fs localdir"
proof
  fix c d s s' x e
  assume c: "valid_name c"
  show "content s' c = Some (store_data ld x)" if "Store ld s c x = (s', None)"
    by (rule content_stored [OF Store_facts(1) [OF that c refl]])
  show "content s' c \<in> {content s c, None, Some (store_data ld x)}" if "Store ld s c x = (s', Some e)"
    by (rule Store_facts(2) [OF that c])
  show "content (fst (Store ld s c x)) d = content s d" if "valid_name d" "d \<noteq> c"
    using Store_facts(3) [OF _ c that, of ld s x "fst (Store ld s c x)" "snd (Store ld s c x)"] by (simp add: content_def)
  show "content s' c = None" if "Delete ld s c = (s', None)"
    using that by (auto simp: Delete_def os_RemoveAll_def content_def split: option.splits)
  show "content s' c = content s c" if "Delete ld s c = (s', Some e)"
    using that by (auto simp: Delete_def os_RemoveAll_def split: option.splits)
  show "content (fst (Delete ld s c)) d = content s d" if "valid_name d" "d \<noteq> c"
    using RemoveAll_other [of d c ld s] that by (simp add: Delete_def content_def)
qed

lemma open_stored:
  assumes "map_of root c = Some (Dir (stored_files ld ms))" "\<And>n. ld_Fail ld (OpStat n) = None"
  shows "open_file ld root c ''catalog.jsonl'' = Inr (Regular (catalog_data ms) (ld_Now ld))"
    "ld_EnableMetasHandler ld \<Longrightarrow> open_file ld root c ''index.json'' = Inr (Regular (ld_EncodeIndex ld (newIndex ms)) (ld_Now ld))"
  using assms by (simp_all add: open_file_def stored_files_def)

lemma RemoveAll_works: "(\<And>op. ld_Fail ld op = None) \<Longrightarrow> os_RemoveAll ld n root = (filter (\<lambda>e. fst e \<noteq> n) root, None)"
  by (simp add: os_RemoveAll_def)

lemma gc_none_stays:
  "(\<And>op. ld_Fail ld op = None) \<Longrightarrow> map_of root n = None \<Longrightarrow> map_of (fst (gc_entries ld known es removed root)) n = None"
  by (induction es arbitrary: removed root) (auto simp: RemoveAll_works)

lemma gc_unknown_removed:
  assumes "\<And>op. ld_Fail ld op = None" "n \<notin> set known" "n \<in> fst ` set es"
  shows "map_of (fst (gc_entries ld known es removed root)) n = None"
  using assms(3)
proof (induction es arbitrary: removed root)
  case (Cons e es)
  obtain m nd where e: "e = (m, nd)" by (cases e)
  show ?case
  proof (cases "m = n")
    case True
    then show ?thesis
      using assms(2) gc_none_stays [OF assms(1), of "filter (\<lambda>e. fst e \<noteq> n) root"] by (simp add: e RemoveAll_works [OF assms(1)])
  next
    case False
    then show ?thesis using Cons by (auto simp: e RemoveAll_works [OF assms(1)])
  qed
qed simp

lemma query_expected: "set (map fst q) \<subseteq> {''schema'', ''package'', ''name''} \<Longrightarrow>
    \<not> list_ex (\<lambda>p. fst p \<notin> {''schema'', ''package'', ''name''}) q"
  by (auto simp: list_ex_iff)

section \<open>Properties\<close>

text \<open>
  C23: the store keeps its contract.  After a successful Store the catalog has exactly the concatenated blobs as its content and
  exists; a failed Store leaves it with its old content, with none or with the new one; in both cases every other catalog is
  untouched.  File system calls may fail at any point; the existence check needs working stat calls.
\<close>

theorem Store_contract:
  assumes "Store ld root c x = (root', oe)" "valid_name c" "\<And>n. ld_Fail ld (OpStat n) = None"
  shows "(oe = None \<longrightarrow> content root' c = Some (store_data ld x) \<and> ContentExists ld root' c)
     \<and> content root' c \<in> {content root c, None, Some (store_data ld x)}
     \<and> (\<forall>d. valid_name d \<and> d \<noteq> c \<longrightarrow> content root' d = content root d \<and> ContentExists ld root' d = ContentExists ld root d)"
proof -
  have "content root' c = Some (store_data ld x) \<and> ContentExists ld root' c" if "oe = None"
    using content_stored [OF Store_facts(1) [OF assms(1,2) that]] open_stored [OF Store_facts(1) [OF assms(1,2) that] assms(3)]
    by (simp add: ContentExists_def is_regular_def)
  moreover have "content root' d = content root d \<and> ContentExists ld root' d = ContentExists ld root d" if "valid_name d" "d \<noteq> c" for d
  proof -
    have m: "map_of root' d = map_of root d" by (rule Store_facts(3) [OF assms(1,2) that])
    then have "open_file ld root' d n = open_file ld root d n" for n by (simp only: open_file_def)
    then show ?thesis using m by (simp add: content_def ContentExists_def)
  qed
  ultimately show ?thesis using Store_facts(2) [OF assms(1,2)] by simp
qed

text \<open>
  What is served was stored.  After any sequence of stores and deletes, in which each may fail, the content of a catalog
  is the one it had before or that of a store for this very catalog in the sequence.
\<close>

lemma served_content_was_stored:
  assumes "valid_name c" "list_all (valid_name \<circ> fst) ops" "content (run_ops (Store ld) (Delete ld) root ops) c = Some d"
  shows "content root c = Some d \<or> (\<exists>x. (c, Some x) \<in> set ops \<and> store_data ld x = d)"
  using assms by (rule localdir.served_was_stored)


text \<open>
  A malformed If-Modified-Since date is not ignored: the handler answers 500 with an error text and then writes the
  requested content after it into the same response.
\<close>

lemma metas_malformed_date:
  assumes "catalogData ld root (rq_Catalog r) = Inr (Inr data, t)" "rq_Method r = ''GET''" "rq_Query r = []"
    "rq_Header r = [(''If-Modified-Since'', [d])]" "d \<noteq> []" "parseTime (ld_Parse ld) d = Inl err" "as_status err = None"
    "\<not> isZeroTime t" "data \<noteq> []" "rw_Sent w = None" "rw_Body w = []"
  shows "status (handleV1Metas ld root r w) = Some 500
     \<and> rw_Body (handleV1Metas ld root r w) = ''500 Internal Server Error'' @ newline @ data"
proof -
  let ?w = "header_Set ''Last-Modified'' (ld_FormatTime ld t) w"
  have st: "status ?w = None" using assms(10) by (simp add: status_def)
  have pre: "checkPreconditions (ld_Parse ld) r ?w t = (httpError err ?w, False)"
    by (rule malformed_since [OF st assms(8)])
      (use assms(4-6) in \<open>simp_all add: checkIfMatch_def checkIfNoneMatch_def header_Get_def\<close>)
  have code: "http_code err = 500" "show_nat 500 = ''500''" using assms(7) by (simp add: http_code_def, code_simp)
  have "handleV1Metas ld root r w = Write data (header_Add ''Content-Type'' ''application/jsonl'' (httpError err ?w))"
    using assms(1-3,9) by (simp add: handleV1Metas_def pre header_Get_def serveJSONLines_def Let_def)
  then show ?thesis
    using st assms(11) code by (simp add: httpError_def http_Error_def Let_def StatusText_def)
qed

text \<open>
  C27: the garbage collector may destroy a catalog.  It takes no lock and removes every entry that is not named after a known
  catalog, staging directories included.  If it runs between staging and swapping, then the swap has removed the old content when
  the rename fails: although both catalogs are known and no file system call fails by itself, the catalog is lost.
\<close>

theorem gc_during_store_loses_catalog:
  assumes "Store_stage ld c x root = (root1, Some tmp, None)" "\<And>op. ld_Fail ld op = None" "valid_name c" "\<forall>n \<in> set known. valid_name n"
    "runGarbageCollection ld (Inr known) root1 = (root2, r)" "Store_swap ld c tmp root2 = (root3, oe)"
  shows "oe \<noteq> None \<and> content root3 c = None"
proof -
  have nv: "\<not> valid_name tmp" using stage_facts(2) [OF assms(1) refl] valid_not_temp by blast
  then have tk: "tmp \<notin> set known" and tc: "tmp \<noteq> c" using assms(3,4) by auto
  have "map_of root1 tmp \<noteq> None" using stage_facts(3) [OF assms(1) refl refl] by simp
  then have "tmp \<in> fst ` set (sort_key fst root1)" by (simp add: map_of_eq_None_iff)
  then have "map_of root2 tmp = None"
    using gc_unknown_removed [OF assms(2) tk, of "sort_key fst root1" "[]" root1] assms(5)
    by (simp add: runGarbageCollection_def assms(2))
  then have "Store_swap ld c tmp root2 = (filter (\<lambda>e. fst e \<noteq> c) root2, Some (ErrJoin [ErrNotExist]))"
    using tc by (simp add: Store_swap_def os_RemoveAll_def os_Rename_def assms(2) join_opts_def errors_Join_def map_filter_simps)
  then show ?thesis using assms(6) by (auto simp: content_def)
qed

definition ex_localdir :: "meta list localdir" where
  "ex_localdir =
     \<lparr>ld_EnableMetasHandler = True, ld_Fail = (\<lambda>_. None), ld_Random = id, ld_Now = 5 * second,
      ld_WalkMetasFS = (\<lambda>ms. (ms, None)), ld_WalkCanceled = False, ld_EncodeIndex = (\<lambda>_. ''i''),
      ld_DecodeIndex = (\<lambda>_. Inr (newIndex ex_metas)), ld_UnsortedList = id, ld_SortFunc = SortStableFunc,
      ld_Parse = ex_parse, ld_FormatTime = (\<lambda>_. ''t''), ld_ServeContent = (\<lambda>r t d w. Write d w)\<rparr>"

definition ex_root :: dir_root where
  "ex_root = [(''c'', Dir [(''catalog.jsonl'', Regular ''aabccc'' (5 * second)), (''index.json'', Regular ''i'' (5 * second))])]"

lemma ex_no_fail: "ld_Fail ex_localdir op = None"
  by (simp add: ex_localdir_def)

lemma ex_store: "Store ex_localdir [] ''c'' ex_metas = (ex_root, None)"
  by code_simp

lemma ex_valid: "valid_name ''c''"
  by (simp add: valid_name_def)

theorem Store_contract_witness: "content ex_root ''c'' = Some ''aabccc'' \<and> ContentExists ex_localdir ex_root ''c''"
  using Store_contract [OF ex_store ex_valid ex_no_fail]
  by (simp add: store_data_def ex_localdir_def catalog_data_def ex_metas_def)

lemma served_content_was_stored_witness:
  "\<exists>x. (''c'', Some x) \<in> set [(''d'', Some []), (''c'', Some ex_metas), (''d'', None)] \<and> store_data ex_localdir x = ''aabccc''"
proof -
  have run: "content (run_ops (Store ex_localdir) (Delete ex_localdir) [] [(''d'', Some []), (''c'', Some ex_metas), (''d'', None)]) ''c''
      = Some ''aabccc''"
    by code_simp
  have valid: "list_all (valid_name \<circ> fst) [(''d'', Some []), (''c'', Some ex_metas), (''d'', None)]"
    by (simp add: valid_name_def)
  have none: "content [] ''c'' = None" by (simp add: content_def)
  show ?thesis using served_content_was_stored [OF ex_valid valid run] none by simp
qed


lemma metas_malformed_date_witness:
  "rw_Body (handleV1Metas ex_localdir ex_root (ex_request [(''If-Modified-Since'', [''later''])]) ex_response)
     = ''500 Internal Server Error'' @ newline @ ''aabccc''"
proof -
  let ?r = "ex_request [(''If-Modified-Since'', [''later''])]"
  have data: "catalogData ex_localdir ex_root (rq_Catalog ?r) = Inr (Inr ''aabccc'', 5 * second)"
    by code_simp
  have "parseTime (ld_Parse ex_localdir) ''later'' = Inl (ErrText ''parsing time'')"
    by (simp add: ex_localdir_def ex_parseTime)
  then show ?thesis
    using metas_malformed_date [OF data, of "''later''" "ErrText ''parsing time''" ex_response]
    by (simp add: ex_request_def ex_response_def isZeroTime_def)
qed

theorem gc_during_store_loses_catalog_witness:
  "\<exists>root1 tmp root2 r root3 oe.
     content ex_root ''c'' = Some ''aabccc'' \<and> Store_stage ex_localdir ''c'' ex_metas ex_root = (root1, Some tmp, None)
     \<and> runGarbageCollection ex_localdir (Inr [''c'']) root1 = (root2, r) \<and> Store_swap ex_localdir ''c'' tmp root2 = (root3, oe)
     \<and> oe \<noteq> None \<and> content root3 ''c'' = None"
proof -
  have old: "content ex_root ''c'' = Some ''aabccc''" by code_simp
  have "snd (Store_stage ex_localdir ''c'' ex_metas ex_root) = (Some ''.c-0'', None)" by code_simp
  then obtain root1 where st: "Store_stage ex_localdir ''c'' ex_metas ex_root = (root1, Some ''.c-0'', None)"
    by (cases "Store_stage ex_localdir ''c'' ex_metas ex_root") simp
  obtain root2 r where gc: "runGarbageCollection ex_localdir (Inr [''c'']) root1 = (root2, r)"
    by (cases "runGarbageCollection ex_localdir (Inr [''c'']) root1")
  obtain root3 oe where sw: "Store_swap ex_localdir ''c'' ''.c-0'' root2 = (root3, oe)"
    by (cases "Store_swap ex_localdir ''c'' ''.c-0'' root2")
  have known: "\<forall>n \<in> set [''c'']. valid_name n" by (simp add: ex_valid)
  from gc_during_store_loses_catalog [OF st ex_no_fail ex_valid known gc sw] old st gc sw show ?thesis by blast
qed

end
