(* ===== verification/CatalogController.thy ===== *)
theory CatalogController
  imports LocalDir ExtensionSteps
begin

text \<open>
  The ClusterCatalog controller of catalogd (\<^verbatim>\<open>catalogd/controllers/core\<close>) and its defaulting webhook.  The
  state is the world \<^verbatim>\<open>'w\<close> (cluster, store, image cache, clock) together with the controller's in-memory map of
  unpacked catalogs; image puller, store, finalizer library and API client are arguments.  Durations are 64-bit.
\<close>

section \<open>State and arguments\<close>

abbreviation SourceTypeImage :: string where "SourceTypeImage \<equiv> ''Image''"
abbreviation ReasonAvailable :: string where "ReasonAvailable \<equiv> ''Available''"
abbreviation ReasonUnavailable :: string where "ReasonUnavailable \<equiv> ''Unavailable''"
abbreviation ReasonUserSpecifiedUnavailable :: string where "ReasonUserSpecifiedUnavailable \<equiv> ''UserSpecifiedUnavailable''"
abbreviation MetadataNameLabel :: string where "MetadataNameLabel \<equiv> ''olm.operatorframework.io/metadata.name''"
abbreviation fbcDeletionFinalizer :: string where "fbcDeletionFinalizer \<equiv> ''olm.operatorframework.io/delete-server-cache''"

record storedCatalogData =
  sc_ref :: string
  sc_lastUnpack :: time
  sc_lastSuccessfulPoll :: time
  sc_observedGeneration :: int

record 'w cat_state =
  world :: 'w
  storedCatalogs :: "(string \<times> storedCatalogData) list"

type_synonym 'w cat_finalizer = "'w cat_state \<Rightarrow> cluster_catalog \<Rightarrow> 'w cat_state \<times> cluster_catalog \<times> finalize_result \<times> goerr option"

record ('w, 'fs) catalog_reconciler =
  cr_Conds :: cond_api
  cr_Pull :: "'w \<Rightarrow> string \<Rightarrow> string \<Rightarrow> 'w \<times> ('fs \<times> string \<times> time) res"
  cr_CacheDelete :: "'w \<Rightarrow> string \<Rightarrow> 'w \<times> goerr option"
  cr_Store :: "'w \<Rightarrow> string \<Rightarrow> 'fs \<Rightarrow> 'w \<times> goerr option"
  cr_Delete :: "'w \<Rightarrow> string \<Rightarrow> 'w \<times> goerr option"
  cr_ContentExists :: "'w \<Rightarrow> string \<Rightarrow> bool"
  cr_BaseURL :: "string \<Rightarrow> string"
  cr_Now :: "'w \<Rightarrow> time"
  cr_Jitter :: "int \<Rightarrow> int"
  cr_Finalize :: "string \<Rightarrow> 'w cat_finalizer \<Rightarrow> 'w cat_state \<Rightarrow> cluster_catalog \<Rightarrow> 'w cat_state \<times> cluster_catalog \<times> finalize_result res"

section \<open>Status\<close>

definition clearUnknownConditions :: "catalog_status \<Rightarrow> catalog_status" where
  "clearUnknownConditions st =
     st\<lparr>cst_Conditions := filter (\<lambda>c. cond_Type c \<in> {TypeServing, TypeProgressing}) (cst_Conditions st)\<rparr>"

definition set_cat_cond :: "cond_api \<Rightarrow> condition \<Rightarrow> catalog_status \<Rightarrow> catalog_status" where
  "set_cat_cond A c st = st\<lparr>cst_Conditions := apiSetStatusCondition A (cst_Conditions st) c\<rparr>"

definition progressing_cond :: "int \<Rightarrow> goerr option \<Rightarrow> condition" where
  "progressing_cond generation oerr =
     (case oerr of
        None \<Rightarrow> mk_cond TypeProgressing ConditionTrue ReasonSucceeded
                  ''Successfully unpacked and stored content from resolved source'' generation
      | Some err \<Rightarrow>
          if is_terminal err
          then mk_cond TypeProgressing ConditionFalse ReasonBlocked (SanitizeNetworkError (Some err)) generation
          else mk_cond TypeProgressing ConditionTrue ReasonRetrying (SanitizeNetworkError (Some err)) generation)"

definition updateStatusProgressing :: "cond_api \<Rightarrow> catalog_status \<Rightarrow> int \<Rightarrow> goerr option \<Rightarrow> catalog_status" where
  "updateStatusProgressing A st generation oerr = set_cat_cond A (progressing_cond generation oerr) st"

definition serving_cond :: "int \<Rightarrow> condition" where
  "serving_cond generation =
     mk_cond TypeServing ConditionTrue ReasonAvailable ''Serving desired content from resolved source'' generation"

definition updateStatusServing :: "cond_api \<Rightarrow> catalog_status \<Rightarrow> string \<Rightarrow> time \<Rightarrow> string \<Rightarrow> int \<Rightarrow> catalog_status" where
  "updateStatusServing A st ref modTime baseURL generation =
     set_cat_cond A (serving_cond generation)
       (st\<lparr>cst_ResolvedSource := Some \<lparr>rsv_Type = SourceTypeImage, rsv_Image = Some ref\<rparr>,
           cst_URLs := Some baseURL, cst_LastUnpacked := Some (truncate_second modTime)\<rparr>)"

definition updateStatusProgressingUserSpecifiedUnavailable :: "cond_api \<Rightarrow> catalog_status \<Rightarrow> int \<Rightarrow> catalog_status" where
  "updateStatusProgressingUserSpecifiedUnavailable A st generation =
     set_cat_cond A (mk_cond TypeServing ConditionFalse ReasonUserSpecifiedUnavailable
         ''Catalog availability mode is set to Unavailable'' generation)
       (set_cat_cond A (mk_cond TypeProgressing ConditionTrue ReasonSucceeded
         ''Catalog availability mode is set to Unavailable'' generation) st)"

definition updateStatusNotServing :: "cond_api \<Rightarrow> catalog_status \<Rightarrow> int \<Rightarrow> catalog_status" where
  "updateStatusNotServing A st generation =
     set_cat_cond A (mk_cond TypeServing ConditionFalse ReasonUnavailable [] generation)
       (st\<lparr>cst_ResolvedSource := None, cst_URLs := None, cst_LastUnpacked := None\<rparr>)"

section \<open>Polling\<close>

definition needsPoll :: "time \<Rightarrow> time \<Rightarrow> cluster_catalog \<Rightarrow> bool res" where
  "needsPoll now lastSuccessfulPoll cat =
     (case cs_Image (cat_Source (cat_Spec cat)) of
        None \<Rightarrow> Inl nil_deref
      | Some img \<Rightarrow>
          (case img_PollIntervalMinutes img of
             None \<Rightarrow> Inr False
           | Some m \<Rightarrow> Inr (lastSuccessfulPoll + minutes m < now)))"

definition nextPollResult :: "(int \<Rightarrow> int) \<Rightarrow> time \<Rightarrow> time \<Rightarrow> cluster_catalog \<Rightarrow> ctrl_result" where
  "nextPollResult Jitter now lastSuccessfulPoll cat =
     \<lparr>RequeueAfter =
        (if cs_Type (cat_Source (cat_Spec cat)) = SourceTypeImage
         then (case cs_Image (cat_Source (cat_Spec cat)) of
                 None \<Rightarrow> 0
               | Some img \<Rightarrow>
                   (case img_PollIntervalMinutes img of
                      None \<Rightarrow> 0
                    | Some m \<Rightarrow> lastSuccessfulPoll + Jitter (minutes m) - now))
         else 0)\<rparr>"

section \<open>Deletion\<close>

definition deleteStoredCatalog :: "string \<Rightarrow> 'w cat_state \<Rightarrow> 'w cat_state" where
  "deleteStoredCatalog name s = s\<lparr>storedCatalogs := filter (\<lambda>e. fst e \<noteq> name) (storedCatalogs s)\<rparr>"

definition deleteCatalogCache ::
  "('w, 'fs) catalog_reconciler \<Rightarrow> 'w cat_state \<Rightarrow> cluster_catalog \<Rightarrow> 'w cat_state \<times> cluster_catalog \<times> goerr option" where
  "deleteCatalogCache r s cat =
     (case cr_Delete r (world s) (cat_Name cat) of
        (w1, Some err) \<Rightarrow>
          (s\<lparr>world := w1\<rparr>, cat\<lparr>cat_Status := updateStatusProgressing (cr_Conds r) (cat_Status cat) (cat_Generation cat) (Some err)\<rparr>, Some err)
      | (w1, None) \<Rightarrow>
          (let cat1 = cat\<lparr>cat_Status := updateStatusNotServing (cr_Conds r) (cat_Status cat) (cat_Generation cat)\<rparr>
           in case cr_CacheDelete r w1 (cat_Name cat) of
                (w2, Some err) \<Rightarrow>
                  (s\<lparr>world := w2\<rparr>, cat1\<lparr>cat_Status := updateStatusProgressing (cr_Conds r) (cat_Status cat1) (cat_Generation cat) (Some err)\<rparr>, Some err)
              | (w2, None) \<Rightarrow> (deleteStoredCatalog (cat_Name cat) (s\<lparr>world := w2\<rparr>), cat1, None)))"

definition cache_finalizer :: "('w, 'fs) catalog_reconciler \<Rightarrow> 'w cat_finalizer" where
  "cache_finalizer r s cat =
     (case deleteCatalogCache r s cat of (s', cat', oerr) \<Rightarrow> (s', cat', \<lparr>Updated = False, StatusUpdated = True\<rparr>, oerr))"

section \<open>Reconcile\<close>

definition getCurrentState ::
  "('w, 'fs) catalog_reconciler \<Rightarrow> 'w cat_state \<Rightarrow> cluster_catalog \<Rightarrow> catalog_status \<times> storedCatalogData option" where
  "getCurrentState r s cat =
     (let stored = map_of (storedCatalogs s) (cat_Name cat);
          st0 = clearUnknownConditions (cat_Status cat)
      in case stored of
           Some d \<Rightarrow>
             if cr_ContentExists r (world s) (cat_Name cat)
             then (updateStatusProgressing (cr_Conds r)
                     (updateStatusServing (cr_Conds r) st0 (sc_ref d) (sc_lastUnpack d) (cr_BaseURL r (cat_Name cat)) (sc_observedGeneration d))
                     (sc_observedGeneration d) None, stored)
             else (st0, stored)
         | None \<Rightarrow> (st0, stored))"

definition needsUnpack :: "('w, 'fs) catalog_reconciler \<Rightarrow> 'w cat_state \<Rightarrow> cluster_catalog \<Rightarrow> storedCatalogData option res" where
  "needsUnpack r s cat =
     (case getCurrentState r s cat of
        (expected, None) \<Rightarrow> Inr None
      | (expected, Some d) \<Rightarrow>
          if \<not> cr_ContentExists r (world s) (cat_Name cat) then Inr None
          else if cat_Status cat \<noteq> expected then Inr None
          else if cat_Generation cat \<noteq> sc_observedGeneration d then Inr None
          else case needsPoll (cr_Now r (world s)) (sc_lastSuccessfulPoll d) cat of
                 Inl err \<Rightarrow> Inl err
               | Inr True \<Rightarrow> Inr None
               | Inr False \<Rightarrow> Inr (Some d))"

definition blocked ::
  "('w, 'fs) catalog_reconciler \<Rightarrow> 'w cat_state \<Rightarrow> cluster_catalog \<Rightarrow> goerr \<Rightarrow> 'w cat_state \<times> cluster_catalog \<times> ctrl_result \<times> goerr option" where
  "blocked r s cat err =
     (s, cat\<lparr>cat_Status := updateStatusProgressing (cr_Conds r) (cat_Status cat) (cat_Generation cat) (Some err)\<rparr>, zero_result, Some err)"

definition unpack_catalog ::
  "('w, 'fs) catalog_reconciler \<Rightarrow> 'w cat_state \<Rightarrow> cluster_catalog \<Rightarrow> 'w cat_state \<times> cluster_catalog \<times> ctrl_result \<times> goerr option" where
  "unpack_catalog r s cat =
     (if cs_Type (cat_Source (cat_Spec cat)) \<noteq> SourceTypeImage
      then blocked r s cat (ErrTerminal (ErrText (''unknown source type '' @ quote (cs_Type (cat_Source (cat_Spec cat))))))
      else case cs_Image (cat_Source (cat_Spec cat)) of
        None \<Rightarrow> blocked r s cat (ErrTerminal (ErrText (''error parsing ClusterCatalog '' @ quote (cat_Name cat) @ '', image source is nil'')))
      | Some img \<Rightarrow>
          (case cr_Pull r (world s) (cat_Name cat) (img_Ref img) of
             (w1, Inl err) \<Rightarrow> blocked r (s\<lparr>world := w1\<rparr>) cat (ErrWrap ''source catalog content: '' err)
           | (w1, Inr (fsys, canonicalRef, unpackTime)) \<Rightarrow>
               (case cr_Store r w1 (cat_Name cat) fsys of
                  (w2, Some err) \<Rightarrow> blocked r (s\<lparr>world := w2\<rparr>) cat (ErrText (''error storing fbc: '' @ Error err))
                | (w2, None) \<Rightarrow>
                    (let st1 = updateStatusProgressing (cr_Conds r) (cat_Status cat) (cat_Generation cat) None;
                         st2 = updateStatusServing (cr_Conds r) st1 canonicalRef unpackTime (cr_BaseURL r (cat_Name cat)) (cat_Generation cat);
                         lastPoll = cr_Now r w2;
                         d = \<lparr>sc_ref = canonicalRef, sc_lastUnpack = unpackTime, sc_lastSuccessfulPoll = lastPoll,
                              sc_observedGeneration = cat_Generation cat\<rparr>
                     in (s\<lparr>world := w2, storedCatalogs := map_put (cat_Name cat) d (storedCatalogs s)\<rparr>,
                         cat\<lparr>cat_Status := st2\<rparr>, nextPollResult (cr_Jitter r) (cr_Now r w2) lastPoll cat, None)))))"

definition catalog_reconcile ::
  "('w, 'fs) catalog_reconciler \<Rightarrow> 'w cat_state \<Rightarrow> cluster_catalog \<Rightarrow> 'w cat_state \<times> cluster_catalog \<times> ctrl_result \<times> goerr option" where
  "catalog_reconcile r s cat =
     (if cat_AvailabilityMode (cat_Spec cat) = AvailabilityModeUnavailable
      then (case deleteCatalogCache r s cat of
              (s1, cat1, Some err) \<Rightarrow> (s1, cat1, zero_result, Some err)
            | (s1, cat1, None) \<Rightarrow>
                (s1, cat1\<lparr>cat_Status := updateStatusProgressingUserSpecifiedUnavailable (cr_Conds r) (cat_Status cat1) (cat_Generation cat1),
                          cat_Finalizers := filter (\<lambda>f. f \<noteq> fbcDeletionFinalizer) (cat_Finalizers cat1)\<rparr>, zero_result, None))
      else case cr_Finalize r fbcDeletionFinalizer (cache_finalizer r) s cat of
        (s1, cat1, Inl err) \<Rightarrow> (s1, cat1, zero_result, Some err)
      | (s1, cat1, Inr fin) \<Rightarrow>
          if Updated fin \<or> StatusUpdated fin then (s1, cat1, zero_result, None)
          else if cat_DeletionTimestamp cat1 \<noteq> None then (s1, cat1, zero_result, None)
          else (case needsUnpack r s1 cat1 of
                  Inl err \<Rightarrow> (s1, cat1, zero_result, Some err)
                | Inr (Some d) \<Rightarrow>
                    (s1, cat1, nextPollResult (cr_Jitter r) (cr_Now r (world s1)) (sc_lastSuccessfulPoll d) cat1, None)
                | Inr None \<Rightarrow> unpack_catalog r s1 cat1))"

record 'w cat_client =
  GetCatalog :: "'w \<Rightarrow> string \<Rightarrow> 'w \<times> cluster_catalog res"
  UpdateCatalogStatus :: "'w \<Rightarrow> cluster_catalog \<Rightarrow> 'w \<times> goerr option"
  PatchCatalogFinalizers :: "'w \<Rightarrow> cluster_catalog \<Rightarrow> string list \<Rightarrow> 'w \<times> goerr option"

definition catalog_fields_changed :: "cluster_catalog \<Rightarrow> cluster_catalog \<Rightarrow> bool" where
  "catalog_fields_changed a b =
     (cat_Annotations a \<noteq> cat_Annotations b \<or> cat_Labels a \<noteq> cat_Labels b \<or> cat_Spec a \<noteq> cat_Spec b)"

definition Catalog_Reconcile ::
  "'w cat_client \<Rightarrow> ('w, 'fs) catalog_reconciler \<Rightarrow> 'w cat_state \<Rightarrow> string \<Rightarrow> 'w cat_state \<times> ctrl_result \<times> goerr option" where
  "Catalog_Reconcile c r s name =
     (case GetCatalog c (world s) name of
        (w0, Inl err) \<Rightarrow> (s\<lparr>world := w0\<rparr>, zero_result, if as_status err = Some ''NotFound'' then None else Some err)
      | (w0, Inr existing) \<Rightarrow>
          (case catalog_reconcile r (s\<lparr>world := w0\<rparr>) existing of (s1, cat, res, reconcileErr) \<Rightarrow>
             let s2 = (if reconcileErr \<noteq> None then deleteStoredCatalog (cat_Name cat) s1 else s1)
             in if catalog_fields_changed existing cat then (s2, res, Some (ErrPanic ''spec or metadata changed by reconciler''))
                else
                  let (w3, err3) = (if cat_Status existing \<noteq> cat_Status cat
                        then (case UpdateCatalogStatus c (world s2) cat of (w, oe) \<Rightarrow> (w, add_error reconcileErr ''error updating status: '' oe))
                        else (world s2, reconcileErr));
                      (w4, err4) = (if cat_Finalizers existing \<noteq> cat_Finalizers cat
                        then (case PatchCatalogFinalizers c w3 cat (cat_Finalizers cat) of (w, oe) \<Rightarrow>
                                (w, add_error err3 ''error updating finalizers: '' oe))
                        else (w3, err3))
                  in (s2\<lparr>world := w4\<rparr>, res, err4)))"

section \<open>Webhook\<close>

definition Default :: "cluster_catalog \<Rightarrow> cluster_catalog" where
  "Default obj = obj\<lparr>cat_Labels := map_put MetadataNameLabel (cat_Name obj) (cat_Labels obj)\<rparr>"

section \<open>Lemmas\<close>

definition has_condition :: "cond_api \<Rightarrow> catalog_status \<Rightarrow> condition \<Rightarrow> bool" where
  "has_condition A st c \<longleftrightarrow> (\<exists>d. apiFindStatusCondition A (cst_Conditions st) (cond_Type c) = Some d \<and> cond_like d c)"

definition served :: "('w, 'fs) catalog_reconciler \<Rightarrow> 'w cat_state \<Rightarrow> cluster_catalog \<Rightarrow> bool" where
  "served r s cat \<longleftrightarrow>
     cr_ContentExists r (world s) (cat_Name cat)
     \<and> has_condition (cr_Conds r) (cat_Status cat) (serving_cond (cat_Generation cat))
     \<and> has_condition (cr_Conds r) (cat_Status cat) (progressing_cond (cat_Generation cat) None)
     \<and> cst_URLs (cat_Status cat) = Some (cr_BaseURL r (cat_Name cat))"

lemma cond_types [simp]: "cond_Type (serving_cond g) = TypeServing" "cond_Type (progressing_cond g oe) = TypeProgressing"
  by (simp_all add: serving_cond_def progressing_cond_def mk_cond_def split: option.split)

lemma has_condition_set:
  assumes "cond_laws A"
  shows "has_condition A (set_cat_cond A c st) c"
    "cond_Type c \<noteq> cond_Type e \<Longrightarrow> has_condition A (set_cat_cond A c st) e = has_condition A st e"
  using cond_laws_set_same [OF assms] cond_laws_set_other [OF assms] by (auto simp: has_condition_def set_cat_cond_def)

lemma set_cat_cond_settled: "cond_settles A \<Longrightarrow> has_condition A st c \<Longrightarrow> set_cat_cond A c st = st"
  by (auto simp: cond_settles_def has_condition_def set_cat_cond_def)

lemma set_cat_cond_sel [simp]:
  "cst_URLs (set_cat_cond A c st) = cst_URLs st" "cst_ResolvedSource (set_cat_cond A c st) = cst_ResolvedSource st"
  "cst_LastUnpacked (set_cat_cond A c st) = cst_LastUnpacked st"
  by (simp_all add: set_cat_cond_def)

lemma has_condition_fields [simp]:
  "has_condition A (st\<lparr>cst_ResolvedSource := a, cst_URLs := b, cst_LastUnpacked := t\<rparr>) c = has_condition A st c"
  by (simp add: has_condition_def)

definition known_only :: "catalog_status \<Rightarrow> bool" where
  "known_only st \<longleftrightarrow> cond_Type ` set (cst_Conditions st) \<subseteq> {TypeServing, TypeProgressing}"

lemma known_only_set:
  "cond_settles A \<Longrightarrow> known_only st \<Longrightarrow> cond_Type c \<in> {TypeServing, TypeProgressing} \<Longrightarrow> known_only (set_cat_cond A c st)"
proof -
  assume a: "cond_settles A" "known_only st" "cond_Type c \<in> {TypeServing, TypeProgressing}"
  have "cond_Type ` set (apiSetStatusCondition A (cst_Conditions st) c) \<subseteq> insert (cond_Type c) (cond_Type ` set (cst_Conditions st))"
    using a(1) unfolding cond_settles_def by blast
  also have "\<dots> \<subseteq> {TypeServing, TypeProgressing}"
    using a(2,3) unfolding known_only_def by (simp only: insert_subset simp_thms)
  finally show ?thesis by (simp add: known_only_def set_cat_cond_def)
qed

lemma clear_known: "known_only st \<Longrightarrow> clearUnknownConditions st = st"
proof -
  assume "known_only st"
  then have "filter (\<lambda>c. cond_Type c \<in> {TypeServing, TypeProgressing}) (cst_Conditions st) = cst_Conditions st"
    unfolding known_only_def image_subset_iff by (rule filter_True)
  then show ?thesis by (simp only: clearUnknownConditions_def) simp
qed

lemma unpacked_status:
  assumes "cond_laws A" "st' = updateStatusServing A (updateStatusProgressing A st g None) ref t url g"
  shows "has_condition A st' (serving_cond g)" "has_condition A st' (progressing_cond g None)" "cst_URLs st' = Some url"
    "cst_ResolvedSource st' = Some \<lparr>rsv_Type = SourceTypeImage, rsv_Image = Some ref\<rparr>" "cst_LastUnpacked st' = Some (truncate_second t)"
  unfolding assms(2) updateStatusServing_def updateStatusProgressing_def
  using has_condition_set [OF assms(1)] by simp_all

lemma expected_settled:
  assumes "cond_settles A" "known_only st" "has_condition A st (serving_cond g)" "has_condition A st (progressing_cond g None)"
    "cst_URLs st = Some url" "cst_ResolvedSource st = Some \<lparr>rsv_Type = SourceTypeImage, rsv_Image = Some ref\<rparr>"
    "cst_LastUnpacked st = Some (truncate_second t)"
  shows "updateStatusProgressing A (updateStatusServing A (clearUnknownConditions st) ref t url g) g None = st"
proof -
  have "st\<lparr>cst_ResolvedSource := Some \<lparr>rsv_Type = SourceTypeImage, rsv_Image = Some ref\<rparr>, cst_URLs := Some url,
      cst_LastUnpacked := Some (truncate_second t)\<rparr> = st"
    using assms(5-7) by (cases st) simp
  then show ?thesis
    using assms(3,4) by (simp add: updateStatusServing_def updateStatusProgressing_def clear_known [OF assms(2)]
        set_cat_cond_settled [OF assms(1)])
qed

section \<open>One reconcile\<close>

text \<open>The documented behaviour of the finalizer library on an object that carries the finalizer and is not deleted: nothing happens.\<close>

definition finalize_idle :: "('w, 'fs) catalog_reconciler \<Rightarrow> bool" where
  "finalize_idle r \<longleftrightarrow>
     (\<forall>f s cat. fbcDeletionFinalizer \<in> set (cat_Finalizers cat) \<and> cat_DeletionTimestamp cat = None \<longrightarrow>
        cr_Finalize r fbcDeletionFinalizer f s cat = (s, cat, Inr \<lparr>Updated = False, StatusUpdated = False\<rparr>))"

definition ready :: "cluster_catalog \<Rightarrow> bool" where
  "ready cat \<longleftrightarrow>
     cat_AvailabilityMode (cat_Spec cat) \<noteq> AvailabilityModeUnavailable \<and> fbcDeletionFinalizer \<in> set (cat_Finalizers cat)
     \<and> cat_DeletionTimestamp cat = None \<and> cs_Type (cat_Source (cat_Spec cat)) = SourceTypeImage
     \<and> cs_Image (cat_Source (cat_Spec cat)) \<noteq> None"

lemma ready_status [simp]: "ready (cat\<lparr>cat_Status := st\<rparr>) = ready cat"
  by (simp add: ready_def)

lemma reconcile_ready:
  assumes "finalize_idle r" "ready cat"
  shows "catalog_reconcile r s cat =
     (case needsUnpack r s cat of
        Inl err \<Rightarrow> (s, cat, zero_result, Some err)
      | Inr (Some d) \<Rightarrow> (s, cat, nextPollResult (cr_Jitter r) (cr_Now r (world s)) (sc_lastSuccessfulPoll d) cat, None)
      | Inr None \<Rightarrow> unpack_catalog r s cat)"
proof -
  have "cr_Finalize r fbcDeletionFinalizer (cache_finalizer r) s cat = (s, cat, Inr \<lparr>Updated = False, StatusUpdated = False\<rparr>)"
    using assms by (simp add: finalize_idle_def ready_def)
  then show ?thesis using assms(2) by (simp add: catalog_reconcile_def ready_def)
qed

lemma needsUnpack_ready: "ready cat \<Longrightarrow> needsUnpack r s cat \<noteq> Inl e"
  by (auto simp: needsUnpack_def ready_def needsPoll_def split: prod.splits option.splits if_splits bool.splits)

lemma needsUnpack_stored:
  assumes "needsUnpack r s cat = Inr (Some d)"
  shows "map_of (storedCatalogs s) (cat_Name cat) = Some d" "cr_ContentExists r (world s) (cat_Name cat)"
    "cat_Generation cat = sc_observedGeneration d"
    "cat_Status cat = updateStatusProgressing (cr_Conds r)
       (updateStatusServing (cr_Conds r) (clearUnknownConditions (cat_Status cat)) (sc_ref d) (sc_lastUnpack d)
          (cr_BaseURL r (cat_Name cat)) (sc_observedGeneration d)) (sc_observedGeneration d) None"
  using assms by (auto simp: needsUnpack_def getCurrentState_def Let_def split: option.splits if_splits sum.splits bool.splits)

lemma stored_served:
  assumes "cond_laws (cr_Conds r)" "needsUnpack r s cat = Inr (Some d)"
  shows "served r s cat"
proof -
  note n = needsUnpack_stored [OF assms(2)]
  let ?A = "cr_Conds r" and ?g = "sc_observedGeneration d"
  let ?st = "updateStatusServing ?A (clearUnknownConditions (cat_Status cat)) (sc_ref d) (sc_lastUnpack d) (cr_BaseURL r (cat_Name cat)) ?g"
  have "has_condition ?A (updateStatusProgressing ?A ?st ?g None) (serving_cond ?g)"
    "has_condition ?A (updateStatusProgressing ?A ?st ?g None) (progressing_cond ?g None)"
    "cst_URLs (updateStatusProgressing ?A ?st ?g None) = Some (cr_BaseURL r (cat_Name cat))"
    unfolding updateStatusServing_def updateStatusProgressing_def using has_condition_set [OF assms(1)] by simp_all
  then show ?thesis unfolding served_def n(3) n(4) [symmetric] using n(2) by simp
qed

lemma unpack_ok:
  assumes "ready cat" "cs_Image (cat_Source (cat_Spec cat)) = Some img"
    "cr_Pull r (world s) (cat_Name cat) (img_Ref img) = (w1, Inr (fs, ref, t))" "cr_Store r w1 (cat_Name cat) fs = (w2, None)"
  shows "unpack_catalog r s cat =
    (s\<lparr>world := w2, storedCatalogs := map_put (cat_Name cat)
        \<lparr>sc_ref = ref, sc_lastUnpack = t, sc_lastSuccessfulPoll = cr_Now r w2, sc_observedGeneration = cat_Generation cat\<rparr> (storedCatalogs s)\<rparr>,
     cat\<lparr>cat_Status := updateStatusServing (cr_Conds r) (updateStatusProgressing (cr_Conds r) (cat_Status cat) (cat_Generation cat) None)
        ref t (cr_BaseURL r (cat_Name cat)) (cat_Generation cat)\<rparr>,
     nextPollResult (cr_Jitter r) (cr_Now r w2) (cr_Now r w2) cat, None)"
  using assms by (simp add: unpack_catalog_def ready_def Let_def)

lemma unpack_served:
  assumes "cond_laws (cr_Conds r)" "ready cat" "cs_Image (cat_Source (cat_Spec cat)) = Some img"
    "cr_Pull r (world s) (cat_Name cat) (img_Ref img) = (w1, Inr (fs, ref, t))" "cr_Store r w1 (cat_Name cat) fs = (w2, None)"
    "cr_ContentExists r w2 (cat_Name cat)" "unpack_catalog r s cat = (s', cat', res, oe)"
  shows "served r s' cat' \<and> oe = None"
proof -
  note u = unpacked_status [OF assms(1) refl, of "cat_Status cat" "cat_Generation cat" ref t "cr_BaseURL r (cat_Name cat)"]
  show ?thesis using assms(6,7) u unfolding unpack_ok [OF assms(2-5)] by (auto simp: served_def)
qed

text \<open>The controller retries: on an error the entry of the in-memory map is dropped and the catalog is reconciled again.\<close>

fun attempts :: "('w, 'fs) catalog_reconciler \<Rightarrow> nat \<Rightarrow> 'w cat_state \<Rightarrow> cluster_catalog \<Rightarrow> 'w cat_state \<times> cluster_catalog" where
  "attempts r 0 s cat = (s, cat)"
| "attempts r (Suc n) s cat =
     (case catalog_reconcile r s cat of (s1, cat1, res, oerr) \<Rightarrow>
        attempts r n (if oerr \<noteq> None then deleteStoredCatalog (cat_Name cat1) s1 else s1) cat1)"

text \<open>A failing pull or store uses up something that is finite: failures do not go on for ever.\<close>

definition failures_end :: "('w, 'fs) catalog_reconciler \<Rightarrow> ('w \<Rightarrow> nat) \<Rightarrow> string \<Rightarrow> string \<Rightarrow> bool" where
  "failures_end r \<mu> name ref \<longleftrightarrow>
     (\<forall>w w' e. cr_Pull r w name ref = (w', Inl e) \<longrightarrow> \<mu> w' < \<mu> w)
     \<and> (\<forall>w w1 fs c t w' e. cr_Pull r w name ref = (w1, Inr (fs, c, t)) \<and> cr_Store r w1 name fs = (w', Some e) \<longrightarrow> \<mu> w' < \<mu> w)"

lemma eventually_served:
  assumes "cond_laws (cr_Conds r)" "finalize_idle r"
    and exists: "\<And>w w' n x. cr_Store r w n x = (w', None) \<Longrightarrow> cr_ContentExists r w' n"
  shows "\<lbrakk>ready cat; cs_Image (cat_Source (cat_Spec cat)) = Some img; failures_end r \<mu> (cat_Name cat) (img_Ref img)\<rbrakk>
    \<Longrightarrow> \<exists>n \<le> Suc (\<mu> (world s)). served r (fst (attempts r n s cat)) (snd (attempts r n s cat))"
proof (induction "\<mu> (world s)" arbitrary: s cat rule: less_induct)
  case less
  note rec = reconcile_ready [OF assms(2) less.prems(1), of s]
  obtain on where on: "needsUnpack r s cat = Inr on" using needsUnpack_ready [OF less.prems(1)] by (cases "needsUnpack r s cat") auto
  show ?case
  proof (cases on)
    case (Some d)
    have "served r s cat" using stored_served [OF assms(1)] on Some by simp
    then show ?thesis by (intro exI [of _ 0]) simp
  next
    case None
    have again: ?thesis if u: "unpack_catalog r s cat = blocked r (s\<lparr>world := w'\<rparr>) cat e" and l: "\<mu> w' < \<mu> (world s)" for w' e
    proof -
      let ?s = "deleteStoredCatalog (cat_Name cat) (s\<lparr>world := w'\<rparr>)"
      let ?c = "cat\<lparr>cat_Status := updateStatusProgressing (cr_Conds r) (cat_Status cat) (cat_Generation cat) (Some e)\<rparr>"
      have w: "world ?s = w'" by (simp add: deleteStoredCatalog_def)
      obtain n where "n \<le> Suc (\<mu> w')" "served r (fst (attempts r n ?s ?c)) (snd (attempts r n ?s ?c))"
        using less.hyps [of ?s ?c] less.prems l w by auto
      then show ?thesis
        using u l rec on None by (intro exI [of _ "Suc n"]) (simp add: blocked_def)
    qed
    obtain w1 pr where p: "cr_Pull r (world s) (cat_Name cat) (img_Ref img) = (w1, pr)"
      by (cases "cr_Pull r (world s) (cat_Name cat) (img_Ref img)")
    show ?thesis
    proof (cases pr)
      case (Inl e)
      then show ?thesis
        using less.prems p by (intro again [of w1 "ErrWrap ''source catalog content: '' e"])
          (auto simp: unpack_catalog_def ready_def failures_end_def)
    next
      case (Inr q)
      obtain fs ref t where q: "q = (fs, ref, t)" by (cases q)
      obtain w2 se where st: "cr_Store r w1 (cat_Name cat) fs = (w2, se)" by (cases "cr_Store r w1 (cat_Name cat) fs")
      show ?thesis
      proof (cases se)
        case (Some e)
        have "\<mu> w2 < \<mu> (world s)" using less.prems(3) p Inr q st Some unfolding failures_end_def by blast
        then show ?thesis
          using less.prems p Inr q st Some by (intro again [of w2 "ErrText (''error storing fbc: '' @ Error e)"])
            (simp_all add: unpack_catalog_def ready_def)
      next
        case None
        obtain s' cat' res oe where u: "unpack_catalog r s cat = (s', cat', res, oe)" by (cases "unpack_catalog r s cat")
        have "served r s' cat' \<and> oe = None"
          using unpack_served [OF assms(1) less.prems(1,2) p [unfolded Inr q] st [unfolded None] _ u] exists st None by blast
        then show ?thesis
          using rec on \<open>on = None\<close> u by (intro exI [of _ "Suc 0"]) simp
      qed
    qed
  qed
qed

lemma unknown_unpacks:
  assumes "cond_laws (cr_Conds r)" "cond_settles (cr_Conds r)" "t \<notin> {TypeServing, TypeProgressing}"
    "t \<in> cond_Type ` set (cst_Conditions (cat_Status cat))"
  shows "needsUnpack r s cat \<noteq> Inr (Some d)"
proof
  let ?A = "cr_Conds r"
  assume n: "needsUnpack r s cat = Inr (Some d)"
  have "known_only (clearUnknownConditions (cat_Status cat))"
    by (simp add: known_only_def clearUnknownConditions_def image_subset_iff)
  then have "known_only (updateStatusProgressing ?A
     (updateStatusServing ?A (clearUnknownConditions (cat_Status cat)) (sc_ref d) (sc_lastUnpack d) (cr_BaseURL r (cat_Name cat)) (sc_observedGeneration d))
       (sc_observedGeneration d) None)"
    unfolding updateStatusProgressing_def updateStatusServing_def
    by (intro known_only_set [OF assms(2)]) (simp_all add: known_only_def)
  then have "known_only (cat_Status cat)" unfolding needsUnpack_stored(4) [OF n, symmetric] .
  then show False using assms(3,4) unfolding known_only_def by blast
qed

lemma unknown_stays:
  assumes "cond_laws A" "cond_settles A" "t \<noteq> cond_Type c" "t \<in> cond_Type ` set (cst_Conditions st)"
  shows "t \<in> cond_Type ` set (cst_Conditions (set_cat_cond A c st))"
proof -
  have none: "apiFindStatusCondition A cs t = None \<longleftrightarrow> t \<notin> cond_Type ` set cs" for cs
    using assms(2) unfolding cond_settles_def by blast
  show ?thesis
    using none [of "cst_Conditions st"] none [of "apiSetStatusCondition A (cst_Conditions st) c"]
      cond_laws_set_other [OF assms(1,3), of "cst_Conditions st"] assms(4) by (auto simp: set_cat_cond_def)
qed

section \<open>Properties\<close>



text \<open>
  A condition of any type other than Serving and Progressing makes every reconcile unpack the catalog again: whatever the state, the controller
  finds that the status differs from the expected one, and unpacking keeps the foreign condition.
\<close>

lemma unknown_condition_always_unpacks:
  assumes "cond_laws (cr_Conds r)" "cond_settles (cr_Conds r)" "finalize_idle r" "ready cat"
    "ty \<notin> {TypeServing, TypeProgressing}" "ty \<in> cond_Type ` set (cst_Conditions (cat_Status cat))"
  shows "catalog_reconcile r s cat = unpack_catalog r s cat
     \<and> ty \<in> cond_Type ` set (cst_Conditions (cat_Status (fst (snd (catalog_reconcile r s cat)))))"
proof -
  have "needsUnpack r s cat = Inr None"
    using unknown_unpacks [OF assms(1,2,5,6), of s] needsUnpack_ready [OF assms(4), of r s]
    by (cases "needsUnpack r s cat"; cases "projr (needsUnpack r s cat)") auto
  then have rec: "catalog_reconcile r s cat = unpack_catalog r s cat" using reconcile_ready [OF assms(3,4), of s] by simp
  have ne: "ty \<noteq> TypeServing" "ty \<noteq> TypeProgressing" using assms(5) by blast+
  have stays: "ty \<in> cond_Type ` set (cst_Conditions (updateStatusProgressing (cr_Conds r) (cat_Status cat) g oe))" for g oe
    unfolding updateStatusProgressing_def using ne by (intro unknown_stays [OF assms(1,2) _ assms(6)]) simp
  have "ty \<in> cond_Type ` set (cst_Conditions (updateStatusServing (cr_Conds r)
      (updateStatusProgressing (cr_Conds r) (cat_Status cat) g oe) ref t url g))" for g oe ref t url
    unfolding updateStatusServing_def using ne stays by (intro unknown_stays [OF assms(1,2)]) simp_all
  then show ?thesis
    using rec stays by (simp add: unpack_catalog_def blocked_def Let_def split: option.split prod.split sum.split)
qed

text \<open>
  Polling is exact for intervals up to 153722867 minutes: a poll is due when the interval has passed since the last successful one.  One
  minute more overflows the 64-bit duration, and a poll is due at once.
\<close>

lemma needsPoll_bounds:
  assumes "cs_Image (cat_Source (cat_Spec cat)) = Some img" "img_PollIntervalMinutes img = Some m" "1 \<le> m" "prev \<le> now"
  shows "(m \<le> 153722867 \<longrightarrow> needsPoll now prev cat = Inr (prev + m * 60 * second < now))
     \<and> (m = 153722868 \<longrightarrow> needsPoll now prev cat = Inr True)"
proof -
  have "minutes m = m * 60 * second" if "m \<le> 153722867"
  proof -
    have "(m * (60 * second) + 2 ^ 63) mod 2 ^ 64 = m * (60 * second) + 2 ^ 63"
      using that assms(3) by (intro mod_pos_pos_trivial) simp_all
    then show ?thesis by (simp add: minutes_def wrap64_def)
  qed
  moreover have "minutes 153722868 < 0" by (simp add: minutes_def wrap64_def)
  ultimately show ?thesis using assms by (auto simp: needsPoll_def)
qed

definition ex_served_catalog :: "condition list \<Rightarrow> cluster_catalog" where
  "ex_served_catalog cs =
     \<lparr>cat_Name = ''c'', cat_Generation = 3, cat_Labels = [], cat_Annotations = [], cat_Finalizers = [fbcDeletionFinalizer],
      cat_DeletionTimestamp = None,
      cat_Spec = \<lparr>cat_Source = \<lparr>cs_Type = SourceTypeImage, cs_Image = Some \<lparr>img_Ref = ''img'', img_PollIntervalMinutes = Some 153722868\<rparr>\<rparr>,
                  cat_Priority = 0, cat_AvailabilityMode = AvailabilityModeAvailable\<rparr>,
      cat_Status = \<lparr>cst_Conditions = cs, cst_ResolvedSource = None, cst_URLs = None, cst_LastUnpacked = None\<rparr>\<rparr>"

definition ex_finalize_idle :: "string \<Rightarrow> 'w cat_finalizer \<Rightarrow> 'w cat_state \<Rightarrow> cluster_catalog \<Rightarrow> 'w cat_state \<times> cluster_catalog \<times> finalize_result res" where
  "ex_finalize_idle key f s cat = (s, cat, Inr \<lparr>Updated = False, StatusUpdated = False\<rparr>)"

text \<open>A puller whose next calls fail as often as the world says.\<close>

definition ex_flaky :: "(nat, meta list) catalog_reconciler" where
  "ex_flaky =
     \<lparr>cr_Conds = doc_cond_api 7,
      cr_Pull = (\<lambda>w n ref. if w = 0 then (0, Inr (ex_metas, ''img@sha256:0'', second)) else (w - 1, Inl (ErrText ''connection refused''))),
      cr_CacheDelete = (\<lambda>w n. (w, None)), cr_Store = (\<lambda>w n x. (w, None)), cr_Delete = (\<lambda>w n. (w, None)),
      cr_ContentExists = (\<lambda>w n. True), cr_BaseURL = (\<lambda>n. ''https://catalogd/'' @ n), cr_Now = (\<lambda>w. 9 * second),
      cr_Jitter = id, cr_Finalize = ex_finalize_idle\<rparr>"

definition ex_catalogd :: "(dir_root, meta list) catalog_reconciler" where
  "ex_catalogd =
     \<lparr>cr_Conds = doc_cond_api 7, cr_Pull = (\<lambda>w n ref. (w, Inr (ex_metas, ''img@sha256:0'', second))),
      cr_CacheDelete = (\<lambda>w n. (w, None)), cr_Store = Store ex_localdir, cr_Delete = Delete ex_localdir,
      cr_ContentExists = ContentExists ex_localdir, cr_BaseURL = (\<lambda>n. ''https://catalogd/'' @ n), cr_Now = (\<lambda>w. 9 * second),
      cr_Jitter = id, cr_Finalize = ex_finalize_idle\<rparr>"

lemma ex_ready: "ready (ex_served_catalog cs)"
  by (simp add: ready_def ex_served_catalog_def)

lemma ex_idle: "finalize_idle ex_flaky" "finalize_idle ex_catalogd"
  by (simp_all add: finalize_idle_def ex_flaky_def ex_catalogd_def ex_finalize_idle_def)

lemma ex_conds:
  "cond_laws (cr_Conds ex_flaky)" "cond_laws (cr_Conds ex_catalogd)" "cond_settles (cr_Conds ex_catalogd)"
  using doc_cond_laws doc_cond_settles by (simp_all add: ex_flaky_def ex_catalogd_def)

lemma ex_image: "cs_Image (cat_Source (cat_Spec (ex_served_catalog cs))) = Some \<lparr>img_Ref = ''img'', img_PollIntervalMinutes = Some 153722868\<rparr>"
  by (simp add: ex_served_catalog_def)



lemma unknown_condition_always_unpacks_witness:
  "\<exists>c. catalog_reconcile ex_catalogd \<lparr>world = ex_root, storedCatalogs = []\<rparr> (ex_served_catalog [mk_cond ''Deprecated'' ConditionTrue [] [] 1])
      = unpack_catalog ex_catalogd \<lparr>world = ex_root, storedCatalogs = []\<rparr> (ex_served_catalog [mk_cond ''Deprecated'' ConditionTrue [] [] 1])
    \<and> c \<in> set (cst_Conditions (cat_Status (fst (snd (catalog_reconcile ex_catalogd \<lparr>world = ex_root, storedCatalogs = []\<rparr>
          (ex_served_catalog [mk_cond ''Deprecated'' ConditionTrue [] [] 1])))))) \<and> cond_Type c = ''Deprecated''"
proof -
  have "''Deprecated'' \<in> cond_Type ` set (cst_Conditions (cat_Status (ex_served_catalog [mk_cond ''Deprecated'' ConditionTrue [] [] 1])))"
    by (simp add: ex_served_catalog_def mk_cond_def)
  from unknown_condition_always_unpacks [OF ex_conds(2,3) ex_idle(2) ex_ready _ this, of "\<lparr>world = ex_root, storedCatalogs = []\<rparr>"]
  show ?thesis by auto
qed

lemma needsPoll_bounds_witness: "needsPoll (5 * second) (4 * second) (ex_served_catalog []) = Inr True"
  using needsPoll_bounds [OF ex_image, of 153722868 "4 * second" "5 * second"] by simp

end
