(* ===== verification/BundleTypes.thy ===== *)
theory BundleTypes
  imports RukpakUtil
begin

text \<open>
  The data of registry+v1 bundles (\<^verbatim>\<open>rukpak/bundle/registryv1.go\<close>, with what the renderer reads of the operator-framework and
  Kubernetes types) and of the objects rendered from them, with their constructors (\<^verbatim>\<open>registryv1/generators/resources.go\<close>).  Parts
  of Kubernetes types that are only copied are kept as text.
\<close>

section \<open>Cluster service versions\<close>

record install_mode =
  im_Type :: string
  im_Supported :: bool

abbreviation InstallModeTypeOwnNamespace :: string where "InstallModeTypeOwnNamespace \<equiv> ''OwnNamespace''"
abbreviation InstallModeTypeSingleNamespace :: string where "InstallModeTypeSingleNamespace \<equiv> ''SingleNamespace''"
abbreviation InstallModeTypeMultiNamespace :: string where "InstallModeTypeMultiNamespace \<equiv> ''MultiNamespace''"
abbreviation InstallModeTypeAllNamespaces :: string where "InstallModeTypeAllNamespaces \<equiv> ''AllNamespaces''"

abbreviation ValidatingAdmissionWebhook :: string where "ValidatingAdmissionWebhook \<equiv> ''ValidatingAdmissionWebhook''"
abbreviation MutatingAdmissionWebhook :: string where "MutatingAdmissionWebhook \<equiv> ''MutatingAdmissionWebhook''"
abbreviation ConversionWebhook :: string where "ConversionWebhook \<equiv> ''ConversionWebhook''"

datatype int_or_string = FromInt int | FromString string

record webhook_rule =
  wr_Operations :: "string list"
  wr_APIGroups :: "string list"
  wr_APIVersions :: "string list"
  wr_Resources :: "string list"
  wr_Scope :: "string option"

record webhook_description =
  wh_GenerateName :: string
  wh_Type :: string
  wh_DeploymentName :: string
  wh_ContainerPort :: int
  wh_TargetPort :: "int_or_string option"
  wh_Rules :: "webhook_rule list"
  wh_FailurePolicy :: "string option"
  wh_MatchPolicy :: "string option"
  wh_ObjectSelector :: "label_selector option"
  wh_SideEffects :: "string option"
  wh_TimeoutSeconds :: "int option"
  wh_AdmissionReviewVersions :: "string list"
  wh_ReinvocationPolicy :: "string option"
  wh_WebhookPath :: "string option"
  wh_ConversionCRDs :: "string list"

record permission =
  sdp_ServiceAccountName :: string
  sdp_Rules :: "policy_rule list"

section \<open>Deployments\<close>

datatype volume_source = SecretVolume string "(string \<times> string) list" | OtherVolume string

record volume =
  vol_Name :: string
  vol_Source :: volume_source

record volume_mount =
  vm_Name :: string
  vm_MountPath :: string
  vm_Other :: string

record env_var =
  env_Name :: string
  env_Value :: string

record container =
  ct_Name :: string
  ct_Env :: "env_var list"
  ct_EnvFrom :: "string list"
  ct_VolumeMounts :: "volume_mount list"
  ct_Resources :: string
  ct_Other :: string

record node_affinity =
  na_Required :: "string list option"
  na_Preferred :: "string list"

record pod_affinity =
  pa_Required :: "string list"
  pa_Preferred :: "string list"

record affinity =
  aff_NodeAffinity :: "node_affinity option"
  aff_PodAffinity :: "pod_affinity option"
  aff_PodAntiAffinity :: "pod_affinity option"

record pod_spec =
  ps_InitContainers :: "container list"
  ps_Containers :: "container list"
  ps_Volumes :: "volume list"
  ps_Tolerations :: "string list"
  ps_NodeSelector :: "labels option"
  ps_Affinity :: "affinity option"
  ps_Other :: string

record pod_template =
  pt_Labels :: labels
  pt_Annotations :: labels
  pt_Spec :: pod_spec

record deployment_spec =
  ds_Selector :: "label_selector option"
  ds_Template :: pod_template
  ds_RevisionHistoryLimit :: "int option"
  ds_Other :: string

record strategy_deployment =
  sds_Name :: string
  sds_Label :: labels
  sds_Spec :: deployment_spec

section \<open>Bundles\<close>

record cluster_service_version =
  csv_Name :: string
  csv_Annotations :: labels
  csv_InstallModes :: "install_mode list"
  csv_Permissions :: "permission list"
  csv_ClusterPermissions :: "permission list"
  csv_DeploymentSpecs :: "strategy_deployment list"
  csv_WebhookDefinitions :: "webhook_description list"
  csv_OwnedCRDs :: "string list"
  csv_OwnedAPIServices :: "string list"

record service_reference =
  sr_Namespace :: string
  sr_Name :: string
  sr_Path :: "string option"
  sr_Port :: int

record crd_conversion =
  conv_Strategy :: string
  conv_Service :: service_reference
  conv_ReviewVersions :: "string list"

record custom_resource_definition =
  crd_Name :: string
  crd_Labels :: labels
  crd_Annotations :: labels
  crd_PreserveUnknownFields :: bool
  crd_Conversion :: "crd_conversion option"
  crd_Other :: string

record registry_v1 =
  rv1_PackageName :: string
  rv1_CSV :: cluster_service_version
  rv1_CRDs :: "custom_resource_definition list"
  rv1_Others :: "k8s_object list"

section \<open>Rendered objects\<close>

record object_meta =
  om_Name :: string
  om_Namespace :: string
  om_Labels :: labels
  om_Annotations :: labels

definition named :: "string \<Rightarrow> string \<Rightarrow> object_meta" where
  "named name namespace = \<lparr>om_Name = name, om_Namespace = namespace, om_Labels = [], om_Annotations = []\<rparr>"

record rbac_subject =
  sj_Kind :: string
  sj_Namespace :: string
  sj_Name :: string

record role_ref =
  rr_APIGroup :: string
  rr_Kind :: string
  rr_Name :: string

record service_port =
  sp_Name :: string
  sp_Port :: int
  sp_TargetPort :: int_or_string

record service_spec =
  ss_Ports :: "service_port list"
  ss_Selector :: labels

record admission_webhook =
  aw_Name :: string
  aw_Rules :: "webhook_rule list"
  aw_FailurePolicy :: "string option"
  aw_MatchPolicy :: "string option"
  aw_ObjectSelector :: "label_selector option"
  aw_SideEffects :: "string option"
  aw_TimeoutSeconds :: "int option"
  aw_AdmissionReviewVersions :: "string list"
  aw_Service :: service_reference
  aw_ReinvocationPolicy :: "string option"
  aw_NamespaceSelector :: "label_selector option"

datatype client_object =
    ServiceAccountObj object_meta
  | RoleObj object_meta "policy_rule list"
  | RoleBindingObj object_meta "rbac_subject list" role_ref
  | ClusterRoleObj object_meta "policy_rule list"
  | ClusterRoleBindingObj object_meta "rbac_subject list" role_ref
  | DeploymentObj object_meta deployment_spec
  | ServiceObj object_meta service_spec
  | ValidatingWebhookConfigurationObj object_meta "admission_webhook list"
  | MutatingWebhookConfigurationObj object_meta "admission_webhook list"
  | CRDObj custom_resource_definition
  | UnstructuredObj k8s_object

section \<open>Constructors of resources\<close>

type_synonym resource_option = "client_object \<Rightarrow> client_object res"

definition unknown_object_type :: "client_object res" where
  "unknown_object_type = Inl (ErrPanic ''unknown object type'')"

fun ApplyTo :: "resource_option list \<Rightarrow> client_object \<Rightarrow> client_object res" where
  "ApplyTo [] obj = Inr obj"
| "ApplyTo (opt # opts) obj = (case opt obj of Inl err \<Rightarrow> Inl err | Inr obj' \<Rightarrow> ApplyTo opts obj')"

definition WithSubjects :: "rbac_subject list \<Rightarrow> resource_option" where
  "WithSubjects subjects obj =
     (case obj of RoleBindingObj m _ r \<Rightarrow> Inr (RoleBindingObj m subjects r)
      | ClusterRoleBindingObj m _ r \<Rightarrow> Inr (ClusterRoleBindingObj m subjects r) | _ \<Rightarrow> unknown_object_type)"

definition WithRoleRef :: "role_ref \<Rightarrow> resource_option" where
  "WithRoleRef r obj =
     (case obj of RoleBindingObj m s _ \<Rightarrow> Inr (RoleBindingObj m s r)
      | ClusterRoleBindingObj m s _ \<Rightarrow> Inr (ClusterRoleBindingObj m s r) | _ \<Rightarrow> unknown_object_type)"

definition WithRules :: "policy_rule list \<Rightarrow> resource_option" where
  "WithRules rules obj =
     (case obj of RoleObj m _ \<Rightarrow> Inr (RoleObj m rules) | ClusterRoleObj m _ \<Rightarrow> Inr (ClusterRoleObj m rules) | _ \<Rightarrow> unknown_object_type)"

definition WithDeploymentSpec :: "deployment_spec \<Rightarrow> resource_option" where
  "WithDeploymentSpec depSpec obj = (case obj of DeploymentObj m _ \<Rightarrow> Inr (DeploymentObj m depSpec) | _ \<Rightarrow> unknown_object_type)"

definition set_meta :: "(object_meta \<Rightarrow> object_meta) \<Rightarrow> client_object \<Rightarrow> client_object" where
  "set_meta f obj =
     (case obj of
        ServiceAccountObj m \<Rightarrow> ServiceAccountObj (f m) | RoleObj m r \<Rightarrow> RoleObj (f m) r | RoleBindingObj m s r \<Rightarrow> RoleBindingObj (f m) s r
      | ClusterRoleObj m r \<Rightarrow> ClusterRoleObj (f m) r | ClusterRoleBindingObj m s r \<Rightarrow> ClusterRoleBindingObj (f m) s r
      | DeploymentObj m d \<Rightarrow> DeploymentObj (f m) d | ServiceObj m s \<Rightarrow> ServiceObj (f m) s
      | ValidatingWebhookConfigurationObj m w \<Rightarrow> ValidatingWebhookConfigurationObj (f m) w
      | MutatingWebhookConfigurationObj m w \<Rightarrow> MutatingWebhookConfigurationObj (f m) w
      | CRDObj c \<Rightarrow>
          (let m = f \<lparr>om_Name = crd_Name c, om_Namespace = [], om_Labels = crd_Labels c, om_Annotations = crd_Annotations c\<rparr>
           in CRDObj (c\<lparr>crd_Labels := om_Labels m, crd_Annotations := om_Annotations m\<rparr>))
      | UnstructuredObj u \<Rightarrow>
          (let m = f \<lparr>om_Name = obj_Name u, om_Namespace = obj_Namespace u, om_Labels = obj_Labels u, om_Annotations = obj_Annotations u\<rparr>
           in UnstructuredObj (u\<lparr>obj_Labels := om_Labels m, obj_Annotations := om_Annotations m\<rparr>)))"

definition WithLabels :: "labels \<Rightarrow> resource_option" where
  "WithLabels ls obj = Inr (set_meta (\<lambda>m. m\<lparr>om_Labels := ls\<rparr>) obj)"

definition WithServiceSpec :: "service_spec \<Rightarrow> resource_option" where
  "WithServiceSpec spec obj = Inr (case obj of ServiceObj m _ \<Rightarrow> ServiceObj m spec | _ \<Rightarrow> obj)"

definition WithValidatingWebhooks :: "admission_webhook list \<Rightarrow> resource_option" where
  "WithValidatingWebhooks ws obj =
     Inr (case obj of ValidatingWebhookConfigurationObj m _ \<Rightarrow> ValidatingWebhookConfigurationObj m ws | _ \<Rightarrow> obj)"

definition WithMutatingWebhooks :: "admission_webhook list \<Rightarrow> resource_option" where
  "WithMutatingWebhooks ws obj =
     Inr (case obj of MutatingWebhookConfigurationObj m _ \<Rightarrow> MutatingWebhookConfigurationObj m ws | _ \<Rightarrow> obj)"

definition zero_role_ref :: role_ref where
  "zero_role_ref = \<lparr>rr_APIGroup = [], rr_Kind = [], rr_Name = []\<rparr>"

definition zero_pod_spec :: pod_spec where
  "zero_pod_spec = \<lparr>ps_InitContainers = [], ps_Containers = [], ps_Volumes = [], ps_Tolerations = [], ps_NodeSelector = None, ps_Affinity = None, ps_Other = []\<rparr>"

definition zero_deployment_spec :: deployment_spec where
  "zero_deployment_spec =
     \<lparr>ds_Selector = None, ds_Template = \<lparr>pt_Labels = [], pt_Annotations = [], pt_Spec = zero_pod_spec\<rparr>, ds_RevisionHistoryLimit = None, ds_Other = []\<rparr>"

definition CreateServiceAccountResource :: "string \<Rightarrow> string \<Rightarrow> resource_option list \<Rightarrow> client_object res" where
  "CreateServiceAccountResource name namespace opts = ApplyTo opts (ServiceAccountObj (named name namespace))"

definition CreateRoleResource :: "string \<Rightarrow> string \<Rightarrow> resource_option list \<Rightarrow> client_object res" where
  "CreateRoleResource name namespace opts = ApplyTo opts (RoleObj (named name namespace) [])"

definition CreateClusterRoleResource :: "string \<Rightarrow> resource_option list \<Rightarrow> client_object res" where
  "CreateClusterRoleResource name opts = ApplyTo opts (ClusterRoleObj (named name []) [])"

definition CreateClusterRoleBindingResource :: "string \<Rightarrow> resource_option list \<Rightarrow> client_object res" where
  "CreateClusterRoleBindingResource name opts = ApplyTo opts (ClusterRoleBindingObj (named name []) [] zero_role_ref)"

definition CreateRoleBindingResource :: "string \<Rightarrow> string \<Rightarrow> resource_option list \<Rightarrow> client_object res" where
  "CreateRoleBindingResource name namespace opts = ApplyTo opts (RoleBindingObj (named name namespace) [] zero_role_ref)"

definition CreateDeploymentResource :: "string \<Rightarrow> string \<Rightarrow> resource_option list \<Rightarrow> client_object res" where
  "CreateDeploymentResource name namespace opts = ApplyTo opts (DeploymentObj (named name namespace) zero_deployment_spec)"

definition CreateValidatingWebhookConfigurationResource :: "string \<Rightarrow> string \<Rightarrow> resource_option list \<Rightarrow> client_object res" where
  "CreateValidatingWebhookConfigurationResource name namespace opts = ApplyTo opts (ValidatingWebhookConfigurationObj (named name namespace) [])"

definition CreateMutatingWebhookConfigurationResource :: "string \<Rightarrow> string \<Rightarrow> resource_option list \<Rightarrow> client_object res" where
  "CreateMutatingWebhookConfigurationResource name namespace opts = ApplyTo opts (MutatingWebhookConfigurationObj (named name namespace) [])"

definition CreateServiceResource :: "string \<Rightarrow> string \<Rightarrow> resource_option list \<Rightarrow> client_object res" where
  "CreateServiceResource name namespace opts = ApplyTo opts (ServiceObj (named name namespace) \<lparr>ss_Ports = [], ss_Selector = []\<rparr>)"

text \<open>What the constructors give with the options the generators use; the panic of an option on a foreign type is not reached.\<close>

lemmas resource_defs = CreateServiceAccountResource_def CreateRoleResource_def CreateClusterRoleResource_def
  CreateClusterRoleBindingResource_def CreateRoleBindingResource_def CreateDeploymentResource_def
  CreateValidatingWebhookConfigurationResource_def CreateMutatingWebhookConfigurationResource_def CreateServiceResource_def
  WithSubjects_def WithRoleRef_def WithRules_def WithDeploymentSpec_def WithLabels_def WithServiceSpec_def
  WithValidatingWebhooks_def WithMutatingWebhooks_def set_meta_def

lemma created_resources [simp]:
  "CreateServiceAccountResource n ns [] = Inr (ServiceAccountObj (named n ns))"
  "CreateRoleResource n ns [WithRules rules] = Inr (RoleObj (named n ns) rules)"
  "CreateClusterRoleResource n [WithRules rules] = Inr (ClusterRoleObj (named n []) rules)"
  "CreateRoleBindingResource n ns [WithSubjects ss, WithRoleRef r] = Inr (RoleBindingObj (named n ns) ss r)"
  "CreateClusterRoleBindingResource n [WithSubjects ss, WithRoleRef r] = Inr (ClusterRoleBindingObj (named n []) ss r)"
  "CreateDeploymentResource n ns [WithDeploymentSpec d, WithLabels ls] = Inr (DeploymentObj ((named n ns)\<lparr>om_Labels := ls\<rparr>) d)"
  "CreateValidatingWebhookConfigurationResource n ns [WithValidatingWebhooks ws] = Inr (ValidatingWebhookConfigurationObj (named n ns) ws)"
  "CreateMutatingWebhookConfigurationResource n ns [WithMutatingWebhooks ws] = Inr (MutatingWebhookConfigurationObj (named n ns) ws)"
  "CreateServiceResource n ns [WithServiceSpec s] = Inr (ServiceObj (named n ns) s)"
  by (simp_all add: resource_defs)

end
