(* ===== verification/BundleValidators.thy ===== *)
theory BundleValidators
  imports BundleTypes
begin

text \<open>
  The validation of registry+v1 bundles (\<^verbatim>\<open>registryv1/validators/validator.go\<close>, and \<^verbatim>\<open>BundleValidator\<close> of \<^verbatim>\<open>render/render.go\<close> with
  its list in \<^verbatim>\<open>registryv1/registryv1.go\<close>).  The name check of Kubernetes, the table of supported kinds of operator-registry and the unstable
  sort are arguments.  Go sets are lists without duplicates; where their order would matter the code sorts them.  A validator
  that sorts a slice of the bundle in place only reorders it.
\<close>

section \<open>Validators\<close>

record validator_libs =
  vl_IsDNS1123Subdomain :: "string \<Rightarrow> string list"
  vl_IsSupported :: "string \<Rightarrow> bool \<times> bool"
  vl_SortFunc :: "webhook_description cmp \<Rightarrow> webhook_description list \<Rightarrow> webhook_description list"

type_synonym validator = "registry_v1 \<Rightarrow> goerr list"

definition squote :: "string \<Rightarrow> string" where
  "squote s = [char_of (39::nat)] @ s @ [char_of (39::nat)]"

abbreviation sorted_strings :: "string list \<Rightarrow> string list" where
  "sorted_strings \<equiv> SortStableFunc cmp_ord"

fun duplicate_names :: "'a list \<Rightarrow> 'a list \<Rightarrow> 'a list \<Rightarrow> 'a list" where
  "duplicate_names seen dups [] = dups"
| "duplicate_names seen dups (n # ns) = duplicate_names (List.insert n seen) (if n \<in> set seen then List.insert n dups else dups) ns"

definition CheckDeploymentSpecUniqueness :: validator where
  "CheckDeploymentSpecUniqueness rv1 =
     map (\<lambda>d. ErrText (''cluster service version contains duplicate strategy deployment spec '' @ squote d))
       (sorted_strings (duplicate_names [] [] (map sds_Name (csv_DeploymentSpecs (rv1_CSV rv1)))))"

definition invalid_names :: "validator_libs \<Rightarrow> string list \<Rightarrow> (string \<times> string list) list" where
  "invalid_names L names =
     fold (\<lambda>n m. let errs = vl_IsDNS1123Subdomain L n in if length errs > 0 then map_put n (sorted_strings errs) m else m) names []"

definition CheckDeploymentNameIsDNS1123SubDomain :: "validator_libs \<Rightarrow> validator" where
  "CheckDeploymentNameIsDNS1123SubDomain L rv1 =
     (let errMap = invalid_names L (map sds_Name (csv_DeploymentSpecs (rv1_CSV rv1)))
      in map (\<lambda>dep. ErrText (''invalid cluster service version strategy deployment name '' @ squote dep @ '': ''
                @ join_str '', '' (the (map_of errMap dep)))) (sorted_strings (map fst errMap)))"

definition CheckOwnedCRDExistence :: validator where
  "CheckOwnedCRDExistence rv1 =
     (let crdsNames = map crd_Name (rv1_CRDs rv1);
          missing = remdups (filter (\<lambda>n. n \<notin> set crdsNames) (csv_OwnedCRDs (rv1_CSV rv1)))
      in map (\<lambda>n. ErrText (''cluster service definition references owned custom resource definition '' @ squote n @ '' not found in bundle''))
           (sorted_strings missing))"

definition CheckCRDResourceUniqueness :: validator where
  "CheckCRDResourceUniqueness rv1 =
     map (\<lambda>n. ErrText (''bundle contains duplicate custom resource definition '' @ squote n))
       (sorted_strings (duplicate_names [] [] (map crd_Name (rv1_CRDs rv1))))"

definition CheckPackageNameNotEmpty :: validator where
  "CheckPackageNameNotEmpty rv1 = (if rv1_PackageName rv1 = [] then [ErrText ''package name is empty''] else [])"

definition supported_modes :: "registry_v1 \<Rightarrow> string list" where
  "supported_modes rv1 = remdups (map im_Type (filter im_Supported (csv_InstallModes (rv1_CSV rv1))))"

definition conversion_webhooks :: "registry_v1 \<Rightarrow> webhook_description list" where
  "conversion_webhooks rv1 = filter (\<lambda>wh. wh_Type wh = ConversionWebhook) (csv_WebhookDefinitions (rv1_CSV rv1))"

definition CheckConversionWebhookSupport :: validator where
  "CheckConversionWebhookSupport rv1 =
     (let names = map wh_GenerateName (conversion_webhooks rv1)
      in if length names > 0
         then let modes = supported_modes rv1
              in if length modes \<noteq> 1 \<or> InstallModeTypeAllNamespaces \<notin> set modes
                 then map (\<lambda>n. ErrText (''bundle contains conversion webhook '' @ quote n @ '' and supports install modes '' @ show_slice (sorted_strings modes)
                         @ '' - conversion webhooks are only supported for bundles that only support AllNamespaces install mode'')) names
                 else []
         else [])"

definition by_type_and_name :: "webhook_description cmp" where
  "by_type_and_name a b =
     (if cmp_ord (wh_Type a) (wh_Type b) \<noteq> 0 then cmp_ord (wh_Type a) (wh_Type b) else cmp_ord (wh_GenerateName a) (wh_GenerateName b))"

definition webhooks_by_deployment :: "webhook_description list \<Rightarrow> (string \<times> webhook_description list) list" where
  "webhooks_by_deployment whs = fold (\<lambda>wh m. map_append (wh_DeploymentName wh) [wh] m) whs []"

definition CheckWebhookDeploymentReferentialIntegrity :: "validator_libs \<Rightarrow> validator" where
  "CheckWebhookDeploymentReferentialIntegrity L rv1 =
     (let deployments = map sds_Name (csv_DeploymentSpecs (rv1_CSV rv1));
          dangling = filter (\<lambda>(d, whs). d \<notin> set deployments) (webhooks_by_deployment (csv_WebhookDefinitions (rv1_CSV rv1)))
      in concat (map (\<lambda>d. map (\<lambda>wh. ErrText (''webhook of type '' @ squote (wh_Type wh) @ '' with name '' @ squote (wh_GenerateName wh)
                   @ '' references non-existent deployment '' @ squote (wh_DeploymentName wh)))
               (vl_SortFunc L by_type_and_name (the (map_of dangling d)))) (sorted_strings (map fst dangling))))"

definition names_of_type :: "webhook_description list \<Rightarrow> string \<Rightarrow> string list" where
  "names_of_type whs t = map wh_GenerateName (filter (\<lambda>wh. wh_Type wh = t) whs)"

definition CheckWebhookNameUniqueness :: validator where
  "CheckWebhookNameUniqueness rv1 =
     (let whs = csv_WebhookDefinitions (rv1_CSV rv1);
          dups = filter (\<lambda>(t, ns). ns \<noteq> []) (map (\<lambda>t. (t, duplicate_names [] [] (names_of_type whs t))) (remdups (map wh_Type whs)))
      in concat (map (\<lambda>t. map (\<lambda>n. ErrText (''duplicate webhook '' @ squote n @ '' of type '' @ squote t))
               (sorted_strings (the (map_of dups t)))) (sorted_strings (map fst dups))))"

definition CheckConversionWebhooksReferenceOwnedCRDs :: "validator_libs \<Rightarrow> validator" where
  "CheckConversionWebhooksReferenceOwnedCRDs L rv1 =
     (let owned = csv_OwnedCRDs (rv1_CSV rv1)
      in concat (map (\<lambda>wh. map (\<lambda>crd. ErrText (''conversion webhook '' @ squote (wh_GenerateName wh) @ '' references custom resource definition ''
                   @ squote crd @ '' not owned bundle'')) (filter (\<lambda>crd. crd \<notin> set owned) (sorted_strings (wh_ConversionCRDs wh))))
           (vl_SortFunc L (\<lambda>a b. cmp_ord (wh_GenerateName a) (wh_GenerateName b)) (conversion_webhooks rv1))))"

definition webhooks_by_crd :: "webhook_description list \<Rightarrow> (string \<times> string list) list" where
  "webhooks_by_crd whs = fold (\<lambda>wh m. fold (\<lambda>crd m. map_append crd [wh_GenerateName wh] m) (wh_ConversionCRDs wh) m) whs []"

definition CheckConversionWebhookCRDReferenceUniqueness :: validator where
  "CheckConversionWebhookCRDReferenceUniqueness rv1 =
     (let shared = filter (\<lambda>(crd, whs). length whs \<noteq> 1) (webhooks_by_crd (conversion_webhooks rv1))
      in map (\<lambda>crd. ErrText (''conversion webhooks ['' @ join_str '','' (sorted_strings (the (map_of shared crd)))
                @ ''] reference same custom resource definition '' @ squote crd)) (sorted_strings (map fst shared)))"

definition CheckWebhookNameIsDNS1123SubDomain :: "validator_libs \<Rightarrow> validator" where
  "CheckWebhookNameIsDNS1123SubDomain L rv1 =
     (let whs = csv_WebhookDefinitions (rv1_CSV rv1)
      in concat (map (\<lambda>t. let errMap = invalid_names L (names_of_type whs t)
           in map (\<lambda>n. ErrText (''webhook of type '' @ squote t @ '' has invalid name '' @ squote n @ '': '' @ join_str '','' (the (map_of errMap n))))
                (sorted_strings (map fst errMap))) (sorted_strings (remdups (map wh_Type whs)))))"

definition forbiddenWebhookRuleAPIGroups :: "string list" where
  "forbiddenWebhookRuleAPIGroups = [''olm.operatorframework.io'', ''*'']"

definition forbiddenAdmissionRegistrationResources :: "string list" where
  "forbiddenAdmissionRegistrationResources =
     [''*'', ''mutatingwebhookconfiguration'', ''mutatingwebhookconfigurations'', ''validatingwebhookconfiguration'', ''validatingwebhookconfigurations'']"

definition to_lower :: "string \<Rightarrow> string" where
  "to_lower s = map (\<lambda>c. let n = (of_char c :: nat) in if 65 \<le> n \<and> n \<le> 90 then char_of (n + 32) else c) s"

definition forbidden_in_rule :: "string \<Rightarrow> webhook_rule \<Rightarrow> goerr list" where
  "forbidden_in_rule webhookName rule =
     concat (map (\<lambda>apiGroup.
       (if apiGroup \<in> set forbiddenWebhookRuleAPIGroups
        then [ErrText (''webhook '' @ quote webhookName @ '' contains forbidden rule: admission webhook rules cannot reference API group '' @ quote apiGroup)]
        else [])
       @ (if apiGroup = ''admissionregistration.k8s.io''
          then map (\<lambda>resource. ErrText (''webhook '' @ quote webhookName @ '' contains forbidden rule: admission webhook rules cannot reference resource ''
                   @ quote resource @ '' for API group '' @ quote apiGroup))
                 (filter (\<lambda>resource. to_lower resource \<in> set forbiddenAdmissionRegistrationResources) (wr_Resources rule))
          else [])) (wr_APIGroups rule))"

definition CheckWebhookRules :: validator where
  "CheckWebhookRules rv1 =
     concat (map (\<lambda>wh. concat (map (forbidden_in_rule (wh_GenerateName wh)) (wh_Rules wh)))
       (filter (\<lambda>wh. wh_Type wh \<noteq> ConversionWebhook) (csv_WebhookDefinitions (rv1_CSV rv1))))"

definition CheckObjectSupport :: "validator_libs \<Rightarrow> validator" where
  "CheckObjectSupport L rv1 =
     map (\<lambda>obj. ErrText (''unsupported resource '' @ quote (obj_Name obj) @ '' with kind '' @ quote (obj_Kind obj)))
       (filter (\<lambda>obj. \<not> fst (vl_IsSupported L (obj_Kind obj))) (rv1_Others rv1))"

section \<open>All of them\<close>

definition Validate :: "validator list \<Rightarrow> registry_v1 \<Rightarrow> goerr option" where
  "Validate v rv1 = errors_Join (concat (map (\<lambda>validator. validator rv1) v))"

definition BundleValidator :: "validator_libs \<Rightarrow> validator list" where
  "BundleValidator L =
     [CheckDeploymentSpecUniqueness, CheckDeploymentNameIsDNS1123SubDomain L, CheckCRDResourceUniqueness, CheckOwnedCRDExistence,
      CheckPackageNameNotEmpty, CheckConversionWebhookSupport, CheckWebhookDeploymentReferentialIntegrity L, CheckWebhookNameUniqueness,
      CheckWebhookNameIsDNS1123SubDomain L, CheckConversionWebhookCRDReferenceUniqueness, CheckConversionWebhooksReferenceOwnedCRDs L,
      CheckWebhookRules, CheckObjectSupport L]"

section \<open>Lemmas\<close>

lemma sorted_strings_empty [simp]: "SortStableFunc c xs = [] \<longleftrightarrow> xs = []"
  using stable.elems [of c xs] by (metis set_empty)

lemma duplicate_names_kept: "dups \<noteq> [] \<Longrightarrow> duplicate_names seen dups ns \<noteq> []"
  by (induction seen dups ns rule: duplicate_names.induct) (auto simp: List.insert_def split: if_splits)

lemma duplicate_names_empty: "duplicate_names seen [] ns = [] \<longleftrightarrow> distinct ns \<and> set ns \<inter> set seen = {}"
proof (induction ns arbitrary: seen)
  case (Cons n ns)
  have "duplicate_names seen' [n] ns \<noteq> []" for seen' by (rule duplicate_names_kept) simp
  then show ?case by (auto simp: Cons List.insert_def)
qed simp

text \<open>Grouping values by key in a map, as the code does with append.\<close>

definition grouped :: "('k \<times> 'v) list \<Rightarrow> ('k \<times> 'v list) list \<Rightarrow> ('k \<times> 'v list) list" where
  "grouped ps m = fold (\<lambda>(k, v) m. map_append k [v] m) ps m"

lemma map_append_keys: "set (map fst (map_append k vs m)) = insert k (set (map fst m))"
  by (induction k vs m rule: map_append.induct) auto

lemma map_append_distinct: "distinct (map fst m) \<Longrightarrow> distinct (map fst (map_append k vs m))"
  by (induction k vs m rule: map_append.induct) (auto simp: map_append_keys [simplified])

lemma map_append_lookup:
  "map_of (map_append k vs m) j = (if j = k then Some ((case map_of m k of None \<Rightarrow> [] | Some ws \<Rightarrow> ws) @ vs) else map_of m j)"
  by (induction k vs m rule: map_append.induct) auto

lemma grouped_distinct: "distinct (map fst m) \<Longrightarrow> distinct (map fst (grouped ps m))"
  unfolding grouped_def by (induction ps arbitrary: m) (auto intro: map_append_distinct split: prod.split)

lemma grouped_lookup:
  "map_of (grouped ps m) k =
     (if k \<in> fst ` set ps then Some ((case map_of m k of None \<Rightarrow> [] | Some ws \<Rightarrow> ws) @ map snd (filter (\<lambda>p. fst p = k) ps)) else map_of m k)"
proof (induction ps arbitrary: m)
  case (Cons p ps)
  have "grouped (p # ps) m = grouped ps (map_append (fst p) [snd p] m)" by (simp add: grouped_def split: prod.split)
  then show ?case by (auto simp: Cons map_append_lookup filter_empty_conv image_iff split: option.split)
qed (simp add: grouped_def)

lemma grouped_mem:
  "(k, vs) \<in> set (grouped ps []) \<longleftrightarrow> k \<in> fst ` set ps \<and> vs = map snd (filter (\<lambda>p. fst p = k) ps)"
proof -
  have "(k, vs) \<in> set (grouped ps []) \<longleftrightarrow> map_of (grouped ps []) k = Some vs"
    using map_of_eq_Some_iff [OF grouped_distinct [of "[]" ps]] by simp
  then show ?thesis by (auto simp: grouped_lookup)
qed

lemma grouped_set: "set (grouped ps []) = (\<lambda>k. (k, map snd (filter (\<lambda>p. fst p = k) ps))) ` fst ` set ps"
  by (force simp: grouped_mem)

lemma distinct_counts: "(\<forall>x \<in> set xs. count_list xs x = 1) \<longleftrightarrow> distinct xs"
proof (induction xs)
  case (Cons x xs)
  have "(\<forall>y \<in> set (x # xs). count_list (x # xs) y = 1) \<longleftrightarrow> x \<notin> set xs \<and> (\<forall>y \<in> set xs. count_list xs y = 1)"
    by (auto simp: count_list_0_iff split: if_splits)
  then show ?case by (simp only: Cons distinct.simps)
qed simp

lemma grouped_singletons: "(\<forall>(k, vs) \<in> set (grouped ps []). length vs = 1) \<longleftrightarrow> distinct (map fst ps)"
proof -
  have "(\<forall>(k, vs) \<in> set (grouped ps []). length vs = 1) \<longleftrightarrow> (\<forall>k \<in> fst ` set ps. count_list (map fst ps) k = 1)"
    by (simp add: grouped_set count_list_eq_length_filter filter_map comp_def eq_commute)
  also have "\<dots> \<longleftrightarrow> distinct (map fst ps)"
    using distinct_counts [of "map fst ps"] by simp
  finally show ?thesis .
qed

lemma fold_put_ne: "m \<noteq> [] \<Longrightarrow> fold (\<lambda>n m. if P n then map_put n (f n) m else m) ns m \<noteq> []"
proof (induction ns arbitrary: m)
  case (Cons n ns)
  have "map_put n (f n) m \<noteq> []" by (cases "(n, f n, m)" rule: map_put.cases) auto
  then show ?case using Cons by simp
qed simp

lemma invalid_names_empty: "invalid_names L ns = [] \<longleftrightarrow> (\<forall>n \<in> set ns. vl_IsDNS1123Subdomain L n = [])"
proof -
  let ?f = "\<lambda>n m. if vl_IsDNS1123Subdomain L n \<noteq> [] then map_put n (sorted_strings (vl_IsDNS1123Subdomain L n)) m else m"
  have "fold ?f ns [] = [] \<longleftrightarrow> (\<forall>n \<in> set ns. vl_IsDNS1123Subdomain L n = [])"
  proof (induction ns)
    case (Cons n ns)
    show ?case
    proof (cases "vl_IsDNS1123Subdomain L n = []")
      case False
      then have "fold ?f ns [(n, sorted_strings (vl_IsDNS1123Subdomain L n))] \<noteq> []"
        by (intro fold_put_ne [where P = "\<lambda>n. vl_IsDNS1123Subdomain L n \<noteq> []"]) simp
      then show ?thesis using False by simp
    qed (use Cons in simp)
  qed simp
  then show ?thesis by (simp add: invalid_names_def Let_def)
qed

lemma by_deployment_grouped: "webhooks_by_deployment whs = grouped (map (\<lambda>wh. (wh_DeploymentName wh, wh)) whs) []"
  by (simp add: webhooks_by_deployment_def grouped_def fold_map comp_def)

lemma by_crd_grouped:
  "webhooks_by_crd whs = grouped (concat (map (\<lambda>wh. map (\<lambda>crd. (crd, wh_GenerateName wh)) (wh_ConversionCRDs wh)) whs)) []"
proof -
  have "fold (\<lambda>wh m. fold (\<lambda>crd m. map_append crd [wh_GenerateName wh] m) (wh_ConversionCRDs wh) m) whs m =
      grouped (concat (map (\<lambda>wh. map (\<lambda>crd. (crd, wh_GenerateName wh)) (wh_ConversionCRDs wh)) whs)) m" for m
    by (induction whs arbitrary: m) (simp_all add: grouped_def fold_map comp_def)
  then show ?thesis by (simp add: webhooks_by_crd_def)
qed

text \<open>A list of sorted, non-empty groups of messages is empty only if there are no groups.\<close>

lemma grouped_errors_empty:
  assumes "\<And>k vs. (k, vs) \<in> set m \<Longrightarrow> f k vs \<noteq> []" "distinct (map fst m)"
  shows "concat (map (\<lambda>k. f k (the (map_of m k))) (SortStableFunc c (map fst m))) = [] \<longleftrightarrow> m = []"
proof
  assume "concat (map (\<lambda>k. f k (the (map_of m k))) (SortStableFunc c (map fst m))) = []"
  then have none: "f k (the (map_of m k)) = []" if "k \<in> fst ` set m" for k
    using that stable.elems [of c "map fst m"] by auto
  have "False" if "(k, vs) \<in> set m" for k vs
    using none [of k] assms that by (force simp: map_of_is_SomeI)
  then show "m = []" by (cases m) auto
qed (simp add: SortStableFunc_def)

section \<open>What each check accepts\<close>

lemma names_ok:
  "CheckDeploymentSpecUniqueness rv1 = [] \<longleftrightarrow> distinct (map sds_Name (csv_DeploymentSpecs (rv1_CSV rv1)))"
  "CheckDeploymentNameIsDNS1123SubDomain L rv1 = [] \<longleftrightarrow> (\<forall>d \<in> set (csv_DeploymentSpecs (rv1_CSV rv1)). vl_IsDNS1123Subdomain L (sds_Name d) = [])"
  "CheckCRDResourceUniqueness rv1 = [] \<longleftrightarrow> distinct (map crd_Name (rv1_CRDs rv1))"
  "CheckOwnedCRDExistence rv1 = [] \<longleftrightarrow> set (csv_OwnedCRDs (rv1_CSV rv1)) \<subseteq> crd_Name ` set (rv1_CRDs rv1)"
  "CheckPackageNameNotEmpty rv1 = [] \<longleftrightarrow> rv1_PackageName rv1 \<noteq> []"
  "CheckObjectSupport L rv1 = [] \<longleftrightarrow> (\<forall>obj \<in> set (rv1_Others rv1). fst (vl_IsSupported L (obj_Kind obj)))"
  by (auto simp: CheckDeploymentSpecUniqueness_def duplicate_names_empty CheckDeploymentNameIsDNS1123SubDomain_def invalid_names_empty
      CheckCRDResourceUniqueness_def CheckOwnedCRDExistence_def CheckPackageNameNotEmpty_def CheckObjectSupport_def filter_empty_conv Let_def)

lemma conversion_support_ok:
  "CheckConversionWebhookSupport rv1 = [] \<longleftrightarrow> (conversion_webhooks rv1 \<noteq> [] \<longrightarrow> set (supported_modes rv1) = {InstallModeTypeAllNamespaces})"
proof -
  have "length xs = 1 \<and> x \<in> set xs \<longleftrightarrow> set xs = {x}" if "distinct xs" for xs :: "string list" and x
  proof
    assume "set xs = {x}"
    then have "card (set xs) = 1" by simp
    then show "length xs = 1 \<and> x \<in> set xs" using \<open>set xs = {x}\<close> distinct_card [OF that] by simp
  qed (auto simp: length_Suc_conv)
  from this [of "supported_modes rv1" InstallModeTypeAllNamespaces]
  show ?thesis by (auto simp: CheckConversionWebhookSupport_def supported_modes_def Let_def)
qed

lemma referential_integrity_ok:
  assumes "go_sorter (vl_SortFunc L)"
  shows "CheckWebhookDeploymentReferentialIntegrity L rv1 = [] \<longleftrightarrow>
    wh_DeploymentName ` set (csv_WebhookDefinitions (rv1_CSV rv1)) \<subseteq> sds_Name ` set (csv_DeploymentSpecs (rv1_CSV rv1))"
proof -
  let ?whs = "csv_WebhookDefinitions (rv1_CSV rv1)" and ?ds = "map sds_Name (csv_DeploymentSpecs (rv1_CSV rv1))"
  let ?m = "filter (\<lambda>(d, whs). d \<notin> set ?ds) (webhooks_by_deployment ?whs)"
  have ne: "vl_SortFunc L by_type_and_name vs \<noteq> []" if "(d, vs) \<in> set ?m" for d vs
  proof -
    have "vs \<noteq> []" using that by (auto simp: by_deployment_grouped grouped_mem filter_empty_conv)
    then show ?thesis using go_sorter.elems [OF assms, of by_type_and_name vs] by (metis set_empty)
  qed
  have "distinct (map fst (webhooks_by_deployment ?whs))"
    unfolding by_deployment_grouped by (rule grouped_distinct) simp
  then have dist: "distinct (map fst ?m)" by (rule distinct_map_filter)
  have "CheckWebhookDeploymentReferentialIntegrity L rv1 = [] \<longleftrightarrow> ?m = []"
    unfolding CheckWebhookDeploymentReferentialIntegrity_def Let_def
    by (rule grouped_errors_empty [OF _ dist]) (use ne in simp)
  also have "\<dots> \<longleftrightarrow> wh_DeploymentName ` set ?whs \<subseteq> set ?ds"
    by (auto simp: filter_empty_conv by_deployment_grouped grouped_set image_image)
  finally show ?thesis by simp
qed

lemma distinct_pairs: "(\<forall>t. distinct (map g (filter (\<lambda>x. f x = t) xs))) \<longleftrightarrow> distinct (map (\<lambda>x. (f x, g x)) xs)"
proof (induction xs)
  case (Cons x xs)
  have "(\<forall>t. distinct (map g (filter (\<lambda>y. f y = t) (x # xs)))) \<longleftrightarrow>
      (\<forall>t. distinct (map g (filter (\<lambda>y. f y = t) xs))) \<and> g x \<notin> g ` {y \<in> set xs. f y = f x}"
    by (simp add: all_conj_distrib) metis
  also have "\<dots> \<longleftrightarrow> distinct (map (\<lambda>y. (f y, g y)) (x # xs))"
    by (auto simp: Cons image_iff)
  finally show ?case .
qed simp

lemma webhook_names_ok:
  "CheckWebhookNameUniqueness rv1 = [] \<longleftrightarrow> distinct (map (\<lambda>wh. (wh_Type wh, wh_GenerateName wh)) (csv_WebhookDefinitions (rv1_CSV rv1)))"
proof -
  let ?whs = "csv_WebhookDefinitions (rv1_CSV rv1)"
  let ?all = "map (\<lambda>t. (t, duplicate_names [] [] (names_of_type ?whs t))) (remdups (map wh_Type ?whs))"
  have "distinct (map fst ?all)" by (simp add: comp_def)
  then have dist: "distinct (map fst (filter (\<lambda>(t, ns). ns \<noteq> []) ?all))" by (rule distinct_map_filter)
  have "CheckWebhookNameUniqueness rv1 = [] \<longleftrightarrow> filter (\<lambda>(t, ns). ns \<noteq> []) ?all = []"
    unfolding CheckWebhookNameUniqueness_def Let_def by (rule grouped_errors_empty [OF _ dist]) auto
  also have "\<dots> \<longleftrightarrow> (\<forall>t \<in> wh_Type ` set ?whs. distinct (names_of_type ?whs t))"
    by (simp add: filter_empty_conv duplicate_names_empty)
  also have "\<dots> \<longleftrightarrow> (\<forall>t. distinct (names_of_type ?whs t))"
  proof -
    have "distinct (names_of_type ?whs t)" if "t \<notin> wh_Type ` set ?whs" for t
    proof -
      have "filter (\<lambda>wh. wh_Type wh = t) ?whs = []" using that by (auto simp: filter_empty_conv)
      then show ?thesis by (simp add: names_of_type_def)
    qed
    then show ?thesis by blast
  qed
  also have "\<dots> \<longleftrightarrow> distinct (map (\<lambda>wh. (wh_Type wh, wh_GenerateName wh)) ?whs)"
    by (simp add: names_of_type_def distinct_pairs)
  finally show ?thesis .
qed

lemma conversion_crds_ok:
  "CheckConversionWebhookCRDReferenceUniqueness rv1 = [] \<longleftrightarrow> distinct (concat (map wh_ConversionCRDs (conversion_webhooks rv1)))"
proof -
  let ?ps = "concat (map (\<lambda>wh. map (\<lambda>crd. (crd, wh_GenerateName wh)) (wh_ConversionCRDs wh)) (conversion_webhooks rv1))"
  have "CheckConversionWebhookCRDReferenceUniqueness rv1 = [] \<longleftrightarrow> (\<forall>(crd, whs) \<in> set (grouped ?ps []). length whs = 1)"
    by (auto simp: CheckConversionWebhookCRDReferenceUniqueness_def by_crd_grouped Let_def filter_empty_conv)
  also have "\<dots> \<longleftrightarrow> distinct (map fst ?ps)" by (rule grouped_singletons)
  also have "map fst ?ps = concat (map wh_ConversionCRDs (conversion_webhooks rv1))"
    by (simp add: map_concat comp_def)
  finally show ?thesis .
qed

lemma conversion_owned_ok:
  assumes "go_sorter (vl_SortFunc L)"
  shows "CheckConversionWebhooksReferenceOwnedCRDs L rv1 = [] \<longleftrightarrow>
    (\<forall>wh \<in> set (conversion_webhooks rv1). set (wh_ConversionCRDs wh) \<subseteq> set (csv_OwnedCRDs (rv1_CSV rv1)))"
  using go_sorter.elems [OF assms] stable.elems
  by (auto simp: CheckConversionWebhooksReferenceOwnedCRDs_def Let_def filter_empty_conv)

lemma webhook_dns_ok:
  "CheckWebhookNameIsDNS1123SubDomain L rv1 = [] \<longleftrightarrow>
     (\<forall>wh \<in> set (csv_WebhookDefinitions (rv1_CSV rv1)). vl_IsDNS1123Subdomain L (wh_GenerateName wh) = [])"
  using stable.elems
  by (auto simp: CheckWebhookNameIsDNS1123SubDomain_def Let_def invalid_names_empty names_of_type_def)

definition allowed_rule :: "webhook_rule \<Rightarrow> bool" where
  "allowed_rule rule \<longleftrightarrow>
     (\<forall>g \<in> set (wr_APIGroups rule). g \<notin> {''olm.operatorframework.io'', ''*''}
        \<and> (g = ''admissionregistration.k8s.io'' \<longrightarrow>
             (\<forall>resource \<in> set (wr_Resources rule). to_lower resource \<notin> set forbiddenAdmissionRegistrationResources)))"

lemma webhook_rules_ok:
  "CheckWebhookRules rv1 = [] \<longleftrightarrow>
     (\<forall>wh \<in> set (csv_WebhookDefinitions (rv1_CSV rv1)). wh_Type wh \<noteq> ConversionWebhook \<longrightarrow> (\<forall>rule \<in> set (wh_Rules wh). allowed_rule rule))"
proof -
  have "forbidden_in_rule n rule = [] \<longleftrightarrow> allowed_rule rule" for n rule
    by (auto simp: forbidden_in_rule_def allowed_rule_def forbiddenWebhookRuleAPIGroups_def filter_empty_conv split: if_splits)
  then show ?thesis by (auto simp: CheckWebhookRules_def)
qed

section \<open>Properties\<close>

text \<open>What a registry+v1 bundle has to satisfy, as a statement about its data.\<close>

definition valid_bundle :: "validator_libs \<Rightarrow> registry_v1 \<Rightarrow> bool" where
  "valid_bundle L rv1 \<longleftrightarrow>
     (let csv = rv1_CSV rv1; ds = csv_DeploymentSpecs csv; whs = csv_WebhookDefinitions csv; conv = conversion_webhooks rv1 in
        rv1_PackageName rv1 \<noteq> []
      \<and> distinct (map sds_Name ds) \<and> (\<forall>d \<in> set ds. vl_IsDNS1123Subdomain L (sds_Name d) = [])
      \<and> distinct (map crd_Name (rv1_CRDs rv1)) \<and> set (csv_OwnedCRDs csv) \<subseteq> crd_Name ` set (rv1_CRDs rv1)
      \<and> wh_DeploymentName ` set whs \<subseteq> sds_Name ` set ds
      \<and> distinct (map (\<lambda>wh. (wh_Type wh, wh_GenerateName wh)) whs) \<and> (\<forall>wh \<in> set whs. vl_IsDNS1123Subdomain L (wh_GenerateName wh) = [])
      \<and> (conv \<noteq> [] \<longrightarrow> set (supported_modes rv1) = {InstallModeTypeAllNamespaces})
      \<and> distinct (concat (map wh_ConversionCRDs conv)) \<and> (\<forall>wh \<in> set conv. set (wh_ConversionCRDs wh) \<subseteq> set (csv_OwnedCRDs csv))
      \<and> (\<forall>wh \<in> set whs. wh_Type wh \<noteq> ConversionWebhook \<longrightarrow> (\<forall>rule \<in> set (wh_Rules wh). allowed_rule rule))
      \<and> (\<forall>obj \<in> set (rv1_Others rv1). fst (vl_IsSupported L (obj_Kind obj))))"

text \<open>
  The checks together accept a bundle exactly when it has a package name; its deployments and its custom resource
  definitions have unique and its deployments and webhooks valid names; every owned definition is in the bundle; every webhook points to a
  deployment of the bundle, with a name unique for its type; conversion webhooks come with the AllNamespaces mode alone, and each of their
  definitions is owned and named once; no admission rule covers a forbidden group or resource; and every other object is of a supported kind.
\<close>

lemma Validate_valid:
  assumes "go_sorter (vl_SortFunc L)"
  shows "Validate (BundleValidator L) rv1 = None \<longleftrightarrow> valid_bundle L rv1"
proof -
  have "Validate (BundleValidator L) rv1 = None \<longleftrightarrow> (\<forall>v \<in> set (BundleValidator L). v rv1 = [])"
    by (simp add: Validate_def errors_Join_None)
  also have "\<dots> \<longleftrightarrow> valid_bundle L rv1"
    unfolding BundleValidator_def valid_bundle_def Let_def
    by (simp only: list.set ball_simps names_ok conversion_support_ok referential_integrity_ok [OF assms] webhook_names_ok
        webhook_dns_ok conversion_crds_ok conversion_owned_ok [OF assms] webhook_rules_ok) argo
  finally show ?thesis .
qed

text \<open>The wildcard for all resources and subresources of the admission group is not among the forbidden ones.\<close>

lemma wildcard_subresources_allowed:
  "allowed_rule \<lparr>wr_Operations = [''*''], wr_APIGroups = [''admissionregistration.k8s.io''], wr_APIVersions = [''*''], wr_Resources = [''*/*''], wr_Scope = None\<rparr>"
  by (simp add: allowed_rule_def forbiddenAdmissionRegistrationResources_def to_lower_def)

section \<open>Witness\<close>

definition ex_libs :: validator_libs where
  "ex_libs = \<lparr>vl_IsDNS1123Subdomain = (\<lambda>n. if n = [] then [''empty''] else []), vl_IsSupported = (\<lambda>k. (k = ''ConfigMap'', True)), vl_SortFunc = SortStableFunc\<rparr>"

definition ex_csv :: cluster_service_version where
  "ex_csv = \<lparr>csv_Name = ''op.v1'', csv_Annotations = [], csv_InstallModes = [\<lparr>im_Type = InstallModeTypeAllNamespaces, im_Supported = True\<rparr>],
     csv_Permissions = [], csv_ClusterPermissions = [], csv_DeploymentSpecs = [\<lparr>sds_Name = ''manager'', sds_Label = [], sds_Spec = zero_deployment_spec\<rparr>],
     csv_WebhookDefinitions = [], csv_OwnedCRDs = [], csv_OwnedAPIServices = []\<rparr>"

definition ex_webhook :: "string \<Rightarrow> string \<Rightarrow> string \<Rightarrow> int \<Rightarrow> webhook_description" where
  "ex_webhook name type deployment port =
     \<lparr>wh_GenerateName = name, wh_Type = type, wh_DeploymentName = deployment, wh_ContainerPort = port, wh_TargetPort = None, wh_Rules = [], wh_FailurePolicy = None,
      wh_MatchPolicy = None, wh_ObjectSelector = None, wh_SideEffects = None, wh_TimeoutSeconds = None, wh_AdmissionReviewVersions = [''v1''],
      wh_ReinvocationPolicy = None, wh_WebhookPath = None, wh_ConversionCRDs = []\<rparr>"

definition ex_rv1 :: "webhook_description list \<Rightarrow> registry_v1" where
  "ex_rv1 whs = \<lparr>rv1_PackageName = ''op'', rv1_CSV = ex_csv\<lparr>csv_WebhookDefinitions := whs\<rparr>, rv1_CRDs = [], rv1_Others = []\<rparr>"

lemma ex_libs_sorter: "go_sorter (vl_SortFunc ex_libs)"
  using stable.go_sorter_axioms by (simp add: ex_libs_def)

lemma Validate_example:
  "Validate (BundleValidator ex_libs) (ex_rv1 [ex_webhook ''wh'' ValidatingAdmissionWebhook ''manager'' 443]) = None
   \<and> Validate (BundleValidator ex_libs) (ex_rv1 [ex_webhook ''wh'' ValidatingAdmissionWebhook ''other'' 443]) \<noteq> None"
  unfolding Validate_valid [OF ex_libs_sorter]
  by (simp add: valid_bundle_def ex_rv1_def ex_csv_def ex_webhook_def ex_libs_def conversion_webhooks_def Let_def)

end
