(* ===== verification/CertProviders.thy ===== *)
theory CertProviders
  imports BundleTypes
begin

text \<open>
  Render options (\<^verbatim>\<open>render/render.go\<close>), certificate provisioning (\<^verbatim>\<open>render/certprovider.go\<close> and the two providers of
  \<^verbatim>\<open>render/certproviders\<close>), hashing of objects into names (\<^verbatim>\<open>shared/util/hash\<close>) and the conversion to unstructured objects
  (\<^verbatim>\<open>rukpak/util\<close>).  JSON, SHA-224 and the unstructured converter of Kubernetes are arguments.
\<close>

section \<open>Names from hashes\<close>

definition base36_digit :: "nat \<Rightarrow> char" where
  "base36_digit d = char_of (if d < 10 then d + 48 else d + 87)"

fun text36 :: "nat \<Rightarrow> string" where
  "text36 n = (if n < 36 then [base36_digit n] else text36 (n div 36) @ [base36_digit (n mod 36)])"

declare text36.simps [simp del]

definition bytes_value :: "string \<Rightarrow> nat" where
  "bytes_value bs = foldl (\<lambda>n c. 256 * n + of_char c) 0 bs"

record 'a hash_libs =
  hl_Encode :: "'a \<Rightarrow> string res"
  hl_Sum224 :: "string \<Rightarrow> string"

definition DeepHashObject :: "'a hash_libs \<Rightarrow> 'a \<Rightarrow> string res" where
  "DeepHashObject H obj =
     (case hl_Encode H obj of
        Inl err \<Rightarrow> Inl (ErrPanic (''couldn'' @ [char_of (39::nat)] @ ''t encode object: '' @ Error err))
      | Inr data \<Rightarrow> Inr (text36 (bytes_value (hl_Sum224 H data))))"

definition DefaultUniqueNameGenerator :: "'a hash_libs \<Rightarrow> string \<Rightarrow> 'a \<Rightarrow> string res" where
  "DefaultUniqueNameGenerator H base obj =
     (case DeepHashObject H obj of Inl err \<Rightarrow> Inl err | Inr hashStr \<Rightarrow> ObjectNameForBaseAndSuffix base hashStr)"

section \<open>Options\<close>

record deployment_config =
  dc_Env :: "env_var list"
  dc_EnvFrom :: "string list"
  dc_Volumes :: "volume list"
  dc_VolumeMounts :: "volume_mount list"
  dc_Tolerations :: "string list"
  dc_Resources :: "string option"
  dc_NodeSelector :: "labels option"
  dc_Affinity :: "affinity option"
  dc_Annotations :: labels

record provisioner_config =
  pc_ServiceName :: string
  pc_CertName :: string
  pc_Namespace :: string

record cert_secret_info =
  csi_SecretName :: string
  csi_CertificateKey :: string
  csi_PrivateKeyKey :: string

record certificate_provider =
  cp_InjectCABundle :: "client_object \<Rightarrow> provisioner_config \<Rightarrow> client_object res"
  cp_AdditionalObjects :: "provisioner_config \<Rightarrow> k8s_object list res"
  cp_GetCertSecretInfo :: "provisioner_config \<Rightarrow> cert_secret_info"

record render_options =
  ro_InstallNamespace :: string
  ro_TargetNamespaces :: "string list"
  ro_UniqueNameGenerator :: "(string \<Rightarrow> permission \<Rightarrow> string res) option"
  ro_CertificateProvider :: "certificate_provider option"
  ro_DeploymentConfig :: "deployment_config option"

section \<open>Provisioners\<close>

record cert_provisioner =
  cpr_Config :: provisioner_config
  cpr_Provider :: "certificate_provider option"

definition InjectCABundle :: "cert_provisioner \<Rightarrow> client_object \<Rightarrow> client_object res" where
  "InjectCABundle c obj = (case cpr_Provider c of None \<Rightarrow> Inr obj | Some p \<Rightarrow> cp_InjectCABundle p obj (cpr_Config c))"

definition AdditionalObjects :: "cert_provisioner \<Rightarrow> k8s_object list res" where
  "AdditionalObjects c = (case cpr_Provider c of None \<Rightarrow> Inr [] | Some p \<Rightarrow> cp_AdditionalObjects p (cpr_Config c))"

definition GetCertSecretInfo :: "cert_provisioner \<Rightarrow> cert_secret_info option" where
  "GetCertSecretInfo c = map_option (\<lambda>p. cp_GetCertSecretInfo p (cpr_Config c)) (cpr_Provider c)"

definition dots_to_dashes :: "string \<Rightarrow> string" where
  "dots_to_dashes s = map (\<lambda>c. if c = CHR ''.'' then CHR ''-'' else c) s"

definition CertProvisionerFor :: "string \<Rightarrow> render_options \<Rightarrow> cert_provisioner res" where
  "CertProvisionerFor deploymentName opts =
     (case ObjectNameForBaseAndSuffix (dots_to_dashes deploymentName) ''service'' of
        Inl err \<Rightarrow> Inl err
      | Inr webhookServiceName \<Rightarrow>
          (case ObjectNameForBaseAndSuffix webhookServiceName ''cert'' of
             Inl err \<Rightarrow> Inl err
           | Inr certName \<Rightarrow>
               Inr \<lparr>cpr_Config = \<lparr>pc_ServiceName = webhookServiceName, pc_CertName = certName, pc_Namespace = ro_InstallNamespace opts\<rparr>,
                    cpr_Provider = ro_CertificateProvider opts\<rparr>))"

definition add_annotation :: "string \<Rightarrow> string \<Rightarrow> client_object \<Rightarrow> client_object" where
  "add_annotation k v obj = set_meta (\<lambda>m. m\<lparr>om_Annotations := MergeMaps [om_Annotations m, [(k, v)]]\<rparr>) obj"

section \<open>cert-manager\<close>

text \<open>Issuers and certificates of cert-manager, with the parts the provider fills.\<close>

record cm_certificate =
  cmc_SecretName :: string
  cmc_CommonName :: string
  cmc_Usages :: "string list"
  cmc_IsCA :: bool
  cmc_DNSNames :: "string list"
  cmc_IssuerName :: string
  cmc_Duration :: int
  cmc_RenewBefore :: int

datatype cm_kind = SelfSignedIssuer | CertificateOf cm_certificate

record cm_object =
  cmo_Group :: string
  cmo_Version :: string
  cmo_Kind :: string
  cmo_Name :: string
  cmo_Namespace :: string
  cmo_Spec :: cm_kind

type_synonym converter = "cm_object \<Rightarrow> k8s_object res"

definition ToUnstructured :: "converter \<Rightarrow> cm_object \<Rightarrow> k8s_object res" where
  "ToUnstructured conv obj =
     (if cmo_Kind obj = [] then Inl (ErrText ''object has no kind'')
      else if cmo_Version obj = [] then Inl (ErrText ''object has no version'')
      else case conv obj of
             Inl err \<Rightarrow> Inl (ErrWrap (''convert '' @ cmo_Kind obj @ '' '' @ quote (cmo_Name obj) @ '' to unstructured: '') err)
           | Inr u \<Rightarrow> Inr (u\<lparr>obj_Metadata := filter (\<lambda>(k, v). k \<noteq> ''creationTimestamp'') (obj_Metadata u),
                             obj_Group := cmo_Group obj, obj_Version := cmo_Version obj, obj_Kind := cmo_Kind obj\<rparr>))"

abbreviation certManagerInjectCAAnnotation :: string where "certManagerInjectCAAnnotation \<equiv> ''cert-manager.io/inject-ca-from''"

definition addCAInjectionAnnotation :: "client_object \<Rightarrow> string \<Rightarrow> string \<Rightarrow> client_object" where
  "addCAInjectionAnnotation obj certNamespace certName = add_annotation certManagerInjectCAAnnotation (certNamespace @ ''/'' @ certName) obj"

definition certmanager_InjectCABundle :: "client_object \<Rightarrow> provisioner_config \<Rightarrow> client_object res" where
  "certmanager_InjectCABundle obj cfg =
     Inr (case obj of
            ValidatingWebhookConfigurationObj _ _ \<Rightarrow> addCAInjectionAnnotation obj (pc_Namespace cfg) (pc_CertName cfg)
          | MutatingWebhookConfigurationObj _ _ \<Rightarrow> addCAInjectionAnnotation obj (pc_Namespace cfg) (pc_CertName cfg)
          | CRDObj _ \<Rightarrow> addCAInjectionAnnotation obj (pc_Namespace cfg) (pc_CertName cfg)
          | _ \<Rightarrow> obj)"

definition tls_secret :: "provisioner_config \<Rightarrow> cert_secret_info" where
  "tls_secret cfg = \<lparr>csi_SecretName = pc_CertName cfg, csi_CertificateKey = ''tls.crt'', csi_PrivateKeyKey = ''tls.key''\<rparr>"

definition hours :: "int \<Rightarrow> int" where
  "hours n = n * 3600 * second"

definition cm_resource :: "string \<Rightarrow> string \<Rightarrow> string \<Rightarrow> cm_kind \<Rightarrow> cm_object" where
  "cm_resource kind name namespace spec =
     \<lparr>cmo_Group = ''cert-manager.io'', cmo_Version = ''v1'', cmo_Kind = kind, cmo_Name = name, cmo_Namespace = namespace, cmo_Spec = spec\<rparr>"

definition serving_certificate :: "provisioner_config \<Rightarrow> string \<Rightarrow> cm_certificate" where
  "serving_certificate cfg issuerName =
     (let dns = pc_ServiceName cfg @ ''.'' @ pc_Namespace cfg
      in \<lparr>cmc_SecretName = pc_CertName cfg, cmc_CommonName = dns, cmc_Usages = [''server auth''], cmc_IsCA = False,
          cmc_DNSNames = [dns, dns @ ''.svc'', dns @ ''.svc.cluster.local''], cmc_IssuerName = issuerName,
          cmc_Duration = hours (730 * 24), cmc_RenewBefore = hours 24\<rparr>)"

definition certmanager_AdditionalObjects :: "converter \<Rightarrow> provisioner_config \<Rightarrow> k8s_object list res" where
  "certmanager_AdditionalObjects conv cfg =
     (case ObjectNameForBaseAndSuffix (pc_CertName cfg) ''selfsigned-issuer'' of
        Inl err \<Rightarrow> Inl err
      | Inr issuerName \<Rightarrow>
          (let outs = [ToUnstructured conv (cm_resource ''Issuer'' issuerName (pc_Namespace cfg) SelfSignedIssuer),
                       ToUnstructured conv (cm_resource ''Certificate'' (pc_CertName cfg) (pc_Namespace cfg) (CertificateOf (serving_certificate cfg issuerName)))];
               errs = List.map_filter (\<lambda>out. case out of Inl err \<Rightarrow> Some err | Inr _ \<Rightarrow> None) outs
           in case errors_Join errs of
                Some err \<Rightarrow> Inl err
              | None \<Rightarrow> Inr (List.map_filter (\<lambda>out. case out of Inl _ \<Rightarrow> None | Inr u \<Rightarrow> Some u) outs)))"

definition CertManagerCertificateProvider :: "converter \<Rightarrow> certificate_provider" where
  "CertManagerCertificateProvider conv =
     \<lparr>cp_InjectCABundle = certmanager_InjectCABundle, cp_AdditionalObjects = certmanager_AdditionalObjects conv, cp_GetCertSecretInfo = tls_secret\<rparr>"

section \<open>OpenShift service CA\<close>

definition openshift_InjectCABundle :: "client_object \<Rightarrow> provisioner_config \<Rightarrow> client_object res" where
  "openshift_InjectCABundle obj cfg =
     (let inject = add_annotation ''service.beta.openshift.io/inject-cabundle'' ''true'' obj
      in Inr (case obj of
            ValidatingWebhookConfigurationObj _ _ \<Rightarrow> inject
          | MutatingWebhookConfigurationObj _ _ \<Rightarrow> inject
          | CRDObj _ \<Rightarrow> inject
          | ServiceObj _ _ \<Rightarrow> add_annotation ''service.beta.openshift.io/serving-cert-secret-name'' (pc_CertName cfg) obj
          | _ \<Rightarrow> obj))"

definition OpenshiftServiceCaCertificateProvider :: certificate_provider where
  "OpenshiftServiceCaCertificateProvider =
     \<lparr>cp_InjectCABundle = openshift_InjectCABundle, cp_AdditionalObjects = (\<lambda>_. Inr []), cp_GetCertSecretInfo = tls_secret\<rparr>"

section \<open>Names exist\<close>

lemma ObjectName_total:
  assumes "length suffix < 63"
  shows "\<exists>n. ObjectNameForBaseAndSuffix base suffix = Inr n"
  using assms by (auto simp: ObjectNameForBaseAndSuffix_def slice_upto_def)

lemma length_text36: "n < 36 ^ Suc k \<Longrightarrow> length (text36 n) \<le> Suc k"
proof (induction k arbitrary: n)
  case 0
  then show ?case by (simp add: text36.simps [of n])
next
  case (Suc k)
  show ?case
  proof (cases "n < 36")
    case False
    have "n div 36 < 36 ^ Suc k"
      using Suc.prems by (simp add: less_mult_imp_div_less)
    from Suc.IH [OF this] False show ?thesis by (simp add: text36.simps [of n])
  qed (simp add: text36.simps [of n])
qed

lemma bytes_value_bound: "bytes_value bs < 256 ^ length bs"
proof (induction bs rule: rev_induct)
  case (snoc c bs)
  have "of_char c < (256 :: nat)" by simp
  with snoc have "256 * bytes_value bs + of_char c < 256 * 256 ^ length bs" by linarith
  then show ?case by (simp add: bytes_value_def)
qed (simp add: bytes_value_def)

text \<open>A SHA-224 sum has 28 bytes, so its text in base 36 has at most 44 digits and fits a name.\<close>

definition hash_laws :: "'a hash_libs \<Rightarrow> bool" where
  "hash_laws H \<longleftrightarrow> (\<forall>x. \<exists>data. hl_Encode H x = Inr data) \<and> (\<forall>data. length (hl_Sum224 H data) = 28)"

lemma DefaultUniqueNameGenerator_total:
  assumes "hash_laws H"
  shows "\<exists>n. DefaultUniqueNameGenerator H base x = Inr n"
proof -
  obtain data where data: "hl_Encode H x = Inr data" and len: "length (hl_Sum224 H data) = 28"
    using assms by (auto simp: hash_laws_def)
  have "bytes_value (hl_Sum224 H data) < 36 ^ Suc 43"
    using bytes_value_bound [of "hl_Sum224 H data"] by (simp add: len)
  then have "length (text36 (bytes_value (hl_Sum224 H data))) < 63"
    using length_text36 by fastforce
  then show ?thesis
    by (simp add: DefaultUniqueNameGenerator_def DeepHashObject_def data ObjectName_total)
qed

section \<open>The contract of certificate providers\<close>

text \<open>What the generators rely on: injecting a certificate authority only writes annotations of the object.\<close>

definition annotate :: "(labels \<Rightarrow> labels) \<Rightarrow> client_object \<Rightarrow> client_object" where
  "annotate f obj = set_meta (\<lambda>m. m\<lparr>om_Annotations := f (om_Annotations m)\<rparr>) obj"

lemma annotate_id [simp]: "annotate (\<lambda>a. a) obj = obj"
  by (simp add: annotate_def set_meta_def split: client_object.split)

locale ca_injector =
  fixes inject :: "client_object \<Rightarrow> provisioner_config \<Rightarrow> client_object res"
  assumes only_annotations: "\<exists>f. inject obj cfg = Inr (annotate f obj)"
begin

lemma inject_service: "\<exists>a. inject (ServiceObj m s) cfg = Inr (ServiceObj (m\<lparr>om_Annotations := a\<rparr>) s)"
  using only_annotations [of "ServiceObj m s" cfg] by (auto simp: annotate_def set_meta_def)

lemma inject_validating:
  "\<exists>a. inject (ValidatingWebhookConfigurationObj m ws) cfg = Inr (ValidatingWebhookConfigurationObj (m\<lparr>om_Annotations := a\<rparr>) ws)"
  using only_annotations [of "ValidatingWebhookConfigurationObj m ws" cfg] by (auto simp: annotate_def set_meta_def)

lemma inject_mutating:
  "\<exists>a. inject (MutatingWebhookConfigurationObj m ws) cfg = Inr (MutatingWebhookConfigurationObj (m\<lparr>om_Annotations := a\<rparr>) ws)"
  using only_annotations [of "MutatingWebhookConfigurationObj m ws" cfg] by (auto simp: annotate_def set_meta_def)

lemma inject_crd: "\<exists>a. inject (CRDObj c) cfg = Inr (CRDObj (c\<lparr>crd_Annotations := a\<rparr>))"
  using only_annotations [of "CRDObj c" cfg] by (auto simp: annotate_def set_meta_def Let_def)

end

lemma add_annotation_annotate: "add_annotation k v obj = annotate (\<lambda>a. MergeMaps [a, [(k, v)]]) obj"
  by (simp add: add_annotation_def annotate_def)

interpretation certmanager: ca_injector certmanager_InjectCABundle
proof
  fix obj cfg
  show "\<exists>f. certmanager_InjectCABundle obj cfg = Inr (annotate f obj)"
    by (cases obj; simp add: certmanager_InjectCABundle_def addCAInjectionAnnotation_def add_annotation_annotate; metis annotate_id)
qed

interpretation openshift: ca_injector openshift_InjectCABundle
proof
  fix obj cfg
  show "\<exists>f. openshift_InjectCABundle obj cfg = Inr (annotate f obj)"
    by (cases obj; simp add: openshift_InjectCABundle_def add_annotation_annotate Let_def; metis annotate_id)
qed

interpretation no_injection: ca_injector "\<lambda>obj cfg. Inr obj"
  by unfold_locales (metis annotate_id)

definition provider_ok :: "certificate_provider \<Rightarrow> bool" where
  "provider_ok p \<longleftrightarrow> ca_injector (cp_InjectCABundle p) \<and> (\<forall>cfg. \<exists>os. cp_AdditionalObjects p cfg = Inr os)"

lemma openshift_ok: "provider_ok OpenshiftServiceCaCertificateProvider"
  by (simp add: provider_ok_def OpenshiftServiceCaCertificateProvider_def openshift.ca_injector_axioms)

lemma certmanager_ok:
  assumes "\<forall>obj. \<exists>u. conv obj = Inr u"
  shows "provider_ok (CertManagerCertificateProvider conv)"
proof -
  have "\<exists>os. certmanager_AdditionalObjects conv cfg = Inr os" for cfg
  proof -
    obtain n where n: "ObjectNameForBaseAndSuffix (pc_CertName cfg) ''selfsigned-issuer'' = Inr n"
      using ObjectName_total [of "''selfsigned-issuer''" "pc_CertName cfg"] by auto
    have conv: "\<exists>u. ToUnstructured conv (cm_resource k nm ns sp) = Inr u" if "k \<noteq> []" for k nm ns sp
      using assms [rule_format, of "cm_resource k nm ns sp"] that by (auto simp: ToUnstructured_def cm_resource_def)
    obtain u where u: "ToUnstructured conv (cm_resource ''Issuer'' n (pc_Namespace cfg) SelfSignedIssuer) = Inr u"
      using conv by blast
    obtain v where v: "ToUnstructured conv (cm_resource ''Certificate'' (pc_CertName cfg) (pc_Namespace cfg) (CertificateOf (serving_certificate cfg n))) = Inr v"
      using conv by blast
    show ?thesis
      by (simp add: certmanager_AdditionalObjects_def n u v errors_Join_def List.map_filter_def)
  qed
  then show ?thesis
    by (simp add: provider_ok_def CertManagerCertificateProvider_def certmanager.ca_injector_axioms)
qed

section \<open>Provisioners of a deployment\<close>

definition provisioner :: "string \<Rightarrow> render_options \<Rightarrow> cert_provisioner" where
  "provisioner d opts = projr (CertProvisionerFor d opts)"

lemma CertProvisionerFor_ok: "CertProvisionerFor d opts = Inr (provisioner d opts)"
  and provisioner_provider [simp]: "cpr_Provider (provisioner d opts) = ro_CertificateProvider opts"
  and provisioner_namespace [simp]: "pc_Namespace (cpr_Config (provisioner d opts)) = ro_InstallNamespace opts"
proof -
  obtain sn where "ObjectNameForBaseAndSuffix (dots_to_dashes d) ''service'' = Inr sn"
    using ObjectName_total [of "''service''" "dots_to_dashes d"] by auto
  moreover obtain cn where "ObjectNameForBaseAndSuffix sn ''cert'' = Inr cn"
    using ObjectName_total [of "''cert''" sn] by auto
  ultimately show "CertProvisionerFor d opts = Inr (provisioner d opts)"
    "cpr_Provider (provisioner d opts) = ro_CertificateProvider opts"
    "pc_Namespace (cpr_Config (provisioner d opts)) = ro_InstallNamespace opts"
    by (simp_all add: provisioner_def CertProvisionerFor_def)
qed

definition providers_ok :: "render_options \<Rightarrow> bool" where
  "providers_ok opts \<longleftrightarrow> (\<forall>p. ro_CertificateProvider opts = Some p \<longrightarrow> provider_ok p)"

lemma InjectCABundle_injector:
  assumes "providers_ok opts"
  shows "ca_injector (\<lambda>obj cfg. InjectCABundle ((provisioner d opts)\<lparr>cpr_Config := cfg\<rparr>) obj)"
  using assms no_injection.ca_injector_axioms
  by (cases "ro_CertificateProvider opts") (auto simp: InjectCABundle_def providers_ok_def provider_ok_def)

lemma AdditionalObjects_total: "providers_ok opts \<Longrightarrow> \<exists>os. AdditionalObjects (provisioner d opts) = Inr os"
  by (auto simp: AdditionalObjects_def providers_ok_def provider_ok_def split: option.split)

end
