(* ===== verification/BundleGenerators.thy ===== *)
theory BundleGenerators
  imports BundleValidators CertProviders
begin

text \<open>
  The generators that render the parts of a registry+v1 bundle into objects (\<^verbatim>\<open>registryv1/generators/generators.go\<close>).  Bundles are values: what the
  code writes into slices of the bundle it has been given is not read again by another generator.  The order in which Go iterates over
  sets, the table of supported kinds and the numeric value of named ports are arguments.
\<close>

record render_libs =
  rl_Validator :: validator_libs
  rl_UnsortedStrings :: "string list \<Rightarrow> string list"
  rl_UnsortedPorts :: "service_port list \<Rightarrow> service_port list"
  rl_IntValue :: "int_or_string \<Rightarrow> int"

type_synonym generator = "registry_v1 option \<Rightarrow> render_options \<Rightarrow> client_object list res"

definition for_bundle :: "(registry_v1 \<Rightarrow> render_options \<Rightarrow> client_object list res) \<Rightarrow> generator" where
  "for_bundle f orv1 opts = (case orv1 of None \<Rightarrow> Inl (ErrText ''bundle cannot be nil'') | Some rv1 \<Rightarrow> f rv1 opts)"

abbreviation strategy_deployments :: "registry_v1 \<Rightarrow> strategy_deployment list" where
  "strategy_deployments rv1 \<equiv> csv_DeploymentSpecs (rv1_CSV rv1)"

abbreviation webhook_definitions :: "registry_v1 \<Rightarrow> webhook_description list" where
  "webhook_definitions rv1 \<equiv> csv_WebhookDefinitions (rv1_CSV rv1)"

section \<open>Certificate volumes\<close>

record certVolumeConfig =
  cvc_Name :: string
  cvc_Path :: string
  cvc_TLSCertPath :: string
  cvc_TLSKeyPath :: string

definition certVolumeConfigs :: "certVolumeConfig list" where
  "certVolumeConfigs =
     [\<lparr>cvc_Name = ''webhook-cert'', cvc_Path = ''/tmp/k8s-webhook-server/serving-certs'', cvc_TLSCertPath = ''tls.crt'', cvc_TLSKeyPath = ''tls.key''\<rparr>,
      \<lparr>cvc_Name = ''apiservice-cert'', cvc_Path = ''/apiserver.local.config/certificates'', cvc_TLSCertPath = ''apiserver.crt'', cvc_TLSKeyPath = ''apiserver.key''\<rparr>]"

definition cert_volumes :: "cert_secret_info \<Rightarrow> volume list" where
  "cert_volumes info =
     map (\<lambda>cfg. \<lparr>vol_Name = cvc_Name cfg,
                 vol_Source = SecretVolume (csi_SecretName info)
                   [(csi_CertificateKey info, cvc_TLSCertPath cfg), (csi_PrivateKeyKey info, cvc_TLSKeyPath cfg)]\<rparr>) certVolumeConfigs"

definition cert_volume_mounts :: "volume_mount list" where
  "cert_volume_mounts = map (\<lambda>cfg. \<lparr>vm_Name = cvc_Name cfg, vm_MountPath = cvc_Path cfg, vm_Other = []\<rparr>) certVolumeConfigs"

definition volumes_to_remove :: "pod_spec \<Rightarrow> string list" where
  "volumes_to_remove ps =
     map cvc_Name certVolumeConfigs
     @ map vm_Name (filter (\<lambda>m. vm_MountPath m \<in> set (map cvc_Path certVolumeConfigs)) (concat (map ct_VolumeMounts (ps_Containers ps))))"

definition map_pod :: "(pod_spec \<Rightarrow> pod_spec) \<Rightarrow> deployment_spec \<Rightarrow> deployment_spec" where
  "map_pod f d = d\<lparr>ds_Template := (ds_Template d)\<lparr>pt_Spec := f (pt_Spec (ds_Template d))\<rparr>\<rparr>"

definition map_containers :: "(container \<Rightarrow> container) \<Rightarrow> pod_spec \<Rightarrow> pod_spec" where
  "map_containers f ps = ps\<lparr>ps_Containers := map f (ps_Containers ps)\<rparr>"

definition ensureCorrectDeploymentCertVolumes :: "deployment_spec \<Rightarrow> cert_secret_info \<Rightarrow> deployment_spec" where
  "ensureCorrectDeploymentCertVolumes dep certSecretInfo =
     map_pod (\<lambda>ps.
       (let gone = volumes_to_remove ps
        in map_containers (\<lambda>c. c\<lparr>ct_VolumeMounts := filter (\<lambda>m. vm_Name m \<notin> set gone) (ct_VolumeMounts c) @ cert_volume_mounts\<rparr>)
             (ps\<lparr>ps_Volumes := filter (\<lambda>v. vol_Name v \<notin> set gone) (ps_Volumes ps) @ cert_volumes certSecretInfo\<rparr>))) dep"

section \<open>Deployment configuration\<close>

text \<open>Overriding by name: the last entry of that name is replaced, a new name is appended; the index is taken once, before the loop.\<close>

definition last_index :: "('a \<Rightarrow> string) \<Rightarrow> 'a list \<Rightarrow> string \<Rightarrow> nat option" where
  "last_index key xs k = (case filter (\<lambda>i. key (xs ! i) = k) [0..<length xs] of [] \<Rightarrow> None | is \<Rightarrow> Some (last is))"

definition override_by_name :: "('a \<Rightarrow> string) \<Rightarrow> 'a list \<Rightarrow> 'a list \<Rightarrow> 'a list" where
  "override_by_name key new old =
     fold (\<lambda>x xs. case last_index key old (key x) of Some i \<Rightarrow> xs[i := x] | None \<Rightarrow> xs @ [x]) new old"

definition append_missing :: "'a list \<Rightarrow> 'a list \<Rightarrow> 'a list" where
  "append_missing new old = fold (\<lambda>x xs. if x \<in> set xs then xs else xs @ [x]) new old"

definition applyEnvironmentConfig :: "deployment_config \<Rightarrow> deployment_spec \<Rightarrow> deployment_spec" where
  "applyEnvironmentConfig cfg d =
     (if dc_Env cfg = [] then d
      else map_pod (map_containers (\<lambda>c. c\<lparr>ct_Env := override_by_name env_Name (dc_Env cfg) (ct_Env c)\<rparr>)) d)"

definition applyEnvironmentFromConfig :: "deployment_config \<Rightarrow> deployment_spec \<Rightarrow> deployment_spec" where
  "applyEnvironmentFromConfig cfg d =
     (if dc_EnvFrom cfg = [] then d
      else map_pod (map_containers (\<lambda>c. c\<lparr>ct_EnvFrom := append_missing (dc_EnvFrom cfg) (ct_EnvFrom c)\<rparr>)) d)"

definition applyVolumeConfig :: "deployment_config \<Rightarrow> deployment_spec \<Rightarrow> deployment_spec" where
  "applyVolumeConfig cfg d =
     (if dc_Volumes cfg = [] then d
      else map_pod (\<lambda>ps. ps\<lparr>ps_Volumes := override_by_name vol_Name (dc_Volumes cfg) (ps_Volumes ps)\<rparr>) d)"

definition applyVolumeMountConfig :: "deployment_config \<Rightarrow> deployment_spec \<Rightarrow> deployment_spec" where
  "applyVolumeMountConfig cfg d =
     (if dc_VolumeMounts cfg = [] then d
      else map_pod (map_containers (\<lambda>c. c\<lparr>ct_VolumeMounts := override_by_name vm_Name (dc_VolumeMounts cfg) (ct_VolumeMounts c)\<rparr>)) d)"

definition applyTolerationsConfig :: "deployment_config \<Rightarrow> deployment_spec \<Rightarrow> deployment_spec" where
  "applyTolerationsConfig cfg d =
     (if dc_Tolerations cfg = [] then d
      else map_pod (\<lambda>ps. ps\<lparr>ps_Tolerations := append_missing (dc_Tolerations cfg) (ps_Tolerations ps)\<rparr>) d)"

definition applyResourcesConfig :: "deployment_config \<Rightarrow> deployment_spec \<Rightarrow> deployment_spec" where
  "applyResourcesConfig cfg d =
     (case dc_Resources cfg of None \<Rightarrow> d | Some r \<Rightarrow> map_pod (map_containers (\<lambda>c. c\<lparr>ct_Resources := r\<rparr>)) d)"

definition applyNodeSelectorConfig :: "deployment_config \<Rightarrow> deployment_spec \<Rightarrow> deployment_spec" where
  "applyNodeSelectorConfig cfg d =
     (case dc_NodeSelector cfg of None \<Rightarrow> d | Some s \<Rightarrow> map_pod (\<lambda>ps. ps\<lparr>ps_NodeSelector := Some s\<rparr>) d)"

definition isNodeAffinityEmpty :: "node_affinity option \<Rightarrow> bool" where
  "isNodeAffinityEmpty ona =
     (case ona of None \<Rightarrow> True | Some na \<Rightarrow> (case na_Required na of None \<Rightarrow> True | Some terms \<Rightarrow> terms = []) \<and> na_Preferred na = [])"

definition isPodAffinityEmpty :: "pod_affinity option \<Rightarrow> bool" where
  "isPodAffinityEmpty opa = (case opa of None \<Rightarrow> True | Some pa \<Rightarrow> pa_Required pa = [] \<and> pa_Preferred pa = [])"

definition isPodAntiAffinityEmpty :: "pod_affinity option \<Rightarrow> bool" where
  "isPodAntiAffinityEmpty opa = (case opa of None \<Rightarrow> True | Some paa \<Rightarrow> pa_Required paa = [] \<and> pa_Preferred paa = [])"

definition isAffinityEmpty :: "affinity option \<Rightarrow> bool" where
  "isAffinityEmpty oa =
     (case oa of None \<Rightarrow> True
      | Some a \<Rightarrow> isNodeAffinityEmpty (aff_NodeAffinity a) \<and> isPodAffinityEmpty (aff_PodAffinity a) \<and> isPodAntiAffinityEmpty (aff_PodAntiAffinity a))"

definition override_affinity :: "('a option \<Rightarrow> bool) \<Rightarrow> 'a option \<Rightarrow> 'a option \<Rightarrow> 'a option" where
  "override_affinity is_empty new old = (if new = None then old else if is_empty new then None else new)"

definition applyAffinityConfig :: "deployment_config \<Rightarrow> deployment_spec \<Rightarrow> deployment_spec" where
  "applyAffinityConfig cfg d =
     (case dc_Affinity cfg of
        None \<Rightarrow> d
      | Some a \<Rightarrow>
          if aff_NodeAffinity a = None \<and> aff_PodAffinity a = None \<and> aff_PodAntiAffinity a = None
          then map_pod (\<lambda>ps. ps\<lparr>ps_Affinity := None\<rparr>) d
          else map_pod (\<lambda>ps.
            let old = (case ps_Affinity ps of Some b \<Rightarrow> b | None \<Rightarrow> \<lparr>aff_NodeAffinity = None, aff_PodAffinity = None, aff_PodAntiAffinity = None\<rparr>);
                new = \<lparr>aff_NodeAffinity = override_affinity isNodeAffinityEmpty (aff_NodeAffinity a) (aff_NodeAffinity old),
                       aff_PodAffinity = override_affinity isPodAffinityEmpty (aff_PodAffinity a) (aff_PodAffinity old),
                       aff_PodAntiAffinity = override_affinity isPodAntiAffinityEmpty (aff_PodAntiAffinity a) (aff_PodAntiAffinity old)\<rparr>
            in ps\<lparr>ps_Affinity := (if isAffinityEmpty (Some new) then None else Some new)\<rparr>) d)"

definition add_missing_keys :: "labels \<Rightarrow> labels \<Rightarrow> labels" where
  "add_missing_keys new old = fold (\<lambda>(k, v) m. if map_of m k = None then map_put k v m else m) new old"

definition applyAnnotationsConfig :: "deployment_config \<Rightarrow> object_meta \<times> deployment_spec \<Rightarrow> object_meta \<times> deployment_spec" where
  "applyAnnotationsConfig cfg md =
     (case md of (m, d) \<Rightarrow>
        if dc_Annotations cfg = [] then (m, d)
        else (m\<lparr>om_Annotations := add_missing_keys (dc_Annotations cfg) (om_Annotations m)\<rparr>,
              d\<lparr>ds_Template := (ds_Template d)\<lparr>pt_Annotations := add_missing_keys (dc_Annotations cfg) (pt_Annotations (ds_Template d))\<rparr>\<rparr>))"

definition applyCustomConfigToDeployment :: "deployment_config option \<Rightarrow> object_meta \<times> deployment_spec \<Rightarrow> object_meta \<times> deployment_spec" where
  "applyCustomConfigToDeployment ocfg md =
     (case ocfg of
        None \<Rightarrow> md
      | Some cfg \<Rightarrow>
          applyAnnotationsConfig cfg (fst md,
            applyAffinityConfig cfg (applyNodeSelectorConfig cfg (applyResourcesConfig cfg (applyTolerationsConfig cfg
              (applyVolumeMountConfig cfg (applyVolumeConfig cfg (applyEnvironmentFromConfig cfg (applyEnvironmentConfig cfg (snd md))))))))))"

section \<open>Generators\<close>

definition with_deployment :: "(object_meta \<times> deployment_spec \<Rightarrow> object_meta \<times> deployment_spec) \<Rightarrow> client_object \<Rightarrow> client_object" where
  "with_deployment f obj = (case obj of DeploymentObj m d \<Rightarrow> (case f (m, d) of (m', d') \<Rightarrow> DeploymentObj m' d') | _ \<Rightarrow> obj)"

definition prepared_spec :: "registry_v1 \<Rightarrow> render_options \<Rightarrow> strategy_deployment \<Rightarrow> deployment_spec" where
  "prepared_spec rv1 opts depSpec =
     (let t = ds_Template (sds_Spec depSpec);
          annotations = map_put ''olm.targetNamespaces'' (join_str '','' (ro_TargetNamespaces opts)) (MergeMaps [csv_Annotations (rv1_CSV rv1), pt_Annotations t])
      in (sds_Spec depSpec)\<lparr>ds_Template := t\<lparr>pt_Annotations := annotations\<rparr>, ds_RevisionHistoryLimit := Some 1\<rparr>)"

definition generate_deployment :: "registry_v1 \<Rightarrow> render_options \<Rightarrow> strategy_deployment \<Rightarrow> client_object res" where
  "generate_deployment rv1 opts depSpec =
     (case CreateDeploymentResource (sds_Name depSpec) (ro_InstallNamespace opts) [WithDeploymentSpec (prepared_spec rv1 opts depSpec), WithLabels (sds_Label depSpec)] of
        Inl err \<Rightarrow> Inl err
      | Inr obj \<Rightarrow>
          (case CertProvisionerFor (sds_Name depSpec) opts of
             Inl err \<Rightarrow> Inl err
           | Inr c \<Rightarrow>
               (let obj1 = (case GetCertSecretInfo c of
                              Some info \<Rightarrow>
                                if sds_Name depSpec \<in> wh_DeploymentName ` set (webhook_definitions rv1)
                                then with_deployment (\<lambda>(m, d). (m, ensureCorrectDeploymentCertVolumes d info)) obj else obj
                            | None \<Rightarrow> obj)
                in Inr (with_deployment (applyCustomConfigToDeployment (ro_DeploymentConfig opts)) obj1))))"

definition BundleCSVDeploymentGenerator :: generator where
  "BundleCSVDeploymentGenerator = for_bundle (\<lambda>rv1 opts. all_ok (map (generate_deployment rv1 opts) (strategy_deployments rv1)))"

definition saNameOrDefault :: "string \<Rightarrow> string" where
  "saNameOrDefault saName = (if saName \<noteq> [] then saName else ''default'')"

text \<open>Calling a name generator that is nil panics.\<close>

definition unique_name :: "registry_v1 \<Rightarrow> render_options \<Rightarrow> permission \<Rightarrow> string res" where
  "unique_name rv1 opts p =
     (case ro_UniqueNameGenerator opts of
        None \<Rightarrow> Inl nil_deref
      | Some gen \<Rightarrow> gen (csv_Name (rv1_CSV rv1) @ ''-'' @ saNameOrDefault (sdp_ServiceAccountName p)) p)"

definition sa_subject :: "render_options \<Rightarrow> permission \<Rightarrow> rbac_subject" where
  "sa_subject opts p = \<lparr>sj_Kind = ''ServiceAccount'', sj_Namespace = ro_InstallNamespace opts, sj_Name = saNameOrDefault (sdp_ServiceAccountName p)\<rparr>"

definition rbac_ref :: "string \<Rightarrow> string \<Rightarrow> role_ref" where
  "rbac_ref kind name = \<lparr>rr_APIGroup = ''rbac.authorization.k8s.io'', rr_Kind = kind, rr_Name = name\<rparr>"

definition role_pair :: "registry_v1 \<Rightarrow> render_options \<Rightarrow> string \<Rightarrow> permission \<Rightarrow> client_object list res" where
  "role_pair rv1 opts ns p =
     (case unique_name rv1 opts p of
        Inl err \<Rightarrow> Inl err
      | Inr name \<Rightarrow>
          all_ok [CreateRoleResource name ns [WithRules (sdp_Rules p)],
                  CreateRoleBindingResource name ns [WithSubjects [sa_subject opts p], WithRoleRef (rbac_ref ''Role'' name)]])"

definition BundleCSVPermissionsGenerator :: generator where
  "BundleCSVPermissionsGenerator = for_bundle (\<lambda>rv1 opts.
      if ro_TargetNamespaces opts = [[]] then Inr []
      else map_sum id concat (all_ok (concat (map (\<lambda>ns. map (role_pair rv1 opts ns) (csv_Permissions (rv1_CSV rv1))) (ro_TargetNamespaces opts)))))"

definition namespaces_rule :: policy_rule where
  "namespaces_rule = zero_rule\<lparr>pr_Verbs := [''get'', ''list'', ''watch''], pr_APIGroups := [[]], pr_Resources := [''namespaces'']\<rparr>"

definition cluster_permissions :: "registry_v1 \<Rightarrow> render_options \<Rightarrow> permission list" where
  "cluster_permissions rv1 opts =
     csv_ClusterPermissions (rv1_CSV rv1)
     @ (if ro_TargetNamespaces opts = [[]]
        then map (\<lambda>p. p\<lparr>sdp_Rules := sdp_Rules p @ [namespaces_rule]\<rparr>) (csv_Permissions (rv1_CSV rv1)) else [])"

definition cluster_role_pair :: "registry_v1 \<Rightarrow> render_options \<Rightarrow> permission \<Rightarrow> client_object list res" where
  "cluster_role_pair rv1 opts p =
     (case unique_name rv1 opts p of
        Inl err \<Rightarrow> Inl err
      | Inr name \<Rightarrow>
          all_ok [CreateClusterRoleResource name [WithRules (sdp_Rules p)],
                  CreateClusterRoleBindingResource name [WithSubjects [sa_subject opts p], WithRoleRef (rbac_ref ''ClusterRole'' name)]])"

definition BundleCSVClusterPermissionsGenerator :: generator where
  "BundleCSVClusterPermissionsGenerator =
     for_bundle (\<lambda>rv1 opts. map_sum id concat (all_ok (map (cluster_role_pair rv1 opts) (cluster_permissions rv1 opts))))"

definition BundleCSVServiceAccountGenerator :: "render_libs \<Rightarrow> generator" where
  "BundleCSVServiceAccountGenerator R = for_bundle (\<lambda>rv1 opts.
     (let allPermissions = csv_Permissions (rv1_CSV rv1) @ csv_ClusterPermissions (rv1_CSV rv1);
          names = rl_UnsortedStrings R (remdups (map (\<lambda>p. saNameOrDefault (sdp_ServiceAccountName p)) allPermissions))
      in all_ok (map (\<lambda>n. CreateServiceAccountResource n (ro_InstallNamespace opts) []) (filter (\<lambda>n. n \<noteq> ''default'') names))))"

fun collect_conversions :: "(string \<times> webhook_description) list \<Rightarrow> (string \<times> webhook_description) list \<Rightarrow> (string \<times> webhook_description) list res" where
  "collect_conversions m [] = Inr m"
| "collect_conversions m ((crdName, wh) # rest) =
     (if map_of m crdName \<noteq> None
      then Inl (ErrText (''custom resource definition '' @ squote crdName @ '' is referenced by multiple conversion webhook definitions''))
      else collect_conversions (map_put crdName wh m) rest)"

definition conversion_references :: "registry_v1 \<Rightarrow> (string \<times> webhook_description) list" where
  "conversion_references rv1 =
     concat (map (\<lambda>wh. map (\<lambda>crdName. (crdName, wh)) (wh_ConversionCRDs wh)) (filter (\<lambda>wh. wh_Type wh = ConversionWebhook) (webhook_definitions rv1)))"

definition conversion_for :: "render_options \<Rightarrow> cert_provisioner \<Rightarrow> webhook_description \<Rightarrow> crd_conversion" where
  "conversion_for opts certProvisioner cw =
     \<lparr>conv_Strategy = ''Webhook'',
      conv_Service = \<lparr>sr_Namespace = ro_InstallNamespace opts, sr_Name = pc_ServiceName (cpr_Config certProvisioner),
         sr_Path = Some (case wh_WebhookPath cw of Some p \<Rightarrow> p | None \<Rightarrow> ''/''), sr_Port = wh_ContainerPort cw\<rparr>,
      conv_ReviewVersions = wh_AdmissionReviewVersions cw\<rparr>"

definition converted_crd :: "render_options \<Rightarrow> webhook_description \<Rightarrow> custom_resource_definition \<Rightarrow> client_object res" where
  "converted_crd opts cw crd =
     (if crd_PreserveUnknownFields crd
      then Inl (ErrText (''custom resource definition '' @ squote (crd_Name crd)
             @ '' must have .spec.preserveUnknownFields set to false to let API Server call webhook to do the conversion''))
      else case CertProvisionerFor (wh_DeploymentName cw) opts of
             Inl err \<Rightarrow> Inl err
           | Inr certProvisioner \<Rightarrow>
               InjectCABundle certProvisioner (CRDObj (crd\<lparr>crd_Conversion := Some (conversion_for opts certProvisioner cw)\<rparr>)))"

definition BundleCRDGenerator :: generator where
  "BundleCRDGenerator = for_bundle (\<lambda>rv1 opts.
     (case collect_conversions [] (conversion_references rv1) of
        Inl err \<Rightarrow> Inl err
      | Inr crdToDeploymentMap \<Rightarrow>
          all_ok (map (\<lambda>crd. case map_of crdToDeploymentMap (crd_Name crd) of Some cw \<Rightarrow> converted_crd opts cw crd | None \<Rightarrow> Inr (CRDObj crd)) (rv1_CRDs rv1))))"

definition BundleAdditionalResourcesGenerator :: "render_libs \<Rightarrow> generator" where
  "BundleAdditionalResourcesGenerator R = for_bundle (\<lambda>rv1 opts.
     all_ok (map (\<lambda>res. case vl_IsSupported (rl_Validator R) (obj_Kind res) of (supported, namespaced) \<Rightarrow>
       if \<not> supported then Inl (ErrText (''bundle contains unsupported resource: Name: '' @ obj_Name res @ '', Kind: '' @ obj_Kind res))
       else Inr (UnstructuredObj (if namespaced then res\<lparr>obj_Namespace := ro_InstallNamespace opts\<rparr> else res))) (rv1_Others rv1)))"

definition TrimSuffix :: "string \<Rightarrow> string \<Rightarrow> string" where
  "TrimSuffix s suffix = (if has_suffix s suffix then take (length s - length suffix) s else s)"

abbreviation labelKubernetesNamespaceMetadataName :: string where
  "labelKubernetesNamespaceMetadataName \<equiv> ''kubernetes.io/metadata.name''"

definition getWebhookNamespaceSelector :: "string list \<Rightarrow> label_selector option" where
  "getWebhookNamespaceSelector targetNamespaces =
     (if length targetNamespaces > 0 \<and> [] \<notin> set targetNamespaces
      then Some \<lparr>ls_MatchLabels = [],
             ls_MatchExpressions = [\<lparr>sreq_Key = labelKubernetesNamespaceMetadataName, sreq_Operator = ''In'', sreq_Values = targetNamespaces\<rparr>]\<rparr>
      else None)"

definition admission_webhook_for :: "render_options \<Rightarrow> cert_provisioner \<Rightarrow> webhook_description \<Rightarrow> admission_webhook" where
  "admission_webhook_for opts certProvisioner wh =
     \<lparr>aw_Name = TrimSuffix (wh_GenerateName wh) ''-'', aw_Rules = wh_Rules wh, aw_FailurePolicy = wh_FailurePolicy wh, aw_MatchPolicy = wh_MatchPolicy wh,
      aw_ObjectSelector = wh_ObjectSelector wh, aw_SideEffects = wh_SideEffects wh, aw_TimeoutSeconds = wh_TimeoutSeconds wh,
      aw_AdmissionReviewVersions = wh_AdmissionReviewVersions wh,
      aw_Service = \<lparr>sr_Namespace = ro_InstallNamespace opts, sr_Name = pc_ServiceName (cpr_Config certProvisioner),
                    sr_Path = wh_WebhookPath wh, sr_Port = wh_ContainerPort wh\<rparr>,
      aw_ReinvocationPolicy = None, aw_NamespaceSelector = getWebhookNamespaceSelector (ro_TargetNamespaces opts)\<rparr>"

definition validating_configuration :: "render_options \<Rightarrow> webhook_description \<Rightarrow> client_object res" where
  "validating_configuration opts wh =
     (case CertProvisionerFor (wh_DeploymentName wh) opts of
        Inl err \<Rightarrow> Inl err
      | Inr certProvisioner \<Rightarrow>
          (case CreateValidatingWebhookConfigurationResource (TrimSuffix (wh_GenerateName wh) ''-'') (ro_InstallNamespace opts)
                  [WithValidatingWebhooks [admission_webhook_for opts certProvisioner wh]] of
             Inl err \<Rightarrow> Inl err | Inr obj \<Rightarrow> InjectCABundle certProvisioner obj))"

definition BundleValidatingWebhookResourceGenerator :: generator where
  "BundleValidatingWebhookResourceGenerator = for_bundle (\<lambda>rv1 opts.
     all_ok (map (validating_configuration opts) (filter (\<lambda>wh. wh_Type wh = ValidatingAdmissionWebhook) (webhook_definitions rv1))))"

definition mutating_configuration :: "render_options \<Rightarrow> webhook_description \<Rightarrow> client_object res" where
  "mutating_configuration opts wh =
     (case CertProvisionerFor (wh_DeploymentName wh) opts of
        Inl err \<Rightarrow> Inl err
      | Inr certProvisioner \<Rightarrow>
          (case CreateMutatingWebhookConfigurationResource (TrimSuffix (wh_GenerateName wh) ''-'') (ro_InstallNamespace opts)
                  [WithMutatingWebhooks [(admission_webhook_for opts certProvisioner wh)\<lparr>aw_ReinvocationPolicy := wh_ReinvocationPolicy wh\<rparr>]] of
             Inl err \<Rightarrow> Inl err | Inr obj \<Rightarrow> InjectCABundle certProvisioner obj))"

definition BundleMutatingWebhookResourceGenerator :: generator where
  "BundleMutatingWebhookResourceGenerator = for_bundle (\<lambda>rv1 opts.
     all_ok (map (mutating_configuration opts) (filter (\<lambda>wh. wh_Type wh = MutatingAdmissionWebhook) (webhook_definitions rv1))))"

definition getWebhookServicePort :: "webhook_description \<Rightarrow> service_port" where
  "getWebhookServicePort wh =
     (let containerPort = (if wh_ContainerPort wh > 0 then wh_ContainerPort wh else 443)
      in \<lparr>sp_Name = show_int containerPort, sp_Port = containerPort,
          sp_TargetPort = (case wh_TargetPort wh of Some p \<Rightarrow> p | None \<Rightarrow> FromInt containerPort)\<rparr>)"

definition by_ports :: "render_libs \<Rightarrow> service_port cmp" where
  "by_ports R a b =
     (let c = cmp_ord (sp_Port a) (sp_Port b) in if c \<noteq> 0 then c else cmp_ord (rl_IntValue R (sp_TargetPort a)) (rl_IntValue R (sp_TargetPort b)))"

definition service_for :: "render_libs \<Rightarrow> registry_v1 \<Rightarrow> render_options \<Rightarrow> strategy_deployment \<Rightarrow> client_object res" where
  "service_for R rv1 opts deploymentSpec =
     (let servicePorts = remdups (map getWebhookServicePort (filter (\<lambda>wh. wh_DeploymentName wh = sds_Name deploymentSpec) (webhook_definitions rv1)));
          ports = SortStableFunc (by_ports R) (rl_UnsortedPorts R servicePorts);
          labelSelector = (case ds_Selector (sds_Spec deploymentSpec) of Some s \<Rightarrow> ls_MatchLabels s | None \<Rightarrow> [])
      in case CertProvisionerFor (sds_Name deploymentSpec) opts of
           Inl err \<Rightarrow> Inl err
         | Inr certProvisioner \<Rightarrow>
             (case CreateServiceResource (pc_ServiceName (cpr_Config certProvisioner)) (ro_InstallNamespace opts)
                     [WithServiceSpec \<lparr>ss_Ports = ports, ss_Selector = labelSelector\<rparr>] of
                Inl err \<Rightarrow> Inl err | Inr obj \<Rightarrow> InjectCABundle certProvisioner obj))"

definition BundleDeploymentServiceResourceGenerator :: "render_libs \<Rightarrow> generator" where
  "BundleDeploymentServiceResourceGenerator R = for_bundle (\<lambda>rv1 opts.
     all_ok (map (service_for R rv1 opts)
       (filter (\<lambda>d. sds_Name d \<in> wh_DeploymentName ` set (webhook_definitions rv1)) (strategy_deployments rv1))))"

definition CertProviderResourceGenerator :: "render_libs \<Rightarrow> generator" where
  "CertProviderResourceGenerator R orv1 opts =
     (case orv1 of
        None \<Rightarrow> Inl nil_deref
      | Some rv1 \<Rightarrow>
          map_sum id concat (all_ok (map
            (\<lambda>depName. case CertProvisionerFor depName opts of Inl err \<Rightarrow> Inl err | Inr certCfg \<Rightarrow> map_sum id (map UnstructuredObj) (AdditionalObjects certCfg))
            (rl_UnsortedStrings R (remdups (map wh_DeploymentName (webhook_definitions rv1)))))))"

section \<open>What the generators give\<close>

lemma for_bundle_Some [simp]: "for_bundle f (Some rv1) opts = f rv1 opts"
  by (simp add: for_bundle_def)

lemma provisioner_config [simp]: "(provisioner d opts)\<lparr>cpr_Config := cpr_Config (provisioner d opts)\<rparr> = provisioner d opts"
  by simp

lemma injected:
  assumes "providers_ok opts"
  shows "\<exists>a. InjectCABundle (provisioner d opts) (ServiceObj m s) = Inr (ServiceObj (m\<lparr>om_Annotations := a\<rparr>) s)"
    and "\<exists>a. InjectCABundle (provisioner d opts) (ValidatingWebhookConfigurationObj m ws) = Inr (ValidatingWebhookConfigurationObj (m\<lparr>om_Annotations := a\<rparr>) ws)"
    and "\<exists>a. InjectCABundle (provisioner d opts) (MutatingWebhookConfigurationObj m ws) = Inr (MutatingWebhookConfigurationObj (m\<lparr>om_Annotations := a\<rparr>) ws)"
    and "\<exists>a. InjectCABundle (provisioner d opts) (CRDObj c) = Inr (CRDObj (c\<lparr>crd_Annotations := a\<rparr>))"
  using ca_injector.inject_service [OF InjectCABundle_injector [OF assms, of d], where m = m and s = s and cfg = "cpr_Config (provisioner d opts)"]
    ca_injector.inject_validating [OF InjectCABundle_injector [OF assms, of d], where m = m and ws = ws and cfg = "cpr_Config (provisioner d opts)"]
    ca_injector.inject_mutating [OF InjectCABundle_injector [OF assms, of d], where m = m and ws = ws and cfg = "cpr_Config (provisioner d opts)"]
    ca_injector.inject_crd [OF InjectCABundle_injector [OF assms, of d], where c = c and cfg = "cpr_Config (provisioner d opts)"]
  by simp_all

definition names_total :: "render_options \<Rightarrow> bool" where
  "names_total opts \<longleftrightarrow> (\<exists>gen. ro_UniqueNameGenerator opts = Some gen \<and> (\<forall>base p. \<exists>n. gen base p = Inr n))"

definition role_name :: "registry_v1 \<Rightarrow> render_options \<Rightarrow> permission \<Rightarrow> string" where
  "role_name rv1 opts p = projr (unique_name rv1 opts p)"

lemma unique_name_total: "names_total opts \<Longrightarrow> unique_name rv1 opts p = Inr (role_name rv1 opts p)"
  unfolding names_total_def unique_name_def role_name_def by (metis option.simps(5) sum.sel(2))

definition role_objects :: "registry_v1 \<Rightarrow> render_options \<Rightarrow> string \<Rightarrow> permission \<Rightarrow> client_object list" where
  "role_objects rv1 opts ns p =
     (let n = role_name rv1 opts p
      in [RoleObj (named n ns) (sdp_Rules p), RoleBindingObj (named n ns) [sa_subject opts p] (rbac_ref ''Role'' n)])"

definition cluster_role_objects :: "registry_v1 \<Rightarrow> render_options \<Rightarrow> permission \<Rightarrow> client_object list" where
  "cluster_role_objects rv1 opts p =
     (let n = role_name rv1 opts p
      in [ClusterRoleObj (named n []) (sdp_Rules p), ClusterRoleBindingObj (named n []) [sa_subject opts p] (rbac_ref ''ClusterRole'' n)])"

lemma service_accounts:
  "BundleCSVServiceAccountGenerator R (Some rv1) opts =
     Inr (map (\<lambda>n. ServiceAccountObj (named n (ro_InstallNamespace opts)))
       (filter (\<lambda>n. n \<noteq> ''default'') (rl_UnsortedStrings R (remdups (map (\<lambda>p. saNameOrDefault (sdp_ServiceAccountName p))
          (csv_Permissions (rv1_CSV rv1) @ csv_ClusterPermissions (rv1_CSV rv1)))))))"
  by (simp add: BundleCSVServiceAccountGenerator_def Let_def)

lemma permissions:
  assumes "names_total opts"
  shows "BundleCSVPermissionsGenerator (Some rv1) opts =
    Inr (if ro_TargetNamespaces opts = [[]] then []
         else concat (concat (map (\<lambda>ns. map (role_objects rv1 opts ns) (csv_Permissions (rv1_CSV rv1))) (ro_TargetNamespaces opts))))"
proof -
  have "role_pair rv1 opts ns = (\<lambda>p. Inr (role_objects rv1 opts ns p))" for ns
    by (rule ext) (simp add: role_pair_def unique_name_total [OF assms] role_objects_def Let_def)
  then have "concat (map (\<lambda>ns. map (role_pair rv1 opts ns) ps) nss) = map Inr (concat (map (\<lambda>ns. map (role_objects rv1 opts ns) ps) nss))" for ps nss
    by (simp add: map_concat comp_def)
  then show ?thesis
    by (simp add: BundleCSVPermissionsGenerator_def all_ok_map_Inr [where f = "\<lambda>x. x", simplified])
qed

lemma cluster_permissions_generated:
  assumes "names_total opts"
  shows "BundleCSVClusterPermissionsGenerator (Some rv1) opts = Inr (concat (map (cluster_role_objects rv1 opts) (cluster_permissions rv1 opts)))"
proof -
  have "cluster_role_pair rv1 opts = (\<lambda>p. Inr (cluster_role_objects rv1 opts p))"
    by (rule ext) (simp add: cluster_role_pair_def unique_name_total [OF assms] cluster_role_objects_def Let_def)
  then show ?thesis by (simp add: BundleCSVClusterPermissionsGenerator_def)
qed

lemma deployment_generated:
  "\<exists>m d. generate_deployment rv1 opts ds = Inr (DeploymentObj m d) \<and> om_Name m = sds_Name ds \<and> om_Namespace m = ro_InstallNamespace opts"
  by (cases "GetCertSecretInfo (provisioner (sds_Name ds) opts)"; cases "ro_DeploymentConfig opts")
    (simp_all add: generate_deployment_def CertProvisionerFor_ok Let_def with_deployment_def named_def applyCustomConfigToDeployment_def
      applyAnnotationsConfig_def)

lemma webhook_generated:
  assumes "providers_ok opts"
  shows "\<exists>m. validating_configuration opts wh =
      Inr (ValidatingWebhookConfigurationObj m [admission_webhook_for opts (provisioner (wh_DeploymentName wh) opts) wh])"
    and "\<exists>m. mutating_configuration opts wh =
      Inr (MutatingWebhookConfigurationObj m [(admission_webhook_for opts (provisioner (wh_DeploymentName wh) opts) wh)\<lparr>aw_ReinvocationPolicy := wh_ReinvocationPolicy wh\<rparr>])"
  using injected(2) [OF assms] injected(3) [OF assms]
  by (simp_all add: validating_configuration_def mutating_configuration_def CertProvisionerFor_ok) blast+

lemma service_generated:
  assumes "providers_ok opts"
  shows "\<exists>m. service_for R rv1 opts ds =
      Inr (ServiceObj m \<lparr>ss_Ports = SortStableFunc (by_ports R) (rl_UnsortedPorts R (remdups (map getWebhookServicePort
             (filter (\<lambda>wh. wh_DeploymentName wh = sds_Name ds) (webhook_definitions rv1))))),
           ss_Selector = (case ds_Selector (sds_Spec ds) of Some s \<Rightarrow> ls_MatchLabels s | None \<Rightarrow> [])\<rparr>)
      \<and> om_Name m = pc_ServiceName (cpr_Config (provisioner (sds_Name ds) opts)) \<and> om_Namespace m = ro_InstallNamespace opts"
proof -
  obtain a where "InjectCABundle (provisioner (sds_Name ds) opts) (ServiceObj (named (pc_ServiceName (cpr_Config (provisioner (sds_Name ds) opts))) (ro_InstallNamespace opts)) sp)
      = Inr (ServiceObj ((named (pc_ServiceName (cpr_Config (provisioner (sds_Name ds) opts))) (ro_InstallNamespace opts))\<lparr>om_Annotations := a sp\<rparr>) sp)" for sp
    using injected(1) [OF assms] by metis
  then show ?thesis by (simp add: service_for_def CertProvisionerFor_ok named_def Let_def)
qed

lemma collect_conversions_Inr:
  "(\<exists>m'. collect_conversions m refs = Inr m') \<longleftrightarrow> distinct (map fst refs) \<and> (\<forall>k \<in> fst ` set refs. map_of m k = None)"
  by (induction m refs rule: collect_conversions.induct) auto

lemma collect_conversions_map:
  "collect_conversions m refs = Inr m' \<Longrightarrow> map_of m' k = (case map_of refs k of Some wh \<Rightarrow> Some wh | None \<Rightarrow> map_of m k)"
proof (induction m refs rule: collect_conversions.induct)
  case (2 m crdName wh rest)
  then have "map_of rest crdName = None"
    using collect_conversions_Inr [of "map_put crdName wh m" rest] by (auto simp: map_of_eq_None_iff split: if_splits)
  with 2 show ?case by (auto split: if_splits option.splits)
qed simp

end
