(* ===== verification/BundleRender.thy ===== *)
theory BundleRender
  imports BundleGenerators
begin

text \<open>
  Rendering of registry+v1 bundles (\<^verbatim>\<open>render/render.go\<close>, with the renderer of \<^verbatim>\<open>registryv1/registryv1.go\<close>): options, their validation
  against the install modes of the bundle, and the run of validators and generators.
\<close>

section \<open>Options\<close>

type_synonym render_option = "render_options \<Rightarrow> render_options"

definition WithTargetNamespaces :: "string list \<Rightarrow> render_option" where
  "WithTargetNamespaces namespaces o' = (if length namespaces > 0 then o'\<lparr>ro_TargetNamespaces := namespaces\<rparr> else o')"

definition WithUniqueNameGenerator :: "(string \<Rightarrow> permission \<Rightarrow> string res) option \<Rightarrow> render_option" where
  "WithUniqueNameGenerator generator o' = o'\<lparr>ro_UniqueNameGenerator := generator\<rparr>"

definition WithCertificateProvider :: "certificate_provider option \<Rightarrow> render_option" where
  "WithCertificateProvider provider o' = o'\<lparr>ro_CertificateProvider := provider\<rparr>"

definition WithDeploymentConfig :: "deployment_config option \<Rightarrow> render_option" where
  "WithDeploymentConfig deploymentConfig o' = o'\<lparr>ro_DeploymentConfig := deploymentConfig\<rparr>"

definition apply_options :: "render_option option list \<Rightarrow> render_options \<Rightarrow> render_options" where
  "apply_options opts o' = fold (\<lambda>opt o'. case opt of Some f \<Rightarrow> f o' | None \<Rightarrow> o') opts o'"

definition supportedBundleInstallModes :: "registry_v1 \<Rightarrow> string list" where
  "supportedBundleInstallModes rv1 = remdups (map im_Type (filter im_Supported (csv_InstallModes (rv1_CSV rv1))))"

definition defaultTargetNamespacesForBundle :: "registry_v1 \<Rightarrow> string list" where
  "defaultTargetNamespacesForBundle rv1 = (if InstallModeTypeAllNamespaces \<in> set (supportedBundleInstallModes rv1) then [[]] else [])"

definition unsupported :: "registry_v1 \<Rightarrow> string \<Rightarrow> goerr option" where
  "unsupported rv1 what =
     Some (ErrText (''supported install modes '' @ show_slice (sorted_strings (supportedBundleInstallModes rv1)) @ '' do not support '' @ what))"

definition validateTargetNamespaces :: "registry_v1 \<Rightarrow> string \<Rightarrow> string list \<Rightarrow> goerr option" where
  "validateTargetNamespaces rv1 installNamespace targetNamespaces =
     (let supports = (\<lambda>mode. mode \<in> set (supportedBundleInstallModes rv1));
          namespaces = remdups targetNamespaces;
          rejected = unsupported rv1 (''target namespaces '' @ show_slice targetNamespaces)
      in if length namespaces = 0 then
           (if supports InstallModeTypeMultiNamespace then Some (ErrText ''at least one target namespace must be specified'')
            else Some (ErrText ''exactly one target namespace must be specified''))
         else if length namespaces = 1 \<and> [] \<in> set namespaces then
           (if supports InstallModeTypeAllNamespaces then None else unsupported rv1 ''targeting all namespaces'')
         else if length namespaces = 1 \<and> [] \<notin> set namespaces then
           (if hd targetNamespaces = installNamespace then
              (if \<not> supports InstallModeTypeOwnNamespace then unsupported rv1 ''targeting own namespace'' else None)
            else if supports InstallModeTypeSingleNamespace then None else rejected)
         else if \<not> supports InstallModeTypeOwnNamespace \<and> installNamespace \<in> set namespaces then unsupported rv1 ''targeting own namespace''
         else if supports InstallModeTypeMultiNamespace \<and> [] \<notin> set namespaces then None
         else rejected)"

definition validate_options :: "registry_v1 \<Rightarrow> render_options \<Rightarrow> goerr list" where
  "validate_options rv1 o' =
     (if ro_UniqueNameGenerator o' = None then [ErrText ''unique name generator must be specified''] else [])
     @ (case validateTargetNamespaces rv1 (ro_InstallNamespace o') (ro_TargetNamespaces o') of
          Some err \<Rightarrow> [ErrWrap (''invalid target namespaces '' @ show_slice (ro_TargetNamespaces o') @ '': '') err]
        | None \<Rightarrow> [])"

section \<open>Rendering\<close>

record bundle_renderer =
  br_BundleValidator :: "validator list"
  br_ResourceGenerators :: "generator list"

definition GenerateResources :: "generator list \<Rightarrow> registry_v1 option \<Rightarrow> render_options \<Rightarrow> client_object list res" where
  "GenerateResources gs rv1 opts = map_sum id concat (all_ok (map (\<lambda>g. g rv1 opts) gs))"

definition default_options :: "permission hash_libs \<Rightarrow> registry_v1 \<Rightarrow> string \<Rightarrow> render_options" where
  "default_options H rv1 installNamespace =
     \<lparr>ro_InstallNamespace = installNamespace, ro_TargetNamespaces = defaultTargetNamespacesForBundle rv1,
      ro_UniqueNameGenerator = Some (DefaultUniqueNameGenerator H), ro_CertificateProvider = None, ro_DeploymentConfig = None\<rparr>"

definition Render :: "permission hash_libs \<Rightarrow> bundle_renderer \<Rightarrow> registry_v1 \<Rightarrow> string \<Rightarrow> render_option option list \<Rightarrow> client_object list res" where
  "Render H r rv1 installNamespace opts =
     (case Validate (br_BundleValidator r) rv1 of
        Some err \<Rightarrow> Inl err
      | None \<Rightarrow>
          (let genOpts = apply_options opts (default_options H rv1 installNamespace);
               errs = validate_options rv1 genOpts
           in if length errs > 0 then Inl (ErrWrap ''invalid option(s): '' (ErrJoin errs))
              else GenerateResources (br_ResourceGenerators r) (Some rv1) genOpts))"

definition ResourceGenerators :: "render_libs \<Rightarrow> generator list" where
  "ResourceGenerators R =
     [BundleCSVServiceAccountGenerator R, BundleCSVPermissionsGenerator, BundleCSVClusterPermissionsGenerator, BundleCRDGenerator,
      BundleAdditionalResourcesGenerator R, BundleCSVDeploymentGenerator, BundleValidatingWebhookResourceGenerator,
      BundleMutatingWebhookResourceGenerator, BundleDeploymentServiceResourceGenerator R, CertProviderResourceGenerator R]"

definition Renderer :: "render_libs \<Rightarrow> bundle_renderer" where
  "Renderer R = \<lparr>br_BundleValidator = BundleValidator (rl_Validator R), br_ResourceGenerators = ResourceGenerators R\<rparr>"

section \<open>Acceptance\<close>

definition targets_ok :: "string set \<Rightarrow> string \<Rightarrow> string set \<Rightarrow> bool" where
  "targets_ok modes installNamespace S \<longleftrightarrow>
     (S = {[]} \<and> InstallModeTypeAllNamespaces \<in> modes)
     \<or> (S \<noteq> {} \<and> [] \<notin> S \<and> (installNamespace \<in> S \<longrightarrow> InstallModeTypeOwnNamespace \<in> modes)
        \<and> (S \<noteq> {installNamespace} \<longrightarrow> (if card S = 1 then InstallModeTypeSingleNamespace else InstallModeTypeMultiNamespace) \<in> modes))"

lemma length_remdups_1: "length (remdups xs) = 1 \<longleftrightarrow> xs \<noteq> [] \<and> set xs = {hd xs}"
proof (cases xs)
  case (Cons y ys)
  have "card (insert y (set ys)) = 1 \<longleftrightarrow> insert y (set ys) = {y}" by (auto simp: card_1_singleton_iff)
  then show ?thesis by (simp add: Cons length_remdups_card_conv del: remdups.simps card_insert_if)
qed simp

lemma unsupported_Some [simp]: "unsupported rv1 what \<noteq> None"
  by (simp only: unsupported_def option.simps not_False_eq_True)

lemma target_switch:
  assumes "e1 \<noteq> None" and "e2 \<noteq> None" and "e3 \<noteq> None"
  shows "((if A then (if m then Some x else Some y) else if B \<and> E then (if a then None else e1)
       else if B \<and> \<not> E then (if H then (if \<not> own then e2 else None) else if sgl then None else e3)
       else if \<not> own \<and> N then e2 else if m \<and> \<not> E then None else e3) = None) \<longleftrightarrow>
     (if A then False else if B \<and> E then a else if B \<and> \<not> E then (if H then own else sgl) else (N \<longrightarrow> own) \<and> m \<and> \<not> E)"
  using assms by simp

definition targets_cases :: "bool \<Rightarrow> bool \<Rightarrow> bool \<Rightarrow> bool \<Rightarrow> string \<Rightarrow> string list \<Rightarrow> bool" where
  "targets_cases all_ns own sgl multi ns targets =
     (if card (set targets) = 0 then False
      else if card (set targets) = 1 \<and> [] \<in> set targets then all_ns
      else if card (set targets) = 1 \<and> [] \<notin> set targets then (if hd targets = ns then own else sgl)
      else (ns \<in> set targets \<longrightarrow> own) \<and> multi \<and> [] \<notin> set targets)"

lemma validateTargetNamespaces_cases:
  "validateTargetNamespaces rv1 ns targets = None \<longleftrightarrow>
     targets_cases (InstallModeTypeAllNamespaces \<in> set (supportedBundleInstallModes rv1)) (InstallModeTypeOwnNamespace \<in> set (supportedBundleInstallModes rv1))
       (InstallModeTypeSingleNamespace \<in> set (supportedBundleInstallModes rv1)) (InstallModeTypeMultiNamespace \<in> set (supportedBundleInstallModes rv1)) ns targets"
  unfolding validateTargetNamespaces_def targets_cases_def Let_def set_remdups length_remdups_card_conv
  by (rule target_switch) (rule unsupported_Some)+

lemma targets_cases_set:
  "targets_cases all_ns own sgl multi ns targets \<longleftrightarrow>
     (set targets = {[]} \<and> all_ns)
     \<or> (set targets \<noteq> {} \<and> [] \<notin> set targets \<and> (ns \<in> set targets \<longrightarrow> own) \<and> (set targets \<noteq> {ns} \<longrightarrow> (if card (set targets) = 1 then sgl else multi)))"
proof (cases "card (set targets) = 1")
  case True
  then have "set targets = {hd targets}"
    using length_remdups_1 [of targets] unfolding length_remdups_card_conv by (rule iffD1 [THEN conjunct2, rotated])
  then obtain t where t: "set targets = {t}" "hd targets = t" by (rule that [OF _ refl])
  show ?thesis unfolding targets_cases_def t by (cases "t = []"; cases "t = ns") simp_all
next
  case False
  then have "set targets \<noteq> {t}" for t by (metis card_1_singleton_iff One_nat_def)
  with False show ?thesis unfolding targets_cases_def by (cases "set targets = {}") (simp_all add: conj_ac)
qed

lemma validateTargetNamespaces_None:
  "validateTargetNamespaces rv1 ns targets = None \<longleftrightarrow> targets_ok (set (supportedBundleInstallModes rv1)) ns (set targets)"
  unfolding validateTargetNamespaces_cases targets_cases_set targets_ok_def
    if_distrib [where f = "\<lambda>m. m \<in> set (supportedBundleInstallModes rv1)"] ..

definition renderable :: "render_libs \<Rightarrow> registry_v1 \<Rightarrow> render_options \<Rightarrow> bool" where
  "renderable R rv1 o' \<longleftrightarrow>
     valid_bundle (rl_Validator R) rv1
     \<and> targets_ok (set (supportedBundleInstallModes rv1)) (ro_InstallNamespace o') (set (ro_TargetNamespaces o'))
     \<and> (\<forall>crd \<in> set (rv1_CRDs rv1). crd_Name crd \<in> (\<Union>wh \<in> set (conversion_webhooks rv1). set (wh_ConversionCRDs wh)) \<longrightarrow> \<not> crd_PreserveUnknownFields crd)"

lemma GenerateResources_mem:
  "GenerateResources gs rv1 opts = Inr objs \<Longrightarrow> obj \<in> set objs \<longleftrightarrow> (\<exists>g \<in> set gs. \<exists>os. g rv1 opts = Inr os \<and> obj \<in> set os)"
  unfolding GenerateResources_def map_sum_Inr using all_ok_mem [of "\<lambda>g. g rv1 opts" gs] by fastforce

lemma GenerateResources_ex:
  "(\<exists>objs. GenerateResources gs rv1 opts = Inr objs) \<longleftrightarrow> (\<forall>g \<in> set gs. \<exists>os. g rv1 opts = Inr os)"
  using all_ok_ex [of "\<lambda>g. g rv1 opts" gs] by (simp add: GenerateResources_def map_sum_Inr)

lemma conversion_names: "map fst (conversion_references rv1) = concat (map wh_ConversionCRDs (conversion_webhooks rv1))"
  by (simp add: conversion_references_def conversion_webhooks_def map_concat comp_def)

lemma converted_crd_ok:
  assumes "providers_ok opts"
  shows "(\<exists>y. converted_crd opts cw crd = Inr y) \<longleftrightarrow> \<not> crd_PreserveUnknownFields crd"
proof (cases "crd_PreserveUnknownFields crd")
  case False
  then show ?thesis using injected(4) [OF assms] by (simp add: converted_crd_def CertProvisionerFor_ok) blast
qed (simp add: converted_crd_def)

lemma crds_generated_iff:
  assumes "providers_ok opts" and "distinct (concat (map wh_ConversionCRDs (conversion_webhooks rv1)))"
  shows "(\<exists>os. BundleCRDGenerator (Some rv1) opts = Inr os) \<longleftrightarrow>
    (\<forall>crd \<in> set (rv1_CRDs rv1). crd_Name crd \<in> (\<Union>wh \<in> set (conversion_webhooks rv1). set (wh_ConversionCRDs wh)) \<longrightarrow> \<not> crd_PreserveUnknownFields crd)"
proof -
  obtain m where m: "collect_conversions [] (conversion_references rv1) = Inr m"
    using collect_conversions_Inr [of "[]" "conversion_references rv1"] assms(2) by (auto simp: conversion_names)
  have dom: "k \<in> (\<Union>wh \<in> set (conversion_webhooks rv1). set (wh_ConversionCRDs wh)) \<longleftrightarrow> map_of m k \<noteq> None" for k
  proof -
    have "map_of m k = map_of (conversion_references rv1) k"
      using collect_conversions_map [OF m, of k] by (simp split: option.splits)
    then show ?thesis
      using arg_cong [OF conversion_names [of rv1], of set] by (simp only: map_of_eq_None_iff set_map set_concat) simp
  qed
  show ?thesis
    unfolding BundleCRDGenerator_def for_bundle_Some m sum.case all_ok_ex dom
    using converted_crd_ok [OF assms(1)] by (intro ball_cong refl) (simp split: option.split)
qed

lemma others_generated_iff:
  "(\<exists>os. BundleAdditionalResourcesGenerator R (Some rv1) opts = Inr os) \<longleftrightarrow> (\<forall>obj \<in> set (rv1_Others rv1). fst (vl_IsSupported (rl_Validator R) (obj_Kind obj)))"
  unfolding BundleAdditionalResourcesGenerator_def for_bundle_Some all_ok_ex by (intro ball_cong refl) (simp add: split_beta)

lemma webhooks_generated:
  assumes "providers_ok opts"
  shows "\<exists>os. BundleValidatingWebhookResourceGenerator (Some rv1) opts = Inr os"
    and "\<exists>os. BundleMutatingWebhookResourceGenerator (Some rv1) opts = Inr os"
    and "\<exists>os. BundleDeploymentServiceResourceGenerator R (Some rv1) opts = Inr os"
    and "\<exists>os. CertProviderResourceGenerator R (Some rv1) opts = Inr os"
    and "\<exists>os. BundleCSVDeploymentGenerator (Some rv1) opts = Inr os"
proof -
  have "\<exists>y. map_sum id (map UnstructuredObj) (AdditionalObjects (provisioner d opts)) = Inr y" for d
    using AdditionalObjects_total [OF assms, of d] by auto
  then show "\<exists>os. CertProviderResourceGenerator R (Some rv1) opts = Inr os"
    by (simp add: CertProviderResourceGenerator_def map_sum_Inr all_ok_ex CertProvisionerFor_ok)
  show "\<exists>os. BundleCSVDeploymentGenerator (Some rv1) opts = Inr os"
    using deployment_generated by (simp add: BundleCSVDeploymentGenerator_def all_ok_ex) blast
  show "\<exists>os. BundleValidatingWebhookResourceGenerator (Some rv1) opts = Inr os"
    using webhook_generated(1) [OF assms] by (simp add: BundleValidatingWebhookResourceGenerator_def all_ok_ex) blast
  show "\<exists>os. BundleMutatingWebhookResourceGenerator (Some rv1) opts = Inr os"
    using webhook_generated(2) [OF assms] by (simp add: BundleMutatingWebhookResourceGenerator_def all_ok_ex) blast
  show "\<exists>os. BundleDeploymentServiceResourceGenerator R (Some rv1) opts = Inr os"
    using service_generated [OF assms] by (simp add: BundleDeploymentServiceResourceGenerator_def all_ok_ex) blast
qed

lemma generators_succeed_iff:
  assumes "names_total opts" and "providers_ok opts" and "valid_bundle (rl_Validator R) rv1"
  shows "(\<exists>objs. GenerateResources (ResourceGenerators R) (Some rv1) opts = Inr objs) \<longleftrightarrow>
    (\<forall>crd \<in> set (rv1_CRDs rv1). crd_Name crd \<in> (\<Union>wh \<in> set (conversion_webhooks rv1). set (wh_ConversionCRDs wh)) \<longrightarrow> \<not> crd_PreserveUnknownFields crd)"
proof -
  have "distinct (concat (map wh_ConversionCRDs (conversion_webhooks rv1)))"
    "\<forall>obj \<in> set (rv1_Others rv1). fst (vl_IsSupported (rl_Validator R) (obj_Kind obj))"
    using assms(3) by (simp_all add: valid_bundle_def Let_def)
  then show ?thesis
    unfolding GenerateResources_ex ResourceGenerators_def
    by (simp only: list.set ball_simps service_accounts permissions [OF assms(1)] cluster_permissions_generated [OF assms(1)]
        crds_generated_iff [OF assms(2)] others_generated_iff webhooks_generated [OF assms(2)]) simp
qed

lemma Render_accepts:
  assumes "go_sorter (vl_SortFunc (rl_Validator R))"
    and "names_total (apply_options opts (default_options H rv1 ns))"
    and "providers_ok (apply_options opts (default_options H rv1 ns))"
  shows "(\<exists>objs. Render H (Renderer R) rv1 ns opts = Inr objs) \<longleftrightarrow> renderable R rv1 (apply_options opts (default_options H rv1 ns))"
proof -
  let ?o = "apply_options opts (default_options H rv1 ns)"
  have named: "ro_UniqueNameGenerator ?o \<noteq> None" using assms(2) by (auto simp: names_total_def)
  show ?thesis
    using generators_succeed_iff [OF assms(2,3), of R] Validate_valid [OF assms(1), of rv1] named
    by (auto simp: Render_def Renderer_def renderable_def validate_options_def validateTargetNamespaces_None [symmetric] Let_def
        split: option.splits)
qed

text \<open>
  C15: what the renderer accepts.  With a name generator that always gives a name and a certificate provider that does not fail, rendering
  succeeds exactly when the bundle is valid, its install modes allow the target namespaces (all namespaces only alone and in the
  AllNamespaces mode, the install namespace only in the OwnNamespace mode, another one in SingleNamespace, several in MultiNamespace), and no definition
  converted by a webhook preserves unknown fields.  No other error of a generator, and no panic, can be reached from a validated bundle.
\<close>

theorem Render_accepts_iff:
  assumes "go_sorter (vl_SortFunc (rl_Validator R))"
    and "names_total (apply_options opts (default_options H rv1 ns))"
    and "providers_ok (apply_options opts (default_options H rv1 ns))"
  shows "(\<exists>objs. Render H (Renderer R) rv1 ns opts = Inr objs) \<longleftrightarrow> renderable R rv1 (apply_options opts (default_options H rv1 ns))"
  by (rule Render_accepts [OF assms])

section \<open>Witness\<close>

definition ex_render_libs :: render_libs where
  "ex_render_libs = \<lparr>rl_Validator = ex_libs, rl_UnsortedStrings = (\<lambda>xs. xs), rl_UnsortedPorts = (\<lambda>xs. xs), rl_IntValue = (\<lambda>p. case p of FromInt i \<Rightarrow> i | FromString _ \<Rightarrow> 0)\<rparr>"

definition ex_permission :: permission where
  "ex_permission = \<lparr>sdp_ServiceAccountName = ''sa'', sdp_Rules = [zero_rule\<lparr>pr_Verbs := [''get''], pr_APIGroups := [[]], pr_Resources := [''pods'']\<rparr>]\<rparr>"

definition ex_rbundle :: registry_v1 where
  "ex_rbundle = (ex_rv1 [ex_webhook ''wh'' ValidatingAdmissionWebhook ''manager'' 9443])
     \<lparr>rv1_CSV := ex_csv\<lparr>csv_WebhookDefinitions := [ex_webhook ''wh'' ValidatingAdmissionWebhook ''manager'' 9443], csv_Permissions := [ex_permission]\<rparr>\<rparr>"

definition ex_render_opts :: "render_option option list" where
  "ex_render_opts = [None, Some (WithUniqueNameGenerator (Some (\<lambda>base p. Inr base))), Some (WithCertificateProvider (Some OpenshiftServiceCaCertificateProvider))]"

definition ex_hash :: "permission hash_libs" where
  "ex_hash = \<lparr>hl_Encode = (\<lambda>p. Inr (sdp_ServiceAccountName p)), hl_Sum224 = (\<lambda>d. replicate 28 (CHR ''x''))\<rparr>"

definition ex_options :: render_options where
  "ex_options = \<lparr>ro_InstallNamespace = ''install'', ro_TargetNamespaces = [[]], ro_UniqueNameGenerator = Some (\<lambda>base p. Inr base),
     ro_CertificateProvider = Some OpenshiftServiceCaCertificateProvider, ro_DeploymentConfig = None\<rparr>"

lemma ex_sorter: "go_sorter (vl_SortFunc (rl_Validator ex_render_libs))"
  by (simp add: ex_render_libs_def ex_libs_sorter)

lemma ex_modes: "supportedBundleInstallModes ex_rbundle = [InstallModeTypeAllNamespaces]"
  by (simp add: supportedBundleInstallModes_def ex_rbundle_def ex_csv_def)

lemma ex_applied: "apply_options ex_render_opts (default_options ex_hash ex_rbundle ''install'') = ex_options"
  by (simp add: apply_options_def ex_render_opts_def default_options_def WithUniqueNameGenerator_def WithCertificateProvider_def ex_options_def
      defaultTargetNamespacesForBundle_def ex_modes)

lemma ex_options_ok: "names_total ex_options" "providers_ok ex_options"
  by (simp_all add: names_total_def providers_ok_def ex_options_def openshift_ok)

lemma ex_renderable: "renderable ex_render_libs ex_rbundle ex_options"
proof -
  have "valid_bundle ex_libs ex_rbundle"
    by (simp add: valid_bundle_def ex_rbundle_def ex_rv1_def ex_csv_def ex_webhook_def ex_libs_def conversion_webhooks_def Let_def)
  moreover have "targets_ok (set (supportedBundleInstallModes ex_rbundle)) ''install'' {[]}"
    unfolding ex_modes targets_ok_def by simp
  moreover have "rv1_CRDs ex_rbundle = []" by (simp add: ex_rbundle_def ex_rv1_def)
  ultimately show ?thesis by (simp add: renderable_def ex_render_libs_def ex_options_def)
qed

theorem Render_accepts_iff_witness:
  "(\<exists>objs. Render ex_hash (Renderer ex_render_libs) ex_rbundle ''install'' ex_render_opts = Inr objs) \<and> renderable ex_render_libs ex_rbundle ex_options"
  using Render_accepts_iff [OF ex_sorter, of ex_render_opts ex_hash ex_rbundle "''install''"] ex_options_ok ex_renderable
  unfolding ex_applied by blast

end
