(* ===== verification/BundleWiring.thy ===== *)
theory BundleWiring
  imports BundleRender
begin

text \<open>
  What a rendered bundle amounts to, across the generators of \<^verbatim>\<open>registryv1/generators/generators.go\<close>: the permissions its service accounts
  are granted, the way from its webhooks to its deployments, the certificates these mount and the effect of a deployment configuration.
\<close>

section \<open>Reading a rendered bundle\<close>

definition render_laws :: "render_libs \<Rightarrow> bool" where
  "render_laws R \<longleftrightarrow> go_sorter (vl_SortFunc (rl_Validator R))
     \<and> (\<forall>xs. set (rl_UnsortedStrings R xs) = set xs) \<and> (\<forall>xs. set (rl_UnsortedPorts R xs) = set xs)"

lemma Render_Inr:
  assumes "go_sorter (vl_SortFunc (rl_Validator R))" and "Render H (Renderer R) rv1 ns opts = Inr objs"
  shows "valid_bundle (rl_Validator R) rv1"
    and "GenerateResources (ResourceGenerators R) (Some rv1) (apply_options opts (default_options H rv1 ns)) = Inr objs"
  using assms(2) Validate_valid [OF assms(1), of rv1]
  by (auto simp: Render_def Renderer_def Let_def split: option.splits if_splits)

text \<open>Families of objects: each generator gives objects of one family only.\<close>

datatype family = RbacF | CrdF | RawF | WorkloadF | ServiceF | ValidatingF | MutatingF

fun family_of :: "client_object \<Rightarrow> family" where
  "family_of (DeploymentObj m d) = WorkloadF"
| "family_of (ServiceObj m s) = ServiceF"
| "family_of (ValidatingWebhookConfigurationObj m ws) = ValidatingF"
| "family_of (MutatingWebhookConfigurationObj m ws) = MutatingF"
| "family_of (CRDObj c) = CrdF"
| "family_of (UnstructuredObj u) = RawF"
| "family_of obj = RbacF"

text \<open>The objects of each generator.\<close>

lemma crd_shape:
  assumes "providers_ok opts" and "BundleCRDGenerator (Some rv1) opts = Inr os" and "obj \<in> set os"
  obtains crd a where "crd \<in> set (rv1_CRDs rv1)"
    "obj = CRDObj crd \<and> crd_Name crd \<notin> fst ` set (conversion_references rv1)
     \<or> (\<exists>cw. (crd_Name crd, cw) \<in> set (conversion_references rv1) \<and> converted_crd opts cw crd = Inr obj)"
proof -
  obtain m where m: "collect_conversions [] (conversion_references rv1) = Inr m"
    using assms(2) by (auto simp: BundleCRDGenerator_def split: sum.splits)
  have eq: "map_of m k = map_of (conversion_references rv1) k" for k
    using collect_conversions_map [OF m, of k] by (simp split: option.splits)
  have "all_ok (map (\<lambda>crd. case map_of m (crd_Name crd) of Some cw \<Rightarrow> converted_crd opts cw crd | None \<Rightarrow> Inr (CRDObj crd)) (rv1_CRDs rv1)) = Inr os"
    using assms(2) by (simp add: BundleCRDGenerator_def m)
  from all_ok_mem [OF this] assms(3) obtain crd where crd: "crd \<in> set (rv1_CRDs rv1)"
    "(case map_of m (crd_Name crd) of Some cw \<Rightarrow> converted_crd opts cw crd | None \<Rightarrow> Inr (CRDObj crd)) = Inr obj"
    by blast
  show thesis
  proof (cases "map_of (conversion_references rv1) (crd_Name crd)")
    case None
    with crd show ?thesis by (intro that [OF crd(1)] disjI1) (simp add: eq map_of_eq_None_iff)
  next
    case (Some cw)
    with crd show ?thesis by (intro that [OF crd(1)] disjI2) (auto simp: eq dest: map_of_SomeD)
  qed
qed

lemma converted_shape:
  assumes "providers_ok opts" and "converted_crd opts cw crd = Inr obj"
  obtains a where "obj = CRDObj (crd\<lparr>crd_Conversion := Some (conversion_for opts (provisioner (wh_DeploymentName cw) opts) cw), crd_Annotations := a\<rparr>)"
proof -
  have "\<not> crd_PreserveUnknownFields crd" using converted_crd_ok [OF assms(1), of cw crd] assms(2) by blast
  with assms(2) have "InjectCABundle (provisioner (wh_DeploymentName cw) opts)
      (CRDObj (crd\<lparr>crd_Conversion := Some (conversion_for opts (provisioner (wh_DeploymentName cw) opts) cw)\<rparr>)) = Inr obj"
    by (simp add: converted_crd_def CertProvisionerFor_ok)
  then show thesis
    using injected(4) [OF assms(1)] that by (metis sum.inject(2))
qed

lemma deployment_shape:
  assumes "BundleCSVDeploymentGenerator (Some rv1) opts = Inr os"
  shows "obj \<in> set os \<longleftrightarrow> (\<exists>ds \<in> set (strategy_deployments rv1). generate_deployment rv1 opts ds = Inr obj)"
  using assms by (simp add: BundleCSVDeploymentGenerator_def all_ok_mem)

lemma validating_shape:
  assumes "BundleValidatingWebhookResourceGenerator (Some rv1) opts = Inr os"
  shows "obj \<in> set os \<longleftrightarrow> (\<exists>wh \<in> set (webhook_definitions rv1). wh_Type wh = ValidatingAdmissionWebhook \<and> validating_configuration opts wh = Inr obj)"
  using all_ok_mem assms unfolding BundleValidatingWebhookResourceGenerator_def for_bundle_Some by fastforce

lemma mutating_shape:
  assumes "BundleMutatingWebhookResourceGenerator (Some rv1) opts = Inr os"
  shows "obj \<in> set os \<longleftrightarrow> (\<exists>wh \<in> set (webhook_definitions rv1). wh_Type wh = MutatingAdmissionWebhook \<and> mutating_configuration opts wh = Inr obj)"
  using all_ok_mem assms unfolding BundleMutatingWebhookResourceGenerator_def for_bundle_Some by fastforce

lemma service_shape:
  assumes "BundleDeploymentServiceResourceGenerator R (Some rv1) opts = Inr os"
  shows "obj \<in> set os \<longleftrightarrow>
    (\<exists>ds \<in> set (strategy_deployments rv1). sds_Name ds \<in> wh_DeploymentName ` set (webhook_definitions rv1) \<and> service_for R rv1 opts ds = Inr obj)"
  using all_ok_mem [OF assms [unfolded BundleDeploymentServiceResourceGenerator_def for_bundle_Some]] by auto

lemma others_shape:
  assumes "BundleAdditionalResourcesGenerator R (Some rv1) opts = Inr os" and "obj \<in> set os"
  shows "\<exists>u. obj = UnstructuredObj u"
  using assms(2) all_ok_mem [OF assms(1) [unfolded BundleAdditionalResourcesGenerator_def for_bundle_Some]]
  by (auto simp: split_beta split: if_splits)

lemma cert_shape:
  assumes "CertProviderResourceGenerator R (Some rv1) opts = Inr os" and "obj \<in> set os"
  shows "\<exists>u. obj = UnstructuredObj u"
proof -
  obtain oss where "all_ok (map (\<lambda>d. map_sum id (map UnstructuredObj) (AdditionalObjects (provisioner d opts)))
      (rl_UnsortedStrings R (remdups (map wh_DeploymentName (webhook_definitions rv1))))) = Inr oss" "os = concat oss"
    using assms(1) by (auto simp: CertProviderResourceGenerator_def map_sum_Inr CertProvisionerFor_ok)
  with assms(2) show ?thesis by (auto simp: all_ok_mem map_sum_Inr)
qed

section \<open>Permissions\<close>

definition role_list :: "registry_v1 \<Rightarrow> render_options \<Rightarrow> client_object list" where
  "role_list rv1 opts =
     (if ro_TargetNamespaces opts = [[]] then []
      else concat (concat (map (\<lambda>ns. map (role_objects rv1 opts ns) (csv_Permissions (rv1_CSV rv1))) (ro_TargetNamespaces opts))))"

definition account_names :: "registry_v1 \<Rightarrow> string set" where
  "account_names rv1 = (\<lambda>p. saNameOrDefault (sdp_ServiceAccountName p)) ` set (csv_Permissions (rv1_CSV rv1) @ csv_ClusterPermissions (rv1_CSV rv1))"

lemma crds_family:
  assumes "providers_ok opts" and "BundleCRDGenerator (Some rv1) opts = Inr os" and "obj \<in> set os"
  shows "family_of obj = CrdF"
proof (rule crd_shape [OF assms])
  fix crd a
  assume "obj = CRDObj crd \<and> crd_Name crd \<notin> fst ` set (conversion_references rv1)
     \<or> (\<exists>cw. (crd_Name crd, cw) \<in> set (conversion_references rv1) \<and> converted_crd opts cw crd = Inr obj)"
  then show ?thesis
    by (elim disjE exE conjE converted_shape [OF assms(1)]) simp_all
qed

lemma deployments_family:
  assumes "BundleCSVDeploymentGenerator (Some rv1) opts = Inr os" and "obj \<in> set os"
  shows "family_of obj = WorkloadF"
proof -
  obtain ds where "generate_deployment rv1 opts ds = Inr obj" using deployment_shape [OF assms(1)] assms(2) by blast
  with deployment_generated [of rv1 opts ds] show ?thesis by auto
qed

lemma webhooks_family:
  assumes "providers_ok opts"
  shows "BundleValidatingWebhookResourceGenerator (Some rv1) opts = Inr os \<Longrightarrow> obj \<in> set os \<Longrightarrow> family_of obj = ValidatingF"
    and "BundleMutatingWebhookResourceGenerator (Some rv1) opts = Inr os \<Longrightarrow> obj \<in> set os \<Longrightarrow> family_of obj = MutatingF"
    and "BundleDeploymentServiceResourceGenerator R (Some rv1) opts = Inr os \<Longrightarrow> obj \<in> set os \<Longrightarrow> family_of obj = ServiceF"
proof -
  assume g: "BundleValidatingWebhookResourceGenerator (Some rv1) opts = Inr os" and mem: "obj \<in> set os"
  obtain wh where "validating_configuration opts wh = Inr obj" using validating_shape [OF g] mem by blast
  with webhook_generated(1) [OF assms, of wh] show "family_of obj = ValidatingF" by auto
next
  assume g: "BundleMutatingWebhookResourceGenerator (Some rv1) opts = Inr os" and mem: "obj \<in> set os"
  obtain wh where "mutating_configuration opts wh = Inr obj" using mutating_shape [OF g] mem by blast
  with webhook_generated(2) [OF assms, of wh] show "family_of obj = MutatingF" by auto
next
  assume g: "BundleDeploymentServiceResourceGenerator R (Some rv1) opts = Inr os" and mem: "obj \<in> set os"
  obtain ds where "service_for R rv1 opts ds = Inr obj" using service_shape [OF g] mem by blast
  with service_generated [OF assms, of R rv1 ds] show "family_of obj = ServiceF" by auto
qed

lemma unstructured_family:
  "BundleAdditionalResourcesGenerator R (Some rv1) opts = Inr os \<Longrightarrow> obj \<in> set os \<Longrightarrow> family_of obj = RawF"
  "CertProviderResourceGenerator R (Some rv1) opts = Inr os \<Longrightarrow> obj \<in> set os \<Longrightarrow> family_of obj = RawF"
  using others_shape cert_shape by fastforce+

lemma rbac_family:
  assumes "names_total opts"
  shows "BundleCSVServiceAccountGenerator R (Some rv1) opts = Inr os \<Longrightarrow> obj \<in> set os \<Longrightarrow> family_of obj = RbacF"
    and "BundleCSVPermissionsGenerator (Some rv1) opts = Inr os \<Longrightarrow> obj \<in> set os \<Longrightarrow> family_of obj = RbacF"
    and "BundleCSVClusterPermissionsGenerator (Some rv1) opts = Inr os \<Longrightarrow> obj \<in> set os \<Longrightarrow> family_of obj = RbacF"
  by (auto simp: service_accounts permissions [OF assms] cluster_permissions_generated [OF assms] role_objects_def cluster_role_objects_def Let_def
      split: if_splits)

definition generated :: "generator \<Rightarrow> registry_v1 \<Rightarrow> render_options \<Rightarrow> client_object \<Rightarrow> bool" where
  "generated g rv1 opts obj \<longleftrightarrow> (\<exists>os. g (Some rv1) opts = Inr os \<and> obj \<in> set os)"

lemma generated_families:
  assumes "names_total opts" and "providers_ok opts"
  shows "generated (BundleCSVServiceAccountGenerator R) rv1 opts obj \<Longrightarrow> family_of obj = RbacF"
    and "generated BundleCSVPermissionsGenerator rv1 opts obj \<Longrightarrow> family_of obj = RbacF"
    and "generated BundleCSVClusterPermissionsGenerator rv1 opts obj \<Longrightarrow> family_of obj = RbacF"
    and "generated BundleCRDGenerator rv1 opts obj \<Longrightarrow> family_of obj = CrdF"
    and "generated (BundleAdditionalResourcesGenerator R) rv1 opts obj \<Longrightarrow> family_of obj = RawF"
    and "generated BundleCSVDeploymentGenerator rv1 opts obj \<Longrightarrow> family_of obj = WorkloadF"
    and "generated BundleValidatingWebhookResourceGenerator rv1 opts obj \<Longrightarrow> family_of obj = ValidatingF"
    and "generated BundleMutatingWebhookResourceGenerator rv1 opts obj \<Longrightarrow> family_of obj = MutatingF"
    and "generated (BundleDeploymentServiceResourceGenerator R) rv1 opts obj \<Longrightarrow> family_of obj = ServiceF"
    and "generated (CertProviderResourceGenerator R) rv1 opts obj \<Longrightarrow> family_of obj = RawF"
  unfolding generated_def
  by (elim exE conjE, erule (1) rbac_family [OF assms(1)] crds_family [OF assms(2)] deployments_family webhooks_family [OF assms(2)] unstructured_family)+

lemma family_generators:
  assumes "names_total opts" and "providers_ok opts" and "GenerateResources (ResourceGenerators R) (Some rv1) opts = Inr objs"
  shows "family_of obj = RbacF \<Longrightarrow> obj \<in> set objs \<longleftrightarrow> generated (BundleCSVServiceAccountGenerator R) rv1 opts obj
      \<or> generated BundleCSVPermissionsGenerator rv1 opts obj \<or> generated BundleCSVClusterPermissionsGenerator rv1 opts obj"
    and "family_of obj = CrdF \<Longrightarrow> obj \<in> set objs \<longleftrightarrow> generated BundleCRDGenerator rv1 opts obj"
    and "family_of obj = WorkloadF \<Longrightarrow> obj \<in> set objs \<longleftrightarrow> generated BundleCSVDeploymentGenerator rv1 opts obj"
    and "family_of obj = ValidatingF \<Longrightarrow> obj \<in> set objs \<longleftrightarrow> generated BundleValidatingWebhookResourceGenerator rv1 opts obj"
    and "family_of obj = MutatingF \<Longrightarrow> obj \<in> set objs \<longleftrightarrow> generated BundleMutatingWebhookResourceGenerator rv1 opts obj"
    and "family_of obj = ServiceF \<Longrightarrow> obj \<in> set objs \<longleftrightarrow> generated (BundleDeploymentServiceResourceGenerator R) rv1 opts obj"
proof -
  have mem: "obj \<in> set objs \<longleftrightarrow> (\<exists>g \<in> set (ResourceGenerators R). generated g rv1 opts obj)"
    unfolding GenerateResources_mem [OF assms(3)] generated_def ..
  show "family_of obj = RbacF \<Longrightarrow> obj \<in> set objs \<longleftrightarrow> generated (BundleCSVServiceAccountGenerator R) rv1 opts obj
      \<or> generated BundleCSVPermissionsGenerator rv1 opts obj \<or> generated BundleCSVClusterPermissionsGenerator rv1 opts obj"
    "family_of obj = CrdF \<Longrightarrow> obj \<in> set objs \<longleftrightarrow> generated BundleCRDGenerator rv1 opts obj"
    "family_of obj = WorkloadF \<Longrightarrow> obj \<in> set objs \<longleftrightarrow> generated BundleCSVDeploymentGenerator rv1 opts obj"
    "family_of obj = ValidatingF \<Longrightarrow> obj \<in> set objs \<longleftrightarrow> generated BundleValidatingWebhookResourceGenerator rv1 opts obj"
    "family_of obj = MutatingF \<Longrightarrow> obj \<in> set objs \<longleftrightarrow> generated BundleMutatingWebhookResourceGenerator rv1 opts obj"
    "family_of obj = ServiceF \<Longrightarrow> obj \<in> set objs \<longleftrightarrow> generated (BundleDeploymentServiceResourceGenerator R) rv1 opts obj"
    unfolding mem ResourceGenerators_def list.set bex_simps
    by (auto dest: generated_families [OF assms(1,2)])
qed

lemma set_map_without: "set (map f (filter (\<lambda>n. n \<noteq> d) xs)) = f ` (set xs - {d})"
  by auto

lemma rbac_objects:
  assumes "names_total opts" and "providers_ok opts" and "GenerateResources (ResourceGenerators R) (Some rv1) opts = Inr objs"
    and rbac: "family_of obj = RbacF" and laws: "render_laws R"
  shows "obj \<in> set objs \<longleftrightarrow>
    obj \<in> (\<lambda>n. ServiceAccountObj (named n (ro_InstallNamespace opts))) ` (account_names rv1 - {''default''})
    \<or> obj \<in> set (role_list rv1 opts) \<or> obj \<in> (\<Union>p \<in> set (cluster_permissions rv1 opts). set (cluster_role_objects rv1 opts p))"
proof -
  have "obj \<in> set objs \<longleftrightarrow> generated (BundleCSVServiceAccountGenerator R) rv1 opts obj
      \<or> generated BundleCSVPermissionsGenerator rv1 opts obj \<or> generated BundleCSVClusterPermissionsGenerator rv1 opts obj"
    by (rule family_generators(1) [OF assms(1-4)])
  also have "\<dots> \<longleftrightarrow> obj \<in> set (projr (BundleCSVServiceAccountGenerator R (Some rv1) opts)) \<or> obj \<in> set (role_list rv1 opts)
      \<or> obj \<in> set (concat (map (cluster_role_objects rv1 opts) (cluster_permissions rv1 opts)))"
    unfolding generated_def service_accounts permissions [OF assms(1), folded role_list_def] cluster_permissions_generated [OF assms(1)] sum.sel by simp
  also have "set (projr (BundleCSVServiceAccountGenerator R (Some rv1) opts))
      = (\<lambda>n. ServiceAccountObj (named n (ro_InstallNamespace opts))) ` (account_names rv1 - {''default''})"
    using laws unfolding service_accounts render_laws_def account_names_def sum.sel set_map_without by (simp only: set_remdups set_map)
  finally show ?thesis by simp
qed

lemma named_sel [simp]: "om_Name (named n ns) = n" "om_Namespace (named n ns) = ns"
  by (simp_all add: named_def)

lemma rendered_rbac:
  assumes "names_total opts" and "providers_ok opts" and "GenerateResources (ResourceGenerators R) (Some rv1) opts = Inr objs" and "render_laws R"
  shows "ServiceAccountObj m \<in> set objs \<longleftrightarrow> (\<exists>n \<in> account_names rv1 - {''default''}. m = named n (ro_InstallNamespace opts))"
    and "RoleObj m rules \<in> set objs \<longleftrightarrow> ro_TargetNamespaces opts \<noteq> [[]] \<and> (\<exists>ns \<in> set (ro_TargetNamespaces opts). \<exists>p \<in> set (csv_Permissions (rv1_CSV rv1)).
      m = named (role_name rv1 opts p) ns \<and> rules = sdp_Rules p)"
    and "RoleBindingObj m ss r \<in> set objs \<longleftrightarrow> ro_TargetNamespaces opts \<noteq> [[]] \<and> (\<exists>ns \<in> set (ro_TargetNamespaces opts). \<exists>p \<in> set (csv_Permissions (rv1_CSV rv1)).
      m = named (role_name rv1 opts p) ns \<and> ss = [sa_subject opts p] \<and> r = rbac_ref ''Role'' (role_name rv1 opts p))"
    and "ClusterRoleObj m rules \<in> set objs \<longleftrightarrow> (\<exists>p \<in> set (cluster_permissions rv1 opts). m = named (role_name rv1 opts p) [] \<and> rules = sdp_Rules p)"
    and "ClusterRoleBindingObj m ss r \<in> set objs \<longleftrightarrow> (\<exists>p \<in> set (cluster_permissions rv1 opts).
      m = named (role_name rv1 opts p) [] \<and> ss = [sa_subject opts p] \<and> r = rbac_ref ''ClusterRole'' (role_name rv1 opts p))"
  unfolding rbac_objects [OF assms(1-3) family_of.simps(7) assms(4)]
    rbac_objects [OF assms(1-3) family_of.simps(8) assms(4)]
    rbac_objects [OF assms(1-3) family_of.simps(9) assms(4)]
    rbac_objects [OF assms(1-3) family_of.simps(10) assms(4)]
    rbac_objects [OF assms(1-3) family_of.simps(11) assms(4)]
  by (simp_all add: role_list_def role_objects_def cluster_role_objects_def Let_def image_iff del: Diff_iff)

lemma rbac_ref_sel [simp]: "rr_Kind (rbac_ref k n) = k" "rr_Name (rbac_ref k n) = n"
  by (simp_all add: rbac_ref_def)

text \<open>
  What Kubernetes grants by a set of objects: the rules of the role a binding refers to, for its subjects, in the namespace of the binding or,
  for a cluster-wide binding, everywhere.
\<close>

definition referenced :: "client_object list \<Rightarrow> string \<Rightarrow> role_ref \<Rightarrow> policy_rule list \<Rightarrow> bool" where
  "referenced objs ns r rules \<longleftrightarrow>
     (rr_Kind r = ''Role'' \<and> (\<exists>m. RoleObj m rules \<in> set objs \<and> om_Name m = rr_Name r \<and> om_Namespace m = ns))
     \<or> (rr_Kind r = ''ClusterRole'' \<and> (\<exists>m. ClusterRoleObj m rules \<in> set objs \<and> om_Name m = rr_Name r))"

definition grants :: "client_object list \<Rightarrow> (rbac_subject \<times> string option \<times> policy_rule list) set" where
  "grants objs =
     {(s, Some (om_Namespace m), rules) | s m ss r rules. RoleBindingObj m ss r \<in> set objs \<and> s \<in> set ss \<and> referenced objs (om_Namespace m) r rules}
     \<union> {(s, None, rules) | s m ss r rules. ClusterRoleBindingObj m ss r \<in> set objs \<and> s \<in> set ss \<and> rr_Kind r = ''ClusterRole'' \<and> referenced objs [] r rules}"

definition requested :: "registry_v1 \<Rightarrow> render_options \<Rightarrow> (rbac_subject \<times> string option \<times> policy_rule list) set" where
  "requested rv1 opts =
     (\<lambda>p. (sa_subject opts p, None, sdp_Rules p)) ` set (csv_ClusterPermissions (rv1_CSV rv1))
     \<union> (if ro_TargetNamespaces opts = [[]]
        then (\<lambda>p. (sa_subject opts p, None, sdp_Rules p @ [namespaces_rule])) ` set (csv_Permissions (rv1_CSV rv1))
        else (\<lambda>(ns, p). (sa_subject opts p, Some ns, sdp_Rules p)) ` (set (ro_TargetNamespaces opts) \<times> set (csv_Permissions (rv1_CSV rv1))))"

definition names_distinct :: "registry_v1 \<Rightarrow> render_options \<Rightarrow> bool" where
  "names_distinct rv1 opts \<longleftrightarrow>
     inj_on (role_name rv1 opts) (set (csv_Permissions (rv1_CSV rv1))) \<and> inj_on (role_name rv1 opts) (set (cluster_permissions rv1 opts))"

lemma referenced_rendered:
  assumes "names_total opts" and "providers_ok opts" and "GenerateResources (ResourceGenerators R) (Some rv1) opts = Inr objs" and "render_laws R"
    and inj: "names_distinct rv1 opts"
  shows "p \<in> set (csv_Permissions (rv1_CSV rv1)) \<Longrightarrow> ns \<in> set (ro_TargetNamespaces opts) \<Longrightarrow> ro_TargetNamespaces opts \<noteq> [[]] \<Longrightarrow>
      referenced objs ns (rbac_ref ''Role'' (role_name rv1 opts p)) rules \<longleftrightarrow> rules = sdp_Rules p"
    and "p \<in> set (cluster_permissions rv1 opts) \<Longrightarrow>
      referenced objs ns (rbac_ref ''ClusterRole'' (role_name rv1 opts p)) rules \<longleftrightarrow> rules = sdp_Rules p"
proof -
  assume p: "p \<in> set (csv_Permissions (rv1_CSV rv1))" "ns \<in> set (ro_TargetNamespaces opts)" "ro_TargetNamespaces opts \<noteq> [[]]"
  have "referenced objs ns (rbac_ref ''Role'' (role_name rv1 opts p)) rules \<longleftrightarrow>
      (\<exists>q \<in> set (csv_Permissions (rv1_CSV rv1)). role_name rv1 opts q = role_name rv1 opts p \<and> rules = sdp_Rules q)"
    using p(2,3) unfolding referenced_def rendered_rbac [OF assms(1-4)] by (auto simp: rbac_ref_def) (metis named_sel)
  then show "referenced objs ns (rbac_ref ''Role'' (role_name rv1 opts p)) rules \<longleftrightarrow> rules = sdp_Rules p"
    using inj p(1) unfolding names_distinct_def by (auto dest: inj_onD)
next
  assume p: "p \<in> set (cluster_permissions rv1 opts)"
  have "referenced objs ns (rbac_ref ''ClusterRole'' (role_name rv1 opts p)) rules \<longleftrightarrow>
      (\<exists>q \<in> set (cluster_permissions rv1 opts). role_name rv1 opts q = role_name rv1 opts p \<and> rules = sdp_Rules q)"
    unfolding referenced_def rendered_rbac [OF assms(1-4)] by (auto simp: rbac_ref_def)
  then show "referenced objs ns (rbac_ref ''ClusterRole'' (role_name rv1 opts p)) rules \<longleftrightarrow> rules = sdp_Rules p"
    using inj p unfolding names_distinct_def by (auto dest: inj_onD)
qed

lemma cluster_grants:
  assumes "names_total opts" and "providers_ok opts" and "GenerateResources (ResourceGenerators R) (Some rv1) opts = Inr objs" and "render_laws R"
    and "names_distinct rv1 opts"
  shows "{(s, None, rules) | s m ss r rules. ClusterRoleBindingObj m ss r \<in> set objs \<and> s \<in> set ss \<and> rr_Kind r = ''ClusterRole'' \<and> referenced objs [] r rules}
    = (\<lambda>p. (sa_subject opts p, None, sdp_Rules p)) ` set (cluster_permissions rv1 opts)" (is "?L = ?R")
proof (intro equalityI subsetI)
  fix g
  assume "g \<in> ?L"
  then obtain s m ss r rules p where "g = (s, None, rules)" "p \<in> set (cluster_permissions rv1 opts)" "ss = [sa_subject opts p]" "s \<in> set ss"
    "r = rbac_ref ''ClusterRole'' (role_name rv1 opts p)" "referenced objs [] r rules"
    unfolding rendered_rbac [OF assms(1-4)] by blast
  then show "g \<in> ?R" using referenced_rendered(2) [OF assms] by simp
next
  fix g
  assume "g \<in> ?R"
  then obtain p where p: "p \<in> set (cluster_permissions rv1 opts)" "g = (sa_subject opts p, None, sdp_Rules p)" by blast
  moreover have "ClusterRoleBindingObj (named (role_name rv1 opts p) []) [sa_subject opts p] (rbac_ref ''ClusterRole'' (role_name rv1 opts p)) \<in> set objs"
    unfolding rendered_rbac [OF assms(1-4)] using p(1) by blast
  moreover have "referenced objs [] (rbac_ref ''ClusterRole'' (role_name rv1 opts p)) (sdp_Rules p)"
    using referenced_rendered(2) [OF assms p(1)] by blast
  ultimately show "g \<in> ?L" by force
qed

lemma role_grants:
  assumes "names_total opts" and "providers_ok opts" and "GenerateResources (ResourceGenerators R) (Some rv1) opts = Inr objs" and "render_laws R"
    and "names_distinct rv1 opts"
  shows "{(s, Some (om_Namespace m), rules) | s m ss r rules. RoleBindingObj m ss r \<in> set objs \<and> s \<in> set ss \<and> referenced objs (om_Namespace m) r rules}
    = (if ro_TargetNamespaces opts = [[]] then {}
       else (\<lambda>(ns, p). (sa_subject opts p, Some ns, sdp_Rules p)) ` (set (ro_TargetNamespaces opts) \<times> set (csv_Permissions (rv1_CSV rv1))))" (is "?L = ?R")
proof (intro equalityI subsetI)
  fix g
  assume "g \<in> ?L"
  then obtain s m ss r rules p ns where g: "g = (s, Some (om_Namespace m), rules)" "p \<in> set (csv_Permissions (rv1_CSV rv1))" "ss = [sa_subject opts p]" "s \<in> set ss"
    "r = rbac_ref ''Role'' (role_name rv1 opts p)" "referenced objs (om_Namespace m) r rules" "ns \<in> set (ro_TargetNamespaces opts)"
    "m = named (role_name rv1 opts p) ns" "ro_TargetNamespaces opts \<noteq> [[]]"
    unfolding rendered_rbac [OF assms(1-4)] by blast
  then have "rules = sdp_Rules p" using referenced_rendered(1) [OF assms g(2,7,9)] by simp
  with g show "g \<in> ?R" by (auto simp: image_iff)
next
  fix g
  assume "g \<in> ?R"
  then obtain p ns where p: "p \<in> set (csv_Permissions (rv1_CSV rv1))" "ns \<in> set (ro_TargetNamespaces opts)" "ro_TargetNamespaces opts \<noteq> [[]]"
    "g = (sa_subject opts p, Some ns, sdp_Rules p)" by (auto split: if_splits)
  moreover have "RoleBindingObj (named (role_name rv1 opts p) ns) [sa_subject opts p] (rbac_ref ''Role'' (role_name rv1 opts p)) \<in> set objs"
    unfolding rendered_rbac [OF assms(1-4)] using p(1-3) by blast
  moreover have "referenced objs ns (rbac_ref ''Role'' (role_name rv1 opts p)) (sdp_Rules p)"
    using referenced_rendered(1) [OF assms p(1-3)] by blast
  ultimately show "g \<in> ?L" by (intro CollectI exI [of _ "named (role_name rv1 opts p) ns"] exI conjI) auto
qed

lemma grants_requested:
  assumes "names_total opts" and "providers_ok opts" and "GenerateResources (ResourceGenerators R) (Some rv1) opts = Inr objs" and "render_laws R"
    and "names_distinct rv1 opts"
  shows "grants objs = requested rv1 opts"
  unfolding grants_def role_grants [OF assms] cluster_grants [OF assms] requested_def cluster_permissions_def
  by (simp add: image_Un image_image sa_subject_def Un_commute)


section \<open>Webhooks\<close>

lemma map_pod_sel [simp]: "ds_Selector (map_pod f d) = ds_Selector d"
  by (simp add: map_pod_def)

lemma config_selectors [simp]:
  "ds_Selector (applyEnvironmentConfig cfg d) = ds_Selector d"
  "ds_Selector (applyEnvironmentFromConfig cfg d) = ds_Selector d"
  "ds_Selector (applyVolumeConfig cfg d) = ds_Selector d"
  "ds_Selector (applyVolumeMountConfig cfg d) = ds_Selector d"
  "ds_Selector (applyTolerationsConfig cfg d) = ds_Selector d"
  "ds_Selector (applyResourcesConfig cfg d) = ds_Selector d"
  "ds_Selector (applyNodeSelectorConfig cfg d) = ds_Selector d"
  "ds_Selector (applyAffinityConfig cfg d) = ds_Selector d"
  by (simp_all add: applyEnvironmentConfig_def applyEnvironmentFromConfig_def applyVolumeConfig_def applyVolumeMountConfig_def
      applyTolerationsConfig_def applyResourcesConfig_def applyNodeSelectorConfig_def applyAffinityConfig_def split: option.split)

lemma config_keeps_selector:
  "ds_Selector (snd (applyCustomConfigToDeployment cfg (m, d))) = ds_Selector d"
proof (cases cfg)
  case (Some c)
  have "ds_Selector (snd (applyAnnotationsConfig c (m, d'))) = ds_Selector d'" for d'
    by (simp add: applyAnnotationsConfig_def)
  then show ?thesis by (simp add: applyCustomConfigToDeployment_def Some)
qed (simp add: applyCustomConfigToDeployment_def)

lemma deployment_selector:
  assumes "generate_deployment rv1 opts ds = Inr (DeploymentObj m d)"
  shows "ds_Selector d = ds_Selector (sds_Spec ds)"
proof -
  let ?d = "prepared_spec rv1 opts ds"
  obtain d' where "d = snd (applyCustomConfigToDeployment (ro_DeploymentConfig opts) ((named (sds_Name ds) (ro_InstallNamespace opts))\<lparr>om_Labels := sds_Label ds\<rparr>, d'))"
    "ds_Selector d' = ds_Selector ?d"
    using assms by (auto simp: generate_deployment_def CertProvisionerFor_ok with_deployment_def Let_def ensureCorrectDeploymentCertVolumes_def split_beta
        split: option.splits if_splits)
  then show ?thesis by (simp add: config_keeps_selector prepared_spec_def Let_def)
qed

definition reachable :: "client_object list \<Rightarrow> service_reference \<Rightarrow> bool" where
  "reachable objs sr \<longleftrightarrow>
     (\<exists>m s dm d. ServiceObj m s \<in> set objs \<and> om_Name m = sr_Name sr \<and> om_Namespace m = sr_Namespace sr \<and> sr_Port sr \<in> sp_Port ` set (ss_Ports s)
        \<and> DeploymentObj dm d \<in> set objs \<and> om_Namespace dm = sr_Namespace sr
        \<and> ss_Selector s = (case ds_Selector d of Some l \<Rightarrow> ls_MatchLabels l | None \<Rightarrow> []))"

lemma valid_webhook_deployments:
  "valid_bundle L rv1 \<Longrightarrow> wh_DeploymentName ` set (webhook_definitions rv1) \<subseteq> sds_Name ` set (strategy_deployments rv1)"
  unfolding valid_bundle_def Let_def by (elim conjE)

lemma webhook_service_reachable:
  assumes "render_laws R" and ok: "providers_ok opts" and gen: "GenerateResources (ResourceGenerators R) (Some rv1) opts = Inr objs"
    and valid: "valid_bundle (rl_Validator R) rv1" and wh: "wh \<in> set (webhook_definitions rv1)" "wh_ContainerPort wh > 0"
    and sr: "sr_Name sr = pc_ServiceName (cpr_Config (provisioner (wh_DeploymentName wh) opts))" "sr_Namespace sr = ro_InstallNamespace opts"
      "sr_Port sr = wh_ContainerPort wh"
  shows "reachable objs sr"
proof -
  obtain ds where ds: "ds \<in> set (strategy_deployments rv1)" "sds_Name ds = wh_DeploymentName wh"
    by (rule imageE [OF subsetD [OF valid_webhook_deployments [OF valid] imageI [OF wh(1)]]]) (rule that, assumption, erule sym)
  have mem: "obj \<in> set objs" if "g \<in> set (ResourceGenerators R)" "g (Some rv1) opts = Inr os" "obj \<in> set os" for g os obj
    unfolding GenerateResources_mem [OF gen] using that by (intro bexI exI conjI)
  obtain dos where dos: "BundleCSVDeploymentGenerator (Some rv1) opts = Inr dos" using webhooks_generated(5) [OF ok] by blast
  obtain sos where sos: "BundleDeploymentServiceResourceGenerator R (Some rv1) opts = Inr sos" using webhooks_generated(3) [OF ok] by blast
  obtain dm d where d: "generate_deployment rv1 opts ds = Inr (DeploymentObj dm d)" "om_Namespace dm = ro_InstallNamespace opts"
    using deployment_generated by blast
  have gens: "BundleCSVDeploymentGenerator \<in> set (ResourceGenerators R)" "BundleDeploymentServiceResourceGenerator R \<in> set (ResourceGenerators R)"
    by (simp_all add: ResourceGenerators_def)
  have "DeploymentObj dm d \<in> set dos" using deployment_shape [OF dos] d(1) ds(1) by blast
  then have deployed: "DeploymentObj dm d \<in> set objs" by (rule mem [OF gens(1) dos])
  obtain m s where s: "service_for R rv1 opts ds = Inr (ServiceObj m s)" "om_Name m = sr_Name sr" "om_Namespace m = sr_Namespace sr"
    "set (ss_Ports s) = getWebhookServicePort ` {w \<in> set (webhook_definitions rv1). wh_DeploymentName w = sds_Name ds}"
    "ss_Selector s = (case ds_Selector d of Some l \<Rightarrow> ls_MatchLabels l | None \<Rightarrow> [])"
    using service_generated [OF ok, of R rv1 ds] assms(1) unfolding deployment_selector [OF d(1)] render_laws_def sr ds(2) by fastforce
  have "ServiceObj m s \<in> set sos" using service_shape [OF sos] s(1) ds wh(1) by blast
  then have served: "ServiceObj m s \<in> set objs" by (rule mem [OF gens(2) sos])
  have "sp_Port (getWebhookServicePort wh) = sr_Port sr" using wh(2) sr(3) by (simp add: getWebhookServicePort_def Let_def)
  then have port: "sr_Port sr \<in> sp_Port ` set (ss_Ports s)" unfolding s(4) using wh(1) ds(2) by force
  from served s(2,3) port deployed d(2) [folded sr(2)] s(5) show ?thesis
    unfolding reachable_def by (intro exI conjI)
qed

definition webhook_references :: "registry_v1 \<Rightarrow> client_object list \<Rightarrow> service_reference set" where
  "webhook_references rv1 objs =
     {aw_Service w | w m ws. (ValidatingWebhookConfigurationObj m ws \<in> set objs \<or> MutatingWebhookConfigurationObj m ws \<in> set objs) \<and> w \<in> set ws}
     \<union> {conv_Service cv | cv c. CRDObj c \<in> set objs \<and> crd_Conversion c = Some cv \<and> crd_Name c \<in> fst ` set (conversion_references rv1)}"

lemma reference_origin:
  assumes "names_total opts" and ok: "providers_ok opts" and gen: "GenerateResources (ResourceGenerators R) (Some rv1) opts = Inr objs"
    and sr: "sr \<in> webhook_references rv1 objs"
  obtains wh where "wh \<in> set (webhook_definitions rv1)" "sr_Name sr = pc_ServiceName (cpr_Config (provisioner (wh_DeploymentName wh) opts))"
    "sr_Namespace sr = ro_InstallNamespace opts" "sr_Port sr = wh_ContainerPort wh"
proof -
  note origin = family_generators [OF assms(1-3)]
  consider (validating) m ws w where "ValidatingWebhookConfigurationObj m ws \<in> set objs" "w \<in> set ws" "sr = aw_Service w"
    | (mutating) m ws w where "MutatingWebhookConfigurationObj m ws \<in> set objs" "w \<in> set ws" "sr = aw_Service w"
    | (crd) c cv where "CRDObj c \<in> set objs" "crd_Conversion c = Some cv" "crd_Name c \<in> fst ` set (conversion_references rv1)" "sr = conv_Service cv"
    using sr unfolding webhook_references_def by blast
  then show thesis
  proof cases
    case validating
    obtain os where "BundleValidatingWebhookResourceGenerator (Some rv1) opts = Inr os" "ValidatingWebhookConfigurationObj m ws \<in> set os"
      using origin(4) [of "ValidatingWebhookConfigurationObj m ws"] validating(1) by (auto simp: generated_def)
    then obtain wh where wh: "wh \<in> set (webhook_definitions rv1)" "validating_configuration opts wh = Inr (ValidatingWebhookConfigurationObj m ws)"
      using validating_shape by blast
    then have "ws = [admission_webhook_for opts (provisioner (wh_DeploymentName wh) opts) wh]" using webhook_generated(1) [OF ok, of wh] by auto
    with validating wh(1) that show ?thesis by (simp add: admission_webhook_for_def)
  next
    case mutating
    obtain os where "BundleMutatingWebhookResourceGenerator (Some rv1) opts = Inr os" "MutatingWebhookConfigurationObj m ws \<in> set os"
      using origin(5) [of "MutatingWebhookConfigurationObj m ws"] mutating(1) by (auto simp: generated_def)
    then obtain wh where wh: "wh \<in> set (webhook_definitions rv1)" "mutating_configuration opts wh = Inr (MutatingWebhookConfigurationObj m ws)"
      using mutating_shape by blast
    then have "ws = [(admission_webhook_for opts (provisioner (wh_DeploymentName wh) opts) wh)\<lparr>aw_ReinvocationPolicy := wh_ReinvocationPolicy wh\<rparr>]"
      using webhook_generated(2) [OF ok, of wh] by auto
    with mutating wh(1) that show ?thesis by (simp add: admission_webhook_for_def)
  next
    case crd
    obtain os where os: "BundleCRDGenerator (Some rv1) opts = Inr os" "CRDObj c \<in> set os"
      using origin(2) [of "CRDObj c"] crd(1) by (auto simp: generated_def)
    obtain crd cw where cw: "(crd_Name crd, cw) \<in> set (conversion_references rv1)" "converted_crd opts cw crd = Inr (CRDObj c)"
      by (rule crd_shape [OF ok os]) (use crd(3) in auto)
    then have "cv = conversion_for opts (provisioner (wh_DeploymentName cw) opts) cw"
      using crd(2) by (elim converted_shape [OF ok]) simp
    moreover have "cw \<in> set (webhook_definitions rv1)" using cw(1) by (auto simp: conversion_references_def)
    ultimately show ?thesis using crd(4) that by (simp add: conversion_for_def)
  qed
qed


text \<open>Without a container port the references carry port 0, and the service listens on 443.\<close>

lemma webhook_without_port:
  assumes "wh_ContainerPort wh = 0"
  shows "sr_Port (aw_Service (admission_webhook_for opts c wh)) = 0" and "sp_Port (getWebhookServicePort wh) = 443"
  using assms by (simp_all add: admission_webhook_for_def getWebhookServicePort_def Let_def)

section \<open>Witnesses\<close>

lemma ex_render_laws: "render_laws ex_render_libs"
  using ex_sorter by (simp add: render_laws_def ex_render_libs_def)

lemma ex_rendered: "\<exists>objs. Render ex_hash (Renderer ex_render_libs) ex_rbundle ''install'' ex_render_opts = Inr objs"
  using Render_accepts [OF ex_sorter, of ex_render_opts ex_hash ex_rbundle "''install''"] ex_options_ok ex_renderable unfolding ex_applied by blast

lemma ex_rbundle_permissions: "csv_Permissions (rv1_CSV ex_rbundle) = [ex_permission]" "csv_ClusterPermissions (rv1_CSV ex_rbundle) = []"
  by (simp_all add: ex_rbundle_def ex_csv_def)

lemma ex_requested:
  "requested ex_rbundle ex_options = {(\<lparr>sj_Kind = ''ServiceAccount'', sj_Namespace = ''install'', sj_Name = ''sa''\<rparr>, None, sdp_Rules ex_permission @ [namespaces_rule])}"
  by (simp add: requested_def ex_rbundle_permissions ex_options_def sa_subject_def saNameOrDefault_def ex_permission_def)



end
