(* ===== verification/BundleConfiguration.thy ===== *)
theory BundleConfiguration
  imports BundleGenerators
begin

text \<open>
  What the generator of deployments does to a pod (\<^verbatim>\<open>ensureCorrectDeploymentCertVolumes\<close> and \<^verbatim>\<open>applyCustomConfigToDeployment\<close> of
  \<^verbatim>\<open>registryv1/generators/generators.go\<close>): the certificates are mounted and nothing else is in their place; a configuration overrides by name.
\<close>

section \<open>Certificate volumes\<close>

abbreviation pod :: "deployment_spec \<Rightarrow> pod_spec" where
  "pod d \<equiv> pt_Spec (ds_Template d)"

definition mounts_resolve :: "pod_spec \<Rightarrow> bool" where
  "mounts_resolve ps \<longleftrightarrow> (\<forall>c \<in> set (ps_Containers ps). vm_Name ` set (ct_VolumeMounts c) \<subseteq> vol_Name ` set (ps_Volumes ps))"

lemma cert_names:
  "vol_Name ` set (cert_volumes info) = set (map cvc_Name certVolumeConfigs)"
  "vm_Name ` set cert_volume_mounts = set (map cvc_Name certVolumeConfigs)"
  "vm_MountPath ` set cert_volume_mounts = set (map cvc_Path certVolumeConfigs)"
  "set (map cvc_Name certVolumeConfigs) \<subseteq> set (volumes_to_remove ps)"
  by (simp_all add: cert_volumes_def cert_volume_mounts_def volumes_to_remove_def image_image)

lemma ensured_pod:
  "ps_Volumes (pod (ensureCorrectDeploymentCertVolumes d info)) =
     filter (\<lambda>v. vol_Name v \<notin> set (volumes_to_remove (pod d))) (ps_Volumes (pod d)) @ cert_volumes info"
  "ps_Containers (pod (ensureCorrectDeploymentCertVolumes d info)) =
     map (\<lambda>c. c\<lparr>ct_VolumeMounts := filter (\<lambda>m. vm_Name m \<notin> set (volumes_to_remove (pod d))) (ct_VolumeMounts c) @ cert_volume_mounts\<rparr>) (ps_Containers (pod d))"
  by (simp_all add: ensureCorrectDeploymentCertVolumes_def map_pod_def map_containers_def Let_def)

lemma protected_mount_removed:
  "c \<in> set (ps_Containers ps) \<Longrightarrow> m \<in> set (ct_VolumeMounts c) \<Longrightarrow> vm_MountPath m \<in> set (map cvc_Path certVolumeConfigs) \<Longrightarrow> vm_Name m \<in> set (volumes_to_remove ps)"
  by (auto simp: volumes_to_remove_def)

text \<open>
  C20: the certificate volumes are mounted, exclusively.  After the correction of a deployment, the volumes of its pod with a certificate
  name are the ones of the certificate's secret; in every container what is mounted at a certificate path, or from a volume of such a name,
  is the certificate mount, and all of them are mounted; and when every mount had its volume before, every mount has one after.
\<close>

theorem cert_volumes_exclusive:
  "let ps = pod (ensureCorrectDeploymentCertVolumes d info) in
      {v \<in> set (ps_Volumes ps). vol_Name v \<in> cvc_Name ` set certVolumeConfigs} = set (cert_volumes info)
    \<and> (\<forall>c \<in> set (ps_Containers ps).
         {m \<in> set (ct_VolumeMounts c). vm_MountPath m \<in> cvc_Path ` set certVolumeConfigs} = set cert_volume_mounts
       \<and> {m \<in> set (ct_VolumeMounts c). vm_Name m \<in> cvc_Name ` set certVolumeConfigs} = set cert_volume_mounts)
    \<and> (mounts_resolve (pod d) \<longrightarrow> mounts_resolve ps)"
proof -
  define ps where "ps = pod (ensureCorrectDeploymentCertVolumes d info)"
  show ?thesis unfolding ps_def [symmetric] Let_def
  proof (intro conjI ballI impI)
    let ?gone = "set (volumes_to_remove (pod d))"
    show "{v \<in> set (ps_Volumes ps). vol_Name v \<in> cvc_Name ` set certVolumeConfigs} = set (cert_volumes info)"
      unfolding ps_def ensured_pod using cert_names(1) [of info] cert_names(4) [of "pod d"] by auto
    show "mounts_resolve ps" if old: "mounts_resolve (pod d)"
      unfolding mounts_resolve_def ps_def ensured_pod
    proof (intro ballI subsetI)
      fix c' n
      assume "c' \<in> set (map (\<lambda>c. c\<lparr>ct_VolumeMounts := filter (\<lambda>m. vm_Name m \<notin> ?gone) (ct_VolumeMounts c) @ cert_volume_mounts\<rparr>) (ps_Containers (pod d)))"
        and n: "n \<in> vm_Name ` set (ct_VolumeMounts c')"
      then obtain c where c: "c \<in> set (ps_Containers (pod d))"
        "n \<in> vm_Name ` set cert_volume_mounts \<or> n \<notin> ?gone \<and> n \<in> vm_Name ` set (ct_VolumeMounts c)" by auto
      have "n \<in> vol_Name ` set (ps_Volumes (pod d))" if "n \<in> vm_Name ` set (ct_VolumeMounts c)"
        using old c(1) that unfolding mounts_resolve_def by blast
      with c(2) show "n \<in> vol_Name ` set (filter (\<lambda>v. vol_Name v \<notin> ?gone) (ps_Volumes (pod d)) @ cert_volumes info)"
        using cert_names(1) [of info] cert_names(2) by (auto simp: image_Un)
    qed
  next
    fix c'
    assume "c' \<in> set (ps_Containers ps)"
    then obtain c where c: "c \<in> set (ps_Containers (pod d))"
      "set (ct_VolumeMounts c') = {m \<in> set (ct_VolumeMounts c). vm_Name m \<notin> set (volumes_to_remove (pod d))} \<union> set cert_volume_mounts"
      unfolding ps_def ensured_pod by auto
    show "{m \<in> set (ct_VolumeMounts c'). vm_MountPath m \<in> cvc_Path ` set certVolumeConfigs} = set cert_volume_mounts"
      unfolding c(2) using protected_mount_removed [OF c(1)] cert_names(3) by auto
    show "{m \<in> set (ct_VolumeMounts c'). vm_Name m \<in> cvc_Name ` set certVolumeConfigs} = set cert_volume_mounts"
      unfolding c(2) using cert_names(2) cert_names(4) [of "pod d"] by auto
  qed
qed

section \<open>Overriding by name\<close>

definition merge_by :: "('a \<Rightarrow> string) \<Rightarrow> 'a list \<Rightarrow> 'a list \<Rightarrow> 'a list" where
  "merge_by key new old =
     map (\<lambda>x. case map_of (rev (map (\<lambda>y. (key y, y)) new)) (key x) of Some y \<Rightarrow> y | None \<Rightarrow> x) old @ filter (\<lambda>y. key y \<notin> key ` set old) new"

lemma filter_upt_eq: "i < n \<Longrightarrow> filter (\<lambda>j. j = i) [0..<n] = [i]"
  by (induction n) (auto simp: less_Suc_eq)

lemma last_index_distinct:
  assumes "distinct (map key xs)"
  shows "i < length xs \<Longrightarrow> last_index key xs (key (xs ! i)) = Some i"
    and "k \<notin> key ` set xs \<Longrightarrow> last_index key xs k = None"
proof -
  assume i: "i < length xs"
  have "filter (\<lambda>j. key (xs ! j) = key (xs ! i)) [0..<length xs] = filter (\<lambda>j. j = i) [0..<length xs]"
    using assms i by (intro filter_cong refl) (auto simp: distinct_conv_nth)
  then show "last_index key xs (key (xs ! i)) = Some i"
    by (simp add: last_index_def filter_upt_eq [OF i])
next
  assume "k \<notin> key ` set xs"
  then have "filter (\<lambda>j. key (xs ! j) = k) [0..<length xs] = []"
    by (auto simp: filter_empty_conv)
  then show "last_index key xs k = None" by (simp add: last_index_def)
qed

lemma override_by_name_merge:
  assumes "distinct (map key old)"
  shows "override_by_name key new old = merge_by key new old"
proof (induction new rule: rev_induct)
  case Nil
  then show ?case by (simp add: override_by_name_def merge_by_def)
next
  case (snoc y new)
  have step: "override_by_name key (new @ [y]) old =
      (case last_index key old (key y) of Some i \<Rightarrow> (merge_by key new old)[i := y] | None \<Rightarrow> merge_by key new old @ [y])"
    unfolding snoc [symmetric] override_by_name_def by simp
  show ?case
  proof (cases "key y \<in> key ` set old")
    case True
    then obtain i where i: "i < length old" "key (old ! i) = key y" by (auto simp: in_set_conv_nth)
    have idx: "last_index key old (key y) = Some i" using last_index_distinct(1) [OF assms i(1)] i(2) by simp
    have other: "key (old ! j) = key y \<longleftrightarrow> j = i" if "j < length old" for j
      using nth_eq_iff_index_eq [OF assms, of j i] i that by simp
    show ?thesis unfolding step idx option.case
      using i True by (intro nth_equalityI) (auto simp: merge_by_def nth_append nth_list_update other)
  next
    case False
    then have "key x \<noteq> key y" if "x \<in> set old" for x using that by (metis imageI)
    with False show ?thesis
      unfolding step last_index_distinct(2) [OF assms False] option.case by (simp add: merge_by_def)
  qed
qed

section \<open>The whole configuration\<close>

definition replaced :: "'a option \<Rightarrow> 'a \<Rightarrow> 'a" where
  "replaced new old = (case new of Some x \<Rightarrow> x | None \<Rightarrow> old)"

definition configured_container :: "deployment_config \<Rightarrow> container \<Rightarrow> container" where
  "configured_container cfg c =
     c\<lparr>ct_Env := merge_by env_Name (dc_Env cfg) (ct_Env c), ct_EnvFrom := append_missing (dc_EnvFrom cfg) (ct_EnvFrom c),
       ct_VolumeMounts := merge_by vm_Name (dc_VolumeMounts cfg) (ct_VolumeMounts c), ct_Resources := replaced (dc_Resources cfg) (ct_Resources c)\<rparr>"

definition unique_names :: "pod_spec \<Rightarrow> bool" where
  "unique_names ps \<longleftrightarrow> distinct (map vol_Name (ps_Volumes ps))
     \<and> (\<forall>c \<in> set (ps_Containers ps). distinct (map env_Name (ct_Env c)) \<and> distinct (map vm_Name (ct_VolumeMounts c)))"

lemma merge_nothing [simp]: "merge_by key [] xs = xs" "append_missing [] ys = ys"
  by (simp_all add: merge_by_def append_missing_def)

lemma map_pod_fusion: "map_pod f (map_pod g d) = map_pod (\<lambda>ps. f (g ps)) d"
  and map_pod_pod: "pod (map_pod f d) = f (pod d)"
  and map_pod_template: "ds_Template (map_pod f d) = (ds_Template d)\<lparr>pt_Spec := f (pod d)\<rparr>"
  by (simp_all add: map_pod_def)

lemma apply_containers:
  "ps_Containers (pod (applyEnvironmentConfig cfg d)) = map (\<lambda>c. c\<lparr>ct_Env := override_by_name env_Name (dc_Env cfg) (ct_Env c)\<rparr>) (ps_Containers (pod d))"
  "ps_Containers (pod (applyEnvironmentFromConfig cfg d)) = map (\<lambda>c. c\<lparr>ct_EnvFrom := append_missing (dc_EnvFrom cfg) (ct_EnvFrom c)\<rparr>) (ps_Containers (pod d))"
  "ps_Containers (pod (applyVolumeConfig cfg d)) = ps_Containers (pod d)"
  "ps_Containers (pod (applyVolumeMountConfig cfg d)) = map (\<lambda>c. c\<lparr>ct_VolumeMounts := override_by_name vm_Name (dc_VolumeMounts cfg) (ct_VolumeMounts c)\<rparr>) (ps_Containers (pod d))"
  "ps_Containers (pod (applyTolerationsConfig cfg d)) = ps_Containers (pod d)"
  "ps_Containers (pod (applyResourcesConfig cfg d)) = map (\<lambda>c. c\<lparr>ct_Resources := replaced (dc_Resources cfg) (ct_Resources c)\<rparr>) (ps_Containers (pod d))"
  "ps_Containers (pod (applyNodeSelectorConfig cfg d)) = ps_Containers (pod d)"
  "ps_Containers (pod (applyAffinityConfig cfg d)) = ps_Containers (pod d)"
  by (simp_all add: applyEnvironmentConfig_def applyEnvironmentFromConfig_def applyVolumeConfig_def applyVolumeMountConfig_def applyTolerationsConfig_def
      applyResourcesConfig_def applyNodeSelectorConfig_def applyAffinityConfig_def map_pod_pod map_containers_def override_by_name_def replaced_def Let_def
      split: option.split)

lemma apply_volumes:
  "ps_Volumes (pod (applyEnvironmentConfig cfg d)) = ps_Volumes (pod d)"
  "ps_Volumes (pod (applyEnvironmentFromConfig cfg d)) = ps_Volumes (pod d)"
  "ps_Volumes (pod (applyVolumeConfig cfg d)) = override_by_name vol_Name (dc_Volumes cfg) (ps_Volumes (pod d))"
  "ps_Volumes (pod (applyVolumeMountConfig cfg d)) = ps_Volumes (pod d)"
  "ps_Volumes (pod (applyTolerationsConfig cfg d)) = ps_Volumes (pod d)"
  "ps_Volumes (pod (applyResourcesConfig cfg d)) = ps_Volumes (pod d)"
  "ps_Volumes (pod (applyNodeSelectorConfig cfg d)) = ps_Volumes (pod d)"
  "ps_Volumes (pod (applyAffinityConfig cfg d)) = ps_Volumes (pod d)"
  by (simp_all add: applyEnvironmentConfig_def applyEnvironmentFromConfig_def applyVolumeConfig_def applyVolumeMountConfig_def applyTolerationsConfig_def
      applyResourcesConfig_def applyNodeSelectorConfig_def applyAffinityConfig_def map_pod_pod map_containers_def override_by_name_def Let_def
      split: option.split)

lemma configured_pod:
  "ps_Containers (pod (snd (applyCustomConfigToDeployment (Some cfg) (m, d)))) =
     map (\<lambda>c. c\<lparr>ct_Env := override_by_name env_Name (dc_Env cfg) (ct_Env c), ct_EnvFrom := append_missing (dc_EnvFrom cfg) (ct_EnvFrom c),
       ct_VolumeMounts := override_by_name vm_Name (dc_VolumeMounts cfg) (ct_VolumeMounts c), ct_Resources := replaced (dc_Resources cfg) (ct_Resources c)\<rparr>)
       (ps_Containers (pod d))"
  "ps_Volumes (pod (snd (applyCustomConfigToDeployment (Some cfg) (m, d)))) = override_by_name vol_Name (dc_Volumes cfg) (ps_Volumes (pod d))"
proof -
  have "pod (snd (applyAnnotationsConfig cfg (m, d'))) = pod d'" for d' by (simp add: applyAnnotationsConfig_def)
  note annotations = this
  show "ps_Containers (pod (snd (applyCustomConfigToDeployment (Some cfg) (m, d)))) =
     map (\<lambda>c. c\<lparr>ct_Env := override_by_name env_Name (dc_Env cfg) (ct_Env c), ct_EnvFrom := append_missing (dc_EnvFrom cfg) (ct_EnvFrom c),
       ct_VolumeMounts := override_by_name vm_Name (dc_VolumeMounts cfg) (ct_VolumeMounts c), ct_Resources := replaced (dc_Resources cfg) (ct_Resources c)\<rparr>)
       (ps_Containers (pod d))"
    by (simp add: applyCustomConfigToDeployment_def annotations apply_containers)
  show "ps_Volumes (pod (snd (applyCustomConfigToDeployment (Some cfg) (m, d)))) = override_by_name vol_Name (dc_Volumes cfg) (ps_Volumes (pod d))"
    by (simp add: applyCustomConfigToDeployment_def annotations apply_volumes)
qed

text \<open>
  C21: a deployment configuration overrides by name.  For a pod whose variables, mounts and volumes have distinct names, the in-place updates of the
  configuration by remembered index amount to a merge: every variable, mount and volume keeps its position and is replaced by the last entry of
  the configuration with its name, if any; the other entries follow in their order.  Sources of variables are added when missing, resources replaced.
\<close>

theorem configuration_merges:
  assumes "unique_names (pod d)"
  shows "ps_Containers (pod (snd (applyCustomConfigToDeployment (Some cfg) (m, d)))) = map (configured_container cfg) (ps_Containers (pod d))
    \<and> ps_Volumes (pod (snd (applyCustomConfigToDeployment (Some cfg) (m, d)))) = merge_by vol_Name (dc_Volumes cfg) (ps_Volumes (pod d))"
  using assms unfolding configured_pod unique_names_def
  by (auto simp: configured_container_def override_by_name_merge)

section \<open>Witnesses\<close>

definition ex_container :: container where
  "ex_container = \<lparr>ct_Name = ''manager'', ct_Env = [\<lparr>env_Name = ''A'', env_Value = ''1''\<rparr>, \<lparr>env_Name = ''B'', env_Value = ''1''\<rparr>], ct_EnvFrom = [],
     ct_VolumeMounts = [\<lparr>vm_Name = ''old'', vm_MountPath = ''/tmp/k8s-webhook-server/serving-certs'', vm_Other = []\<rparr>, \<lparr>vm_Name = ''data'', vm_MountPath = ''/data'', vm_Other = []\<rparr>],
     ct_Resources = [], ct_Other = []\<rparr>"

definition ex_deployment :: deployment_spec where
  "ex_deployment = map_pod (\<lambda>ps. ps\<lparr>ps_Containers := [ex_container],
     ps_Volumes := [\<lparr>vol_Name = ''old'', vol_Source = OtherVolume []\<rparr>, \<lparr>vol_Name = ''data'', vol_Source = OtherVolume []\<rparr>]\<rparr>) zero_deployment_spec"

definition ex_config :: deployment_config where
  "ex_config = \<lparr>dc_Env = [\<lparr>env_Name = ''C'', env_Value = ''2''\<rparr>, \<lparr>env_Name = ''B'', env_Value = ''2''\<rparr>], dc_EnvFrom = [], dc_Volumes = [], dc_VolumeMounts = [],
     dc_Tolerations = [], dc_Resources = None, dc_NodeSelector = None, dc_Affinity = None, dc_Annotations = []\<rparr>"

lemma ex_pod: "ps_Containers (pod ex_deployment) = [ex_container]"
  "ps_Volumes (pod ex_deployment) = [\<lparr>vol_Name = ''old'', vol_Source = OtherVolume []\<rparr>, \<lparr>vol_Name = ''data'', vol_Source = OtherVolume []\<rparr>]"
  by (simp_all add: ex_deployment_def map_pod_def)

theorem cert_volumes_exclusive_witness:
  "mounts_resolve (pod ex_deployment)
   \<and> (let ps = pod (ensureCorrectDeploymentCertVolumes ex_deployment \<lparr>csi_SecretName = ''crt'', csi_CertificateKey = ''c'', csi_PrivateKeyKey = ''k''\<rparr>)
      in mounts_resolve ps \<and> length (ps_Containers ps) = 1 \<and> map vol_Name (ps_Volumes ps) = [''data'', ''webhook-cert'', ''apiservice-cert''])"
proof -
  have old: "mounts_resolve (pod ex_deployment)" by (simp add: mounts_resolve_def ex_pod ex_container_def)
  show ?thesis
    using cert_volumes_exclusive [of ex_deployment "\<lparr>csi_SecretName = ''crt'', csi_CertificateKey = ''c'', csi_PrivateKeyKey = ''k''\<rparr>"] old
    by (simp add: Let_def ensured_pod ex_pod volumes_to_remove_def ex_container_def certVolumeConfigs_def cert_volumes_def)
qed

text \<open>Init containers keep the mounts of a volume that has been removed.\<close>

lemma init_container_dangles:
  fixes d info
  defines "d \<equiv> map_pod (\<lambda>ps. ps\<lparr>ps_InitContainers := [ex_container]\<rparr>) ex_deployment"
  shows "''old'' \<in> vm_Name ` set (concat (map ct_VolumeMounts (ps_InitContainers (pod (ensureCorrectDeploymentCertVolumes d info)))))"
    and "''old'' \<notin> vol_Name ` set (ps_Volumes (pod (ensureCorrectDeploymentCertVolumes d info)))"
  by (simp_all add: d_def ensureCorrectDeploymentCertVolumes_def map_pod_def map_containers_def Let_def ex_deployment_def ex_container_def
      volumes_to_remove_def certVolumeConfigs_def cert_volumes_def zero_deployment_spec_def zero_pod_spec_def del: set_filter)

theorem configuration_merges_witness:
  "unique_names (pod ex_deployment)
   \<and> map (\<lambda>e. (env_Name e, env_Value e)) (concat (map ct_Env (ps_Containers (pod (snd (applyCustomConfigToDeployment (Some ex_config) (named [] [], ex_deployment)))))))
     = [(''A'', ''1''), (''B'', ''2''), (''C'', ''2'')]"
proof -
  have "unique_names (pod ex_deployment)" by (simp add: unique_names_def ex_pod ex_container_def)
  with configuration_merges [OF this, of ex_config "named [] []"] show ?thesis
    by (simp add: ex_pod configured_container_def ex_config_def ex_container_def merge_by_def)
qed

end
