(* ===== verification/BundleSource.thy ===== *)
theory BundleSource
  imports BundleTypes
begin

text \<open>
  Loading of registry+v1 bundles from a file system (\<^verbatim>\<open>rukpak/bundle/source/source.go\<close>).  The file system, the walk over a directory,
  the decoders and the resource builder are arguments; a walk is the sequence of its calls, which ends with the first error of the callback.
\<close>

record walk_entry =
  we_Path :: string
  we_IsDir :: bool
  we_Err :: "goerr option"

text \<open>The result of a resource builder: its error, the calls of the visitor, and the error after the last of them.\<close>

record visit_result =
  vr_Err :: "goerr option"
  vr_Infos :: "(k8s_object \<times> goerr option) list"
  vr_Tail :: "goerr option"

record 'fs source_libs =
  so_ReadFile :: "'fs \<Rightarrow> string \<Rightarrow> string res"
  so_IsNotExist :: "goerr \<Rightarrow> bool"
  so_WalkDir :: "'fs \<Rightarrow> string \<Rightarrow> walk_entry list"
  so_Open :: "'fs \<Rightarrow> string \<Rightarrow> string res"
  so_Stream :: "string \<Rightarrow> string \<Rightarrow> visit_result"
  so_PackageName :: "string \<Rightarrow> string res"
  so_CSV :: "k8s_object \<Rightarrow> cluster_service_version res"
  so_CRD :: "k8s_object \<Rightarrow> custom_resource_definition res"
  so_UnmarshalProperties :: "string \<Rightarrow> string list res"
  so_UnmarshalPropertiesFile :: "string \<Rightarrow> string list res"
  so_MarshalProperties :: "string list \<Rightarrow> string res"

definition empty_csv :: cluster_service_version where
  "empty_csv = \<lparr>csv_Name = [], csv_Annotations = [], csv_InstallModes = [], csv_Permissions = [], csv_ClusterPermissions = [], csv_DeploymentSpecs = [],
     csv_WebhookDefinitions = [], csv_OwnedCRDs = [], csv_OwnedAPIServices = []\<rparr>"

definition visit_object :: "'fs source_libs \<Rightarrow> k8s_object \<Rightarrow> registry_v1 \<times> bool \<Rightarrow> (registry_v1 \<times> bool) res" where
  "visit_object F info st =
     (case st of (reg, foundCSV) \<Rightarrow>
        if obj_Kind info = ''ClusterServiceVersion'' then
          (case so_CSV F info of Inl err \<Rightarrow> Inl err | Inr csv \<Rightarrow> Inr (reg\<lparr>rv1_CSV := csv\<rparr>, True))
        else if obj_Kind info = ''CustomResourceDefinition'' then
          (case so_CRD F info of Inl err \<Rightarrow> Inl err | Inr crd \<Rightarrow> Inr (reg\<lparr>rv1_CRDs := rv1_CRDs reg @ [crd]\<rparr>, foundCSV))
        else Inr (reg\<lparr>rv1_Others := rv1_Others reg @ [info]\<rparr>, foundCSV))"

fun Visit :: "'fs source_libs \<Rightarrow> (k8s_object \<times> goerr option) list \<Rightarrow> registry_v1 \<times> bool \<Rightarrow> (registry_v1 \<times> bool) res" where
  "Visit F [] st = Inr st"
| "Visit F ((info, Some err) # infos) st = Inl err"
| "Visit F ((info, None) # infos) st = (case visit_object F info st of Inl err \<Rightarrow> Inl err | Inr st' \<Rightarrow> Visit F infos st')"

definition walk_step :: "'fs source_libs \<Rightarrow> 'fs \<Rightarrow> walk_entry \<Rightarrow> registry_v1 \<times> bool \<Rightarrow> (registry_v1 \<times> bool) res" where
  "walk_step F fs e st =
     (case we_Err e of
        Some err \<Rightarrow> Inl err
      | None \<Rightarrow>
          if we_IsDir e then
            (if we_Path e = ''manifests'' then Inr st
             else Inl (ErrText (''subdirectories are not allowed within the '' @ quote ''manifests'' @ '' directory of the bundle image filesystem: found '' @ quote (we_Path e))))
          else
            (case so_Open F fs (we_Path e) of
               Inl err \<Rightarrow> Inl err
             | Inr manifestFile \<Rightarrow>
                 (let result = so_Stream F manifestFile (we_Path e); parsing = (\<lambda>err. Inl (ErrText (''error parsing objects in '' @ quote (we_Path e) @ '': '' @ Error err)))
                  in case vr_Err result of
                       Some err \<Rightarrow> Inl err
                     | None \<Rightarrow>
                         (case Visit F (vr_Infos result) st of
                            Inl err \<Rightarrow> parsing err
                          | Inr st' \<Rightarrow> (case vr_Tail result of Some err \<Rightarrow> parsing err | None \<Rightarrow> Inr st')))))"

fun walk :: "'fs source_libs \<Rightarrow> 'fs \<Rightarrow> walk_entry list \<Rightarrow> registry_v1 \<times> bool \<Rightarrow> (registry_v1 \<times> bool) res" where
  "walk F fs [] st = Inr st"
| "walk F fs (e # es) st = (case walk_step F fs e st of Inl err \<Rightarrow> Inl err | Inr st' \<Rightarrow> walk F fs es st')"

abbreviation PropertyOLMProperties :: string where "PropertyOLMProperties \<equiv> ''olm.properties''"

definition csv_properties :: "'fs source_libs \<Rightarrow> cluster_service_version \<Rightarrow> string list res" where
  "csv_properties F csv =
     (case map_of (csv_Annotations csv) PropertyOLMProperties of
        None \<Rightarrow> Inr []
      | Some text \<Rightarrow>
          (case so_UnmarshalProperties F text of
             Inl err \<Rightarrow> Inl (ErrWrap (''failed to unmarshal csv.metadata.annotations['' @ [char_of (39::nat)] @ ''olm.properties'' @ [char_of (39::nat)] @ '']: '') err)
           | Inr ps \<Rightarrow> Inr ps))"

definition copyMetadataPropertiesToCSV :: "'fs source_libs \<Rightarrow> cluster_service_version \<Rightarrow> 'fs \<Rightarrow> cluster_service_version res" where
  "copyMetadataPropertiesToCSV F csv fsys =
     (case csv_properties F csv of
        Inl err \<Rightarrow> Inl err
      | Inr csvProperties \<Rightarrow>
          (let use_file = (\<lambda>text. if length text = 0 then Inr csv
                 else case so_UnmarshalPropertiesFile F text of
                        Inl err \<Rightarrow> Inl (ErrWrap ''failed to unmarshal metadata/properties.yaml: '' err)
                      | Inr fileProperties \<Rightarrow>
                          (case so_MarshalProperties F (csvProperties @ fileProperties) of
                             Inl err \<Rightarrow> Inl (ErrWrap ''failed to marshal registry+v1 properties to json: '' err)
                           | Inr allPropertiesJSON \<Rightarrow> Inr (csv\<lparr>csv_Annotations := map_put PropertyOLMProperties allPropertiesJSON (csv_Annotations csv)\<rparr>)))
           in case so_ReadFile F fsys ''metadata/properties.yaml'' of
                Inl err \<Rightarrow> if so_IsNotExist F err then use_file [] else Inl (ErrWrap ''failed to read properties.yaml file: '' err)
              | Inr text \<Rightarrow> use_file text))"

definition GetBundle :: "'fs source_libs \<Rightarrow> 'fs \<Rightarrow> registry_v1 res" where
  "GetBundle F fs =
     (case so_ReadFile F fs ''metadata/annotations.yaml'' of
        Inl err \<Rightarrow> Inl err
      | Inr annotationsFileData \<Rightarrow>
          (case so_PackageName F annotationsFileData of
             Inl err \<Rightarrow> Inl err
           | Inr packageName \<Rightarrow>
               (case walk F fs (so_WalkDir F fs ''manifests'')
                       (\<lparr>rv1_PackageName = packageName, rv1_CSV = empty_csv, rv1_CRDs = [], rv1_Others = []\<rparr>, False) of
                  Inl err \<Rightarrow> Inl err
                | Inr (reg, foundCSV) \<Rightarrow>
                    if \<not> foundCSV then Inl (ErrText (''no ClusterServiceVersion found in '' @ quote ''manifests''))
                    else (case copyMetadataPropertiesToCSV F (rv1_CSV reg) fs of
                            Inl err \<Rightarrow> Inl err
                          | Inr csv \<Rightarrow> Inr (reg\<lparr>rv1_CSV := csv\<rparr>)))))"

section \<open>What is loaded\<close>

text \<open>
  The objects a walk reads, in order: the bundle holds the last cluster service version of them, every custom resource definition and
  every other object, each decoded once.
\<close>

definition walked :: "'fs source_libs \<Rightarrow> 'fs \<Rightarrow> walk_entry list \<Rightarrow> k8s_object list" where
  "walked F fs es =
     concat (map (\<lambda>e. case so_Open F fs (we_Path e) of Inl _ \<Rightarrow> [] | Inr data \<Rightarrow> map fst (vr_Infos (so_Stream F data (we_Path e)))) (filter (\<lambda>e. \<not> we_IsDir e) es))"

definition of_kind :: "string \<Rightarrow> k8s_object list \<Rightarrow> k8s_object list" where
  "of_kind k os = filter (\<lambda>u. obj_Kind u = k) os"

definition holds :: "'fs source_libs \<Rightarrow> registry_v1 \<times> bool \<Rightarrow> k8s_object list \<Rightarrow> registry_v1 \<times> bool \<Rightarrow> bool" where
  "holds F st os st' \<longleftrightarrow>
     (\<exists>crds. all_ok (map (so_CRD F) (of_kind ''CustomResourceDefinition'' os)) = Inr crds \<and> rv1_CRDs (fst st') = rv1_CRDs (fst st) @ crds)
     \<and> rv1_Others (fst st') = rv1_Others (fst st) @ filter (\<lambda>u. obj_Kind u \<notin> {''CustomResourceDefinition'', ''ClusterServiceVersion''}) os
     \<and> rv1_PackageName (fst st') = rv1_PackageName (fst st)
     \<and> (if of_kind ''ClusterServiceVersion'' os = [] then snd st' = snd st \<and> rv1_CSV (fst st') = rv1_CSV (fst st)
        else snd st' \<and> so_CSV F (last (of_kind ''ClusterServiceVersion'' os)) = Inr (rv1_CSV (fst st')))"

lemma of_kind_append [simp]: "of_kind k (os @ os') = of_kind k os @ of_kind k os'"
  by (simp add: of_kind_def)

lemma all_ok_append: "all_ok (xs @ ys) = Inr zs \<longleftrightarrow> (\<exists>as bs. all_ok xs = Inr as \<and> all_ok ys = Inr bs \<and> zs = as @ bs)"
  unfolding all_ok_Inr by (auto simp: map_eq_append_conv append_eq_map_conv)

lemma holds_refl: "holds F st [] st"
  by (simp add: holds_def of_kind_def)

lemma holds_trans:
  assumes "holds F st os st1" and "holds F st1 os' st2"
  shows "holds F st (os @ os') st2"
proof -
  obtain as bs where "all_ok (map (so_CRD F) (of_kind ''CustomResourceDefinition'' os)) = Inr as" "rv1_CRDs (fst st1) = rv1_CRDs (fst st) @ as"
    "all_ok (map (so_CRD F) (of_kind ''CustomResourceDefinition'' os')) = Inr bs" "rv1_CRDs (fst st2) = rv1_CRDs (fst st1) @ bs"
    using assms unfolding holds_def by blast
  then have "\<exists>crds. all_ok (map (so_CRD F) (of_kind ''CustomResourceDefinition'' (os @ os'))) = Inr crds \<and> rv1_CRDs (fst st2) = rv1_CRDs (fst st) @ crds"
    by (simp add: all_ok_append)
  then show ?thesis
    using assms unfolding holds_def
    by (cases "of_kind ''ClusterServiceVersion'' os' = []"; cases "of_kind ''ClusterServiceVersion'' os = []") simp_all
qed

lemma visit_object_holds:
  assumes "visit_object F info st = Inr st'"
  shows "holds F st [info] st'"
proof -
  consider "obj_Kind info = ''ClusterServiceVersion''" | "obj_Kind info = ''CustomResourceDefinition''"
    | "obj_Kind info \<notin> {''CustomResourceDefinition'', ''ClusterServiceVersion''}" by blast
  then show ?thesis
    by cases (use assms in \<open>auto simp: visit_object_def holds_def of_kind_def split: prod.splits sum.splits\<close>)
qed

lemma Visit_holds: "Visit F infos st = Inr st' \<Longrightarrow> holds F st (map fst infos) st'"
proof (induction F infos st rule: Visit.induct)
  case (3 F info infos st)
  then obtain st1 where st1: "visit_object F info st = Inr st1" "Visit F infos st1 = Inr st'" by (auto split: sum.splits)
  with holds_trans [OF visit_object_holds [OF st1(1)] 3(1) [OF st1]] show ?case by simp
qed (simp_all add: holds_refl)

lemma walk_step_holds:
  assumes "walk_step F fs e st = Inr st'"
  shows "holds F st (walked F fs [e]) st'" and "we_IsDir e \<longrightarrow> we_Path e = ''manifests''"
proof -
  have "we_Err e = None" using assms by (simp add: walk_step_def split: option.splits)
  note step = assms [unfolded walk_step_def this option.case]
  have "holds F st (walked F fs [e]) st' \<and> (we_IsDir e \<longrightarrow> we_Path e = ''manifests'')"
  proof (cases "we_IsDir e")
    case True
    with step show ?thesis by (auto simp: walked_def holds_refl split: if_splits)
  next
    case False
    with step obtain data where data: "so_Open F fs (we_Path e) = Inr data" by (auto split: sum.splits)
    with step False have "Visit F (vr_Infos (so_Stream F data (we_Path e))) st = Inr st'"
      by (auto simp: Let_def split: option.splits sum.splits)
    from Visit_holds [OF this] False data show ?thesis by (simp add: walked_def)
  qed
  then show "holds F st (walked F fs [e]) st'" "we_IsDir e \<longrightarrow> we_Path e = ''manifests''" by blast+
qed

lemma walk_holds: "walk F fs es st = Inr st' \<Longrightarrow> holds F st (walked F fs es) st' \<and> (\<forall>e \<in> set es. we_IsDir e \<longrightarrow> we_Path e = ''manifests'')"
proof (induction F fs es st rule: walk.induct)
  case (2 F fs e es st)
  then obtain st1 where st1: "walk_step F fs e st = Inr st1" "walk F fs es st1 = Inr st'" by (auto split: sum.splits)
  have "walked F fs (e # es) = walked F fs [e] @ walked F fs es" by (simp add: walked_def)
  with holds_trans [OF walk_step_holds(1) [OF st1(1)]] 2(1) [OF st1] walk_step_holds(2) [OF st1(1)] show ?case by simp
qed (simp add: walked_def holds_refl)


section \<open>Witness\<close>

definition ex_manifest :: "string \<Rightarrow> string \<Rightarrow> k8s_object" where
  "ex_manifest kind name = \<lparr>obj_Group = [], obj_Version = ''v1'', obj_Kind = kind, obj_Namespace = [], obj_Name = name, obj_Labels = [], obj_Annotations = [],
     obj_Metadata = [], obj_Fields = []\<rparr>"

definition ex_bundle_source :: "unit source_libs" where
  "ex_bundle_source = \<lparr>so_ReadFile = (\<lambda>_ path. Inr path), so_IsNotExist = (\<lambda>_. False),
     so_WalkDir = (\<lambda>_ _. [\<lparr>we_Path = ''manifests'', we_IsDir = True, we_Err = None\<rparr>, \<lparr>we_Path = ''manifests/a.yaml'', we_IsDir = False, we_Err = None\<rparr>]),
     so_Open = (\<lambda>_ _. Inr []),
     so_Stream = (\<lambda>_ _. \<lparr>vr_Err = None, vr_Infos = [(ex_manifest ''ConfigMap'' ''cm'', None), (ex_manifest ''ClusterServiceVersion'' ''op.v1'', None)], vr_Tail = None\<rparr>),
     so_PackageName = (\<lambda>_. Inr ''op''), so_CSV = (\<lambda>u. Inr (empty_csv\<lparr>csv_Name := obj_Name u\<rparr>)), so_CRD = (\<lambda>_. Inl (ErrText ''crd'')),
     so_UnmarshalProperties = (\<lambda>_. Inr []), so_UnmarshalPropertiesFile = (\<lambda>_. Inr [''p'']), so_MarshalProperties = (\<lambda>ps. Inr (concat ps))\<rparr>"

definition ex_loaded :: registry_v1 where
  "ex_loaded = \<lparr>rv1_PackageName = ''op'', rv1_CSV = empty_csv\<lparr>csv_Name := ''op.v1'', csv_Annotations := [(''olm.properties'', ''p'')]\<rparr>, rv1_CRDs = [],
     rv1_Others = [ex_manifest ''ConfigMap'' ''cm'']\<rparr>"


end
