(* ===== verification/BundleConfig.thy ===== *)
theory BundleConfig
  imports BundleRender
begin

text \<open>
  The configuration of extensions: the schema of a registry+v1 bundle (\<^verbatim>\<open>rukpak/bundle/registryv1.go\<close>) and the validated
  configuration (\<^verbatim>\<open>operator-controller/config/config.go\<close>).  JSON documents are values; YAML and JSON decoding and the JSON Schema library are
  arguments.
\<close>

section \<open>JSON documents\<close>

text \<open>A number is an integer of the program, or a number of a document, which is kept in its printed form.\<close>

datatype json = JNull | JBool bool | JInt int | JFloat string | JStr string | JArr "json list" | JObj "(string \<times> json) list"

text \<open>The verb \<^verbatim>\<open>%v\<close> on a decoded document; maps are printed in the order of their keys.\<close>

fun sprint :: "json \<Rightarrow> string" where
  "sprint JNull = ''<nil>''"
| "sprint (JBool b) = (if b then ''true'' else ''false'')"
| "sprint (JInt i) = show_int i"
| "sprint (JFloat t) = t"
| "sprint (JStr s) = s"
| "sprint (JArr xs) = show_slice (map sprint xs)"
| "sprint (JObj kvs) =
     ''map'' @ show_slice (map snd (SortStableFunc (\<lambda>a b. cmp_ord (fst a) (fst b)) (map (\<lambda>(k, v). (k, k @ '':'' @ sprint v)) kvs)))"

section \<open>Schemas of bundles\<close>

type_synonym schema = "(string \<times> json) list"

definition map_delete :: "'k \<Rightarrow> ('k \<times> 'v) list \<Rightarrow> ('k \<times> 'v) list" where
  "map_delete k m = filter (\<lambda>e. fst e \<noteq> k) m"

abbreviation watchNamespaceConfigKey :: string where "watchNamespaceConfigKey \<equiv> ''watchNamespace''"
abbreviation namespaceNamePattern :: string where "namespaceNamePattern \<equiv> ''^[a-z0-9]([-a-z0-9]*[a-z0-9])?$''"
abbreviation FormatOwnNamespaceInstallMode :: string where "FormatOwnNamespaceInstallMode \<equiv> ''ownNamespaceInstallMode''"
abbreviation FormatSingleNamespaceInstallMode :: string where "FormatSingleNamespaceInstallMode \<equiv> ''singleNamespaceInstallMode''"

abbreviation supports :: "install_mode list \<Rightarrow> string \<Rightarrow> bool" where
  "supports modes t \<equiv> \<lparr>im_Type = t, im_Supported = True\<rparr> \<in> set modes"

definition isWatchNamespaceConfigurable :: "install_mode list \<Rightarrow> bool" where
  "isWatchNamespaceConfigurable modes \<longleftrightarrow> supports modes InstallModeTypeSingleNamespace \<or> supports modes InstallModeTypeOwnNamespace"

definition isWatchNamespaceConfigRequired :: "install_mode list \<Rightarrow> bool" where
  "isWatchNamespaceConfigRequired modes \<longleftrightarrow> isWatchNamespaceConfigurable modes \<and> \<not> supports modes InstallModeTypeAllNamespaces"

definition selectNamespaceFormat :: "bool \<Rightarrow> bool \<Rightarrow> string" where
  "selectNamespaceFormat hasOwn hasSingle =
     (if hasOwn \<and> \<not> hasSingle then FormatOwnNamespaceInstallMode
      else if hasSingle \<and> \<not> hasOwn then FormatSingleNamespaceInstallMode
      else [])"

abbreviation watch_description :: string where
  "watch_description \<equiv> ''The namespace that the operator should watch for custom resources''"

definition buildWatchNamespaceProperty :: "install_mode list \<Rightarrow> json \<times> bool" where
  "buildWatchNamespaceProperty modes =
     (let format = selectNamespaceFormat (supports modes InstallModeTypeOwnNamespace) (supports modes InstallModeTypeSingleNamespace);
          watchNamespaceSchema =
            [(''type'', JStr ''string''), (''minLength'', JInt 1), (''maxLength'', JInt 63), (''pattern'', JStr namespaceNamePattern)]
            @ (if format \<noteq> [] then [(''format'', JStr format)] else [])
      in if isWatchNamespaceConfigRequired modes then (JObj (watchNamespaceSchema @ [(''description'', JStr watch_description)]), True)
         else (JObj [(''description'', JStr watch_description), (''anyOf'', JArr [JObj [(''type'', JStr ''null'')], JObj watchNamespaceSchema])], False))"

definition addToRequired :: "schema \<Rightarrow> string \<Rightarrow> schema" where
  "addToRequired s fieldName =
     (case map_of s ''required'' of
        Some (JArr existing) \<Rightarrow> if JStr fieldName \<in> set existing then s else map_put ''required'' (JArr (existing @ [JStr fieldName])) s
      | _ \<Rightarrow> map_put ''required'' (JArr [JStr fieldName]) s)"

definition removeFromRequired :: "schema \<Rightarrow> string \<Rightarrow> schema" where
  "removeFromRequired s fieldName =
     (case map_of s ''required'' of
        Some (JArr existing) \<Rightarrow>
          (let filtered = filter (\<lambda>f. f \<noteq> JStr fieldName) existing
           in if length filtered > 0 then map_put ''required'' (JArr filtered) s else map_delete ''required'' s)
      | _ \<Rightarrow> s)"

definition buildBundleConfigSchema :: "schema res \<Rightarrow> install_mode list \<Rightarrow> schema res" where
  "buildBundleConfigSchema getBundleConfigSchemaMap modes =
     (case getBundleConfigSchemaMap of
        Inl err \<Rightarrow> Inl (ErrWrap ''failed to get base bundle config schema: '' err)
      | Inr baseSchema \<Rightarrow>
          (case map_of baseSchema ''properties'' of
             Some (JObj properties) \<Rightarrow>
               Inr (if isWatchNamespaceConfigurable modes then
                      (case buildWatchNamespaceProperty modes of (watchNSProperty, isRequired) \<Rightarrow>
                         let s = map_put ''properties'' (JObj (map_put watchNamespaceConfigKey watchNSProperty properties)) baseSchema
                         in if isRequired then addToRequired s watchNamespaceConfigKey else removeFromRequired s watchNamespaceConfigKey)
                    else removeFromRequired (map_put ''properties'' (JObj (map_delete watchNamespaceConfigKey properties)) baseSchema) watchNamespaceConfigKey)
           | _ \<Rightarrow> Inl (ErrText ''base schema missing properties'')))"

definition getBundleConfigSchemaMap :: "schema res \<Rightarrow> schema res" where
  "getBundleConfigSchemaMap unmarshalled = (case unmarshalled of Inl err \<Rightarrow> Inl (ErrWrap ''failed to unmarshal bundle config schema: '' err) | Inr s \<Rightarrow> Inr s)"

definition GetConfigSchema :: "schema res \<Rightarrow> registry_v1 \<Rightarrow> schema res" where
  "GetConfigSchema embedded rv1 = buildBundleConfigSchema (getBundleConfigSchemaMap embedded) (csv_InstallModes (rv1_CSV rv1))"

section \<open>Validation errors\<close>

datatype error_kind =
    KRequired | KAdditionalProperties | KType | KFormat | KAnyOf
  | KMaxLength int int | KMinLength int int | KPattern string | KOther

record output_unit =
  ou_InstanceLocation :: string
  ou_Error :: "(error_kind \<times> string) option"

datatype schema_failure = OtherFailure goerr | ValidationError goerr "output_unit list"

definition extractFieldNameFromMessage :: "string \<Rightarrow> string" where
  "extractFieldNameFromMessage msg =
     (case split_on (char_of (39::nat)) msg of _ # name # _ # _ \<Rightarrow> name | _ \<Rightarrow> [])"

definition buildFieldPath :: "string \<Rightarrow> string" where
  "buildFieldPath location =
     (if location = [] \<or> location = ''/'' then []
      else map (\<lambda>c. if c = CHR ''/'' then CHR ''.'' else c) (if has_prefix location ''/'' then tl location else location))"

fun contains_str :: "string \<Rightarrow> string \<Rightarrow> bool" where
  "contains_str [] sub = (sub = [])"
| "contains_str (c # cs) sub = (has_prefix (c # cs) sub \<or> contains_str cs sub)"

definition formatSingleError :: "output_unit \<Rightarrow> string" where
  "formatSingleError u =
     (case ou_Error u of
        None \<Rightarrow> []
      | Some (kind, msg) \<Rightarrow>
          (let fieldName = extractFieldNameFromMessage msg; fieldPath = buildFieldPath (ou_InstanceLocation u)
           in case kind of
                KRequired \<Rightarrow> if fieldName \<noteq> [] then ''required field '' @ quote fieldName @ '' is missing'' else ''required field is missing''
              | KAdditionalProperties \<Rightarrow> if fieldName \<noteq> [] then ''unknown field '' @ quote fieldName else ''unknown field''
              | KType \<Rightarrow>
                  if fieldPath \<noteq> [] then
                    (if contains_str msg ''got null'' then ''required field '' @ quote fieldPath @ '' is missing''
                     else ''invalid type for field '' @ quote fieldPath @ '': '' @ msg)
                  else ''invalid type: '' @ msg
              | KFormat \<Rightarrow> if fieldPath \<noteq> [] then ''invalid format for field '' @ quote fieldPath @ '': '' @ msg else ''invalid format: '' @ msg
              | KAnyOf \<Rightarrow> if fieldPath \<noteq> [] then ''invalid value for field '' @ quote fieldPath else ''invalid value''
              | KMaxLength want got \<Rightarrow>
                  if fieldPath \<noteq> [] then ''field '' @ quote fieldPath @ '' must have maximum length of '' @ show_int want @ '' (len='' @ show_int got @ '')'' else msg
              | KMinLength want got \<Rightarrow>
                  if fieldPath \<noteq> [] then ''field '' @ quote fieldPath @ '' must have minimum length of '' @ show_int want @ '' (len='' @ show_int got @ '')'' else msg
              | KPattern want \<Rightarrow> if fieldPath \<noteq> [] then ''field '' @ quote fieldPath @ '' must match pattern '' @ quote want else msg
              | KOther \<Rightarrow> msg))"

definition formatSchemaError :: "schema_failure \<Rightarrow> goerr" where
  "formatSchemaError f =
     (case f of
        OtherFailure err \<Rightarrow> err
      | ValidationError ve [] \<Rightarrow> ErrText (Error ve)
      | ValidationError ve units \<Rightarrow>
          (let errorMessages = filter (\<lambda>m. m \<noteq> []) (map formatSingleError units)
           in if errorMessages = [] then ErrWrap ''invalid configuration: '' ve
              else if length errorMessages = 1 then ErrText (hd errorMessages)
              else ErrText (''multiple errors found:'' @ newline @ ''  - '' @ join_str (newline @ ''  - '') errorMessages)))"

text \<open>An error of a decoder, with field, type and value when it is (or wraps) a \<^verbatim>\<open>json.UnmarshalTypeError\<close>.\<close>

record decode_error =
  de_Type :: "(string \<times> string \<times> string) option"
  de_Err :: goerr

fun core_error :: "goerr \<Rightarrow> goerr" where
  "core_error (ErrWrap p e) = core_error e"
| "core_error (ErrTerminal e) = core_error e"
| "core_error (ErrReason r e) = core_error e"
| "core_error e = e"

definition formatUnmarshalError :: "decode_error \<Rightarrow> goerr" where
  "formatUnmarshalError e =
     (case de_Type e of
        Some (field, type, val) \<Rightarrow>
          if field = [] then ErrText ''input is not a valid JSON object''
          else ErrText (''invalid value type for field '' @ quote field @ '': expected '' @ quote type @ '' but got '' @ quote val)
      | None \<Rightarrow> ErrText (trim_space (last (split_on (CHR '':'') (Error (core_error (de_Err e)))))))"

section \<open>Configurations\<close>

type_synonym config = "(string \<times> json) list option"
type_synonym formats = "(string \<times> (json \<Rightarrow> goerr option)) list"

record config_libs =
  cl_Unmarshal :: "string \<Rightarrow> decode_error + json"
  cl_UnmarshalMap :: "string \<Rightarrow> decode_error + config"
  cl_AddResource :: "schema \<Rightarrow> goerr option"
  cl_Compile :: "formats \<Rightarrow> schema \<Rightarrow> goerr option"
  cl_Validate :: "formats \<Rightarrow> schema \<Rightarrow> json \<Rightarrow> schema_failure option"
  cl_Marshal :: "json \<Rightarrow> string res"
  cl_UnmarshalDeploymentConfig :: "string \<Rightarrow> deployment_config res"

definition own_format :: "string \<Rightarrow> json \<Rightarrow> goerr option" where
  "own_format installNamespace v =
     (if installNamespace = [] then None
      else case v of
             JStr str \<Rightarrow>
               if str \<noteq> installNamespace
               then Some (ErrText (''invalid value '' @ quote str @ '': must be '' @ quote installNamespace
                      @ '' (the namespace where the operator is installed) because this operator only supports OwnNamespace install mode''))
               else None
           | _ \<Rightarrow> Some (ErrText ''value must be a string''))"

definition single_format :: "string \<Rightarrow> json \<Rightarrow> goerr option" where
  "single_format installNamespace v =
     (if installNamespace = [] then None
      else case v of
             JStr str \<Rightarrow>
               if str = installNamespace
               then Some (ErrText (''invalid value '' @ quote str @ '': must be different from '' @ quote installNamespace
                      @ '' (the install namespace) because this operator uses SingleNamespace install mode to watch a different namespace''))
               else None
           | _ \<Rightarrow> Some (ErrText ''value must be a string''))"

definition config_formats :: "string \<Rightarrow> formats" where
  "config_formats ns = [(FormatOwnNamespaceInstallMode, own_format ns), (FormatSingleNamespaceInstallMode, single_format ns)]"

definition validateConfigWithSchema :: "config_libs \<Rightarrow> string \<Rightarrow> schema \<Rightarrow> string \<Rightarrow> goerr option" where
  "validateConfigWithSchema L configBytes s installNamespace =
     (case cl_Unmarshal L configBytes of
        Inl err \<Rightarrow> Some (formatUnmarshalError err)
      | Inr configData \<Rightarrow>
          (case cl_AddResource L s of
             Some err \<Rightarrow> Some (ErrWrap ''failed to load schema: '' err)
           | None \<Rightarrow>
               (case cl_Compile L (config_formats installNamespace) s of
                  Some err \<Rightarrow> Some (ErrWrap ''failed to compile schema: '' err)
                | None \<Rightarrow> map_option formatSchemaError (cl_Validate L (config_formats installNamespace) s configData))))"

definition UnmarshalConfig :: "config_libs \<Rightarrow> string option \<Rightarrow> schema option \<Rightarrow> string \<Rightarrow> config res" where
  "UnmarshalConfig L bytes s installNamespace =
     (let data = (case bytes of None \<Rightarrow> ''{}'' | Some b \<Rightarrow> b)
      in case (case s of None \<Rightarrow> None | Some s' \<Rightarrow> validateConfigWithSchema L data s' installNamespace) of
           Some err \<Rightarrow> Inl (ErrWrap ''invalid configuration: '' err)
         | None \<Rightarrow>
             (case cl_UnmarshalMap L data of
                Inl err \<Rightarrow> Inl (ErrWrap ''error unmarshalling configuration: '' (formatUnmarshalError err))
              | Inr configData \<Rightarrow> Inr configData))"

definition GetWatchNamespace :: "config \<Rightarrow> string option" where
  "GetWatchNamespace c =
     (case c of
        None \<Rightarrow> None
      | Some m \<Rightarrow> (case map_of m ''watchNamespace'' of None \<Rightarrow> None | Some JNull \<Rightarrow> None | Some v \<Rightarrow> Some (sprint v)))"

definition GetDeploymentConfig :: "config_libs \<Rightarrow> config \<Rightarrow> deployment_config option res" where
  "GetDeploymentConfig L c =
     (case c of
        None \<Rightarrow> Inr None
      | Some m \<Rightarrow>
          (case map_of m ''deploymentConfig'' of
             None \<Rightarrow> Inr None
           | Some JNull \<Rightarrow> Inr None
           | Some v \<Rightarrow>
               (case cl_Marshal L v of
                  Inl err \<Rightarrow> Inl (ErrWrap ''failed to marshal deploymentConfig: '' err)
                | Inr data \<Rightarrow>
                    (case cl_UnmarshalDeploymentConfig L data of
                       Inl err \<Rightarrow> Inl (ErrWrap ''failed to unmarshal deploymentConfig: '' err)
                     | Inr dc \<Rightarrow> Inr (Some dc)))))"

section \<open>What the schema library promises\<close>

text \<open>
  The meaning of the keywords of JSON Schema that a bundle's schema uses at its top level and for the watched namespace; a keyword not
  listed does not constrain here.
\<close>

definition json_type :: "json \<Rightarrow> string" where
  "json_type v = (case v of JNull \<Rightarrow> ''null'' | JBool _ \<Rightarrow> ''boolean'' | JInt _ \<Rightarrow> ''number'' | JFloat _ \<Rightarrow> ''number'' | JStr _ \<Rightarrow> ''string'' | JArr _ \<Rightarrow> ''array'' | JObj _ \<Rightarrow> ''object'')"

definition as_fields :: "json \<Rightarrow> (string \<times> json) list" where
  "as_fields v = (case v of JObj members \<Rightarrow> members | _ \<Rightarrow> [])"

fun conforms :: "formats \<Rightarrow> json \<Rightarrow> json \<Rightarrow> bool" where
  "conforms F (JObj keywords) v =
     ((case map_of keywords ''type'' of Some (JStr t) \<Rightarrow> json_type v = t | _ \<Rightarrow> True)
      \<and> (case map_of keywords ''minLength'' of Some (JInt n) \<Rightarrow> (case v of JStr s \<Rightarrow> n \<le> int (length s) | _ \<Rightarrow> True) | _ \<Rightarrow> True)
      \<and> (case map_of keywords ''format'' of Some (JStr f) \<Rightarrow> (case map_of F f of Some check \<Rightarrow> check v = None | None \<Rightarrow> True) | _ \<Rightarrow> True)
      \<and> (case v of JObj members \<Rightarrow>
            (case map_of keywords ''required'' of Some (JArr names) \<Rightarrow> list_all (\<lambda>x. case x of JStr n \<Rightarrow> map_of members n \<noteq> None | _ \<Rightarrow> True) names | _ \<Rightarrow> True)
            \<and> (map_of keywords ''additionalProperties'' = Some (JBool False) \<longrightarrow>
                fst ` set members \<subseteq> fst ` set (case map_of keywords ''properties'' of Some p \<Rightarrow> as_fields p | None \<Rightarrow> []))
          | _ \<Rightarrow> True)
      \<and> list_all (\<lambda>(k, sub).
            (k = ''properties'' \<longrightarrow> (case sub of JObj props \<Rightarrow> list_all (\<lambda>(n, p). case map_of (as_fields v) n of Some x \<Rightarrow> conforms F p x | None \<Rightarrow> True) props | _ \<Rightarrow> True))
            \<and> (k = ''anyOf'' \<longrightarrow> (case sub of JArr subs \<Rightarrow> list_ex (\<lambda>p. conforms F p v) subs | _ \<Rightarrow> True))) keywords)"
| "conforms F (JBool b) v = b"
| "conforms F s v = True"

text \<open>Acceptance by the library implies conformance, and the two decoders agree on a document.\<close>

definition config_laws :: "config_libs \<Rightarrow> bool" where
  "config_laws L \<longleftrightarrow>
     (\<forall>F s v. cl_Validate L F s v = None \<longrightarrow> conforms F (JObj s) v)
     \<and> (\<forall>b v c. cl_Unmarshal L b = Inr v \<longrightarrow> cl_UnmarshalMap L b = Inr c \<longrightarrow> v = (case c of Some m \<Rightarrow> JObj m | None \<Rightarrow> JNull))"

text \<open>What holds of the embedded schema \<^verbatim>\<open>registryv1bundleconfig.json\<close> at its top level.\<close>

definition base_schema_ok :: "schema \<Rightarrow> bool" where
  "base_schema_ok s \<longleftrightarrow> map_of s ''type'' = Some (JStr ''object'') \<and> map_of s ''additionalProperties'' = Some (JBool False) \<and> map_of s ''required'' = None
     \<and> (\<exists>ps. map_of s ''properties'' = Some (JObj ps))"

definition watch_ok :: "install_mode list \<Rightarrow> string \<Rightarrow> string option \<Rightarrow> bool" where
  "watch_ok modes ns w \<longleftrightarrow>
     (case w of
        None \<Rightarrow> \<not> isWatchNamespaceConfigRequired modes
      | Some n \<Rightarrow> isWatchNamespaceConfigurable modes \<and> n \<noteq> []
          \<and> (supports modes InstallModeTypeOwnNamespace \<and> \<not> supports modes InstallModeTypeSingleNamespace \<longrightarrow> n = ns)
          \<and> (supports modes InstallModeTypeSingleNamespace \<and> \<not> supports modes InstallModeTypeOwnNamespace \<longrightarrow> n \<noteq> ns))"

definition schema_for :: "install_mode list \<Rightarrow> schema \<Rightarrow> bool" where
  "schema_for modes s \<longleftrightarrow> map_of s ''type'' = Some (JStr ''object'') \<and> map_of s ''additionalProperties'' = Some (JBool False)
     \<and> (\<exists>ps. map_of s ''properties'' = Some (JObj ps)
          \<and> map_of ps watchNamespaceConfigKey = (if isWatchNamespaceConfigurable modes then Some (fst (buildWatchNamespaceProperty modes)) else None))
     \<and> (isWatchNamespaceConfigRequired modes \<longrightarrow> map_of s ''required'' = Some (JArr [JStr watchNamespaceConfigKey]))"

lemma map_of_delete [simp]: "map_of (map_delete k m) l = (if l = k then None else map_of m l)"
  by (induction m) (auto simp: map_delete_def)

lemma required_iff: "snd (buildWatchNamespaceProperty modes) = isWatchNamespaceConfigRequired modes"
  by (simp add: buildWatchNamespaceProperty_def Let_def)

lemma buildBundleConfigSchema_for:
  assumes "buildBundleConfigSchema (Inr base) modes = Inr s" and "base_schema_ok base"
  shows "schema_for modes s"
proof -
  obtain ps where base: "map_of base ''type'' = Some (JStr ''object'')" "map_of base ''additionalProperties'' = Some (JBool False)"
    "map_of base ''required'' = None" "map_of base ''properties'' = Some (JObj ps)"
    using assms(2) by (auto simp: base_schema_ok_def)
  note s = assms(1) [unfolded buildBundleConfigSchema_def sum.case base(4) option.case json.case]
  show ?thesis
  proof (cases "isWatchNamespaceConfigurable modes")
    case True
    obtain w r where w: "buildWatchNamespaceProperty modes = (w, r)" by fastforce
    then have r: "r = isWatchNamespaceConfigRequired modes" using required_iff [of modes] by simp
    show ?thesis
      using s True unfolding schema_for_def w r prod.case Let_def
      by (cases "isWatchNamespaceConfigRequired modes") (auto simp: addToRequired_def removeFromRequired_def base)
  next
    case False
    then have "\<not> isWatchNamespaceConfigRequired modes" by (simp add: isWatchNamespaceConfigRequired_def)
    with s False show ?thesis unfolding schema_for_def by (auto simp: removeFromRequired_def base)
  qed
qed

definition namespace_schema :: "string \<Rightarrow> schema" where
  "namespace_schema format =
     [(''type'', JStr ''string''), (''minLength'', JInt 1), (''maxLength'', JInt 63), (''pattern'', JStr namespaceNamePattern)]
     @ (if format \<noteq> [] then [(''format'', JStr format)] else [])"

lemma namespace_schema_keywords:
  assumes "rest = [] \<or> rest = [(''description'', d)]"
  shows "map_of (namespace_schema f @ rest) ''type'' = Some (JStr ''string'')" "map_of (namespace_schema f @ rest) ''minLength'' = Some (JInt 1)"
    "map_of (namespace_schema f @ rest) ''format'' = (if f \<noteq> [] then Some (JStr f) else None)"
  using assms by (auto simp: namespace_schema_def)

lemma conforms_namespace:
  assumes "conforms (config_formats ns) (JObj (namespace_schema f @ rest)) x" and "rest = [] \<or> rest = [(''description'', d)]" and "ns \<noteq> []"
  shows "\<exists>n. x = JStr n \<and> n \<noteq> [] \<and> (f = FormatOwnNamespaceInstallMode \<longrightarrow> n = ns) \<and> (f = FormatSingleNamespaceInstallMode \<longrightarrow> n \<noteq> ns)"
proof -
  note kw = namespace_schema_keywords [OF assms(2), of f]
  have type: "json_type x = ''string''"
    and len: "case x of JStr s \<Rightarrow> 1 \<le> int (length s) | _ \<Rightarrow> True"
    and fmt: "f \<noteq> [] \<Longrightarrow> (case map_of (config_formats ns) f of Some check \<Rightarrow> check x = None | None \<Rightarrow> True)"
    using assms(1) unfolding conforms.simps kw by simp_all
  obtain n where n: "x = JStr n" using type by (cases x) (simp_all add: json_type_def)
  have "n \<noteq> []" using len unfolding n by (cases n) simp_all
  moreover have "n = ns" if "f = FormatOwnNamespaceInstallMode"
    using fmt that assms(3) unfolding n by (simp add: config_formats_def own_format_def split: if_splits)
  moreover have "n \<noteq> ns" if "f = FormatSingleNamespaceInstallMode"
    using fmt that assms(3) unfolding n by (simp add: config_formats_def single_format_def split: if_splits)
  ultimately show ?thesis using n by blast
qed

lemma buildWatchNamespaceProperty_schema:
  "fst (buildWatchNamespaceProperty modes) =
     (let f = selectNamespaceFormat (supports modes InstallModeTypeOwnNamespace) (supports modes InstallModeTypeSingleNamespace) in
      if isWatchNamespaceConfigRequired modes then JObj (namespace_schema f @ [(''description'', JStr watch_description)])
      else JObj [(''description'', JStr watch_description), (''anyOf'', JArr [JObj [(''type'', JStr ''null'')], JObj (namespace_schema f)])])"
  by (simp add: buildWatchNamespaceProperty_def namespace_schema_def Let_def)

lemma conforms_watch:
  assumes "conforms (config_formats ns) (fst (buildWatchNamespaceProperty modes)) x" and "isWatchNamespaceConfigurable modes" and "ns \<noteq> []"
  shows "x = JNull \<and> \<not> isWatchNamespaceConfigRequired modes \<or> (\<exists>n. x = JStr n \<and> watch_ok modes ns (Some n))"
proof -
  let ?f = "selectNamespaceFormat (supports modes InstallModeTypeOwnNamespace) (supports modes InstallModeTypeSingleNamespace)"
  have named: "\<exists>n. x = JStr n \<and> watch_ok modes ns (Some n)"
    if c: "conforms (config_formats ns) (JObj (namespace_schema ?f @ rest)) x" and rest: "rest = [] \<or> rest = [(''description'', JStr watch_description)]" for rest
  proof -
    obtain n where n: "x = JStr n" "n \<noteq> []" "?f = FormatOwnNamespaceInstallMode \<longrightarrow> n = ns" "?f = FormatSingleNamespaceInstallMode \<longrightarrow> n \<noteq> ns"
      using conforms_namespace [OF c rest assms(3)] by (elim exE conjE)
    have "watch_ok modes ns (Some n)"
      unfolding watch_ok_def option.case
    proof (intro conjI impI assms(2) n(2))
      assume "supports modes InstallModeTypeOwnNamespace \<and> \<not> supports modes InstallModeTypeSingleNamespace"
      then show "n = ns" by (intro n(3) [rule_format]) (simp only: selectNamespaceFormat_def if_True simp_thms)
    next
      assume "supports modes InstallModeTypeSingleNamespace \<and> \<not> supports modes InstallModeTypeOwnNamespace"
      then show "n \<noteq> ns" by (intro n(4) [rule_format]) (simp only: selectNamespaceFormat_def if_True if_False simp_thms)
    qed
    with n(1) show ?thesis by (intro exI conjI)
  qed
  show ?thesis
  proof (cases "isWatchNamespaceConfigRequired modes")
    case True
    then show ?thesis
      using assms(1) named [of "[(''description'', JStr watch_description)]"] unfolding buildWatchNamespaceProperty_schema Let_def by simp
  next
    case False
    have "conforms (config_formats ns) (JObj [(''type'', JStr ''null'')]) x \<or> conforms (config_formats ns) (JObj (namespace_schema ?f @ [])) x"
      using assms(1) False unfolding buildWatchNamespaceProperty_schema Let_def by (simp add: Let_def)
    moreover have "x = JNull" if "conforms (config_formats ns) (JObj [(''type'', JStr ''null'')]) x"
      using that by (cases x) (simp_all add: json_type_def)
    ultimately show ?thesis using named [of "[]"] False by blast
  qed
qed

lemma UnmarshalConfig_Inr:
  assumes "UnmarshalConfig L bytes (Some s) ns = Inr cfg"
  obtains data v where "cl_Unmarshal L data = Inr v" "cl_Validate L (config_formats ns) s v = None" "cl_UnmarshalMap L data = Inr cfg"
proof -
  define data where "data = (case bytes of None \<Rightarrow> ''{}'' | Some b \<Rightarrow> b)"
  note run = assms [unfolded UnmarshalConfig_def Let_def option.case, folded data_def]
  have valid: "validateConfigWithSchema L data s ns = None" by (rule ccontr) (use run in \<open>simp split: option.splits\<close>)
  have parsed: "cl_UnmarshalMap L data = Inr cfg" using run unfolding valid by (cases "cl_UnmarshalMap L data") simp_all
  obtain v where v: "cl_Unmarshal L data = Inr v" using valid unfolding validateConfigWithSchema_def by (cases "cl_Unmarshal L data") simp_all
  have "cl_Validate L (config_formats ns) s v = None"
    using valid unfolding validateConfigWithSchema_def v sum.case
    by (cases "cl_AddResource L s"; cases "cl_Compile L (config_formats ns) s") simp_all
  with v parsed show thesis by (intro that)
qed

lemma conforms_object:
  assumes "conforms F (JObj s) v" and "map_of s ''type'' = Some (JStr ''object'')" and "map_of s ''additionalProperties'' = Some (JBool False)"
    and "map_of s ''properties'' = Some (JObj ps)"
  shows "\<exists>m. v = JObj m \<and> (\<forall>k x. map_of m k = Some x \<longrightarrow> map_of ps k \<noteq> None)
    \<and> (\<forall>k p x. map_of ps k = Some p \<longrightarrow> map_of m k = Some x \<longrightarrow> conforms F p x)
    \<and> (\<forall>k. map_of s ''required'' = Some (JArr [JStr k]) \<longrightarrow> map_of m k \<noteq> None)"
proof -
  have "json_type v = ''object''" using assms(1) unfolding conforms.simps assms(2) by simp
  then obtain m where m: "v = JObj m" by (cases v) (simp_all add: json_type_def)
  have keys: "fst ` set m \<subseteq> fst ` set ps"
    using assms(1) unfolding conforms.simps m json.case assms(3,4) option.case as_fields_def by blast
  have "(''properties'', JObj ps) \<in> set s" using assms(4) by (rule map_of_SomeD)
  then have props: "list_all (\<lambda>(n, p). case map_of m n of Some x \<Rightarrow> conforms F p x | None \<Rightarrow> True) ps"
    using assms(1) unfolding conforms.simps m as_fields_def json.case list_all_iff by fastforce
  show ?thesis
  proof (intro exI [of _ m] conjI allI impI m)
    fix k x assume "map_of m k = Some x"
    then have "k \<in> fst ` set m" by (simp add: domI dom_map_of_conv_image_fst [symmetric])
    with keys show "map_of ps k \<noteq> None" unfolding map_of_eq_None_iff by blast
  next
    fix k p x assume "map_of ps k = Some p" "map_of m k = Some x"
    then show "conforms F p x" using props map_of_SomeD [of ps k p] by (fastforce simp: list_all_iff)
  next
    fix k assume "map_of s ''required'' = Some (JArr [JStr k])"
    then show "map_of m k \<noteq> None" using assms(1) unfolding conforms.simps m by simp
  qed
qed

lemma accepted_watch:
  assumes "config_laws L" and "UnmarshalConfig L bytes (Some s) ns = Inr cfg" and "schema_for modes s" and "ns \<noteq> []"
  shows "watch_ok modes ns (GetWatchNamespace cfg)"
proof -
  obtain data v where run: "cl_Unmarshal L data = Inr v" "cl_Validate L (config_formats ns) s v = None" "cl_UnmarshalMap L data = Inr cfg"
    by (rule UnmarshalConfig_Inr [OF assms(2)])
  have conf: "conforms (config_formats ns) (JObj s) v" and v: "v = (case cfg of Some m \<Rightarrow> JObj m | None \<Rightarrow> JNull)"
    using assms(1) run unfolding config_laws_def by blast+
  obtain ps where s: "map_of s ''type'' = Some (JStr ''object'')" "map_of s ''additionalProperties'' = Some (JBool False)" "map_of s ''properties'' = Some (JObj ps)"
    and w: "map_of ps watchNamespaceConfigKey = (if isWatchNamespaceConfigurable modes then Some (fst (buildWatchNamespaceProperty modes)) else None)"
    and r: "isWatchNamespaceConfigRequired modes \<longrightarrow> map_of s ''required'' = Some (JArr [JStr watchNamespaceConfigKey])"
    using assms(3) unfolding schema_for_def by blast
  obtain m where m: "v = JObj m" "\<forall>k x. map_of m k = Some x \<longrightarrow> map_of ps k \<noteq> None"
    "\<forall>k p x. map_of ps k = Some p \<longrightarrow> map_of m k = Some x \<longrightarrow> conforms (config_formats ns) p x"
    "\<forall>k. map_of s ''required'' = Some (JArr [JStr k]) \<longrightarrow> map_of m k \<noteq> None"
    using conforms_object [OF conf s] by (elim exE conjE)
  have cfg: "cfg = Some m" using v m(1) by (cases cfg) simp_all
  show ?thesis
  proof (cases "map_of m watchNamespaceConfigKey")
    case None
    then show ?thesis using m(4) r unfolding cfg GetWatchNamespace_def watch_ok_def by (simp only: option.case) blast
  next
    case (Some x)
    then have configurable: "isWatchNamespaceConfigurable modes" using m(2) [rule_format, OF Some] unfolding w by presburger
    from conforms_watch [OF m(3) [rule_format, OF _ Some] configurable assms(4)] configurable w
    have "x = JNull \<and> \<not> isWatchNamespaceConfigRequired modes \<or> (\<exists>n. x = JStr n \<and> watch_ok modes ns (Some n))" by presburger
    then show ?thesis
      unfolding cfg GetWatchNamespace_def option.case Some by (auto simp: watch_ok_def)
  qed
qed

end
