(* ===== verification/ManifestProvider.thy ===== *)
theory ManifestProvider
  imports BundleSource BundleConfig SecretPacker
begin

text \<open>
  The providers of manifests and Helm charts for registry+v1 bundles (\<^verbatim>\<open>applier/provider.go\<close>): loading, feature gates, configuration and
  rendering together.
\<close>

section \<open>Manifests\<close>

record manifest_provider =
  mp_BundleRenderer :: bundle_renderer
  mp_CertificateProvider :: "certificate_provider option"
  mp_IsWebhookSupportEnabled :: bool
  mp_IsSingleOwnNamespaceEnabled :: bool
  mp_IsDeploymentConfigEnabled :: bool

record 'fs provider_libs =
  pl_Source :: "'fs source_libs"
  pl_Config :: config_libs
  pl_Hash :: "permission hash_libs"
  pl_EmbeddedSchema :: "schema res"
  pl_MarshalObject :: "client_object \<Rightarrow> string res"
  pl_Sum256 :: "string \<Rightarrow> string"

definition extensionConfigBytes :: "cluster_extension \<Rightarrow> string option" where
  "extensionConfigBytes ext =
     (case spec_Config (ce_Spec ext) of
        Some cfg \<Rightarrow> if cfg_ConfigType cfg = ''Inline'' then cfg_Inline cfg else None
      | None \<Rightarrow> None)"

definition without_deployment_config :: "schema \<Rightarrow> schema" where
  "without_deployment_config s =
     (case map_of s ''properties'' of
        Some (JObj props) \<Rightarrow> map_put ''properties'' (JObj (map_delete ''deploymentConfig'' props)) s
      | _ \<Rightarrow> s)"

definition invalid_configuration :: "string \<Rightarrow> goerr \<Rightarrow> goerr" where
  "invalid_configuration what err = NewTerminalError ReasonInvalidConfiguration (ErrWrap what err)"

definition extractBundleConfigOptions ::
  "'fs provider_libs \<Rightarrow> manifest_provider \<Rightarrow> registry_v1 \<Rightarrow> cluster_extension \<Rightarrow> render_option option list res" where
  "extractBundleConfigOptions P r rv1 ext =
     (case GetConfigSchema (pl_EmbeddedSchema P) rv1 of
        Inl err \<Rightarrow> Inl (ErrWrap ''error getting configuration schema: '' err)
      | Inr s0 \<Rightarrow>
          (let s = (if \<not> mp_IsDeploymentConfigEnabled r then without_deployment_config s0 else s0)
           in case UnmarshalConfig (pl_Config P) (extensionConfigBytes ext) (Some s) (spec_Namespace (ce_Spec ext)) of
                Inl err \<Rightarrow> Inl (invalid_configuration ''invalid ClusterExtension configuration: '' err)
              | Inr bundleConfig \<Rightarrow>
                  (let opts = (case GetWatchNamespace bundleConfig of Some watchNS \<Rightarrow> [Some (WithTargetNamespaces [watchNS])] | None \<Rightarrow> [])
                   in if mp_IsDeploymentConfigEnabled r then
                        (case GetDeploymentConfig (pl_Config P) bundleConfig of
                           Inl err \<Rightarrow> Inl (invalid_configuration ''invalid deploymentConfig: '' err)
                         | Inr None \<Rightarrow> Inr opts
                         | Inr (Some dc) \<Rightarrow> Inr (opts @ [Some (WithDeploymentConfig (Some dc))]))
                      else Inr opts)))"

definition unsupported_bundle :: "manifest_provider \<Rightarrow> registry_v1 \<Rightarrow> string option" where
  "unsupported_bundle r rv1 =
     (let csv = rv1_CSV rv1; modes = csv_InstallModes csv in
      if length (csv_OwnedAPIServices csv) > 0 then Some ''unsupported bundle: apiServiceDefintions are not supported''
      else if length (csv_WebhookDefinitions csv) > 0 \<and> \<not> mp_IsWebhookSupportEnabled r
        then Some ''unsupported bundle: webhookDefinitions are not supported''
      else if length (csv_WebhookDefinitions csv) > 0 \<and> mp_CertificateProvider r = None
        then Some ''unsupported bundle: webhookDefinitions are not supported: certificate provider is nil''
      else if \<not> mp_IsSingleOwnNamespaceEnabled r \<and> \<not> supports modes InstallModeTypeAllNamespaces
        then Some ''unsupported bundle: bundle does not support AllNamespaces install mode''
      else if \<not> supports modes InstallModeTypeAllNamespaces \<and> \<not> supports modes InstallModeTypeSingleNamespace \<and> \<not> supports modes InstallModeTypeOwnNamespace
        then Some ''unsupported bundle: bundle must support at least one of [AllNamespaces SingleNamespace OwnNamespace] install modes''
      else None)"

definition ManifestProvider_Get :: "'fs provider_libs \<Rightarrow> manifest_provider \<Rightarrow> 'fs \<Rightarrow> cluster_extension \<Rightarrow> client_object list res" where
  "ManifestProvider_Get P r bundleFS ext =
     (case GetBundle (pl_Source P) bundleFS of
        Inl err \<Rightarrow> Inl err
      | Inr rv1 \<Rightarrow>
          (case unsupported_bundle r rv1 of
             Some text \<Rightarrow> Inl (ErrText text)
           | None \<Rightarrow>
               (case (if mp_IsSingleOwnNamespaceEnabled r \<or> spec_Config (ce_Spec ext) \<noteq> None
                      then extractBundleConfigOptions P r rv1 ext else Inr []) of
                  Inl err \<Rightarrow> Inl err
                | Inr configOpts \<Rightarrow>
                    Render (pl_Hash P) (mp_BundleRenderer r) rv1 (spec_Namespace (ce_Spec ext))
                      (Some (WithCertificateProvider (mp_CertificateProvider r)) # configOpts))))"

section \<open>Helm charts\<close>

record provided_chart =
  pch_Annotations :: labels
  pch_Files :: "(string \<times> string) list"
  pch_Templates :: "(string \<times> string) list"

fun add_objects :: "'fs provider_libs \<Rightarrow> client_object list \<Rightarrow> provided_chart \<Rightarrow> provided_chart res" where
  "add_objects P [] chrt = Inr chrt"
| "add_objects P (obj # objs) chrt =
     (case pl_MarshalObject P obj of
        Inl err \<Rightarrow> Inl err
      | Inr jsonData \<Rightarrow>
          (let name = ''object-'' @ hex_string (take 8 (pl_Sum256 P jsonData)) @ ''.json''
           in add_objects P objs (chrt\<lparr>pch_Files := pch_Files chrt @ [(name, jsonData)],
                pch_Templates := pch_Templates chrt @ [(name, ''{{.Files.Get '' @ [char_of (34::nat)] @ name @ [char_of (34::nat)] @ ''}}'')]\<rparr>)))"

definition HelmChartProvider_Get ::
  "'fs provider_libs \<Rightarrow> ('fs \<Rightarrow> cluster_extension \<Rightarrow> client_object list res) \<Rightarrow> 'fs \<Rightarrow> cluster_extension \<Rightarrow> provided_chart res" where
  "HelmChartProvider_Get P provider bundleFS ext =
     (case provider bundleFS ext of
        Inl err \<Rightarrow> Inl err
      | Inr objs \<Rightarrow>
          (case GetBundle (pl_Source P) bundleFS of
             Inl err \<Rightarrow> Inl err
           | Inr rv1 \<Rightarrow> add_objects P objs \<lparr>pch_Annotations = csv_Annotations (rv1_CSV rv1), pch_Files = [], pch_Templates = []\<rparr>))"

definition bundle_annotations :: "'fs provider_libs \<Rightarrow> 'fs \<Rightarrow> labels res" where
  "bundle_annotations P bundleFS = (case GetBundle (pl_Source P) bundleFS of Inl err \<Rightarrow> Inl err | Inr rv1 \<Rightarrow> Inr (csv_Annotations (rv1_CSV rv1)))"

section \<open>Configurations that are accepted\<close>

lemma supported_modes_iff: "t \<in> set (supportedBundleInstallModes rv1) \<longleftrightarrow> supports (csv_InstallModes (rv1_CSV rv1)) t"
proof -
  have "t \<in> set (supportedBundleInstallModes rv1) \<longleftrightarrow> (\<exists>im \<in> set (csv_InstallModes (rv1_CSV rv1)). im_Supported im \<and> im_Type im = t)"
    by (auto simp: supportedBundleInstallModes_def)
  also have "\<dots> \<longleftrightarrow> supports (csv_InstallModes (rv1_CSV rv1)) t"
  proof
    assume "\<exists>im \<in> set (csv_InstallModes (rv1_CSV rv1)). im_Supported im \<and> im_Type im = t"
    then obtain im where "im \<in> set (csv_InstallModes (rv1_CSV rv1))" "im_Supported im" "im_Type im = t" by blast
    moreover from this have "im = \<lparr>im_Type = t, im_Supported = True\<rparr>" by simp
    ultimately show "supports (csv_InstallModes (rv1_CSV rv1)) t" by simp
  qed force
  finally show ?thesis .
qed

lemma schema_for_without: "schema_for modes s \<Longrightarrow> schema_for modes (without_deployment_config s)"
  unfolding schema_for_def without_deployment_config_def by auto

definition watch_options :: "string option \<Rightarrow> render_option option list" where
  "watch_options w = (case w of Some watchNS \<Rightarrow> [Some (WithTargetNamespaces [watchNS])] | None \<Rightarrow> [])"

lemma extract_Inr:
  assumes "extractBundleConfigOptions P r rv1 ext = Inr opts" and "pl_EmbeddedSchema P = Inr base" and "base_schema_ok base"
    and "config_laws (pl_Config P)" and "spec_Namespace (ce_Spec ext) \<noteq> []"
  obtains w dc where "watch_ok (csv_InstallModes (rv1_CSV rv1)) (spec_Namespace (ce_Spec ext)) w"
    and "opts = watch_options w @ dc" and "dc = [] \<or> (\<exists>d. dc = [Some (WithDeploymentConfig (Some d))])"
proof -
  let ?ns = "spec_Namespace (ce_Spec ext)" and ?modes = "csv_InstallModes (rv1_CSV rv1)"
  obtain s0 where s0: "GetConfigSchema (pl_EmbeddedSchema P) rv1 = Inr s0"
    using assms(1) unfolding extractBundleConfigOptions_def by (cases "GetConfigSchema (pl_EmbeddedSchema P) rv1") simp_all
  define s where "s = (if \<not> mp_IsDeploymentConfigEnabled r then without_deployment_config s0 else s0)"
  have "schema_for ?modes s0"
    using s0 buildBundleConfigSchema_for [OF _ assms(3)] by (simp add: GetConfigSchema_def getBundleConfigSchemaMap_def assms(2))
  then have s: "schema_for ?modes s" by (simp add: s_def schema_for_without)
  note run = assms(1) [unfolded extractBundleConfigOptions_def s0 sum.case Let_def, folded s_def]
  obtain cfg where cfg: "UnmarshalConfig (pl_Config P) (extensionConfigBytes ext) (Some s) ?ns = Inr cfg"
    using run by (cases "UnmarshalConfig (pl_Config P) (extensionConfigBytes ext) (Some s) ?ns") simp_all
  have w: "watch_ok ?modes ?ns (GetWatchNamespace cfg)" by (rule accepted_watch [OF assms(4) cfg s assms(5)])
  note run = run [unfolded cfg sum.case, folded watch_options_def]
  show thesis
  proof (cases "mp_IsDeploymentConfigEnabled r")
    case False
    with run show ?thesis by (intro that [OF w, of "[]"]) simp_all
  next
    case True
    then obtain odc where "GetDeploymentConfig (pl_Config P) cfg = Inr odc"
      using run by (cases "GetDeploymentConfig (pl_Config P) cfg") simp_all
    with run True have "opts = watch_options (GetWatchNamespace cfg) @ (case odc of None \<Rightarrow> [] | Some d \<Rightarrow> [Some (WithDeploymentConfig (Some d))])"
      by (cases odc) simp_all
    then show ?thesis by (rule that [OF w]) (cases odc; auto)
  qed
qed

lemma watch_targets_ok:
  assumes "watch_ok (csv_InstallModes (rv1_CSV rv1)) ns w" and "unsupported_bundle r rv1 = None"
  shows "targets_ok (set (supportedBundleInstallModes rv1)) ns (set (case w of Some n \<Rightarrow> [n] | None \<Rightarrow> defaultTargetNamespacesForBundle rv1))"
proof -
  have any: "supports (csv_InstallModes (rv1_CSV rv1)) InstallModeTypeAllNamespaces \<or> isWatchNamespaceConfigurable (csv_InstallModes (rv1_CSV rv1))"
    using assms(2) unfolding unsupported_bundle_def isWatchNamespaceConfigurable_def Let_def by (auto split: if_splits)
  show ?thesis
  proof (cases w)
    case None
    then have "supports (csv_InstallModes (rv1_CSV rv1)) InstallModeTypeAllNamespaces"
      using assms(1) any unfolding watch_ok_def isWatchNamespaceConfigRequired_def by (simp only: option.case) blast
    then show ?thesis unfolding None targets_ok_def defaultTargetNamespacesForBundle_def supported_modes_iff by simp
  next
    case (Some n)
    then show ?thesis
      using assms(1) unfolding Some targets_ok_def supported_modes_iff watch_ok_def isWatchNamespaceConfigurable_def by auto
  qed
qed

lemma applied_options:
  assumes "dc = [] \<or> (\<exists>d. dc = [Some (WithDeploymentConfig (Some d))])"
  shows "ro_TargetNamespaces (apply_options (Some (WithCertificateProvider c) # watch_options w @ dc) o') = (case w of Some n \<Rightarrow> [n] | None \<Rightarrow> ro_TargetNamespaces o')"
    and "ro_InstallNamespace (apply_options (Some (WithCertificateProvider c) # watch_options w @ dc) o') = ro_InstallNamespace o'"
    and "ro_UniqueNameGenerator (apply_options (Some (WithCertificateProvider c) # watch_options w @ dc) o') = ro_UniqueNameGenerator o'"
    and "ro_CertificateProvider (apply_options (Some (WithCertificateProvider c) # watch_options w @ dc) o') = c"
  using assms
  by (auto simp: apply_options_def watch_options_def WithCertificateProvider_def WithTargetNamespaces_def WithDeploymentConfig_def split: option.splits)

text \<open>What is accepted of a bundle apart from its target namespaces.\<close>

definition installable :: "render_libs \<Rightarrow> registry_v1 \<Rightarrow> bool" where
  "installable R rv1 \<longleftrightarrow>
     valid_bundle (rl_Validator R) rv1
     \<and> (\<forall>crd \<in> set (rv1_CRDs rv1). crd_Name crd \<in> (\<Union>wh \<in> set (conversion_webhooks rv1). set (wh_ConversionCRDs wh)) \<longrightarrow> \<not> crd_PreserveUnknownFields crd)"

lemma provided_renders:
  assumes "go_sorter (vl_SortFunc (rl_Validator R))" and "hash_laws (pl_Hash P)" and "\<forall>p. mp_CertificateProvider r = Some p \<longrightarrow> provider_ok p"
    and "watch_ok (csv_InstallModes (rv1_CSV rv1)) ns w" and "unsupported_bundle r rv1 = None" and "dc = [] \<or> (\<exists>d. dc = [Some (WithDeploymentConfig (Some d))])"
  shows "(\<exists>objs. Render (pl_Hash P) (Renderer R) rv1 ns (Some (WithCertificateProvider (mp_CertificateProvider r)) # watch_options w @ dc) = Inr objs) \<longleftrightarrow> installable R rv1"
proof -
  let ?opts = "Some (WithCertificateProvider (mp_CertificateProvider r)) # watch_options w @ dc"
  let ?o = "apply_options ?opts (default_options (pl_Hash P) rv1 ns)"
  note applied = applied_options [OF assms(6)]
  have "names_total ?o"
    using DefaultUniqueNameGenerator_total [OF assms(2)] unfolding names_total_def applied by (simp add: default_options_def)
  moreover have "providers_ok ?o" using assms(3) unfolding providers_ok_def applied .
  moreover have "targets_ok (set (supportedBundleInstallModes rv1)) (ro_InstallNamespace ?o) (set (ro_TargetNamespaces ?o))"
    using watch_targets_ok [OF assms(4,5)] unfolding applied by (simp add: default_options_def split: option.splits)
  ultimately show ?thesis
    using Render_accepts [OF assms(1), of ?opts "pl_Hash P" rv1 ns] unfolding renderable_def installable_def by blast
qed


text \<open>
  With the gate for single and own namespaces off, a bundle that also supports all namespaces is treated, when a configuration is given, as with the
  gate on: its watched namespace is applied.
\<close>

lemma single_own_gate_without_effect:
  assumes "GetBundle (pl_Source P) bundleFS = Inr rv1" and "supports (csv_InstallModes (rv1_CSV rv1)) InstallModeTypeAllNamespaces"
    and "spec_Config (ce_Spec ext) \<noteq> None"
  shows "ManifestProvider_Get P (r\<lparr>mp_IsSingleOwnNamespaceEnabled := False\<rparr>) bundleFS ext = ManifestProvider_Get P (r\<lparr>mp_IsSingleOwnNamespaceEnabled := True\<rparr>) bundleFS ext"
proof -
  have kept: "mp_IsDeploymentConfigEnabled (r\<lparr>mp_IsSingleOwnNamespaceEnabled := b\<rparr>) = mp_IsDeploymentConfigEnabled r" for b by simp
  have "extractBundleConfigOptions P (r\<lparr>mp_IsSingleOwnNamespaceEnabled := False\<rparr>) rv1 ext = extractBundleConfigOptions P (r\<lparr>mp_IsSingleOwnNamespaceEnabled := True\<rparr>) rv1 ext"
    unfolding extractBundleConfigOptions_def kept ..
  moreover have "unsupported_bundle (r\<lparr>mp_IsSingleOwnNamespaceEnabled := False\<rparr>) rv1 = unsupported_bundle (r\<lparr>mp_IsSingleOwnNamespaceEnabled := True\<rparr>) rv1"
    using assms(2) by (simp add: unsupported_bundle_def Let_def)
  ultimately show ?thesis
    using assms(3) unfolding ManifestProvider_Get_def assms(1) sum.case by (simp split: option.split sum.split)
qed

section \<open>Charts\<close>

text \<open>
  Reading the file each template of a chart names gives the encoded objects, in order, when the names of files with different content differ.
\<close>

definition file_name :: "'fs provider_libs \<Rightarrow> string \<Rightarrow> string" where
  "file_name P jsonData = ''object-'' @ hex_string (take 8 (pl_Sum256 P jsonData)) @ ''.json''"

lemma add_objects_files:
  "add_objects P objs chrt = Inr c \<Longrightarrow> \<exists>datas. all_ok (map (pl_MarshalObject P) objs) = Inr datas
     \<and> pch_Files c = pch_Files chrt @ map (\<lambda>d. (file_name P d, d)) datas \<and> map fst (pch_Templates c) = map fst (pch_Templates chrt) @ map (file_name P) datas"
proof (induction P objs chrt rule: add_objects.induct)
  case (2 P obj objs chrt)
  then obtain d where d: "pl_MarshalObject P obj = Inr d" by (auto split: sum.splits)
  from 2(1) [OF d refl] 2(2) obtain ds where "all_ok (map (pl_MarshalObject P) objs) = Inr ds"
    "pch_Files c = pch_Files chrt @ (file_name P d, d) # map (\<lambda>d. (file_name P d, d)) ds"
    "map fst (pch_Templates c) = map fst (pch_Templates chrt) @ file_name P d # map (file_name P) ds"
    by (auto simp: d Let_def file_name_def)
  then show ?case using d by (intro exI [of _ "d # ds"]) simp
qed simp

lemma chart_renders_objects:
  assumes "HelmChartProvider_Get P provider bundleFS ext = Inr c" and "provider bundleFS ext = Inr objs"
    and "all_ok (map (pl_MarshalObject P) objs) = Inr datas" and "inj_on (file_name P) (set datas)"
  shows "map (\<lambda>t. map_of (pch_Files c) (fst t)) (pch_Templates c) = map Some datas"
proof -
  obtain rv1 :: registry_v1 where "add_objects P objs \<lparr>pch_Annotations = csv_Annotations (rv1_CSV rv1), pch_Files = [], pch_Templates = []\<rparr> = Inr c"
    using assms(1,2) unfolding HelmChartProvider_Get_def by (auto split: sum.splits)
  from add_objects_files [OF this] assms(3)
  have files: "pch_Files c = map (\<lambda>d. (file_name P d, d)) datas" "map fst (pch_Templates c) = map (file_name P) datas" by auto
  have "map_of (map (\<lambda>d. (file_name P d, d)) ds) (file_name P d) = Some d" if "d \<in> set ds" "inj_on (file_name P) (set ds)" for ds d
    using that by (induction ds) (auto simp: inj_on_def)
  then have "map (map_of (pch_Files c)) (map fst (pch_Templates c)) = map Some datas"
    unfolding files using assms(4) by simp
  then show ?thesis by (simp add: comp_def)
qed

section \<open>Witness\<close>

definition ex_provider_source :: "unit source_libs" where
  "ex_provider_source = ex_bundle_source\<lparr>so_ReadFile := (\<lambda>_ _. Inr []), so_CSV := (\<lambda>_. Inr (rv1_CSV ex_rbundle)),
     so_Stream := (\<lambda>_ _. \<lparr>vr_Err = None, vr_Infos = [(ex_manifest ''ClusterServiceVersion'' ''op.v1'', None)], vr_Tail = None\<rparr>)\<rparr>"

definition ex_config_libs :: config_libs where
  "ex_config_libs = \<lparr>cl_Unmarshal = (\<lambda>_. Inr (JObj [])), cl_UnmarshalMap = (\<lambda>_. Inr (Some [])), cl_AddResource = (\<lambda>_. None), cl_Compile = (\<lambda>_ _. None),
     cl_Validate = (\<lambda>F s v. if conforms F (JObj s) v then None else Some (OtherFailure (ErrText ''invalid''))), cl_Marshal = (\<lambda>_. Inr []),
     cl_UnmarshalDeploymentConfig = (\<lambda>_. Inl (ErrText ''none''))\<rparr>"

definition ex_base_schema :: schema where
  "ex_base_schema = [(''type'', JStr ''object''),
     (''properties'', JObj [(''deploymentConfig'', JObj [(''type'', JStr ''object'')]),
        (''watchNamespace'', JObj [(''anyOf'', JArr [JObj [(''type'', JStr ''null'')], JObj [(''type'', JStr ''string'')]])])]),
     (''additionalProperties'', JBool False)]"

definition ex_provider_libs :: "unit provider_libs" where
  "ex_provider_libs = \<lparr>pl_Source = ex_provider_source, pl_Config = ex_config_libs, pl_Hash = ex_hash, pl_EmbeddedSchema = Inr ex_base_schema,
     pl_MarshalObject = (\<lambda>_. Inr []), pl_Sum256 = (\<lambda>d. d)\<rparr>"

definition ex_provider :: manifest_provider where
  "ex_provider = \<lparr>mp_BundleRenderer = Renderer ex_render_libs, mp_CertificateProvider = Some OpenshiftServiceCaCertificateProvider,
     mp_IsWebhookSupportEnabled = True, mp_IsSingleOwnNamespaceEnabled = True, mp_IsDeploymentConfigEnabled = True\<rparr>"

lemma ex_provided: "GetBundle (pl_Source ex_provider_libs) () = Inr ex_rbundle"
  by (simp add: GetBundle_def ex_provider_libs_def ex_provider_source_def ex_bundle_source_def walk_step_def visit_object_def copyMetadataPropertiesToCSV_def
      csv_properties_def ex_manifest_def ex_rbundle_def ex_rv1_def ex_csv_def Let_def)

lemma ex_provided_supported: "unsupported_bundle ex_provider ex_rbundle = None"
  by (simp add: unsupported_bundle_def ex_provider_def ex_rbundle_def ex_rv1_def ex_csv_def)

lemma ex_provided_installable: "installable ex_render_libs ex_rbundle"
  using ex_renderable by (simp add: renderable_def installable_def)

lemma ex_provided_schema:
  "GetConfigSchema (pl_EmbeddedSchema ex_provider_libs) ex_rbundle =
     Inr [(''type'', JStr ''object''), (''properties'', JObj [(''deploymentConfig'', JObj [(''type'', JStr ''object'')])]), (''additionalProperties'', JBool False)]"
  by (simp add: GetConfigSchema_def getBundleConfigSchemaMap_def buildBundleConfigSchema_def isWatchNamespaceConfigurable_def removeFromRequired_def
      ex_provider_libs_def ex_rbundle_def ex_rv1_def ex_csv_def ex_base_schema_def map_delete_def)

lemma ex_provided_config: "\<exists>opts. extractBundleConfigOptions ex_provider_libs ex_provider ex_rbundle ex_extension = Inr opts"
proof -
  have "mp_IsDeploymentConfigEnabled ex_provider" by (simp add: ex_provider_def)
  moreover have "UnmarshalConfig (pl_Config ex_provider_libs) (extensionConfigBytes ex_extension) (Some
      [(''type'', JStr ''object''), (''properties'', JObj [(''deploymentConfig'', JObj [(''type'', JStr ''object'')])]), (''additionalProperties'', JBool False)])
      (spec_Namespace (ce_Spec ex_extension)) = Inr (Some [])"
    by (simp add: UnmarshalConfig_def validateConfigWithSchema_def ex_provider_libs_def ex_config_libs_def json_type_def as_fields_def)
  ultimately show ?thesis
    unfolding extractBundleConfigOptions_def ex_provided_schema sum.case by (simp add: GetWatchNamespace_def GetDeploymentConfig_def)
qed


end
