(* ===== verification/FileSystem.thy ===== *)
theory FileSystem
  imports HttpPreconditions
begin

text \<open>
  A file system as the packages \<^verbatim>\<open>os\<close> and \<^verbatim>\<open>path/filepath\<close> show it, and the helpers of
  \<^verbatim>\<open>internal/shared/util/fs/fs.go\<close> on it.  A cleaned absolute path is the list of its components.  Every call may fail as
  an argument says; a removal that fails may have removed any part of the tree, and a directory can be read
  when a node below it is there.  The modification time of a node is that of its
  creation, or what an unpacking library gives it.
\<close>

section \<open>Paths\<close>

type_synonym path = "string list"

definition within :: "path \<Rightarrow> path \<Rightarrow> bool" where
  "within p q \<longleftrightarrow> take (length p) q = p"

definition clean_step :: "path \<Rightarrow> string \<Rightarrow> path" where
  "clean_step acc c = (if c = [] \<or> c = ''.'' then acc else if c = ''..'' then butlast acc else acc @ [c])"

definition filepath_Join :: "path \<Rightarrow> string list \<Rightarrow> path" where
  "filepath_Join base elems = foldl clean_step base (concat (map (split_on (CHR ''/'')) elems))"

section \<open>Nodes\<close>

datatype file_type = ModeDir | ModeRegular string | ModeSymlink string | ModeIrregular

record inode =
  in_Type :: file_type
  in_Mode :: nat
  in_ModTime :: int

type_synonym fsys = "(path \<times> inode) list"

datatype os_call =
    CallReadDir path | CallRemoveAll path | CallMkdirTemp path | CallMkdirAll path | CallWriteFile path | CallRename path path
  | CallStat path | CallInfo path | CallChmod path nat

record os_env =
  oe_Fail :: "os_call \<Rightarrow> goerr option"
  oe_Left :: "path \<Rightarrow> bool"
  oe_Random :: "nat \<Rightarrow> nat"
  oe_Now :: int

definition fs_exists :: "fsys \<Rightarrow> path \<Rightarrow> bool" where
  "fs_exists fs p = list_ex (\<lambda>e. within p (fst e)) fs"

definition file_at :: "fsys \<Rightarrow> path \<Rightarrow> string option" where
  "file_at fs p = (case map_of fs p of Some i \<Rightarrow> (case in_Type i of ModeRegular data \<Rightarrow> Some data | _ \<Rightarrow> None) | None \<Rightarrow> None)"

definition is_dir :: "fsys \<Rightarrow> path \<Rightarrow> bool" where
  "is_dir fs p = (case map_of fs p of Some i \<Rightarrow> in_Type i = ModeDir | None \<Rightarrow> False)"

definition ErrNotDir :: goerr where
  "ErrNotDir = ErrText ''not a directory''"

section \<open>Calls\<close>

definition sys_RemoveAll :: "os_env \<Rightarrow> path \<Rightarrow> fsys \<Rightarrow> fsys \<times> goerr option" where
  "sys_RemoveAll E p fs =
     (case oe_Fail E (CallRemoveAll p) of
        None \<Rightarrow> (filter (\<lambda>e. \<not> within p (fst e)) fs, None)
      | Some err \<Rightarrow> (filter (\<lambda>e. within p (fst e) \<longrightarrow> oe_Left E (fst e)) fs, Some err))"

definition sys_ReadDir :: "os_env \<Rightarrow> path \<Rightarrow> fsys \<Rightarrow> string list res" where
  "sys_ReadDir E p fs =
     (case oe_Fail E (CallReadDir p) of
        Some err \<Rightarrow> Inl err
      | None \<Rightarrow>
          if \<not> fs_exists fs p then Inl ErrNotExist
          else if map_of fs p \<noteq> None \<and> \<not> is_dir fs p then Inl ErrNotDir
          else Inr (sort (remdups (map (\<lambda>e. fst e ! length p) (filter (\<lambda>e. within p (fst e) \<and> length p < length (fst e)) fs)))))"

definition mkdir :: "os_env \<Rightarrow> nat \<Rightarrow> path \<Rightarrow> fsys \<Rightarrow> fsys" where
  "mkdir E perm p fs = (if map_of fs p = None then map_put p \<lparr>in_Type = ModeDir, in_Mode = perm, in_ModTime = oe_Now E\<rparr> fs else fs)"

definition sys_MkdirAll :: "os_env \<Rightarrow> nat \<Rightarrow> path \<Rightarrow> fsys \<Rightarrow> fsys \<times> goerr option" where
  "sys_MkdirAll E perm p fs =
     (case oe_Fail E (CallMkdirAll p) of
        Some err \<Rightarrow> (fs, Some err)
      | None \<Rightarrow>
          if list_ex (\<lambda>k. map_of fs (take k p) \<noteq> None \<and> \<not> is_dir fs (take k p)) [0..<Suc (length p)] then (fs, Some ErrNotDir)
          else (foldl (\<lambda>fs k. mkdir E perm (take k p) fs) fs [0..<Suc (length p)], None))"

definition sys_WriteFile :: "os_env \<Rightarrow> nat \<Rightarrow> path \<Rightarrow> string \<Rightarrow> fsys \<Rightarrow> fsys \<times> goerr option" where
  "sys_WriteFile E perm p data fs =
     (case oe_Fail E (CallWriteFile p) of
        Some err \<Rightarrow> (fs, Some err)
      | None \<Rightarrow>
          if \<not> is_dir fs (butlast p) then (fs, Some ErrNotExist)
          else if is_dir fs p then (fs, Some (ErrText ''is a directory''))
          else (map_put p \<lparr>in_Type = ModeRegular data, in_Mode = perm, in_ModTime = oe_Now E\<rparr> fs, None))"

definition move :: "path \<Rightarrow> path \<Rightarrow> path \<Rightarrow> path" where
  "move old new q = (if within old q then new @ drop (length old) q else q)"

definition sys_Rename :: "os_env \<Rightarrow> path \<Rightarrow> path \<Rightarrow> fsys \<Rightarrow> fsys \<times> goerr option" where
  "sys_Rename E old new fs =
     (case oe_Fail E (CallRename old new) of
        Some err \<Rightarrow> (fs, Some err)
      | None \<Rightarrow>
          if map_of fs old = None then (fs, Some ErrNotExist)
          else if list_ex (\<lambda>e. within new (fst e) \<and> (fst e \<noteq> new \<or> in_Type (snd e) \<noteq> ModeDir)) fs then (fs, Some (ErrText ''file exists''))
          else (map (\<lambda>e. (move old new (fst e), snd e)) (filter (\<lambda>e. \<not> within new (fst e)) fs), None))"

function fresh_name :: "(nat \<Rightarrow> nat) \<Rightarrow> path \<Rightarrow> string \<Rightarrow> fsys \<Rightarrow> nat \<Rightarrow> path option" where
  "fresh_name rnd dir prefix fs attempt =
     (let p = dir @ [prefix @ show_nat (rnd attempt)]
      in if \<not> fs_exists fs p then Some p
         else if attempt < 10000 then fresh_name rnd dir prefix fs (attempt + 1) else None)"
  by pat_completeness auto
termination by (relation "measure (\<lambda>(_, _, _, _, attempt). 10000 - attempt)") auto

declare fresh_name.simps [simp del]

definition sys_MkdirTemp :: "os_env \<Rightarrow> path \<Rightarrow> string \<Rightarrow> fsys \<Rightarrow> fsys \<times> path res" where
  "sys_MkdirTemp E dir prefix fs =
     (case oe_Fail E (CallMkdirTemp dir) of
        Some err \<Rightarrow> (fs, Inl err)
      | None \<Rightarrow>
          if CHR ''/'' \<in> set prefix then (fs, Inl (ErrText ''pattern contains path separator''))
          else if \<not> is_dir fs dir then (fs, Inl ErrNotExist)
          else (case fresh_name (oe_Random E) dir prefix fs 0 of
                  None \<Rightarrow> (fs, Inl (ErrText ''file exists''))
                | Some p \<Rightarrow> (map_put p \<lparr>in_Type = ModeDir, in_Mode = 448, in_ModTime = oe_Now E\<rparr> fs, Inr p)))"

definition sys_Stat :: "os_env \<Rightarrow> path \<Rightarrow> fsys \<Rightarrow> inode res" where
  "sys_Stat E p fs =
     (case oe_Fail E (CallStat p) of
        Some err \<Rightarrow> Inl err
      | None \<Rightarrow> (case map_of fs p of None \<Rightarrow> Inl ErrNotExist | Some i \<Rightarrow> Inr i))"

definition sys_Chmod :: "os_env \<Rightarrow> path \<Rightarrow> nat \<Rightarrow> fsys \<Rightarrow> fsys \<times> goerr option" where
  "sys_Chmod E p mode fs =
     (case oe_Fail E (CallChmod p mode) of
        Some err \<Rightarrow> (fs, Some err)
      | None \<Rightarrow> (case map_of fs p of None \<Rightarrow> (fs, Some ErrNotExist) | Some i \<Rightarrow> (map_put p (i\<lparr>in_Mode := mode\<rparr>) fs, None)))"

section \<open>Helpers of the program\<close>

definition set_mode :: "os_env \<Rightarrow> nat \<Rightarrow> nat \<Rightarrow> path \<Rightarrow> fsys \<Rightarrow> fsys \<times> goerr option" where
  "set_mode E fileMode dirMode p fs =
     (case oe_Fail E (CallInfo p) of
        Some err \<Rightarrow> (fs, if as_status err = Some ''fs.ErrNotExist'' then None else Some err)
      | None \<Rightarrow>
          (case map_of fs p of
             None \<Rightarrow> (fs, None)
           | Some i \<Rightarrow>
               (case in_Type i of
                  ModeSymlink _ \<Rightarrow> (fs, None)
                | ModeDir \<Rightarrow> sys_Chmod E p dirMode fs
                | ModeRegular _ \<Rightarrow> sys_Chmod E p fileMode fs
                | ModeIrregular \<Rightarrow> (fs, Some (ErrText (''refusing to change ownership of file '' @ quote (join_str ''/'' p)))))))"

fun set_modes :: "os_env \<Rightarrow> nat \<Rightarrow> nat \<Rightarrow> path list \<Rightarrow> fsys \<Rightarrow> fsys \<times> goerr option" where
  "set_modes E fileMode dirMode [] fs = (fs, None)"
| "set_modes E fileMode dirMode (p # ps) fs =
     (case set_mode E fileMode dirMode p fs of (fs1, Some err) \<Rightarrow> (fs1, Some err) | (fs1, None) \<Rightarrow> set_modes E fileMode dirMode ps fs1)"

definition setModeRecursive :: "os_env \<Rightarrow> path \<Rightarrow> nat \<Rightarrow> nat \<Rightarrow> fsys \<Rightarrow> fsys \<times> goerr option" where
  "setModeRecursive E p fileMode dirMode fs =
     (if map_of fs p = None then (fs, None)
      else set_modes E fileMode dirMode (sort (filter (within p) (map fst fs))) fs)"

definition SetReadOnlyRecursive :: "os_env \<Rightarrow> path \<Rightarrow> fsys \<Rightarrow> fsys \<times> goerr option" where
  "SetReadOnlyRecursive E root fs = setModeRecursive E root 256 320 fs"

definition SetWritableRecursive :: "os_env \<Rightarrow> path \<Rightarrow> fsys \<Rightarrow> fsys \<times> goerr option" where
  "SetWritableRecursive E root fs = setModeRecursive E root 448 448 fs"

definition DeleteReadOnlyRecursive :: "os_env \<Rightarrow> path \<Rightarrow> fsys \<Rightarrow> fsys \<times> goerr option" where
  "DeleteReadOnlyRecursive E root fs =
     (case SetWritableRecursive E root fs of
        (fs1, Some err) \<Rightarrow> (fs1, Some (ErrWrap ''error making directory writable for deletion: '' err))
      | (fs1, None) \<Rightarrow> sys_RemoveAll E root fs1)"

fun delete_entries :: "os_env \<Rightarrow> path list \<Rightarrow> fsys \<Rightarrow> fsys \<times> goerr option" where
  "delete_entries E [] fs = (fs, None)"
| "delete_entries E (p # ps) fs =
     (case DeleteReadOnlyRecursive E p fs of (fs1, Some err) \<Rightarrow> (fs1, Some err) | (fs1, None) \<Rightarrow> delete_entries E ps fs1)"

definition EnsureEmptyDirectory :: "os_env \<Rightarrow> path \<Rightarrow> nat \<Rightarrow> fsys \<Rightarrow> fsys \<times> goerr option" where
  "EnsureEmptyDirectory E p perm fs =
     (case sys_ReadDir E p fs of
        Inl err \<Rightarrow> if as_status err = Some ''fs.ErrNotExist'' then sys_MkdirAll E perm p fs else (fs, Some err)
      | Inr names \<Rightarrow>
          (case delete_entries E (map (\<lambda>n. p @ [n]) names) fs of
             (fs1, Some err) \<Rightarrow> (fs1, Some err)
           | (fs1, None) \<Rightarrow> sys_MkdirAll E perm p fs1))"

definition ErrNotDirectory :: goerr where
  "ErrNotDirectory = ErrStatus ''fsutil.ErrNotDirectory'' ''not a directory''"

definition GetDirectoryModTime :: "os_env \<Rightarrow> path \<Rightarrow> fsys \<Rightarrow> int res" where
  "GetDirectoryModTime E dirPath fs =
     (case sys_Stat E dirPath fs of
        Inl err \<Rightarrow> Inl err
      | Inr i \<Rightarrow> if in_Type i \<noteq> ModeDir then Inl ErrNotDirectory else Inr (in_ModTime i))"

section \<open>What the calls keep\<close>

lemma within_append [simp]: "within p (p @ q)"
  by (simp add: within_def)

lemma within_refl [simp]: "within p p"
  by (simp add: within_def)

lemma within_iff: "within p q \<longleftrightarrow> (\<exists>r. q = p @ r)"
  by (metis append_take_drop_id within_append within_def)

lemma within_trans: "within p q \<Longrightarrow> within q r \<Longrightarrow> within p r"
  by (auto simp: within_iff)

lemma map_of_filter_key: "map_of (filter (\<lambda>e. P (fst e)) xs) k = (if P k then map_of xs k else None)"
  by (induction xs) auto

lemma fs_exists_map_of: "\<not> fs_exists fs p \<Longrightarrow> within p q \<Longrightarrow> map_of fs q = None"
  unfolding fs_exists_def by (induction fs) auto

lemma RemoveAll_apart: "\<not> within p q \<Longrightarrow> map_of (fst (sys_RemoveAll E p fs)) q = map_of fs q"
  using map_of_filter_key [of "\<lambda>k. \<not> within p k" fs q] map_of_filter_key [of "\<lambda>k. within p k \<longrightarrow> oe_Left E k" fs q]
  by (simp add: sys_RemoveAll_def split: option.split)

lemma RemoveAll_gone: "sys_RemoveAll E p fs = (fs', None) \<Longrightarrow> \<not> fs_exists fs' p"
  by (auto simp: sys_RemoveAll_def fs_exists_def list_ex_iff split: option.splits)

lemma RemoveAll_left: "map_of (fst (sys_RemoveAll E p fs)) q = Some i \<Longrightarrow> map_of fs q = Some i"
  using map_of_filter_key [of "\<lambda>k. \<not> within p k" fs q] map_of_filter_key [of "\<lambda>k. within p k \<longrightarrow> oe_Left E k" fs q]
  by (auto simp: sys_RemoveAll_def split: option.splits if_splits)

lemma map_of_mkdirs:
  "map_of (foldl (\<lambda>fs k. mkdir E perm (take k p) fs) fs ks) q =
     (if map_of fs q = None \<and> (\<exists>k \<in> set ks. q = take k p) then Some \<lparr>in_Type = ModeDir, in_Mode = perm, in_ModTime = oe_Now E\<rparr> else map_of fs q)"
  by (induction ks arbitrary: fs) (auto simp: mkdir_def)

lemma within_take [simp]: "within (take k p) p"
  by (metis append_take_drop_id within_append)

lemma MkdirAll_apart:
  assumes "\<not> within q p"
  shows "map_of (fst (sys_MkdirAll E perm p fs)) q = map_of fs q"
proof -
  have "q \<noteq> take k p" for k using assms within_take [of k p] by metis
  then show ?thesis by (simp add: sys_MkdirAll_def map_of_mkdirs del: upt_Suc split: option.split)
qed

lemma MkdirAll_file_at [simp]: "file_at (fst (sys_MkdirAll E perm p fs)) q = file_at fs q"
  by (simp add: sys_MkdirAll_def file_at_def map_of_mkdirs del: upt_Suc split: option.split)

lemma WriteFile_apart: "p \<noteq> q \<Longrightarrow> map_of (fst (sys_WriteFile E perm p data fs)) q = map_of fs q"
  by (simp add: sys_WriteFile_def split: option.split)

lemma WriteFile_written: "sys_WriteFile E perm p data fs = (fs', None) \<Longrightarrow> file_at fs' p = Some data"
  by (auto simp: sys_WriteFile_def file_at_def split: option.splits if_splits)

lemma fresh_name_Some:
  "fresh_name rnd dir prefix fs attempt = Some p \<Longrightarrow> \<not> fs_exists fs p \<and> (\<exists>n. p = dir @ [prefix @ show_nat n])"
proof (induction rnd dir prefix fs attempt rule: fresh_name.induct)
  case (1 rnd dir prefix fs attempt)
  then show ?case
    by (subst (asm) (2) fresh_name.simps) (auto simp: Let_def split: if_splits)
qed

lemma MkdirTemp_Inr:
  assumes "sys_MkdirTemp E dir prefix fs = (fs', Inr p)"
  shows "\<not> fs_exists fs p" "\<exists>n. p = dir @ [prefix @ show_nat n]" "p \<noteq> q \<Longrightarrow> map_of fs' q = map_of fs q" "is_dir fs' p"
  using assms fresh_name_Some [of "oe_Random E" dir prefix fs 0 p]
  by (auto simp: sys_MkdirTemp_def is_dir_def split: option.splits if_splits)

lemma MkdirTemp_Inl: "sys_MkdirTemp E dir prefix fs = (fs', Inl err) \<Longrightarrow> fs' = fs"
  by (auto simp: sys_MkdirTemp_def split: option.splits if_splits)

lemma within_comparable: "within a x \<Longrightarrow> within b x \<Longrightarrow> within a b \<or> within b a"
  unfolding within_iff by (metis append_eq_append_conv2)

lemma moved_in:
  assumes "\<not> within old new" and "\<not> within new old"
  shows "map_of (map (\<lambda>e. (move old new (fst e), snd e)) (filter (\<lambda>e. \<not> within new (fst e)) fs)) (new @ q) = map_of fs (old @ q)"
proof (induction fs)
  case (Cons e fs)
  have "fst e \<noteq> old @ q" if "within new (fst e)"
    using that assms within_comparable [of new "old @ q" old] by auto
  moreover have "move old new (fst e) = new @ q \<longleftrightarrow> fst e = old @ q" if "\<not> within new (fst e)"
    using that by (auto simp: move_def within_iff)
  ultimately show ?case using Cons by (cases e) auto
qed simp

lemma moved_apart:
  assumes "\<not> within old r" and "\<not> within new r"
  shows "map_of (map (\<lambda>e. (move old new (fst e), snd e)) (filter (\<lambda>e. \<not> within new (fst e)) fs)) r = map_of fs r"
proof (induction fs)
  case (Cons e fs)
  have "move old new (fst e) = r \<longleftrightarrow> fst e = r" using assms by (auto simp: move_def within_iff)
  then show ?case using Cons assms by (cases e) auto
qed simp

lemma Rename_ok:
  assumes "sys_Rename E old new fs = (fs', None)"
  shows "fs' = map (\<lambda>e. (move old new (fst e), snd e)) (filter (\<lambda>e. \<not> within new (fst e)) fs)"
  using assms by (auto simp: sys_Rename_def split: option.splits if_splits)

lemma Rename_err: "sys_Rename E old new fs = (fs', Some err) \<Longrightarrow> fs' = fs"
  by (auto simp: sys_Rename_def split: option.splits if_splits)

lemma Chmod_map_of: "map_of (fst (sys_Chmod E p mode fs)) q = map_of fs q \<or> (q = p \<and> (\<exists>i. map_of fs p = Some i \<and> map_of (fst (sys_Chmod E p mode fs)) q = Some (i\<lparr>in_Mode := mode\<rparr>)))"
  by (auto simp: sys_Chmod_def split: option.split)

lemma within_prefix_cancel [simp]: "within (p @ q) (p @ r) \<longleftrightarrow> within q r"
  by (auto simp: within_iff)

lemma within_Nil [simp]: "within [] q"
  by (simp add: within_def)

lemma within_Cons [simp]: "within (x # p) q \<longleftrightarrow> (\<exists>r. q = x # r \<and> within p r)"
  by (auto simp: within_iff)

lemma within_butlast: "r \<noteq> [] \<Longrightarrow> within q r \<longleftrightarrow> within q (butlast r) \<or> q = r"
proof
  assume "r \<noteq> []" and "within q r"
  then obtain s where s: "r = q @ s" by (auto simp: within_iff)
  then show "within q (butlast r) \<or> q = r" by (cases "s = []") (simp_all add: butlast_append)
next
  assume "r \<noteq> []" and "within q (butlast r) \<or> q = r"
  then show "within q r" using within_trans [of q "butlast r" r] by (auto simp: butlast_conv_take)
qed

lemma MkdirAll_ok:
  assumes "sys_MkdirAll E perm p fs = (fs1, None)"
  shows "map_of fs1 q = None \<longleftrightarrow> map_of fs q = None \<and> \<not> within q p" and "file_at fs1 q = file_at fs q"
proof -
  have "(\<exists>k \<in> set [0..<Suc (length p)]. q = take k p) \<longleftrightarrow> within q p"
    unfolding within_iff by (metis append_eq_conv_conj append_take_drop_id atLeastLessThan_iff le_imp_less_Suc length_append le_add1 set_upt zero_le)
  moreover have "fs1 = foldl (\<lambda>fs k. mkdir E perm (take k p) fs) fs [0..<Suc (length p)]"
    using assms by (auto simp: sys_MkdirAll_def simp del: upt_Suc split: option.splits if_splits)
  ultimately show "map_of fs1 q = None \<longleftrightarrow> map_of fs q = None \<and> \<not> within q p"
    using map_of_mkdirs [of E perm p fs "[0..<Suc (length p)]" q] by (auto simp del: upt_Suc)
  show "file_at fs1 q = file_at fs q" using MkdirAll_file_at [of E perm p fs q] assms by simp
qed

lemma file_at_Some: "file_at fs p = Some data \<Longrightarrow> map_of fs p \<noteq> None"
  by (auto simp: file_at_def split: option.splits)

lemma file_at_cong: "map_of fs p = map_of fs' p' \<Longrightarrow> file_at fs p = file_at fs' p'"
  by (simp add: file_at_def)

text \<open>Names that stay inside the directory they are joined to.\<close>

definition safe_name :: "string \<Rightarrow> bool" where
  "safe_name s \<longleftrightarrow> s \<noteq> [] \<and> s \<noteq> ''.'' \<and> s \<noteq> ''..'' \<and> CHR ''/'' \<notin> set s"

lemma clean_step_safe: "safe_name s \<Longrightarrow> clean_step acc s = acc @ [s]"
  by (simp add: clean_step_def safe_name_def)

lemma clean_step_empty [simp]: "clean_step acc [] = acc"
  by (simp add: clean_step_def)

lemma split_on_safe: "safe_name s \<Longrightarrow> split_on (CHR ''/'') s = [s]"
  by (simp add: safe_name_def split_on_none)

lemma Join_safe: "safe_name n \<Longrightarrow> filepath_Join dir [n] = dir @ [n]"
  by (simp add: filepath_Join_def split_on_safe clean_step_safe)

section \<open>Modes and deletion\<close>

text \<open>A failing call does not claim that a node is missing or no directory.\<close>

definition env_ok :: "os_env \<Rightarrow> bool" where
  "env_ok E \<longleftrightarrow> (\<forall>call err. oe_Fail E call = Some err \<longrightarrow> as_status err \<notin> {Some ''fs.ErrNotExist'', Some ''fsutil.ErrNotDirectory''})"

definition same_node :: "inode option \<Rightarrow> inode option \<Rightarrow> bool" where
  "same_node x y \<longleftrightarrow> map_option (\<lambda>i. (in_Type i, in_ModTime i)) x = map_option (\<lambda>i. (in_Type i, in_ModTime i)) y"

lemma same_node_refl [simp]: "same_node x x"
  by (simp add: same_node_def)

lemma same_node_None [simp]: "same_node x None \<longleftrightarrow> x = None" "same_node None x \<longleftrightarrow> x = None"
  by (auto simp: same_node_def)

lemma same_node_trans: "same_node x y \<Longrightarrow> same_node y z \<Longrightarrow> same_node x z"
  by (simp add: same_node_def)

lemma Chmod_same: "same_node (map_of (fst (sys_Chmod E p mode fs)) q) (map_of fs q)"
  by (simp add: sys_Chmod_def same_node_def split: option.split)

lemma set_mode_same: "same_node (map_of (fst (set_mode E fm dm p fs)) q) (map_of fs q)"
  by (simp add: set_mode_def Chmod_same split: option.split file_type.split)

lemma set_mode_apart: "q \<noteq> p \<Longrightarrow> map_of (fst (set_mode E fm dm p fs)) q = map_of fs q"
  by (simp add: set_mode_def sys_Chmod_def split: option.split file_type.split)

lemma set_modes_same: "same_node (map_of (fst (set_modes E fm dm ps fs)) q) (map_of fs q)"
proof (induction E fm dm ps fs rule: set_modes.induct)
  case (2 E fm dm p ps fs)
  obtain fs1 e where s: "set_mode E fm dm p fs = (fs1, e)" by fastforce
  then have "same_node (map_of fs1 q) (map_of fs q)" using set_mode_same [of E fm dm p fs q] by simp
  then show ?case using same_node_trans [OF 2 [OF s [symmetric]]] s by (cases e) simp_all
qed simp

lemma set_modes_apart: "q \<notin> set ps \<Longrightarrow> map_of (fst (set_modes E fm dm ps fs)) q = map_of fs q"
proof (induction E fm dm ps fs rule: set_modes.induct)
  case (2 E fm dm p ps fs)
  obtain fs1 e where s: "set_mode E fm dm p fs = (fs1, e)" by fastforce
  then have "map_of fs1 q = map_of fs q" using set_mode_apart [of q p E fm dm fs] 2(2) by auto
  with 2(1) [OF s [symmetric]] 2(2) s show ?case by (cases e) auto
qed simp

definition mode_of :: "nat \<Rightarrow> nat \<Rightarrow> inode \<Rightarrow> bool" where
  "mode_of fm dm i \<longleftrightarrow>
     (case in_Type i of ModeDir \<Rightarrow> in_Mode i = dm | ModeRegular _ \<Rightarrow> in_Mode i = fm | ModeSymlink _ \<Rightarrow> True | ModeIrregular \<Rightarrow> False)"

lemma set_mode_ok:
  assumes "env_ok E" and "set_mode E fm dm p fs = (fs', None)" and "map_of fs' p = Some i"
  shows "mode_of fm dm i"
  using assms
  by (auto simp: set_mode_def env_ok_def mode_of_def sys_Chmod_def split: option.splits file_type.splits if_splits)

lemma set_modes_ok:
  "env_ok E \<Longrightarrow> set_modes E fm dm ps fs = (fs', None) \<Longrightarrow> p \<in> set ps \<Longrightarrow> map_of fs' p = Some i \<Longrightarrow> mode_of fm dm i"
proof (induction E fm dm ps fs rule: set_modes.induct)
  case (2 E fm dm p1 ps fs)
  then obtain fs1 where s: "set_mode E fm dm p1 fs = (fs1, None)" "set_modes E fm dm ps fs1 = (fs', None)" by (auto split: prod.splits option.splits)
  show ?case
  proof (cases "p \<in> set ps")
    case False
    then have "map_of fs' p = map_of fs1 p" using set_modes_apart [of p ps E fm dm fs1] s(2) by simp
    then show ?thesis using set_mode_ok [OF 2(2) s(1)] 2(4,5) False by simp
  qed (use 2(1) [OF s(1) [symmetric] refl 2(2) s(2)] 2(5) in simp)
qed simp

lemma set_modes_irregular:
  "env_ok E \<Longrightarrow> p \<in> set ps \<Longrightarrow> map_of fs p = Some i \<Longrightarrow> in_Type i = ModeIrregular \<Longrightarrow> \<exists>err. snd (set_modes E fm dm ps fs) = Some err"
proof (induction E fm dm ps fs arbitrary: i rule: set_modes.induct)
  case (2 E fm dm p1 ps fs)
  obtain fs1 e where s: "set_mode E fm dm p1 fs = (fs1, e)" by fastforce
  show ?case
  proof (cases e)
    case None
    have "p \<noteq> p1" using s 2(2,4,5) None by (auto simp: set_mode_def env_ok_def split: option.splits if_splits)
    then have "map_of fs1 p = Some i" using set_mode_apart [of p p1 E fm dm fs] s 2(4) by simp
    then show ?thesis using 2 s None \<open>p \<noteq> p1\<close> by auto
  qed (simp add: s)
qed simp

lemma setModeRecursive_same: "same_node (map_of (fst (setModeRecursive E p fm dm fs)) q) (map_of fs q)"
  by (simp add: setModeRecursive_def set_modes_same)

lemma setModeRecursive_apart: "\<not> within p q \<Longrightarrow> map_of (fst (setModeRecursive E p fm dm fs)) q = map_of fs q"
  by (simp add: setModeRecursive_def set_modes_apart)

lemma map_of_in_keys: "map_of fs q = Some i \<Longrightarrow> q \<in> set (map fst fs)"
  by (metis image_set map_of_eq_None_iff option.distinct(1))

lemma setModeRecursive_ok:
  assumes "env_ok E" and "map_of fs p \<noteq> None" and "setModeRecursive E p fm dm fs = (fs', None)" and "within p q" and "map_of fs' q = Some i"
  shows "mode_of fm dm i"
proof -
  have "map_of fs q \<noteq> None" using setModeRecursive_same [of E p fm dm fs q] assms(3,5) by (cases "map_of fs q") simp_all
  then have "q \<in> set (sort (filter (within p) (map fst fs)))" using assms(4) map_of_in_keys by auto
  moreover have "set_modes E fm dm (sort (filter (within p) (map fst fs))) fs = (fs', None)"
    using assms(2,3) unfolding setModeRecursive_def by (simp split: if_splits)
  ultimately show ?thesis using set_modes_ok [OF assms(1) _ _ assms(5)] by blast
qed

lemma setModeRecursive_irregular:
  assumes "env_ok E" and "map_of fs p \<noteq> None" and "within p q" and "map_of fs q = Some i" and "in_Type i = ModeIrregular"
  shows "\<exists>err. snd (setModeRecursive E p fm dm fs) = Some err"
proof -
  have "q \<in> set (sort (filter (within p) (map fst fs)))" using assms(3) map_of_in_keys [OF assms(4)] by auto
  from set_modes_irregular [OF assms(1) this assms(4,5)] assms(2) show ?thesis by (auto simp: setModeRecursive_def)
qed

lemma Delete_apart: "\<not> within p q \<Longrightarrow> map_of (fst (DeleteReadOnlyRecursive E p fs)) q = map_of fs q"
  using setModeRecursive_apart [of p q E 448 448 fs] RemoveAll_apart [of p q E]
  by (auto simp: DeleteReadOnlyRecursive_def SetWritableRecursive_def split: prod.splits option.splits)

lemma Delete_gone: "DeleteReadOnlyRecursive E p fs = (fs', None) \<Longrightarrow> within p q \<Longrightarrow> map_of fs' q = None"
  using RemoveAll_gone fs_exists_map_of by (fastforce simp: DeleteReadOnlyRecursive_def split: prod.splits option.splits)

lemma Delete_irregular:
  assumes "env_ok E" and "map_of fs p \<noteq> None" and "within p q" and "map_of fs q = Some i" and "in_Type i = ModeIrregular"
  shows "\<exists>err. snd (DeleteReadOnlyRecursive E p fs) = Some err" and "same_node (map_of (fst (DeleteReadOnlyRecursive E p fs)) r) (map_of fs r)"
proof -
  obtain fs1 e where s: "SetWritableRecursive E p fs = (fs1, Some e)"
    using setModeRecursive_irregular [OF assms, of 448 448] by (auto simp: SetWritableRecursive_def prod_eq_iff)
  then show "\<exists>err. snd (DeleteReadOnlyRecursive E p fs) = Some err" by (simp add: DeleteReadOnlyRecursive_def)
  show "same_node (map_of (fst (DeleteReadOnlyRecursive E p fs)) r) (map_of fs r)"
    using setModeRecursive_same [of E p 448 448 fs r] s by (simp add: DeleteReadOnlyRecursive_def SetWritableRecursive_def)
qed

lemma Delete_none: "map_of fs q = None \<Longrightarrow> map_of (fst (DeleteReadOnlyRecursive E p fs)) q = None"
proof -
  assume none: "map_of fs q = None"
  obtain fs1 e where s: "SetWritableRecursive E p fs = (fs1, e)" by fastforce
  then have "map_of fs1 q = None" using setModeRecursive_same [of E p 448 448 fs q] none by (simp add: SetWritableRecursive_def)
  then have "map_of (fst (sys_RemoveAll E p fs1)) q = None" using RemoveAll_left [of E p fs1 q] by (cases "map_of (fst (sys_RemoveAll E p fs1)) q") auto
  with \<open>map_of fs1 q = None\<close> show ?thesis by (simp add: DeleteReadOnlyRecursive_def s split: option.split)
qed

lemma delete_entries_none: "map_of fs q = None \<Longrightarrow> map_of (fst (delete_entries E ps fs)) q = None"
proof (induction E ps fs rule: delete_entries.induct)
  case (2 E p ps fs)
  obtain fs1 e where s: "DeleteReadOnlyRecursive E p fs = (fs1, e)" by fastforce
  then have "map_of fs1 q = None" using Delete_none [OF 2(2), of E p] by simp
  then show ?case using 2(1) [OF s [symmetric]] s by (cases e) simp_all
qed simp

lemma delete_entries_apart: "\<forall>p \<in> set ps. \<not> within p q \<Longrightarrow> map_of (fst (delete_entries E ps fs)) q = map_of fs q"
proof (induction E ps fs rule: delete_entries.induct)
  case (2 E p ps fs)
  obtain fs1 e where s: "DeleteReadOnlyRecursive E p fs = (fs1, e)" by fastforce
  then have "map_of fs1 q = map_of fs q" using Delete_apart [of p q E fs] 2(2) by simp
  then show ?case using 2(1) [OF s [symmetric]] 2(2) s by (cases e) simp_all
qed simp

lemma delete_entries_gone: "delete_entries E ps fs = (fs', None) \<Longrightarrow> p \<in> set ps \<Longrightarrow> within p q \<Longrightarrow> map_of fs' q = None"
proof (induction E ps fs rule: delete_entries.induct)
  case (2 E p1 ps fs)
  then obtain fs1 where s: "DeleteReadOnlyRecursive E p1 fs = (fs1, None)" "delete_entries E ps fs1 = (fs', None)" by (auto split: prod.splits option.splits)
  show ?case
  proof (cases "p = p1")
    case True
    then have "map_of fs1 q = None" using Delete_gone [OF s(1)] 2(4) by simp
    then show ?thesis using delete_entries_none [of fs1 q E ps] s(2) by simp
  qed (use 2(1) [OF s(1) [symmetric] refl s(2)] 2(3,4) in simp)
qed simp

lemma ReadDir_children:
  assumes "sys_ReadDir E p fs = Inr names" and "map_of fs (p @ n # q) \<noteq> None"
  shows "n \<in> set names"
proof -
  have "p @ n # q \<in> fst ` set fs" using assms(2) map_of_in_keys [of fs "p @ n # q"] by auto
  then show ?thesis
    using assms(1) by (force simp: sys_ReadDir_def split: option.splits if_splits)
qed

lemma ReadDir_names:
  assumes "sys_ReadDir E p fs = Inr names" and "n \<in> set names"
  shows "\<exists>q. map_of fs (p @ n # q) \<noteq> None"
proof -
  obtain e where e: "e \<in> set fs" "within p (fst e)" "length p < length (fst e)" "n = fst e ! length p"
    using assms by (auto simp: sys_ReadDir_def split: option.splits if_splits)
  then obtain r where r: "fst e = p @ r" by (auto simp: within_iff)
  then have "r = n # tl r" using e by (cases r) auto
  then show ?thesis using r e(1) by (metis image_eqI image_set map_of_eq_None_iff)
qed

lemma MkdirAll_is_dir:
  assumes "sys_MkdirAll E perm p fs = (fs1, None)"
  shows "is_dir fs1 p"
proof -
  have "\<forall>k \<in> {0..<Suc (length p)}. map_of fs (take k p) = None \<or> is_dir fs (take k p)"
    using assms by (auto simp: sys_MkdirAll_def list_ex_iff simp del: upt_Suc split: option.splits if_splits)
  then have "map_of fs p = None \<or> is_dir fs p" by (auto dest: bspec [of _ _ "length p"])
  moreover have "fs1 = foldl (\<lambda>fs k. mkdir E perm (take k p) fs) fs [0..<Suc (length p)]"
    using assms by (auto simp: sys_MkdirAll_def simp del: upt_Suc split: option.splits if_splits)
  moreover have "\<exists>k \<in> set [0..<Suc (length p)]. p = take k p" by (rule bexI [of _ "length p"]) simp_all
  ultimately show ?thesis
    using map_of_mkdirs [of E perm p fs "[0..<Suc (length p)]" p] by (auto simp: is_dir_def simp del: upt_Suc split: option.splits)
qed

lemma EnsureEmptyDirectory_ok:
  assumes "env_ok E" and "EnsureEmptyDirectory E p perm fs = (fs', None)"
  shows "is_dir fs' p" and "q \<noteq> [] \<Longrightarrow> map_of fs' (p @ q) = None"
proof -
  have "\<exists>fs1. sys_MkdirAll E perm p fs1 = (fs', None) \<and> (\<forall>q. q \<noteq> [] \<longrightarrow> map_of fs1 (p @ q) = None)"
  proof (cases "sys_ReadDir E p fs")
    case (Inl err)
    then have "as_status err = Some ''fs.ErrNotExist''" "sys_MkdirAll E perm p fs = (fs', None)"
      using assms(2) by (auto simp: EnsureEmptyDirectory_def split: if_splits)
    moreover from this have "\<not> fs_exists fs p"
      using Inl assms(1) by (auto simp: sys_ReadDir_def env_ok_def ErrNotDir_def split: option.splits if_splits)
    ultimately show ?thesis using fs_exists_map_of [of fs p] by auto
  next
    case (Inr names)
    then obtain fs1 where d: "delete_entries E (map (\<lambda>n. p @ [n]) names) fs = (fs1, None)" "sys_MkdirAll E perm p fs1 = (fs', None)"
      using assms(2) by (auto simp: EnsureEmptyDirectory_def split: prod.splits option.splits)
    have "map_of fs1 (p @ q) = None" if "q \<noteq> []" for q
    proof (cases "map_of fs (p @ q)")
      case None
      then show ?thesis using delete_entries_none [of fs "p @ q" E "map (\<lambda>n. p @ [n]) names"] d(1) by simp
    next
      case (Some i)
      then have "hd q \<in> set names" using ReadDir_children [OF Inr, of "hd q" "tl q"] that by simp
      then show ?thesis using delete_entries_gone [OF d(1), of "p @ [hd q]" "p @ q"] that by (cases q) auto
    qed
    then show ?thesis using d(2) by blast
  qed
  then obtain fs1 where fs1: "sys_MkdirAll E perm p fs1 = (fs', None)" "\<And>q. q \<noteq> [] \<Longrightarrow> map_of fs1 (p @ q) = None" by blast
  show "is_dir fs' p" by (rule MkdirAll_is_dir [OF fs1(1)])
  show "map_of fs' (p @ q) = None" if "q \<noteq> []"
    using MkdirAll_ok(1) [OF fs1(1), of "p @ q"] fs1(2) [OF that] that by (auto simp: within_iff)
qed

lemma EnsureEmptyDirectory_apart:
  assumes "\<not> within p q" and "\<not> within q p"
  shows "map_of (fst (EnsureEmptyDirectory E p perm fs)) q = map_of fs q"
proof -
  have "\<forall>r \<in> set (map (\<lambda>n. p @ [n]) names). \<not> within r q" for names
    using assms(1) within_trans [OF within_append] by auto
  then have "map_of (fst (delete_entries E (map (\<lambda>n. p @ [n]) names) fs)) q = map_of fs q" for names by (rule delete_entries_apart)
  then show ?thesis
    using MkdirAll_apart [OF assms(2), of E perm]
    by (simp add: EnsureEmptyDirectory_def split: sum.split prod.split option.split) (metis fst_conv)
qed

section \<open>Example\<close>

definition ex_env :: os_env where
  "ex_env = \<lparr>oe_Fail = (\<lambda>_. None), oe_Left = (\<lambda>_. True), oe_Random = (\<lambda>n. n), oe_Now = 0\<rparr>"

definition ex_fsys :: fsys where
  "ex_fsys = [([], \<lparr>in_Type = ModeDir, in_Mode = 493, in_ModTime = 0\<rparr>), ([''cache''], \<lparr>in_Type = ModeDir, in_Mode = 493, in_ModTime = 0\<rparr>)]"

lemma ex_env_ok [simp]: "oe_Fail ex_env call = None" "env_ok ex_env"
  by (simp_all add: ex_env_def env_ok_def)

end
