(* ===== verification/MetadataCache.thy ===== *)
theory MetadataCache
  imports FileSystem CatalogIndex ExtensionSteps
begin

text \<open>
  The operator-controller side of catalog content: the cache of catalog metadata on the file system
  (\<^verbatim>\<open>catalogmetadata/cache/cache.go\<close>), the client that fills and reads it (\<^verbatim>\<open>catalogmetadata/client/client.go\<close>) and the
  controller that keeps it up to date (\<^verbatim>\<open>controllers/clustercatalog_controller.go\<close>).  A file system given to a caller is the
  path of its directory.  The reader of metadata, the loader of packages, the joining of URLs and the HTTP client are arguments.
\<close>

section \<open>Cache\<close>

record filesystem_cache =
  fsc_cachePath :: path
  fsc_cacheDataByCatalogName :: "(string \<times> string \<times> goerr option) list"

type_synonym cache_state = "filesystem_cache \<times> fsys"
type_synonym metas_reader = "string \<Rightarrow> meta list \<times> goerr option"

definition cacheDir :: "filesystem_cache \<Rightarrow> string \<Rightarrow> path" where
  "cacheDir fsc catalogName = filepath_Join (fsc_cachePath fsc) [catalogName]"

definition fsc_temp_prefix :: "string \<Rightarrow> string" where
  "fsc_temp_prefix catalogName = ''.'' @ catalogName @ ''-''"

fun fsc_remove_entries :: "os_env \<Rightarrow> path \<Rightarrow> string \<Rightarrow> string list \<Rightarrow> fsys \<Rightarrow> fsys \<times> goerr option" where
  "fsc_remove_entries E dir prefix [] fs = (fs, None)"
| "fsc_remove_entries E dir prefix (name # names) fs =
     (if has_prefix name prefix
      then (case sys_RemoveAll E (dir @ [name]) fs of
              (fs1, Some err) \<Rightarrow> (fs1, Some (ErrWrap (''error removing orphaned temp directory '' @ quote name @ '': '') err))
            | (fs1, None) \<Rightarrow> fsc_remove_entries E dir prefix names fs1)
      else fsc_remove_entries E dir prefix names fs)"

definition fsc_removeOrphanedTempDirs :: "os_env \<Rightarrow> filesystem_cache \<Rightarrow> string \<Rightarrow> fsys \<Rightarrow> fsys \<times> goerr option" where
  "fsc_removeOrphanedTempDirs E fsc catalogName fs =
     (case sys_ReadDir E (fsc_cachePath fsc) fs of
        Inl err \<Rightarrow>
          if as_status err = Some ''fs.ErrNotExist'' then (fs, None) else (fs, Some (ErrWrap ''error reading cache directory: '' err))
      | Inr names \<Rightarrow> fsc_remove_entries E (fsc_cachePath fsc) (fsc_temp_prefix catalogName) names fs)"

definition meta_path :: "path \<Rightarrow> meta \<Rightarrow> path" where
  "meta_path tmpDir m =
     (let pkgName = (if mt_Schema m = SchemaPackage then mt_Name m else mt_Package m);
          metaName = (if mt_Name m = [] then mt_Schema m else mt_Name m)
      in filepath_Join tmpDir [pkgName, mt_Schema m, metaName @ ''.json''])"

fun write_meta_files :: "os_env \<Rightarrow> path \<Rightarrow> meta list \<Rightarrow> fsys \<Rightarrow> fsys \<times> goerr option" where
  "write_meta_files E tmpDir [] fs = (fs, None)"
| "write_meta_files E tmpDir (m # metas) fs =
     (case sys_MkdirAll E 511 (butlast (meta_path tmpDir m)) fs of
        (fs1, Some err) \<Rightarrow> (fs1, Some (ErrText (''error creating directory for catalog metadata: '' @ Error err)))
      | (fs1, None) \<Rightarrow>
          (case sys_WriteFile E 384 (meta_path tmpDir m) (mt_Blob m) fs1 of
             (fs2, Some err) \<Rightarrow> (fs2, Some (ErrText (''error writing catalog metadata to file: '' @ Error err)))
           | (fs2, None) \<Rightarrow> write_meta_files E tmpDir metas fs2))"

definition fill_and_swap :: "os_env \<Rightarrow> metas_reader \<Rightarrow> path \<Rightarrow> path \<Rightarrow> string \<Rightarrow> fsys \<Rightarrow> fsys \<times> path res" where
  "fill_and_swap E walk tmpDir dir source fs =
     (case write_meta_files E tmpDir (fst (walk source)) fs of
        (fs1, Some err) \<Rightarrow> (fs1, Inl err)
      | (fs1, None) \<Rightarrow>
          (case snd (walk source) of
             Some err \<Rightarrow> (fs1, Inl (ErrText (''error parsing catalog contents: '' @ Error err)))
           | None \<Rightarrow>
               (case sys_RemoveAll E dir fs1 of
                  (fs2, Some err) \<Rightarrow> (fs2, Inl (ErrText (''error removing old cache directory: '' @ Error err)))
                | (fs2, None) \<Rightarrow>
                    (case sys_Rename E tmpDir dir fs2 of
                       (fs3, Some err) \<Rightarrow> (fs3, Inl (ErrText (''error moving temporary directory to cache directory: '' @ Error err)))
                     | (fs3, None) \<Rightarrow> (fs3, Inr dir)))))"

definition writeFS :: "os_env \<Rightarrow> metas_reader \<Rightarrow> filesystem_cache \<Rightarrow> string \<Rightarrow> string \<Rightarrow> fsys \<Rightarrow> fsys \<times> path res" where
  "writeFS E walk fsc catalogName source fs =
     (case fsc_removeOrphanedTempDirs E fsc catalogName fs of
        (fs1, Some err) \<Rightarrow> (fs1, Inl err)
      | (fs1, None) \<Rightarrow>
          (case sys_MkdirTemp E (fsc_cachePath fsc) (fsc_temp_prefix catalogName) fs1 of
             (fs2, Inl err) \<Rightarrow> (fs2, Inl (ErrText (''error creating temporary directory to unpack catalog metadata: '' @ Error err)))
           | (fs2, Inr tmpDir) \<Rightarrow>
               (case fill_and_swap E walk tmpDir (cacheDir fsc catalogName) source fs2 of (fs3, r) \<Rightarrow> (fst (sys_RemoveAll E tmpDir fs3), r))))"

definition Put :: "os_env \<Rightarrow> metas_reader \<Rightarrow> cache_state \<Rightarrow> string \<Rightarrow> string \<Rightarrow> string \<Rightarrow> goerr option \<Rightarrow> cache_state \<times> path res" where
  "Put E walk s catalogName resolvedRef source errToCache =
     (case s of (fsc, fs) \<Rightarrow>
        (case (case errToCache of Some err \<Rightarrow> (fs, Inl err) | None \<Rightarrow> writeFS E walk fsc catalogName source fs) of (fs1, r) \<Rightarrow>
           ((fsc\<lparr>fsc_cacheDataByCatalogName :=
               map_put catalogName (resolvedRef, case r of Inl err \<Rightarrow> Some err | Inr _ \<Rightarrow> None) (fsc_cacheDataByCatalogName fsc)\<rparr>, fs1), r)))"

definition cache_Get :: "cache_state \<Rightarrow> string \<Rightarrow> string \<Rightarrow> path option res" where
  "cache_Get s catalogName resolvedRef =
     (case map_of (fsc_cacheDataByCatalogName (fst s)) catalogName of
        Some (ref, oerr) \<Rightarrow>
          if resolvedRef = ref then (case oerr of Some err \<Rightarrow> Inl err | None \<Rightarrow> Inr (Some (cacheDir (fst s) catalogName))) else Inr None
      | None \<Rightarrow> Inr None)"

definition cache_Remove :: "os_env \<Rightarrow> cache_state \<Rightarrow> string \<Rightarrow> cache_state \<times> goerr option" where
  "cache_Remove E s catalogName =
     (case s of (fsc, fs) \<Rightarrow>
        (case map_of (fsc_cacheDataByCatalogName fsc) catalogName of
           None \<Rightarrow> (s, None)
         | Some _ \<Rightarrow>
             (case sys_RemoveAll E (cacheDir fsc catalogName) fs of
                (fs1, Some err) \<Rightarrow> ((fsc, fs1), Some (ErrText (''error removing cache directory: '' @ Error err)))
              | (fs1, None) \<Rightarrow>
                  ((fsc\<lparr>fsc_cacheDataByCatalogName := filter (\<lambda>e. fst e \<noteq> catalogName) (fsc_cacheDataByCatalogName fsc)\<rparr>, fs1), None))))"

section \<open>Client\<close>

type_synonym files = "path \<Rightarrow> string option"

record catalog_client =
  cc_Conditions :: cond_api
  cc_JoinPath :: "string \<Rightarrow> string \<Rightarrow> string res"
  cc_NewRequest :: "string \<Rightarrow> goerr option"
  cc_httpClient :: "(string \<Rightarrow> (int \<times> string) res) res"
  cc_WalkMetasReader :: metas_reader
  cc_LoadFS :: "files option \<Rightarrow> declarative_config res"
  cc_Env :: os_env

definition validateCatalog :: "catalog_client \<Rightarrow> cluster_catalog \<Rightarrow> string res" where
  "validateCatalog c catalog =
     (if \<not> apiIsStatusConditionTrue (cc_Conditions c) (cst_Conditions (cat_Status catalog)) TypeServing
      then Inl (ErrText (''catalog '' @ quote (cat_Name catalog) @ '' is not being served''))
      else case cst_ResolvedSource (cat_Status catalog) of
             None \<Rightarrow> Inl (ErrText (''error: catalog '' @ quote (cat_Name catalog) @ '' has a nil status.resolvedSource value''))
           | Some rs \<Rightarrow>
               (case rsv_Image rs of
                  None \<Rightarrow> Inl (ErrText (''error: catalog '' @ quote (cat_Name catalog) @ '' has a nil status.resolvedSource.image value''))
                | Some ref \<Rightarrow> Inr ref))"

text \<open>\<^verbatim>\<open>fs.ValidPath\<close> and \<^verbatim>\<open>fs.Sub\<close>, which only checks the name; the directory may be missing.\<close>

definition ValidPath :: "string \<Rightarrow> bool" where
  "ValidPath name \<longleftrightarrow> name = ''.'' \<or> list_all (\<lambda>c. c \<noteq> [] \<and> c \<noteq> ''.'' \<and> c \<noteq> ''..'') (split_on (CHR ''/'') name)"

definition fs_Sub :: "path \<Rightarrow> string \<Rightarrow> path res" where
  "fs_Sub dir name = (if \<not> ValidPath name then Inl (ErrText ''invalid argument'') else Inr (if name = ''.'' then dir else dir @ split_on (CHR ''/'') name))"

definition dir_files :: "fsys \<Rightarrow> path \<Rightarrow> files option" where
  "dir_files fs dir = (if map_of fs dir = None then None else Some (\<lambda>q. file_at fs (dir @ q)))"

definition empty_config :: declarative_config where
  "empty_config = \<lparr>fbc_Packages = [], fbc_Channels = [], fbc_Bundles = [], fbc_Deprecations = [], fbc_Others = []\<rparr>"

definition GetPackage :: "catalog_client \<Rightarrow> cache_state \<Rightarrow> cluster_catalog \<Rightarrow> string \<Rightarrow> declarative_config option res" where
  "GetPackage c s catalog pkgName =
     (case validateCatalog c catalog of
        Inl err \<Rightarrow> Inl err
      | Inr ref \<Rightarrow>
          (case cache_Get s (cat_Name catalog) ref of
             Inl err \<Rightarrow> Inl (ErrText (''error retrieving cache for catalog '' @ quote (cat_Name catalog) @ '': '' @ Error err))
           | Inr None \<Rightarrow> Inl (ErrText (''cache for catalog '' @ quote (cat_Name catalog) @ '' not found''))
           | Inr (Some catalogFsys) \<Rightarrow>
               (case fs_Sub catalogFsys pkgName of
                  Inl err \<Rightarrow>
                    if as_status err \<noteq> Some ''fs.ErrNotExist'' then Inl (ErrText (''error getting package '' @ quote pkgName @ '': '' @ Error err))
                    else Inr (Some empty_config)
                | Inr pkgFsys \<Rightarrow>
                    (case cc_LoadFS c (dir_files (snd s) pkgFsys) of
                       Inl err \<Rightarrow>
                         if as_status err \<noteq> Some ''fs.ErrNotExist'' then Inl (ErrText (''error loading package '' @ quote pkgName @ '': '' @ Error err))
                         else Inr (Some empty_config)
                     | Inr pkgFBC \<Rightarrow> Inr (Some pkgFBC)))))"

definition doRequest :: "catalog_client \<Rightarrow> cluster_catalog \<Rightarrow> (int \<times> string) res" where
  "doRequest c catalog =
     (case cst_URLs (cat_Status catalog) of
        None \<Rightarrow> Inl (ErrText (''error: catalog '' @ quote (cat_Name catalog) @ '' has a nil status.urls value''))
      | Some base \<Rightarrow>
          (case cc_JoinPath c base ''api/v1/all'' of
             Inl err \<Rightarrow> Inl (ErrText (''error forming catalogd API endpoint: '' @ Error err))
           | Inr catalogdURL \<Rightarrow>
               (case cc_NewRequest c catalogdURL of
                  Some err \<Rightarrow> Inl (ErrText (''error forming request: '' @ Error err))
                | None \<Rightarrow>
                    (case cc_httpClient c of
                       Inl err \<Rightarrow> Inl (ErrText (''error getting HTTP client: '' @ Error err))
                     | Inr client_Do \<Rightarrow>
                         (case client_Do catalogdURL of
                            Inl err \<Rightarrow> Inl (ErrText (''error performing request: '' @ Error err))
                          | Inr resp \<Rightarrow> Inr resp)))))"

definition PopulateCache :: "catalog_client \<Rightarrow> cache_state \<Rightarrow> cluster_catalog \<Rightarrow> cache_state \<times> path res" where
  "PopulateCache c s catalog =
     (case validateCatalog c catalog of
        Inl err \<Rightarrow> (s, Inl err)
      | Inr ref \<Rightarrow>
          (let put = Put (cc_Env c) (cc_WalkMetasReader c) s (cat_Name catalog) ref
           in case doRequest c catalog of
                Inl err \<Rightarrow> put [] (Some err)
              | Inr (statusCode, body) \<Rightarrow>
                  if statusCode \<noteq> 200
                  then put [] (Some (ErrText (''error: received unexpected response status code '' @ show_int statusCode)))
                  else put body None))"

section \<open>Controller\<close>

definition ClusterCatalog_Reconcile :: "catalog_client \<Rightarrow> cluster_catalog res \<Rightarrow> string \<Rightarrow> cache_state \<Rightarrow> cache_state \<times> goerr option" where
  "ClusterCatalog_Reconcile c got name s =
     (case got of
        Inl err \<Rightarrow>
          if as_status err = Some ''NotFound'' then
            (case cache_Remove (cc_Env c) s name of
               (s1, Some err) \<Rightarrow> (s1, Some (ErrText (''error removing cache for catalog '' @ quote name @ '': '' @ Error err)))
             | (s1, None) \<Rightarrow> (s1, None))
          else (s, Some err)
      | Inr existingCatalog \<Rightarrow>
          (case Option.bind (cst_ResolvedSource (cat_Status existingCatalog)) rsv_Image of
             None \<Rightarrow> (s, None)
           | Some ref \<Rightarrow>
               if ref = [] then (s, None)
               else
                 (case cache_Get s (cat_Name existingCatalog) ref of
                    Inr (Some catalogFsys) \<Rightarrow> (s, None)
                  | _ \<Rightarrow>
                      (case PopulateCache c s existingCatalog of
                         (s1, Inl err) \<Rightarrow> (s1, Some (ErrText (''error populating cache for catalog '' @ quote (cat_Name existingCatalog) @ '': '' @ Error err)))
                       | (s1, Inr _) \<Rightarrow> (s1, None)))))"

section \<open>What is written\<close>

text \<open>
  Names that stay inside the directory they are joined to.  For metadata of such names the files of a catalog are a function of its metadata, the last
  blob of a path winning.
\<close>

definition valid_catalog :: "string \<Rightarrow> bool" where
  "valid_catalog c \<longleftrightarrow> c \<noteq> [] \<and> hd c \<noteq> CHR ''.'' \<and> CHR ''/'' \<notin> set c"

definition meta_package :: "meta \<Rightarrow> string" where
  "meta_package m = (if mt_Schema m = SchemaPackage then mt_Name m else mt_Package m)"

definition safe_meta :: "meta \<Rightarrow> bool" where
  "safe_meta m \<longleftrightarrow> (meta_package m = [] \<or> safe_name (meta_package m)) \<and> safe_name (mt_Schema m) \<and> CHR ''/'' \<notin> set (mt_Name m)"

definition meta_rel :: "meta \<Rightarrow> path" where
  "meta_rel m = (if meta_package m = [] then [] else [meta_package m]) @ [mt_Schema m, (if mt_Name m = [] then mt_Schema m else mt_Name m) @ ''.json'']"

definition meta_files :: "meta list \<Rightarrow> files" where
  "meta_files metas q = map_of (rev (map (\<lambda>m. (meta_rel m, mt_Blob m)) metas)) q"

lemma cacheDir_valid: "valid_catalog c \<Longrightarrow> cacheDir fsc c = fsc_cachePath fsc @ [c]"
  by (cases c) (auto simp: valid_catalog_def cacheDir_def filepath_Join_def split_on_none clean_step_def)

lemma safe_json: "CHR ''/'' \<notin> set s \<Longrightarrow> safe_name (s @ ''.json'')"
  by (auto simp: safe_name_def append_eq_Cons_conv)

lemma meta_path_safe: "safe_meta m \<Longrightarrow> meta_path tmp m = tmp @ meta_rel m"
proof -
  assume m: "safe_meta m"
  then have "safe_name ((if mt_Name m = [] then mt_Schema m else mt_Name m) @ ''.json'')"
    by (intro safe_json) (auto simp: safe_meta_def safe_name_def)
  with m show ?thesis
    by (auto simp: meta_path_def filepath_Join_def meta_rel_def safe_meta_def split_on_safe clean_step_safe meta_package_def [symmetric] Let_def)
qed

lemma meta_rel_ne [simp]: "meta_rel m \<noteq> []"
  by (simp add: meta_rel_def)

lemma write_meta_apart:
  "list_all safe_meta metas \<Longrightarrow> \<not> within tmp q \<Longrightarrow> \<not> within q tmp \<Longrightarrow> map_of (fst (write_meta_files E tmp metas fs)) q = map_of fs q"
proof (induction E tmp metas fs rule: write_meta_files.induct)
  case (2 E tmp m metas fs)
  obtain fs1 e1 where m1: "sys_MkdirAll E 511 (butlast (meta_path tmp m)) fs = (fs1, e1)" by fastforce
  obtain fs2 e2 where m2: "sys_WriteFile E 384 (meta_path tmp m) (mt_Blob m) fs1 = (fs2, e2)" by fastforce
  have path: "meta_path tmp m = tmp @ meta_rel m" using 2(2) by (simp add: meta_path_safe)
  have "\<not> within q (tmp @ r)" for r
    using 2(3,4) within_comparable [of q "tmp @ r" tmp] by auto
  then have "map_of fs1 q = map_of fs q"
    using MkdirAll_apart [of q "butlast (meta_path tmp m)" E 511 fs] m1 by (simp add: path butlast_append)
  moreover have "map_of fs2 q = map_of fs1 q"
    using WriteFile_apart [of "meta_path tmp m" q E 384 "mt_Blob m" fs1] m2 2(3) within_append [of tmp "meta_rel m"] unfolding path by fastforce
  ultimately show ?case using 2 m1 m2 by (auto split: option.split)
qed simp

lemma write_meta_step:
  assumes "safe_meta m" and "sys_MkdirAll E 511 (butlast (meta_path tmp m)) fs = (fs1, None)"
    and "sys_WriteFile E 384 (meta_path tmp m) (mt_Blob m) fs1 = (fs2, None)"
  shows "file_at fs2 (tmp @ q) = (if q = meta_rel m then Some (mt_Blob m) else file_at fs (tmp @ q))"
    and "map_of fs2 (tmp @ q) = None \<longleftrightarrow> map_of fs (tmp @ q) = None \<and> \<not> within q (meta_rel m)"
proof -
  have path: "meta_path tmp m = tmp @ meta_rel m" using assms(1) by (simp add: meta_path_safe)
  then have dir: "butlast (meta_path tmp m) = tmp @ butlast (meta_rel m)" by (simp add: butlast_append)
  have kept: "map_of fs2 r = map_of fs1 r" if "r \<noteq> tmp @ meta_rel m" for r
    using WriteFile_apart [of "meta_path tmp m" r E 384 "mt_Blob m" fs1] assms(3) that by (simp add: path)
  have new: "file_at fs2 (tmp @ meta_rel m) = Some (mt_Blob m)" using WriteFile_written [OF assms(3)] by (simp add: path)
  show "file_at fs2 (tmp @ q) = (if q = meta_rel m then Some (mt_Blob m) else file_at fs (tmp @ q))"
    using kept [of "tmp @ q"] new MkdirAll_ok(2) [OF assms(2), of "tmp @ q"] by (simp add: file_at_def)
  have "map_of fs2 (tmp @ meta_rel m) \<noteq> None" using file_at_Some [OF new] .
  then show "map_of fs2 (tmp @ q) = None \<longleftrightarrow> map_of fs (tmp @ q) = None \<and> \<not> within q (meta_rel m)"
    using kept [of "tmp @ q"] MkdirAll_ok(1) [OF assms(2), of "tmp @ q"] within_butlast [OF meta_rel_ne, of q m]
    by (cases "q = meta_rel m") (simp_all add: dir)
qed

lemma write_meta_ok:
  "write_meta_files E tmp metas fs = (fs', None) \<Longrightarrow> list_all safe_meta metas \<Longrightarrow>
     file_at fs' (tmp @ q) = (case meta_files metas q of Some b \<Rightarrow> Some b | None \<Rightarrow> file_at fs (tmp @ q))
     \<and> (map_of fs' (tmp @ q) = None \<longleftrightarrow> map_of fs (tmp @ q) = None \<and> (\<forall>m \<in> set metas. \<not> within q (meta_rel m)))"
proof (induction E tmp metas fs rule: write_meta_files.induct)
  case (2 E tmp m metas fs)
  obtain fs1 fs2 where m: "sys_MkdirAll E 511 (butlast (meta_path tmp m)) fs = (fs1, None)"
    "sys_WriteFile E 384 (meta_path tmp m) (mt_Blob m) fs1 = (fs2, None)" "write_meta_files E tmp metas fs2 = (fs', None)"
    using 2(2) by (auto split: prod.splits option.splits)
  note step = write_meta_step [OF _ m(1,2)]
  have "safe_meta m" "list_all safe_meta metas" using 2(3) by simp_all
  note IH = 2(1) [OF m(1) [symmetric] refl m(2) [symmetric] refl m(3) this(2)]
  show ?case
    using IH step(1) [OF \<open>safe_meta m\<close>, of q] step(2) [OF \<open>safe_meta m\<close>, of q]
    by (simp add: meta_files_def map_add_def split: option.splits)
qed (simp add: meta_files_def)

section \<open>Swapping directories\<close>

lemma fill_and_swap_apart:
  assumes "list_all safe_meta (fst (walk source))" and "\<not> within tmp q" and "\<not> within q tmp" and "\<not> within dir q"
  shows "map_of (fst (fill_and_swap E walk tmp dir source fs)) q = map_of fs q"
proof -
  obtain fs1 e1 where w: "write_meta_files E tmp (fst (walk source)) fs = (fs1, e1)" by fastforce
  obtain fs2 e2 where r: "sys_RemoveAll E dir fs1 = (fs2, e2)" by fastforce
  obtain fs3 e3 where n: "sys_Rename E tmp dir fs2 = (fs3, e3)" by fastforce
  have "map_of fs1 q = map_of fs q" using write_meta_apart [OF assms(1-3), of E fs] w by simp
  moreover have "map_of fs2 q = map_of fs1 q" using RemoveAll_apart [OF assms(4), of E fs1] r by simp
  moreover have "map_of fs3 q = map_of fs2 q"
    using n Rename_err [of E tmp dir fs2 fs3] Rename_ok [of E tmp dir fs2 fs3] moved_apart [OF assms(2,4), of fs2] by (cases e3) simp_all
  ultimately show ?thesis
    unfolding fill_and_swap_def w prod.case by (simp add: r n split: option.split)
qed

lemma fill_and_swap_Inr:
  assumes "fill_and_swap E walk tmp dir source fs = (fs', Inr d)"
  shows "\<exists>fs1 fs2. d = dir \<and> write_meta_files E tmp (fst (walk source)) fs = (fs1, None) \<and> sys_RemoveAll E dir fs1 = (fs2, None) \<and> sys_Rename E tmp dir fs2 = (fs', None)"
  using assms unfolding fill_and_swap_def by (auto split: prod.splits option.splits)

definition holds_metas :: "fsys \<Rightarrow> path \<Rightarrow> meta list \<Rightarrow> bool" where
  "holds_metas fs dir metas \<longleftrightarrow>
     (\<forall>q. file_at fs (dir @ q) = meta_files metas q \<and> (map_of fs (dir @ q) = None \<longleftrightarrow> q \<noteq> [] \<and> (\<forall>m \<in> set metas. \<not> within q (meta_rel m))))"

lemma fill_and_swap_ok:
  assumes "fill_and_swap E walk tmp dir source fs = (fs', Inr d)" and "list_all safe_meta (fst (walk source))"
    and "\<not> within tmp dir" and "\<not> within dir tmp" and "is_dir fs tmp" and "\<And>q. q \<noteq> [] \<Longrightarrow> map_of fs (tmp @ q) = None"
  shows "d = dir" and "holds_metas fs' dir (fst (walk source))"
proof -
  obtain fs1 fs2 where run: "d = dir" "write_meta_files E tmp (fst (walk source)) fs = (fs1, None)" "sys_RemoveAll E dir fs1 = (fs2, None)"
    "sys_Rename E tmp dir fs2 = (fs', None)" using fill_and_swap_Inr [OF assms(1)] by blast
  show "d = dir" by (rule run(1))
  have moved: "map_of fs' (dir @ q) = map_of fs1 (tmp @ q)" for q
  proof -
    have "\<not> within dir (tmp @ q)" using assms(3,4) within_comparable [of dir "tmp @ q" tmp] by auto
    then have "map_of fs2 (tmp @ q) = map_of fs1 (tmp @ q)" using RemoveAll_apart [of dir "tmp @ q" E fs1] run(3) by simp
    then show ?thesis using moved_in [OF assms(3,4), of fs2 q] Rename_ok [OF run(4)] by simp
  qed
  have root: "map_of fs tmp \<noteq> None" "file_at fs tmp = None" using assms(5) by (auto simp: is_dir_def file_at_def split: option.splits)
  have "file_at fs (tmp @ q) = None" "map_of fs (tmp @ q) = None \<longleftrightarrow> q \<noteq> []" for q
    using assms(6) [of q] root by (cases "q = []"; simp add: file_at_def)+
  then show "holds_metas fs' dir (fst (walk source))"
    unfolding holds_metas_def file_at_cong [OF moved] moved
    using write_meta_ok [OF run(2) assms(2)] by (simp split: option.split)
qed

lemma remove_orphans_apart:
  "\<not> has_prefix (hd q) prefix \<Longrightarrow> q \<noteq> [] \<Longrightarrow> map_of (fst (fsc_remove_entries E dir prefix names fs)) (dir @ q) = map_of fs (dir @ q)"
proof (induction E dir prefix names fs rule: fsc_remove_entries.induct)
  case (2 E dir prefix name names fs)
  obtain fs1 e where r: "sys_RemoveAll E (dir @ [name]) fs = (fs1, e)" by fastforce
  have "map_of fs1 (dir @ q) = map_of fs (dir @ q)" if "has_prefix name prefix"
    using RemoveAll_apart [of "dir @ [name]" "dir @ q" E fs] r that 2(3,4) by (cases q) auto
  then show ?case using 2 r by (auto split: option.split)
qed simp

lemma valid_not_temp_name: "valid_catalog d \<Longrightarrow> \<not> has_prefix d (fsc_temp_prefix c)"
  by (cases d) (simp_all add: valid_catalog_def fsc_temp_prefix_def)

lemma temp_not_valid: "valid_catalog d \<Longrightarrow> fsc_temp_prefix c @ n \<noteq> d"
  by (auto simp: valid_catalog_def fsc_temp_prefix_def)

lemma orphans_apart:
  assumes "valid_catalog d"
  shows "map_of (fst (fsc_removeOrphanedTempDirs E fsc c fs)) (fsc_cachePath fsc @ d # q) = map_of fs (fsc_cachePath fsc @ d # q)"
  using remove_orphans_apart [of "d # q" "fsc_temp_prefix c" E "fsc_cachePath fsc" _ fs] valid_not_temp_name [OF assms, of c]
  by (simp add: fsc_removeOrphanedTempDirs_def split: sum.split)

lemma writeFS_other:
  assumes "valid_catalog c" and "valid_catalog d" and "d \<noteq> c" and "list_all safe_meta (fst (walk source))"
  shows "map_of (fst (writeFS E walk fsc c source fs)) (fsc_cachePath fsc @ d # q) = map_of fs (fsc_cachePath fsc @ d # q)"
proof -
  let ?q = "fsc_cachePath fsc @ d # q"
  obtain fs1 e1 where o: "fsc_removeOrphanedTempDirs E fsc c fs = (fs1, e1)" by fastforce
  obtain fs2 r2 where m: "sys_MkdirTemp E (fsc_cachePath fsc) (fsc_temp_prefix c) fs1 = (fs2, r2)" by fastforce
  have 1: "map_of fs1 ?q = map_of fs ?q" using orphans_apart [OF assms(2), of E fsc c fs q] o by simp
  show ?thesis
  proof (cases r2)
    case (Inl err)
    then show ?thesis using MkdirTemp_Inl [OF m [unfolded Inl]] m 1 by (simp add: writeFS_def o split: option.split)
  next
    case (Inr tmp)
    note temp = MkdirTemp_Inr [OF m [unfolded Inr]]
    obtain n where tmp: "tmp = fsc_cachePath fsc @ [fsc_temp_prefix c @ show_nat n]" using temp(2) by blast
    have apart: "\<not> within tmp ?q" "\<not> within ?q tmp" "\<not> within (cacheDir fsc c) ?q"
      using temp_not_valid [OF assms(2), of c "show_nat n"] assms(3) by (auto simp: tmp cacheDir_valid [OF assms(1)])
    obtain fs3 r3 where f: "fill_and_swap E walk tmp (cacheDir fsc c) source fs2 = (fs3, r3)" by fastforce
    have "map_of fs2 ?q = map_of fs1 ?q" using temp(3) [of ?q] apart(1) within_refl by metis
    moreover have "map_of fs3 ?q = map_of fs2 ?q" using fill_and_swap_apart [where walk = walk, OF assms(4) apart, of E fs2] f by simp
    moreover have "map_of (fst (sys_RemoveAll E tmp fs3)) ?q = map_of fs3 ?q" by (rule RemoveAll_apart [OF apart(1)])
    ultimately show ?thesis using 1 by (simp add: writeFS_def o m Inr f split: option.split)
  qed
qed

lemma writeFS_ok:
  assumes "writeFS E walk fsc c source fs = (fs', Inr dir)" and "valid_catalog c" and "list_all safe_meta (fst (walk source))"
  shows "dir = cacheDir fsc c" and "holds_metas fs' dir (fst (walk source))"
proof -
  obtain fs1 fs2 fs3 tmp where run: "sys_MkdirTemp E (fsc_cachePath fsc) (fsc_temp_prefix c) fs1 = (fs2, Inr tmp)"
    "fill_and_swap E walk tmp (cacheDir fsc c) source fs2 = (fs3, Inr dir)" "fs' = fst (sys_RemoveAll E tmp fs3)"
    using assms(1) by (auto simp: writeFS_def split: prod.splits option.splits sum.splits)
  note temp = MkdirTemp_Inr [OF run(1)]
  obtain n where tmp: "tmp = fsc_cachePath fsc @ [fsc_temp_prefix c @ show_nat n]" using temp(2) by blast
  have apart: "\<not> within tmp (cacheDir fsc c)" "\<not> within (cacheDir fsc c) tmp"
    using temp_not_valid [OF assms(2), of c "show_nat n"] by (auto simp: tmp cacheDir_valid [OF assms(2)])
  have fresh: "map_of fs2 (tmp @ q) = None" if "q \<noteq> []" for q
    using temp(3) [of "tmp @ q"] that fs_exists_map_of [OF temp(1), of "tmp @ q"] by simp
  note filled = fill_and_swap_ok [OF run(2) assms(3) apart temp(4) fresh]
  show dir: "dir = cacheDir fsc c" by (rule filled(1))
  have "map_of fs' (dir @ q) = map_of fs3 (dir @ q)" for q
  proof -
    have "\<not> within tmp (dir @ q)" using apart within_comparable [of tmp "dir @ q" dir] by (auto simp: dir)
    then show ?thesis using RemoveAll_apart [of tmp "dir @ q" E fs3] run(3) by simp
  qed
  then show "holds_metas fs' dir (fst (walk source))"
    using filled(2) unfolding holds_metas_def dir by (simp add: file_at_def)
qed

section \<open>Contract of the cache\<close>

text \<open>
  What the client relies on: after a put the cache answers for this version with its result and the given content, for other versions of the
  catalog with nothing, and for other catalogs as before.
\<close>

type_synonym ('e, 'src) put_op = "'e \<times> string \<times> string \<times> 'src \<times> goerr option"

definition run_puts :: "('e \<Rightarrow> 's \<Rightarrow> string \<Rightarrow> string \<Rightarrow> 'src \<Rightarrow> goerr option \<Rightarrow> 's \<times> 'd res) \<Rightarrow> 's \<Rightarrow> ('e, 'src) put_op list \<Rightarrow> 's" where
  "run_puts put = foldl (\<lambda>s (e, c, ref, src, oerr). fst (put e s c ref src oerr))"

locale catalog_cache =
  fixes put :: "'e \<Rightarrow> 's \<Rightarrow> string \<Rightarrow> string \<Rightarrow> 'src \<Rightarrow> goerr option \<Rightarrow> 's \<times> 'd res"
    and get :: "'s \<Rightarrow> string \<Rightarrow> string \<Rightarrow> 'd option res" and holds :: "'s \<Rightarrow> 'd \<Rightarrow> 'src \<Rightarrow> bool"
    and valid :: "string \<Rightarrow> bool" and good :: "'src \<Rightarrow> bool"
  assumes put_get: "valid c \<Longrightarrow> good src \<Longrightarrow> get (fst (put e s c ref src oerr)) c ref = map_sum id Some (snd (put e s c ref src oerr))"
    and put_holds: "valid c \<Longrightarrow> good src \<Longrightarrow> put e s c ref src oerr = (s', Inr x) \<Longrightarrow> oerr = None \<and> holds s' x src"
    and put_other_ref: "ref' \<noteq> ref \<Longrightarrow> get (fst (put e s c ref src oerr)) c ref' = Inr None"
    and put_other_get: "d \<noteq> c \<Longrightarrow> get (fst (put e s c ref src oerr)) d ref' = get s d ref'"
    and put_other_holds: "valid c \<Longrightarrow> good src \<Longrightarrow> valid d \<Longrightarrow> d \<noteq> c \<Longrightarrow> get s d ref' = Inr (Some x) \<Longrightarrow> holds s x y \<Longrightarrow> holds (fst (put e s c ref src oerr)) x y"
begin

lemma served_was_put:
  assumes "valid c" and "list_all (\<lambda>(e, d, ref, src, oerr). valid d \<and> good src) ops"
    and "get s c ref = Inr None" and "get (run_puts put s ops) c ref = Inr (Some x)"
  shows "\<exists>e src. (e, c, ref, src, None) \<in> set ops \<and> holds (run_puts put s ops) x src"
  using assms(2,4)
proof (induction ops arbitrary: x rule: rev_induct)
  case Nil
  then show ?case using assms(3) by (simp add: run_puts_def)
next
  case (snoc p ops)
  obtain e d r src oerr where p: "p = (e, d, r, src, oerr)" by (cases p)
  let ?s = "run_puts put s ops"
  have run: "run_puts put s (ops @ [p]) = fst (put e ?s d r src oerr)" by (simp add: run_puts_def p)
  have ok: "valid d" "good src" using snoc(2) p by simp_all
  show ?case
  proof (cases "d = c")
    case True
    then have "r = ref" using snoc(3) put_other_ref [of ref r e ?s c src oerr] run by auto
    then have "snd (put e ?s c ref src oerr) = Inr x"
      using snoc(3) put_get [OF ok(1) ok(2), of e ?s r oerr] True run by (cases "snd (put e ?s d r src oerr)") auto
    then show ?thesis using put_holds [OF ok, of e ?s r oerr] True \<open>r = ref\<close> run p by (metis in_set_conv_decomp prod.collapse)
  next
    case False
    then have "get ?s c ref = Inr (Some x)" using snoc(3) put_other_get [of c d] run by simp
    moreover from this obtain e' src' where "(e', c, ref, src', None) \<in> set ops" "holds ?s x src'" using snoc(1) snoc(2) by auto
    ultimately show ?thesis using put_other_holds [OF ok assms(1)] False run by fastforce
  qed
qed

end

lemma holds_metas_cong: "(\<And>q. map_of fs' (dir @ q) = map_of fs (dir @ q)) \<Longrightarrow> holds_metas fs dir metas \<Longrightarrow> holds_metas fs' dir metas"
  by (simp add: holds_metas_def file_at_def)

lemma Put_other_kept:
  assumes "valid_catalog c" and "valid_catalog d" and "d \<noteq> c" and "list_all safe_meta (fst (walk source))"
  shows "map_of (snd (fst (Put E walk s c ref source oerr))) (fsc_cachePath (fst s) @ d # q) = map_of (snd s) (fsc_cachePath (fst s) @ d # q)"
  using writeFS_other [where walk = walk, OF assms, of E "fst s" "snd s" q] by (cases s; cases oerr) (auto simp: Put_def split: prod.splits)

interpretation fsc: catalog_cache "\<lambda>E. Put E walk" cache_Get "\<lambda>s dir source. holds_metas (snd s) dir (fst (walk source))" valid_catalog
  "\<lambda>source. list_all safe_meta (fst (walk source))" for walk
proof (unfold_locales, goal_cases)
  case (1 c src e s ref oerr)
  then show ?case
    using writeFS_ok(1) [of e walk "fst s" c src "snd s"]
    by (auto simp: Put_def cache_Get_def cacheDir_def split: prod.splits option.splits sum.splits)
next
  case (2 c src e s ref oerr s' x)
  then show ?case
    using writeFS_ok(2) [of e walk "fst s" c src "snd s"] by (auto simp: Put_def split: prod.splits option.splits sum.splits)
next
  case (5 c src d s ref' x y e ref oerr)
  then have "x = fsc_cachePath (fst s) @ [d]"
    by (auto simp: cache_Get_def cacheDir_valid split: option.splits if_splits)
  then show ?case
    using Put_other_kept [where walk = walk, OF 5(1,3,4,2), of e s ref oerr] holds_metas_cong [OF _ 5(6)] by simp
next
  case (4 d c e s ref src oerr ref')
  then show ?case
    by (auto simp: Put_def cache_Get_def cacheDir_def split: prod.splits option.splits)
qed (auto simp: Put_def cache_Get_def cacheDir_def split: prod.splits)

section \<open>Properties\<close>

text \<open>
  C28: the catalog cache serves what was put.  After any sequence of puts on an empty cache, whatever the file system refuses during them, content served
  for a catalog and a version is the content of a put without error for this catalog and version: its files are those of the
  metadata read from the source, unmixed with other catalogs, other versions and puts that failed half-way.
\<close>

theorem cache_serves_what_was_put:
  assumes "valid_catalog c" and "list_all (\<lambda>(E, d, ref, source, oerr). valid_catalog d \<and> list_all safe_meta (fst (walk source))) ops"
    and "fsc_cacheDataByCatalogName fsc = []" and "s = run_puts (\<lambda>E. Put E walk) (fsc, fs) ops" and "cache_Get s c ref = Inr (Some dir)"
  shows "\<exists>E source. (E, c, ref, source, None) \<in> set ops \<and> (\<forall>q. file_at (snd s) (dir @ q) = meta_files (fst (walk source)) q)"
proof -
  have "cache_Get (fsc, fs) c ref = Inr None" using assms(3) by (simp add: cache_Get_def)
  from fsc.served_was_put [OF assms(1,2) this] assms(4,5) show ?thesis unfolding holds_metas_def by blast
qed

text \<open>The package directory of a catalog, and what a reconcile and the client make of it.\<close>

definition package_tree :: "meta list \<Rightarrow> string \<Rightarrow> files option" where
  "package_tree metas pkg = (if \<exists>m \<in> set metas. within [pkg] (meta_rel m) then Some (\<lambda>q. meta_files metas (pkg # q)) else None)"

definition loaded :: "catalog_client \<Rightarrow> string \<Rightarrow> files option \<Rightarrow> declarative_config option res" where
  "loaded c pkgName pkgFiles =
     (case cc_LoadFS c pkgFiles of
        Inl err \<Rightarrow>
          if as_status err \<noteq> Some ''fs.ErrNotExist'' then Inl (ErrText (''error loading package '' @ quote pkgName @ '': '' @ Error err))
          else Inr (Some empty_config)
      | Inr pkgFBC \<Rightarrow> Inr (Some pkgFBC))"

lemma dir_files_package:
  assumes "holds_metas fs dir metas"
  shows "dir_files fs (dir @ [pkg]) = package_tree metas pkg"
proof -
  have "file_at fs (dir @ q) = meta_files metas q" "map_of fs (dir @ q) = None \<longleftrightarrow> q \<noteq> [] \<and> (\<forall>m \<in> set metas. \<not> within q (meta_rel m))" for q
    using assms unfolding holds_metas_def by blast+
  from this(1) [of "pkg # q" for q] this(2) [of "[pkg]"] show ?thesis
    by (auto simp: dir_files_def package_tree_def)
qed

lemma GetPackage_cached:
  assumes "validateCatalog c catalog = Inr ref" and "cache_Get s (cat_Name catalog) ref = Inr (Some dir)" and "holds_metas (snd s) dir metas" and "safe_name pkg"
  shows "GetPackage c s catalog pkg = loaded c pkg (package_tree metas pkg)"
proof -
  have "fs_Sub dir pkg = Inr (dir @ [pkg])"
    using assms(4) split_on_safe [OF assms(4)] by (simp add: fs_Sub_def ValidPath_def safe_name_def)
  then show ?thesis
    unfolding GetPackage_def assms(1,2) sum.case option.case by (simp add: dir_files_package [OF assms(3)] loaded_def)
qed

lemma Put_err [simp]: "Put E walk s c ref source (Some err) \<noteq> (s', Inr d)"
  by (simp add: Put_def split: prod.split)

lemma PopulateCache_Inr:
  assumes "PopulateCache c s catalog = (s', Inr dir)"
  shows "\<exists>ref body. validateCatalog c catalog = Inr ref \<and> doRequest c catalog = Inr (200, body)
    \<and> Put (cc_Env c) (cc_WalkMetasReader c) s (cat_Name catalog) ref body None = (s', Inr dir)"
  using assms by (auto simp: PopulateCache_def Let_def split: sum.splits if_splits)

lemma Reconcile_populates:
  assumes "ClusterCatalog_Reconcile c (Inr catalog) name s = (s', None)" and "validateCatalog c catalog = Inr ref" and "ref \<noteq> []"
    and "\<nexists>dir. cache_Get s (cat_Name catalog) ref = Inr (Some dir)"
  shows "\<exists>dir. PopulateCache c s catalog = (s', Inr dir)"
proof -
  have "Option.bind (cst_ResolvedSource (cat_Status catalog)) rsv_Image = Some ref"
    using assms(2) by (auto simp: validateCatalog_def split: if_splits option.splits)
  then show ?thesis
    using assms(1,3,4) by (auto simp: ClusterCatalog_Reconcile_def split: sum.splits option.splits prod.splits)
qed


section \<open>Examples\<close>

definition ex_meta :: "string \<Rightarrow> string \<Rightarrow> meta" where
  "ex_meta pkg name = \<lparr>mt_Schema = ''olm.bundle'', mt_Package = pkg, mt_Name = name, mt_Blob = name\<rparr>"

definition ex_reader :: metas_reader where
  "ex_reader source = ([if source = ''evil'' then ex_meta ''../b/p'' ''x'' else ex_meta ''p'' ''y''], None)"

definition ex_cache :: cache_state where
  "ex_cache = (\<lparr>fsc_cachePath = [''cache''], fsc_cacheDataByCatalogName = []\<rparr>,
     ex_fsys)"

definition ex_puts :: "(os_env, string) put_op list" where
  "ex_puts = [(ex_env, ''b'', ''ref'', ''good'', None)]"

definition ex_filled :: cache_state where
  "ex_filled = run_puts (\<lambda>E. Put E ex_reader) ex_cache ex_puts"

lemma ex_filled_served: "cache_Get ex_filled ''b'' ''ref'' = Inr (Some [''cache'', ''b'']) \<and> file_at (snd ex_filled) [''cache'', ''b'', ''p'', ''olm.bundle'', ''y.json''] = Some ''y''"
  by code_simp

lemma ex_filled_eq: "ex_filled = run_puts (\<lambda>E. Put E ex_reader) (fst ex_cache, snd ex_cache) ex_puts"
  by (simp add: ex_filled_def)

theorem cache_serves_what_was_put_witness:
  "\<exists>E source. (E, ''b'', ''ref'', source, None) \<in> set ex_puts
     \<and> (\<forall>q. file_at (snd ex_filled) ([''cache'', ''b''] @ q) = meta_files (fst (ex_reader source)) q)"
proof -
  have 1: "valid_catalog ''b''" by (simp add: valid_catalog_def)
  have 2: "list_all (\<lambda>(E, d, ref, source, oerr). valid_catalog d \<and> list_all safe_meta (fst (ex_reader source))) ex_puts"
    by (simp add: ex_puts_def valid_catalog_def ex_reader_def ex_meta_def safe_meta_def safe_name_def meta_package_def)
  have 3: "fsc_cacheDataByCatalogName (fst ex_cache) = []" by (simp add: ex_cache_def)
  show ?thesis
    by (rule cache_serves_what_was_put [where walk = ex_reader, OF 1 2 3 ex_filled_eq conjunct1 [OF ex_filled_served]])
qed

definition ex_catalog :: "string \<Rightarrow> cluster_catalog" where
  "ex_catalog name = \<lparr>cat_Name = name, cat_Generation = 1, cat_Labels = [], cat_Annotations = [], cat_Finalizers = [], cat_DeletionTimestamp = None,
     cat_Spec = \<lparr>cat_Source = \<lparr>cs_Type = ''Image'', cs_Image = None\<rparr>, cat_Priority = 0, cat_AvailabilityMode = ''Available''\<rparr>,
     cat_Status = \<lparr>cst_Conditions = [\<lparr>cond_Type = TypeServing, cond_Status = ConditionTrue, cond_Reason = ''Available'', cond_Message = [], cond_ObservedGeneration = 1,
         cond_LastTransitionTime = 1\<rparr>],
       cst_ResolvedSource = Some \<lparr>rsv_Type = ''Image'', rsv_Image = Some ''ref''\<rparr>, cst_URLs = Some ''http://catalogd'', cst_LastUnpacked = None\<rparr>\<rparr>"

definition ex_client :: catalog_client where
  "ex_client = \<lparr>cc_Conditions = doc_cond_api 0, cc_JoinPath = (\<lambda>base p. Inr (base @ ''/'' @ p)), cc_NewRequest = (\<lambda>_. None), cc_httpClient = Inr (\<lambda>_. Inr (200, ''good'')),
     cc_WalkMetasReader = ex_reader, cc_LoadFS = (\<lambda>files. case files of None \<Rightarrow> Inl ErrNotExist | Some _ \<Rightarrow> Inr empty_config), cc_Env = ex_env\<rparr>"

lemma ex_reconciled: "snd (ClusterCatalog_Reconcile ex_client (Inr (ex_catalog ''b'')) ''b'' ex_cache) = None"
  by code_simp


text \<open>
  Names in catalog content reach outside the catalog's directory.  The paths of metadata are joined from package, schema and name as the content gives them;
  content of one catalog whose package name climbs out of its directory leaves the other catalog served as before, with a file of the first one in its package.
\<close>

lemma cache_mixes_catalogs:
  "let s = run_puts (\<lambda>E. Put E ex_reader) ex_filled [(ex_env, ''a'', ''ref'', ''evil'', None)]
   in cache_Get s ''b'' ''ref'' = Inr (Some [''cache'', ''b'']) \<and> file_at (snd s) [''cache'', ''b'', ''p'', ''olm.bundle'', ''x.json''] = Some ''x''
      \<and> meta_files (fst (ex_reader ''good'')) [''p'', ''olm.bundle'', ''x.json''] = None"
  by code_simp

text \<open>
  The interface promises that a put keeps content already cached for the same version; the cache forgets it when the put carries an error.  And a removal that
  fails half-way leaves what remains of the directory served.
\<close>

lemma put_forgets_content: "cache_Get (fst (Put ex_env ex_reader ex_filled ''b'' ''ref'' [] (Some (ErrText ''timeout'')))) ''b'' ''ref'' = Inl (ErrText ''timeout'')"
  by code_simp

lemma failed_remove_served:
  "let s = fst (cache_Remove (ex_env\<lparr>oe_Fail := (\<lambda>_. Some (ErrText ''busy'')), oe_Left := (\<lambda>p. length p < 5)\<rparr>) ex_filled ''b'')
   in cache_Get s ''b'' ''ref'' = Inr (Some [''cache'', ''b'']) \<and> file_at (snd s) [''cache'', ''b'', ''p'', ''olm.bundle'', ''y.json''] = None"
  by code_simp

end
