(* ===== verification/ImageCache.thy ===== *)
theory ImageCache
  imports FileSystem RukpakUtil
begin

text \<open>
  The disk cache of unpacked images (\<^verbatim>\<open>internal/shared/util/image/cache.go\<close>) with the filters of its archives
  (\<^verbatim>\<open>filters.go\<close>).  The library that applies a layer to a directory is an argument.
\<close>

section \<open>Filters\<close>

record tar_header =
  th_Name :: string
  th_Uid :: nat
  th_Gid :: nat
  th_Mode :: nat
  th_PAXRecords :: labels
  th_Xattrs :: labels

type_synonym archive_filter = "tar_header \<Rightarrow> tar_header \<times> bool res"

definition forceOwnershipRWX :: "nat \<Rightarrow> nat \<Rightarrow> archive_filter" where
  "forceOwnershipRWX uid gid h = (h\<lparr>th_Uid := uid, th_Gid := gid, th_Mode := or (th_Mode h) 448, th_PAXRecords := [], th_Xattrs := []\<rparr>, Inr True)"

text \<open>
  A cleaned path is its components and whether it is rooted; \<^verbatim>\<open>filepath.Rel\<close> as the components of its result.
\<close>

definition path_step :: "bool \<Rightarrow> string list \<Rightarrow> string \<Rightarrow> string list" where
  "path_step rooted acc c =
     (if c = [] \<or> c = ''.'' then acc
      else if c = ''..'' then (if acc \<noteq> [] \<and> last acc \<noteq> ''..'' then butlast acc else if rooted then acc else acc @ [''..''])
      else acc @ [c])"

definition path_Clean :: "string \<Rightarrow> bool \<times> string list" where
  "path_Clean p = (let rooted = has_prefix p ''/'' in (rooted, foldl (path_step rooted) [] (split_on (CHR ''/'') p)))"

fun strip_common :: "string list \<Rightarrow> string list \<Rightarrow> string list \<times> string list" where
  "strip_common (b # bs) (t # ts) = (if b = t then strip_common bs ts else (b # bs, t # ts))"
| "strip_common bs ts = (bs, ts)"

definition filepath_Rel :: "bool \<times> string list \<Rightarrow> bool \<times> string list \<Rightarrow> string list res" where
  "filepath_Rel base targ =
     (if fst base \<noteq> fst targ then Inl (ErrText ''Rel: can't make path relative'')
      else case strip_common (snd base) (snd targ) of (bs, ts) \<Rightarrow>
             if bs \<noteq> [] \<and> hd bs = ''..'' then Inl (ErrText ''Rel: can't make path relative'')
             else Inr (replicate (length bs) ''..'' @ ts))"

definition TrimPrefix :: "string \<Rightarrow> string \<Rightarrow> string" where
  "TrimPrefix s p = (if has_prefix s p then drop (length p) s else s)"

definition onlyPath :: "string \<Rightarrow> archive_filter" where
  "onlyPath p h =
     (let wantPath = path_Clean (TrimPrefix p ''/'');
          headerPath = path_Clean (TrimPrefix (th_Name h) ''/'')
      in case filepath_Rel wantPath headerPath of
           Inl err \<Rightarrow> (h, Inl (ErrWrap ''error getting relative path: '' err))
         | Inr relPath \<Rightarrow> (h, Inr (\<not> (relPath \<noteq> [] \<and> hd relPath = ''..''))))"

fun allFilters :: "archive_filter list \<Rightarrow> archive_filter" where
  "allFilters [] h = (h, Inr True)"
| "allFilters (f # fs) h =
     (case f h of
        (h', Inl err) \<Rightarrow> (h', Inl err)
      | (h', Inr False) \<Rightarrow> (h', Inr False)
      | (h', Inr True) \<Rightarrow> allFilters fs h')"

section \<open>Cache\<close>

record layer_data =
  ly_MediaType :: string
  ly_Reader :: "string res"
  ly_Index :: nat
  ly_Err :: "goerr option"

abbreviation ConfigDirLabel :: string where "ConfigDirLabel \<equiv> ''operators.operatorframework.io.index.configs.v1''"
abbreviation ChartLayerMediaType :: string where "ChartLayerMediaType \<equiv> ''application/vnd.cncf.helm.chart.content.v1.tar+gzip''"

record disk_cache =
  dc_basePath :: path
  dc_filterFunc :: "(bool \<Rightarrow> labels \<Rightarrow> archive_filter res) option"

record 'fs cache_libs =
  il_Apply :: "archive_filter option \<Rightarrow> path \<Rightarrow> string res \<Rightarrow> fsys \<Rightarrow> fsys \<times> goerr option"
  il_Charts :: "'fs chart_fs"
  il_HelmChartSupport :: bool
  il_Uid :: nat
  il_Gid :: nat

definition filterForCatalogImage :: "'fs cache_libs \<Rightarrow> bool \<Rightarrow> labels \<Rightarrow> archive_filter res" where
  "filterForCatalogImage L specIsCanonical image_Labels =
     (case map_of image_Labels ConfigDirLabel of
        None \<Rightarrow> Inl (the (WrapTerminal (Some (ErrText (''catalog image is missing the required label '' @ quote ConfigDirLabel))) specIsCanonical))
      | Some dirToUnpack \<Rightarrow> Inr (allFilters [onlyPath dirToUnpack, forceOwnershipRWX (il_Uid L) (il_Gid L)]))"

definition CatalogCache :: "'fs cache_libs \<Rightarrow> path \<Rightarrow> disk_cache" where
  "CatalogCache L basePath = \<lparr>dc_basePath = basePath, dc_filterFunc = Some (filterForCatalogImage L)\<rparr>"

definition BundleCache :: "'fs cache_libs \<Rightarrow> path \<Rightarrow> disk_cache" where
  "BundleCache L basePath = \<lparr>dc_basePath = basePath, dc_filterFunc = Some (\<lambda>_ _. Inr (forceOwnershipRWX (il_Uid L) (il_Gid L)))\<rparr>"

definition ownerIDPath :: "disk_cache \<Rightarrow> string \<Rightarrow> path" where
  "ownerIDPath a ownerID = filepath_Join (dc_basePath a) [ownerID]"

definition unpackPath :: "disk_cache \<Rightarrow> string \<Rightarrow> string \<Rightarrow> path" where
  "unpackPath a ownerID digest = filepath_Join (ownerIDPath a ownerID) [digest]"

definition Fetch :: "os_env \<Rightarrow> disk_cache \<Rightarrow> string \<Rightarrow> string \<Rightarrow> fsys \<Rightarrow> fsys \<times> (path \<times> int) option res" where
  "Fetch E a ownerID digest fs =
     (let p = unpackPath a ownerID digest
      in case GetDirectoryModTime E p fs of
           Inr modTime \<Rightarrow> (fs, Inr (Some (p, modTime)))
         | Inl err \<Rightarrow>
             if as_status err = Some ''fs.ErrNotExist'' then (fs, Inr None)
             else if as_status err = Some ''fsutil.ErrNotDirectory''
             then (case DeleteReadOnlyRecursive E p fs of (fs1, Some e) \<Rightarrow> (fs1, Inl e) | (fs1, None) \<Rightarrow> (fs1, Inr None))
             else (fs, Inl (ErrWrap ''error checking image content already unpacked: '' err)))"

definition storeChartLayer :: "'fs cache_libs \<Rightarrow> os_env \<Rightarrow> path \<Rightarrow> layer_data \<Rightarrow> fsys \<Rightarrow> fsys \<times> goerr option" where
  "storeChartLayer L E p layer fs =
     (case ly_Err layer of
        Some err \<Rightarrow> (fs, Some (ErrWrap ''error found in layer data: '' err))
      | None \<Rightarrow>
          (case ly_Reader layer of
             Inl err \<Rightarrow> (fs, Some (ErrWrap (''error reading layer['' @ show_nat (ly_Index layer) @ '']: '') err))
           | Inr data \<Rightarrow>
               (case inspectChart (il_Charts L) data of
                  Inl err \<Rightarrow> (fs, Some (ErrWrap ''inspecting chart layer: '' err))
                | Inr (_, _, m) \<Rightarrow>
                    (case sys_WriteFile E 384 (filepath_Join p [cm_Name m @ ''-'' @ cm_Version m @ ''.tgz'']) data fs of
                       (fs1, Some err) \<Rightarrow> (fs1, Some (ErrWrap ''create temp file: '' err))
                     | (fs1, None) \<Rightarrow> (fs1, None)))))"

definition Unpack :: "'fs cache_libs \<Rightarrow> os_env \<Rightarrow> archive_filter option \<Rightarrow> path \<Rightarrow> layer_data \<Rightarrow> fsys \<Rightarrow> fsys \<times> goerr option" where
  "Unpack L E flt p layer fs =
     (if il_HelmChartSupport L \<and> ly_MediaType layer = ChartLayerMediaType
      then (case storeChartLayer L E p layer fs of
              (fs1, Some err) \<Rightarrow> (fs1, Some (ErrWrap (''error applying chart layer['' @ show_nat (ly_Index layer) @ '']: '') err))
            | (fs1, None) \<Rightarrow> (fs1, None))
      else (case il_Apply L flt p (ly_Reader layer) fs of
              (fs1, Some err) \<Rightarrow> (fs1, Some (ErrWrap (''error applying layer['' @ show_nat (ly_Index layer) @ '']: '') err))
            | (fs1, None) \<Rightarrow> (fs1, None)))"

fun unpack_layers :: "'fs cache_libs \<Rightarrow> os_env \<Rightarrow> archive_filter option \<Rightarrow> path \<Rightarrow> layer_data list \<Rightarrow> fsys \<Rightarrow> fsys \<times> goerr option" where
  "unpack_layers L E flt dest [] fs =
     (case SetReadOnlyRecursive E dest fs of
        (fs1, Some err) \<Rightarrow> (fs1, Some (ErrWrap ''error making unpack directory read-only: '' err))
      | (fs1, None) \<Rightarrow> (fs1, None))"
| "unpack_layers L E flt dest (layer # layers) fs =
     (case ly_Err layer of
        Some err \<Rightarrow> (fs, Some (ErrWrap (''error reading layer['' @ show_nat (ly_Index layer) @ '']: '') err))
      | None \<Rightarrow>
          (case Unpack L E flt dest layer fs of
             (fs1, Some err) \<Rightarrow> (fs1, Some (ErrWrap ''unpacking layer: '' err))
           | (fs1, None) \<Rightarrow> unpack_layers L E flt dest layers fs1))"

definition cache_Store ::
  "'fs cache_libs \<Rightarrow> os_env \<Rightarrow> disk_cache \<Rightarrow> string \<Rightarrow> bool \<Rightarrow> string \<Rightarrow> labels \<Rightarrow> layer_data list \<Rightarrow> fsys \<Rightarrow> fsys \<times> (path \<times> int) res" where
  "cache_Store L E a ownerID specIsCanonical digest image_Labels layers fs =
     (case (case dc_filterFunc a of None \<Rightarrow> Inr None | Some filterFunc \<Rightarrow> map_sum id Some (filterFunc specIsCanonical image_Labels)) of
        Inl err \<Rightarrow> (fs, Inl err)
      | Inr flt \<Rightarrow>
          (let dest = unpackPath a ownerID digest
           in case EnsureEmptyDirectory E dest 448 fs of
                (fs1, Some err) \<Rightarrow> (fs1, Inl (ErrWrap ''error ensuring empty unpack directory: '' err))
              | (fs1, None) \<Rightarrow>
                  (case unpack_layers L E flt dest layers fs1 of
                     (fs2, Some err) \<Rightarrow>
                       (case DeleteReadOnlyRecursive E dest fs2 of (fs3, oerr) \<Rightarrow> (fs3, Inl (the (join_opts [Some err, oerr]))))
                   | (fs2, None) \<Rightarrow>
                       (case GetDirectoryModTime E dest fs2 of
                          Inl err \<Rightarrow> (fs2, Inl (ErrWrap ''error getting mod time of unpack directory: '' err))
                        | Inr modTime \<Rightarrow> (fs2, Inr (dest, modTime))))))"

definition cache_Delete :: "os_env \<Rightarrow> disk_cache \<Rightarrow> string \<Rightarrow> fsys \<Rightarrow> fsys \<times> goerr option" where
  "cache_Delete E a ownerID fs = DeleteReadOnlyRecursive E (ownerIDPath a ownerID) fs"

fun delete_names :: "os_env \<Rightarrow> path \<Rightarrow> string list \<Rightarrow> fsys \<Rightarrow> fsys \<times> goerr option" where
  "delete_names E dir [] fs = (fs, None)"
| "delete_names E dir (n # ns) fs =
     (case DeleteReadOnlyRecursive E (dir @ [n]) fs of
        (fs1, Some err) \<Rightarrow> (fs1, Some (ErrWrap (''error removing entry '' @ n @ '': '') err))
      | (fs1, None) \<Rightarrow> delete_names E dir ns fs1)"

definition GarbageCollect :: "os_env \<Rightarrow> disk_cache \<Rightarrow> string \<Rightarrow> string \<Rightarrow> fsys \<Rightarrow> fsys \<times> goerr option" where
  "GarbageCollect E a ownerID keep fs =
     (let dir = ownerIDPath a ownerID
      in case sys_ReadDir E dir fs of
           Inl err \<Rightarrow> if as_status err = Some ''fs.ErrNotExist'' then (fs, None) else (fs, Some (ErrWrap ''error reading owner directory: '' err))
         | Inr entries \<Rightarrow>
             (case delete_names E dir (filter (\<lambda>n. n \<noteq> keep) entries) fs of
                (fs1, Some err) \<Rightarrow> (fs1, Some err)
              | (fs1, None) \<Rightarrow>
                  if keep \<notin> set entries
                  then (case DeleteReadOnlyRecursive E dir fs1 of
                          (fs2, Some err) \<Rightarrow> (fs2, Some (ErrWrap ''error deleting unused owner data: '' err))
                        | (fs2, None) \<Rightarrow> (fs2, None))
                  else (fs1, None)))"

section \<open>Filters of paths\<close>

lemma strip_common_append: "strip_common bs ts = (b, t) \<Longrightarrow> \<exists>c. bs = c @ b \<and> ts = c @ t \<and> (b = [] \<or> t = [] \<or> hd b \<noteq> hd t)"
proof (induction bs ts rule: strip_common.induct)
  case (1 b bs t ts)
  then show ?case by (cases "b = t") (auto intro: exI [of _ "t # c" for c])
qed auto

definition dots_first :: "string list \<Rightarrow> bool" where
  "dots_first acc \<longleftrightarrow> (\<exists>k xs. acc = replicate k ''..'' @ xs \<and> ''..'' \<notin> set xs)"

lemma path_step_dots: "dots_first acc \<Longrightarrow> dots_first (path_step rooted acc c)"
proof -
  assume "dots_first acc"
  then obtain k xs where acc: "acc = replicate k ''..'' @ xs" "''..'' \<notin> set xs" by (auto simp: dots_first_def)
  show ?thesis
  proof (cases "c = ''..''")
    case True
    show ?thesis
    proof (cases "xs = []")
      case True
      then have "path_step rooted acc c = acc \<or> path_step rooted acc c = replicate (Suc k) ''..''"
        using acc \<open>c = ''..''\<close> by (auto simp: path_step_def replicate_append_same)
      then show ?thesis using acc unfolding dots_first_def by (metis append_Nil2 empty_iff list.set(1))
    next
      case False
      then have "last xs \<noteq> ''..''" using acc(2) last_in_set by metis
      with False have "path_step rooted acc c = replicate k ''..'' @ butlast xs"
        using acc(1) \<open>c = ''..''\<close> by (simp add: path_step_def butlast_append)
      then show ?thesis using acc(2) in_set_butlastD unfolding dots_first_def by metis
    qed
  next
    case False
    then have "path_step rooted acc c = replicate k ''..'' @ (if c = [] \<or> c = ''.'' then xs else xs @ [c])" by (simp add: path_step_def acc(1))
    then show ?thesis using acc(2) False unfolding dots_first_def by (intro exI conjI) (assumption, auto)
  qed
qed

lemma path_Clean_dots: "path_Clean p = (rooted, xs) \<Longrightarrow> dots_first xs"
proof -
  have "dots_first acc \<Longrightarrow> dots_first (foldl (path_step rooted) acc cs)" for acc cs
    by (induction cs arbitrary: acc) (simp_all add: path_step_dots)
  moreover have "dots_first []" by (auto simp: dots_first_def)
  ultimately show "path_Clean p = (rooted, xs) \<Longrightarrow> dots_first xs" by (auto simp: path_Clean_def Let_def)
qed

lemma dots_first_append: "dots_first (c @ t) \<Longrightarrow> c \<noteq> [] \<Longrightarrow> hd c \<noteq> ''..'' \<Longrightarrow> ''..'' \<notin> set t"
proof -
  assume "dots_first (c @ t)" "c \<noteq> []" "hd c \<noteq> ''..''"
  then obtain k xs where k: "c @ t = replicate k ''..'' @ xs" "''..'' \<notin> set xs" by (auto simp: dots_first_def)
  have "k = 0" using k(1) \<open>c \<noteq> []\<close> \<open>hd c \<noteq> ''..''\<close> by (cases k; cases c) auto
  then show ?thesis using k by auto
qed

text \<open>
  Only the labelled directory of a catalog image is unpacked.  For a label without steps upwards and entries that are not rooted, an entry passes the filter exactly
  when its cleaned path is the labelled path or below it and does not climb out of the archive.
\<close>

lemma onlyPath_keeps_iff:
  assumes "path_Clean (TrimPrefix p ''/'') = (False, want)" and "''..'' \<notin> set want" and "path_Clean (TrimPrefix (th_Name h) ''/'') = (False, entry)"
  shows "onlyPath p h = (h, Inr True) \<longleftrightarrow> within want entry \<and> \<not> (entry \<noteq> [] \<and> hd entry = ''..'')"
proof -
  obtain b t where st: "strip_common want entry = (b, t)" by fastforce
  then obtain c where c: "want = c @ b" "entry = c @ t" "b = [] \<or> t = [] \<or> hd b \<noteq> hd t" using strip_common_append by blast
  have "b \<noteq> [] \<Longrightarrow> hd b \<noteq> ''..''" "c \<noteq> [] \<Longrightarrow> hd c \<noteq> ''..''" using assms(2) c(1) by (metis Un_iff hd_in_set set_append)+
  moreover have "within want entry \<longleftrightarrow> b = []" unfolding c(1,2) within_prefix_cancel using c(3) by (cases b; cases t) auto
  moreover have "filepath_Rel (False, want) (False, entry) = Inr (replicate (length b) ''..'' @ t)"
    using st calculation(1) by (cases b) (simp_all add: filepath_Rel_def)
  moreover have "c \<noteq> [] \<Longrightarrow> t = [] \<or> hd t \<noteq> ''..''"
    using dots_first_append [of c t] path_Clean_dots [OF assms(3)] calculation(2) c(2) by (cases t) auto
  ultimately show ?thesis
    using c unfolding onlyPath_def Let_def assms(1,3) by (cases b; cases c) auto
qed

section \<open>What unpacking keeps\<close>

text \<open>
  The archive library changes nothing outside the directory it unpacks to and keeps this directory; Helm refuses charts whose name is no file name.
\<close>

definition cache_laws :: "'fs cache_libs \<Rightarrow> bool" where
  "cache_laws L \<longleftrightarrow>
     (\<forall>flt p data fs q. \<not> within p q \<longrightarrow> map_of (fst (il_Apply L flt p data fs)) q = map_of fs q)
     \<and> (\<forall>flt p data fs. is_dir fs p \<longrightarrow> is_dir (fst (il_Apply L flt p data fs)) p)
     \<and> (\<forall>data c t m. inspectChart (il_Charts L) data = Inr (c, t, m) \<longrightarrow> safe_name (cm_Name m @ ''-'' @ cm_Version m @ ''.tgz''))"

lemma storeChartLayer_keeps:
  assumes "cache_laws L"
  shows "\<not> within p q \<Longrightarrow> map_of (fst (storeChartLayer L E p layer fs)) q = map_of fs q" and "is_dir fs p \<Longrightarrow> is_dir (fst (storeChartLayer L E p layer fs)) p"
proof -
  have written: "map_of (fst (sys_WriteFile E 384 (filepath_Join p [n]) data fs)) q = map_of fs q" if "safe_name n" "\<not> within p q \<or> q = p" for n data q
  proof -
    have "p @ [n] \<noteq> q" using that(2) by auto
    then show ?thesis by (simp add: Join_safe [OF that(1)] WriteFile_apart)
  qed
  have "map_of (fst (storeChartLayer L E p layer fs)) q = map_of fs q" if "\<not> within p q \<or> q = p" for q
    using assms written [OF _ that] unfolding storeChartLayer_def cache_laws_def
    by (auto split: option.splits sum.splits prod.splits) (metis fst_conv)+
  then show "\<not> within p q \<Longrightarrow> map_of (fst (storeChartLayer L E p layer fs)) q = map_of fs q" "is_dir fs p \<Longrightarrow> is_dir (fst (storeChartLayer L E p layer fs)) p"
    by (simp_all add: is_dir_def)
qed

lemma Unpack_fst:
  "fst (Unpack L E flt p layer fs) =
     (if il_HelmChartSupport L \<and> ly_MediaType layer = ChartLayerMediaType then fst (storeChartLayer L E p layer fs) else fst (il_Apply L flt p (ly_Reader layer) fs))"
  by (simp add: Unpack_def split: prod.split option.split)

lemma Unpack_keeps:
  assumes "cache_laws L"
  shows "\<not> within p q \<Longrightarrow> map_of (fst (Unpack L E flt p layer fs)) q = map_of fs q" and "is_dir fs p \<Longrightarrow> is_dir (fst (Unpack L E flt p layer fs)) p"
  using storeChartLayer_keeps(1) [OF assms, of p q E layer fs] storeChartLayer_keeps(2) [OF assms, of fs p E layer] assms
  by (simp_all add: Unpack_fst cache_laws_def)

lemma same_is_dir: "same_node (map_of fs p) (map_of fs' p) \<Longrightarrow> is_dir fs p \<longleftrightarrow> is_dir fs' p"
  by (auto simp: same_node_def is_dir_def split: option.splits)

lemma unpack_layers_keeps:
  assumes "cache_laws L"
  shows "\<not> within dest q \<Longrightarrow> map_of (fst (unpack_layers L E flt dest layers fs)) q = map_of fs q"
    and "is_dir fs dest \<Longrightarrow> is_dir (fst (unpack_layers L E flt dest layers fs)) dest"
proof -
  have "(\<not> within dest q \<longrightarrow> map_of (fst (unpack_layers L E flt dest layers fs)) q = map_of fs q)
      \<and> (is_dir fs dest \<longrightarrow> is_dir (fst (unpack_layers L E flt dest layers fs)) dest)"
  proof (induction layers arbitrary: fs)
    case Nil
    show ?case
      using setModeRecursive_apart [of dest q E 256 320 fs] same_is_dir [OF setModeRecursive_same [of E dest 256 320 fs dest]]
      by (auto simp: SetReadOnlyRecursive_def split: prod.splits option.splits)
  next
    case (Cons layer layers)
    obtain fs1 e where u: "Unpack L E flt dest layer fs = (fs1, e)" by fastforce
    have "\<not> within dest q \<longrightarrow> map_of fs1 q = map_of fs q" "is_dir fs dest \<longrightarrow> is_dir fs1 dest"
      using Unpack_keeps(1) [OF assms, of dest q E flt layer fs] Unpack_keeps(2) [OF assms, of fs dest E flt layer] u by simp_all
    then show ?case using Cons [of fs1] by (cases e) (simp_all add: u split: option.split)
  qed
  then show "\<not> within dest q \<Longrightarrow> map_of (fst (unpack_layers L E flt dest layers fs)) q = map_of fs q"
    "is_dir fs dest \<Longrightarrow> is_dir (fst (unpack_layers L E flt dest layers fs)) dest" by blast+
qed

section \<open>Storing and fetching\<close>

lemma unpack_layers_readonly:
  "cache_laws L \<Longrightarrow> is_dir fs dest \<Longrightarrow> unpack_layers L E flt dest layers fs = (fs', None) \<Longrightarrow>
     \<exists>fs2. SetReadOnlyRecursive E dest fs2 = (fs', None) \<and> is_dir fs2 dest"
proof (induction layers arbitrary: fs)
  case (Cons layer layers)
  then obtain fs1 where u: "Unpack L E flt dest layer fs = (fs1, None)" "unpack_layers L E flt dest layers fs1 = (fs', None)"
    by (auto split: option.splits prod.splits)
  then have "is_dir fs1 dest" using Unpack_keeps(2) [OF Cons(2,3), of E flt layer] by simp
  then show ?case using Cons(1) [OF Cons(2) _ u(2)] by blast
qed (auto split: prod.splits option.splits)

lemma cache_Store_Inr:
  assumes "cache_Store L E a ownerID canonical digest imgLabels layers fs = (fs', Inr (dir, t))"
  shows "\<exists>flt fs1. dir = unpackPath a ownerID digest \<and> EnsureEmptyDirectory E dir 448 fs = (fs1, None)
    \<and> unpack_layers L E flt dir layers fs1 = (fs', None) \<and> GetDirectoryModTime E dir fs' = Inr t"
  using assms unfolding cache_Store_def Let_def by (auto split: sum.splits prod.splits option.splits)

lemma GetDirectoryModTime_Inr: "GetDirectoryModTime E p fs = Inr t \<Longrightarrow> \<exists>i. map_of fs p = Some i \<and> in_Type i = ModeDir \<and> in_ModTime i = t"
  by (auto simp: GetDirectoryModTime_def sys_Stat_def split: option.splits if_splits)

lemma Fetch_dir:
  "oe_Fail E (CallStat (unpackPath a ownerID digest)) = None \<Longrightarrow> map_of fs (unpackPath a ownerID digest) = Some i \<Longrightarrow> in_Type i = ModeDir \<Longrightarrow>
     Fetch E a ownerID digest fs = (fs, Inr (Some (unpackPath a ownerID digest, in_ModTime i)))"
  by (simp add: Fetch_def GetDirectoryModTime_def sys_Stat_def)

text \<open>
  C30: a stored image is complete and protected.  After a successful store the image is found under the same owner and digest with the same directory and
  time, and in the stored directory every file and directory is read-only for its owner, with no devices, pipes or sockets.
\<close>

theorem Store_then_Fetch:
  assumes "cache_laws L" and "env_ok E" and "cache_Store L E a ownerID canonical digest imgLabels layers fs = (fs', Inr (dir, t))"
    and "oe_Fail E' (CallStat dir) = None"
  shows "Fetch E' a ownerID digest fs' = (fs', Inr (Some (dir, t))) \<and> (\<forall>q i. within dir q \<and> map_of fs' q = Some i \<longrightarrow> mode_of 256 320 i)"
proof -
  obtain flt fs1 where run: "dir = unpackPath a ownerID digest" "EnsureEmptyDirectory E dir 448 fs = (fs1, None)"
    "unpack_layers L E flt dir layers fs1 = (fs', None)" "GetDirectoryModTime E dir fs' = Inr t"
    using cache_Store_Inr [OF assms(3)] by blast
  have "is_dir fs1 dir" by (rule EnsureEmptyDirectory_ok(1) [OF assms(2) run(2)])
  from unpack_layers_readonly [OF assms(1) this run(3)] obtain fs2 where ro: "SetReadOnlyRecursive E dir fs2 = (fs', None)" "is_dir fs2 dir" by blast
  have "map_of fs2 dir \<noteq> None" using ro(2) by (auto simp: is_dir_def split: option.splits)
  note modes = setModeRecursive_ok [OF assms(2) this ro(1) [unfolded SetReadOnlyRecursive_def]]
  show ?thesis
    using Fetch_dir [of E' a ownerID digest fs'] GetDirectoryModTime_Inr [OF run(4)] assms(4) modes run(1) by blast
qed

text \<open>
  C32: a failed unpack is served when it left a special file behind.  When unpacking fails and the directory holds a device, pipe or socket, no other failure being
  needed, the removal of the partial directory is refused as well: the store reports an error, and the next fetch of the same digest finds the directory
  and reports the image as unpacked.
\<close>

theorem failed_unpack_served:
  assumes "cache_laws L" and "env_ok E" and "dest = unpackPath a ownerID digest"
    and "(case dc_filterFunc a of None \<Rightarrow> Inr None | Some f \<Rightarrow> map_sum id Some (f canonical imgLabels)) = Inr flt"
    and "EnsureEmptyDirectory E dest 448 fs = (fs1, None)" and "unpack_layers L E flt dest layers fs1 = (fs2, Some err)"
    and "within dest q" and "map_of fs2 q = Some i" and "in_Type i = ModeIrregular" and "oe_Fail E (CallStat dest) = None"
  shows "\<exists>fs3 e t. cache_Store L E a ownerID canonical digest imgLabels layers fs = (fs3, Inl e) \<and> Fetch E a ownerID digest fs3 = (fs3, Inr (Some (dest, t)))"
proof -
  have "is_dir fs2 dest"
    using unpack_layers_keeps(2) [OF assms(1) EnsureEmptyDirectory_ok(1) [OF assms(2,5)], of E flt layers] assms(6) by simp
  then obtain j where j: "map_of fs2 dest = Some j" "in_Type j = ModeDir" by (auto simp: is_dir_def split: option.splits)
  obtain fs3 e where del: "DeleteReadOnlyRecursive E dest fs2 = (fs3, Some e)" "same_node (map_of fs3 dest) (map_of fs2 dest)"
    using Delete_irregular(1) [OF assms(2) _ assms(7-9)] Delete_irregular(2) [OF assms(2) _ assms(7-9), of dest] j(1) by (metis option.distinct(1) prod.collapse fst_conv)
  have "cache_Store L E a ownerID canonical digest imgLabels layers fs = (fs3, Inl (the (join_opts [Some err, Some e])))"
    unfolding cache_Store_def assms(4) using assms(3,5,6) del(1) by (simp add: Let_def)
  moreover obtain k where "map_of fs3 dest = Some k" "in_Type k = ModeDir" using del(2) j by (auto simp: same_node_def)
  ultimately show ?thesis using Fetch_dir [of E a ownerID digest fs3 k] assms(3,10) by (intro exI conjI) simp_all
qed

section \<open>Garbage collection\<close>

lemma delete_names_entries:
  "fst (delete_names E dir ns fs) = fst (delete_entries E (map (\<lambda>n. dir @ [n]) ns) fs)"
  "snd (delete_names E dir ns fs) = None \<longleftrightarrow> snd (delete_entries E (map (\<lambda>n. dir @ [n]) ns) fs) = None"
  by (induction E dir ns fs rule: delete_names.induct) (auto split: prod.split option.split)

lemma Delete_fst_err:
  "fst (case DeleteReadOnlyRecursive E p fs of (fs2, Some err) \<Rightarrow> (fs2, Some (f err)) | (fs2, None) \<Rightarrow> (fs2, None)) = fst (DeleteReadOnlyRecursive E p fs)"
  by (simp split: prod.split option.split)

lemma GarbageCollect_apart:
  assumes "\<not> within (ownerIDPath a ownerID) q"
  shows "map_of (fst (GarbageCollect E a ownerID keep fs)) q = map_of fs q"
proof -
  let ?dir = "ownerIDPath a ownerID"
  have "\<forall>p \<in> set (map (\<lambda>n. ?dir @ [n]) ns). \<not> within p q" for ns using assms within_trans [OF within_append] by auto
  then have names: "map_of (fst (delete_names E ?dir ns fs)) q = map_of fs q" for ns
    unfolding delete_names_entries(1) by (rule delete_entries_apart)
  show ?thesis
  proof (cases "sys_ReadDir E ?dir fs")
    case (Inr entries)
    obtain fs1 e where d: "delete_names E ?dir (filter (\<lambda>n. n \<noteq> keep) entries) fs = (fs1, e)" by fastforce
    then have "map_of fs1 q = map_of fs q" using names [of "filter (\<lambda>n. n \<noteq> keep) entries"] by simp
    then show ?thesis using Delete_apart [OF assms, of E fs1] by (cases e) (simp_all add: GarbageCollect_def Let_def Inr d Delete_fst_err)
  qed (simp add: GarbageCollect_def Let_def)
qed

lemma GarbageCollect_ok:
  assumes "env_ok E" and "GarbageCollect E a ownerID keep fs = (fs', None)"
  shows "d \<noteq> keep \<Longrightarrow> map_of fs' (ownerIDPath a ownerID @ d # q) = None"
    and "map_of fs' (ownerIDPath a ownerID @ keep # q) = map_of fs (ownerIDPath a ownerID @ keep # q)"
proof -
  let ?dir = "ownerIDPath a ownerID"
  have "(d \<noteq> keep \<longrightarrow> map_of fs' (?dir @ d # q) = None) \<and> map_of fs' (?dir @ keep # q) = map_of fs (?dir @ keep # q)"
  proof (cases "sys_ReadDir E ?dir fs")
    case (Inl err)
    then have "as_status err = Some ''fs.ErrNotExist''" "fs' = fs" using assms(2) by (auto simp: GarbageCollect_def Let_def split: if_splits)
    moreover from this have "\<not> fs_exists fs ?dir"
      using Inl assms(1) by (auto simp: sys_ReadDir_def env_ok_def ErrNotDir_def split: option.splits if_splits)
    ultimately show ?thesis using fs_exists_map_of [of fs ?dir] by auto
  next
    case (Inr entries)
    let ?ps = "map (\<lambda>n. ?dir @ [n]) (filter (\<lambda>n. n \<noteq> keep) entries)"
    obtain fs1 where names: "delete_names E ?dir (filter (\<lambda>n. n \<noteq> keep) entries) fs = (fs1, None)"
      and final: "fs' = (if keep \<notin> set entries then fst (DeleteReadOnlyRecursive E ?dir fs1) else fs1)"
      using assms(2) by (auto simp: GarbageCollect_def Let_def Inr split: prod.splits option.splits if_splits)
    have d: "delete_entries E ?ps fs = (fs1, None)"
      using names delete_names_entries [of E ?dir "filter (\<lambda>n. n \<noteq> keep) entries" fs] by (simp add: prod_eq_iff)
    have gone: "map_of fs1 (?dir @ d # q) = None" if "d \<noteq> keep"
    proof (cases "map_of fs (?dir @ d # q)")
      case None
      then show ?thesis using delete_entries_none [OF None, of E ?ps] d by simp
    next
      case (Some i)
      then have "?dir @ [d] \<in> set ?ps" using ReadDir_children [OF Inr, of d q] that by auto
      then show ?thesis using delete_entries_gone [OF d, of "?dir @ [d]" "?dir @ d # q"] by simp
    qed
    have kept: "map_of fs1 (?dir @ keep # q) = map_of fs (?dir @ keep # q)"
      using delete_entries_apart [of ?ps "?dir @ keep # q" E fs] d by auto
    have "map_of fs (?dir @ keep # q) = None" if "keep \<notin> set entries" using ReadDir_children [OF Inr, of keep q] that by blast
    then show ?thesis using gone kept final Delete_none [of fs1] by auto
  qed
  then show "d \<noteq> keep \<Longrightarrow> map_of fs' (?dir @ d # q) = None" "map_of fs' (?dir @ keep # q) = map_of fs (?dir @ keep # q)" by blast+
qed

section \<open>Contract of the cache\<close>

text \<open>
  What the puller relies on.  \<^verbatim>\<open>view\<close> is the unpacked image of an owner and a digest: a fetch answers with it, a store establishes it, a
  garbage collection keeps one and drops the others of an owner, and no call changes what another owner has.
\<close>

type_synonym image_content = "bool \<times> labels \<times> layer_data list"

locale image_cache =
  fixes fetch :: "'e \<Rightarrow> string \<Rightarrow> string \<Rightarrow> 's \<Rightarrow> 's \<times> 'x option res" and store :: "'e \<Rightarrow> string \<Rightarrow> string \<Rightarrow> image_content \<Rightarrow> 's \<Rightarrow> 's \<times> 'x res"
    and gc :: "'e \<Rightarrow> string \<Rightarrow> string \<Rightarrow> 's \<Rightarrow> 's \<times> goerr option" and view :: "'s \<Rightarrow> string \<Rightarrow> string \<Rightarrow> 'x option"
    and usable :: "'e \<Rightarrow> bool" and valid :: "string \<Rightarrow> bool"
  assumes fetch_view: "usable e \<Longrightarrow> fetch e own d s = (s', Inr r) \<Longrightarrow> view s' own d = r"
    and fetch_other: "valid own \<Longrightarrow> valid own' \<Longrightarrow> own' \<noteq> own \<Longrightarrow> valid d \<Longrightarrow> valid d' \<Longrightarrow> view (fst (fetch e own d s)) own' d' = view s own' d'"
    and store_view: "usable e \<Longrightarrow> store e own d img s = (s', Inr x) \<Longrightarrow> view s' own d = Some x"
    and store_other: "usable e \<Longrightarrow> valid own \<Longrightarrow> valid own' \<Longrightarrow> own' \<noteq> own \<Longrightarrow> valid d \<Longrightarrow> valid d' \<Longrightarrow> view (fst (store e own d img s)) own' d' = view s own' d'"
    and gc_keeps: "usable e \<Longrightarrow> valid own \<Longrightarrow> valid d \<Longrightarrow> gc e own d s = (s', None) \<Longrightarrow> view s' own d = view s own d"
    and gc_drops: "usable e \<Longrightarrow> valid own \<Longrightarrow> valid d' \<Longrightarrow> d' \<noteq> d \<Longrightarrow> gc e own d s = (s', None) \<Longrightarrow> view s' own d' = None"
    and gc_other: "valid own \<Longrightarrow> valid own' \<Longrightarrow> own' \<noteq> own \<Longrightarrow> valid d' \<Longrightarrow> view (fst (gc e own d s)) own' d' = view s own' d'"

definition unpacked :: "disk_cache \<Rightarrow> fsys \<Rightarrow> string \<Rightarrow> string \<Rightarrow> (path \<times> int) option" where
  "unpacked a fs ownerID digest =
     (case map_of fs (unpackPath a ownerID digest) of
        Some i \<Rightarrow> if in_Type i = ModeDir then Some (unpackPath a ownerID digest, in_ModTime i) else None
      | None \<Rightarrow> None)"

lemma unpackPath_safe: "safe_name ownerID \<Longrightarrow> safe_name digest \<Longrightarrow> unpackPath a ownerID digest = dc_basePath a @ [ownerID, digest]"
  by (simp add: unpackPath_def ownerIDPath_def Join_safe)

lemma Fetch_view:
  assumes "env_ok E" and "Fetch E a ownerID digest fs = (fs', Inr r)"
  shows "unpacked a fs' ownerID digest = r"
proof -
  let ?p = "unpackPath a ownerID digest"
  consider (hit) t where "GetDirectoryModTime E ?p fs = Inr t" "fs' = fs" "r = Some (?p, t)"
    | (missing) err where "GetDirectoryModTime E ?p fs = Inl err" "as_status err = Some ''fs.ErrNotExist''" "fs' = fs" "r = None"
    | (removed) "DeleteReadOnlyRecursive E ?p fs = (fs', None)" "r = None"
    using assms(2) by (auto simp: Fetch_def Let_def split: sum.splits if_splits prod.splits option.splits)
  then show ?thesis
  proof cases
    case hit
    then show ?thesis using GetDirectoryModTime_Inr [OF hit(1)] by (auto simp: unpacked_def)
  next
    case missing
    then have "map_of fs ?p = None"
      using assms(1) by (auto simp: GetDirectoryModTime_def sys_Stat_def env_ok_def ErrNotDirectory_def split: option.splits if_splits)
    then show ?thesis using missing by (simp add: unpacked_def)
  next
    case removed
    then show ?thesis using Delete_gone [OF removed(1), of ?p] by (simp add: unpacked_def)
  qed
qed

lemma unpacked_cong: "map_of fs' (unpackPath a own d) = map_of fs (unpackPath a own d) \<Longrightarrow> unpacked a fs' own d = unpacked a fs own d"
  by (simp add: unpacked_def)

lemma other_owner_apart: "safe_name own \<Longrightarrow> safe_name own' \<Longrightarrow> own' \<noteq> own \<Longrightarrow> safe_name d' \<Longrightarrow> \<not> within (ownerIDPath a own) (unpackPath a own' d')"
  by (simp add: unpackPath_safe ownerIDPath_def Join_safe)

lemma apart_unpackPath:
  "safe_name own \<Longrightarrow> safe_name own' \<Longrightarrow> own' \<noteq> own \<Longrightarrow> safe_name d \<Longrightarrow> safe_name d' \<Longrightarrow> \<not> within (unpackPath a own d) (unpackPath a own' d')"
  by (simp add: unpackPath_safe)

lemma Fetch_apart: "\<not> within (unpackPath a own d) q \<Longrightarrow> map_of (fst (Fetch E a own d fs)) q = map_of fs q"
  using Delete_apart [of "unpackPath a own d" q E fs] by (auto simp: Fetch_def Let_def split: sum.split prod.split option.split)

lemma cache_Store_apart:
  assumes "cache_laws L" and "\<not> within (unpackPath a own d) q" and "\<not> within q (unpackPath a own d)"
  shows "map_of (fst (cache_Store L E a own canonical d imgLabels layers fs)) q = map_of fs q"
proof -
  let ?dest = "unpackPath a own d"
  obtain fs1 e1 where e: "EnsureEmptyDirectory E ?dest 448 fs = (fs1, e1)" by fastforce
  have 1: "map_of fs1 q = map_of fs q" using EnsureEmptyDirectory_apart [OF assms(2,3), of E 448 fs] e by simp
  show ?thesis
  proof (cases "case dc_filterFunc a of None \<Rightarrow> Inr None | Some f \<Rightarrow> map_sum id Some (f canonical imgLabels)")
    case (Inr flt)
    obtain fs2 e2 where u: "unpack_layers L E flt ?dest layers fs1 = (fs2, e2)" by fastforce
    have 2: "map_of fs2 q = map_of fs1 q" using unpack_layers_keeps(1) [OF assms(1,2), of E flt layers fs1] u by simp
    obtain fs3 e3 where r: "DeleteReadOnlyRecursive E ?dest fs2 = (fs3, e3)" by fastforce
    have 3: "map_of fs3 q = map_of fs2 q" using Delete_apart [OF assms(2), of E fs2] r by simp
    show ?thesis unfolding cache_Store_def Inr Let_def using 1 2 3 by (simp add: e u r split: option.split sum.split)
  qed (simp add: cache_Store_def)
qed

lemma cache_Store_view: "cache_Store L E a own canonical d imgLabels layers fs = (fs', Inr x) \<Longrightarrow> unpacked a fs' own d = Some x"
  using cache_Store_Inr [of L E a own canonical d imgLabels layers fs fs' "fst x" "snd x"] GetDirectoryModTime_Inr [of E "fst x" fs' "snd x"]
  by (auto simp: unpacked_def prod_eq_iff)

definition usable_libs :: "os_env \<times> 'fs cache_libs \<Rightarrow> bool" where
  "usable_libs e \<longleftrightarrow> env_ok (fst e) \<and> cache_laws (snd e)"

interpretation disk: image_cache "\<lambda>e. Fetch (fst e) a" "\<lambda>e own d (canonical, imgLabels, layers). cache_Store (snd e) (fst e) a own canonical d imgLabels layers"
  "\<lambda>e. GarbageCollect (fst e) a" "unpacked a" usable_libs safe_name for a
proof (unfold_locales, goal_cases)
  case (1 e own d s s' r)
  then show ?case using Fetch_view [of "fst e" a own d s s' r] by (simp add: usable_libs_def)
next
  case (2 own own' d d' e s)
  then show ?case by (intro unpacked_cong Fetch_apart apart_unpackPath)
next
  case (3 e own d img s s' x)
  then show ?case by (cases img) (auto intro: cache_Store_view)
next
  case (4 e own own' d d' img s)
  then have "\<not> within (unpackPath a own d) (unpackPath a own' d')" "\<not> within (unpackPath a own' d') (unpackPath a own d)"
    using apart_unpackPath by metis+
  then show ?case using 4(1) by (cases img) (auto simp: usable_libs_def intro!: unpacked_cong cache_Store_apart)
next
  case (5 e own d s s')
  then show ?case using GarbageCollect_ok(2) [of "fst e" a own d s s' "[]"]
    by (intro unpacked_cong) (simp add: usable_libs_def unpackPath_def ownerIDPath_def Join_safe)
next
  case (6 e own d' d s s')
  then show ?case using GarbageCollect_ok(1) [of "fst e" a own d s s' d' "[]"]
    by (simp add: usable_libs_def unpacked_def unpackPath_def ownerIDPath_def Join_safe)
next
  case (7 own own' d' e d s)
  then show ?case by (intro unpacked_cong GarbageCollect_apart other_owner_apart)
qed

section \<open>Witnesses\<close>

definition ex_header :: "string \<Rightarrow> tar_header" where
  "ex_header name = \<lparr>th_Name = name, th_Uid = 0, th_Gid = 0, th_Mode = 420, th_PAXRecords = [], th_Xattrs = []\<rparr>"

lemma onlyPath_keeps_iff_witness:
  "onlyPath ''/configs'' (ex_header ''configs/op/catalog.json'') = (ex_header ''configs/op/catalog.json'', Inr True)"
proof -
  have 1: "path_Clean (TrimPrefix ''/configs'' ''/'') = (False, [''configs''])" by code_simp
  have 2: "path_Clean (TrimPrefix (th_Name (ex_header ''configs/op/catalog.json'')) ''/'') = (False, [''configs'', ''op'', ''catalog.json''])" by code_simp
  show ?thesis using onlyPath_keeps_iff [OF 1 _ 2] by simp
qed

definition ex_cache_libs :: "unit cache_libs" where
  "ex_cache_libs = \<lparr>il_Apply = (\<lambda>flt p data fs. (map_put (p @ [''f'']) \<lparr>in_Type = (if data = Inr ''pipe'' then ModeIrregular else ModeRegular ''x''), in_Mode = 420, in_ModTime = 1\<rparr> fs, None)),
     il_Charts = \<lparr>fs_ReadDir = (\<lambda>_. []), fs_ReadFile = (\<lambda>_ _. Inr []), LoadArchive = (\<lambda>_. Inl (ErrText ''no chart''))\<rparr>, il_HelmChartSupport = False, il_Uid = 0, il_Gid = 0\<rparr>"

definition ex_layers :: "string \<Rightarrow> layer_data list" where
  "ex_layers data = [\<lparr>ly_MediaType = ''layer'', ly_Reader = Inr data, ly_Index = 0, ly_Err = None\<rparr>]"

definition ex_disk :: disk_cache where
  "ex_disk = BundleCache ex_cache_libs [''cache'']"

lemma ex_cache_laws: "cache_laws ex_cache_libs"
  by (auto simp: cache_laws_def ex_cache_libs_def is_dir_def inspectChart_def)

lemma ex_stored: "snd (cache_Store ex_cache_libs ex_env ex_disk ''own'' True ''sha256:1'' [] (ex_layers ''x'') ex_fsys) = Inr ([''cache'', ''own'', ''sha256:1''], 0)"
  by code_simp

theorem Store_then_Fetch_witness:
  "let fs' = fst (cache_Store ex_cache_libs ex_env ex_disk ''own'' True ''sha256:1'' [] (ex_layers ''x'') ex_fsys)
   in Fetch ex_env ex_disk ''own'' ''sha256:1'' fs' = (fs', Inr (Some ([''cache'', ''own'', ''sha256:1''], 0)))"
proof -
  have "cache_Store ex_cache_libs ex_env ex_disk ''own'' True ''sha256:1'' [] (ex_layers ''x'') ex_fsys =
      (fst (cache_Store ex_cache_libs ex_env ex_disk ''own'' True ''sha256:1'' [] (ex_layers ''x'') ex_fsys), Inr ([''cache'', ''own'', ''sha256:1''], 0))"
    using ex_stored by (simp add: prod_eq_iff)
  from Store_then_Fetch [OF ex_cache_laws ex_env_ok(2) this ex_env_ok(1)] show ?thesis by (simp add: Let_def)
qed

definition ex_emptied :: fsys where
  "ex_emptied = fst (EnsureEmptyDirectory ex_env (unpackPath ex_disk ''own'' ''sha256:1'') 448 ex_fsys)"

definition ex_piped :: fsys where
  "ex_piped = fst (unpack_layers ex_cache_libs ex_env (Some (forceOwnershipRWX 0 0)) (unpackPath ex_disk ''own'' ''sha256:1'') (ex_layers ''pipe'') ex_emptied)"

lemma ex_pipe_run:
  "snd (EnsureEmptyDirectory ex_env (unpackPath ex_disk ''own'' ''sha256:1'') 448 ex_fsys) = None"
  "snd (unpack_layers ex_cache_libs ex_env (Some (forceOwnershipRWX 0 0)) (unpackPath ex_disk ''own'' ''sha256:1'') (ex_layers ''pipe'') ex_emptied) \<noteq> None"
  "map_of ex_piped [''cache'', ''own'', ''sha256:1'', ''f''] = Some \<lparr>in_Type = ModeIrregular, in_Mode = 420, in_ModTime = 1\<rparr>"
  "unpackPath ex_disk ''own'' ''sha256:1'' = [''cache'', ''own'', ''sha256:1'']"
  by code_simp+

theorem failed_unpack_served_witness:
  "\<exists>fs3 e t. cache_Store ex_cache_libs ex_env ex_disk ''own'' True ''sha256:1'' [] (ex_layers ''pipe'') ex_fsys = (fs3, Inl e)
     \<and> Fetch ex_env ex_disk ''own'' ''sha256:1'' fs3 = (fs3, Inr (Some (unpackPath ex_disk ''own'' ''sha256:1'', t)))"
proof -
  let ?dest = "unpackPath ex_disk ''own'' ''sha256:1''"
  have flt: "(case dc_filterFunc ex_disk of None \<Rightarrow> Inr None | Some f \<Rightarrow> map_sum id Some (f True [])) = Inr (Some (forceOwnershipRWX 0 0))"
    by (simp add: ex_disk_def BundleCache_def ex_cache_libs_def)
  have 1: "EnsureEmptyDirectory ex_env ?dest 448 ex_fsys = (ex_emptied, None)" using ex_pipe_run(1) by (simp add: ex_emptied_def prod_eq_iff)
  obtain err where 2: "unpack_layers ex_cache_libs ex_env (Some (forceOwnershipRWX 0 0)) ?dest (ex_layers ''pipe'') ex_emptied = (ex_piped, Some err)"
    using ex_pipe_run(2) by (auto simp: ex_piped_def prod_eq_iff)
  show ?thesis
    by (rule failed_unpack_served [OF ex_cache_laws ex_env_ok(2) refl flt 1 2 _ ex_pipe_run(3) _ ex_env_ok(1)]) (simp_all add: ex_pipe_run(4))
qed

end
