(* ===== verification/ImagePull.thy ===== *)
theory ImagePull
  imports ImageCache
begin

text \<open>
  Pulling of images into a cache (\<^verbatim>\<open>internal/shared/util/image/pull.go\<close>, and the pulling of charts of \<^verbatim>\<open>helm.go\<close>).
  The registry, the copy of an image into a temporary layout and the signature policy are arguments; the image copied is what the registry holds under the
  reference when the copy runs.  The cache is given by its operations.
\<close>

section \<open>Puller\<close>

record named_ref =
  nr_Name :: string
  nr_Tag :: string
  nr_Digest :: "string option"

record blob_layer =
  bl_MediaType :: string
  bl_Blob :: "string res"
  bl_Decompressed :: "string \<Rightarrow> string res"

record pulled_image =
  pi_Manifest :: string
  pi_Source :: "goerr option"
  pi_FromSource :: "goerr option"
  pi_CloseSource :: "goerr option"
  pi_Close :: "goerr option"
  pi_ConfigMediaType :: string
  pi_OCIConfig :: "labels res"
  pi_LayerInfos :: "blob_layer list"
  pi_GetManifest :: "string \<Rightarrow> string res"

record puller =
  ip_SourceCtxFunc :: "goerr option"
  ip_ParseNamed :: "string \<Rightarrow> named_ref res"
  ip_NewReference :: "named_ref \<Rightarrow> goerr option"
  ip_NewImageSource :: "named_ref \<Rightarrow> goerr option"
  ip_GetManifest :: "named_ref \<Rightarrow> string res"
  ip_Digest :: "string \<Rightarrow> string res"
  ip_WithDigest :: "string \<Rightarrow> string \<Rightarrow> goerr option"
  ip_MkdirTemp :: "goerr option"
  ip_LayoutReference :: "named_ref \<Rightarrow> goerr option"
  ip_DefaultPolicy :: "goerr option"
  ip_NewPolicyFromBytes :: "goerr option"
  ip_NewPolicyContext :: "goerr option"
  ip_CopyImage :: "named_ref \<Rightarrow> pulled_image res"
  ip_UnmarshalManifest :: "string \<Rightarrow> blob_layer list res"
  ip_HelmChartSupport :: bool

definition resolveCanonicalRef :: "puller \<Rightarrow> named_ref \<Rightarrow> named_ref res" where
  "resolveCanonicalRef p imgRef =
     (if nr_Digest imgRef \<noteq> None then Inr imgRef
      else case ip_NewImageSource p imgRef of
             Some err \<Rightarrow> Inl (ErrWrap ''error creating image source: '' err)
           | None \<Rightarrow>
               (case ip_GetManifest p imgRef of
                  Inl err \<Rightarrow> Inl (ErrWrap ''error getting manifest: '' err)
                | Inr manifestBlob \<Rightarrow>
                    (case ip_Digest p manifestBlob of
                       Inl err \<Rightarrow> Inl (ErrWrap ''error getting digest of manifest: '' err)
                     | Inr imgDigest \<Rightarrow>
                         (case ip_WithDigest p (nr_Name imgRef) imgDigest of
                            Some err \<Rightarrow> Inl (ErrWrap ''error creating canonical reference: '' err)
                          | None \<Rightarrow> Inr \<lparr>nr_Name = nr_Name imgRef, nr_Tag = [], nr_Digest = Some imgDigest\<rparr>))))"

definition loadPolicyContext :: "puller \<Rightarrow> goerr option" where
  "loadPolicyContext p =
     (case (if ip_DefaultPolicy p \<noteq> None then ip_NewPolicyFromBytes p else None) of
        Some err \<Rightarrow> Some (ErrWrap ''error loading signature policy: '' err)
      | None \<Rightarrow> ip_NewPolicyContext p)"

definition layer_of :: "nat \<Rightarrow> blob_layer \<Rightarrow> layer_data" where
  "layer_of i layerInfo =
     (let layer = (\<lambda>r e. \<lparr>ly_MediaType = bl_MediaType layerInfo, ly_Reader = r, ly_Index = i, ly_Err = e\<rparr>)
      in case bl_Blob layerInfo of
           Inl err \<Rightarrow> layer (Inl nil_deref) (Some (ErrWrap ''error getting layer blob reader: '' err))
         | Inr blob \<Rightarrow>
             (case bl_Decompressed layerInfo blob of
                Inl err \<Rightarrow> layer (Inl nil_deref) (Some (ErrWrap ''error decompressing layer: '' err))
              | Inr data \<Rightarrow> layer (Inr data) None))"

definition hasChart :: "pulled_image \<Rightarrow> bool" where
  "hasChart img \<longleftrightarrow> pi_ConfigMediaType img = ''application/vnd.cncf.helm.config.v1+json''"

abbreviation ProvLayerMediaType :: string where "ProvLayerMediaType \<equiv> ''application/vnd.cncf.helm.chart.provenance.v1.prov''"

definition chart_layer :: "nat \<Rightarrow> blob_layer \<Rightarrow> layer_data" where
  "chart_layer i layer =
     (if bl_MediaType layer = ChartLayerMediaType
      then (case bl_Blob layer of
              Inl err \<Rightarrow> \<lparr>ly_MediaType = bl_MediaType layer, ly_Reader = Inl nil_deref, ly_Index = i, ly_Err = Some err\<rparr>
            | Inr blob \<Rightarrow> \<lparr>ly_MediaType = bl_MediaType layer, ly_Reader = Inr blob, ly_Index = i, ly_Err = None\<rparr>)
      else \<lparr>ly_MediaType = bl_MediaType layer, ly_Reader = Inl nil_deref, ly_Index = i, ly_Err = None\<rparr>)"

definition pullChart ::
  "puller \<Rightarrow> ('e \<Rightarrow> string \<Rightarrow> string \<Rightarrow> image_content \<Rightarrow> 's \<Rightarrow> 's \<times> 'x res) \<Rightarrow> 'e \<Rightarrow> string \<Rightarrow> named_ref \<Rightarrow> string \<Rightarrow> pulled_image \<Rightarrow> 's \<Rightarrow> 's \<times> 'x res" where
  "pullChart p store e ownerID srcRef digest img s =
     (case pi_GetManifest img digest of
        Inl err \<Rightarrow> (s, Inl (ErrWrap ''get OCI helm chart manifest; '' err))
      | Inr raw \<Rightarrow>
          (case ip_UnmarshalManifest p raw of
             Inl err \<Rightarrow> (s, Inl (ErrWrap ''unmarshaling chart manifest; '' err))
           | Inr layers \<Rightarrow>
               store e ownerID digest
                 (nr_Digest srcRef \<noteq> None, [],
                  map (\<lambda>(i, l). chart_layer i l) (filter (\<lambda>(i, l). bl_MediaType l \<noteq> ProvLayerMediaType) (enumerate 0 layers))) s))"

definition store_image ::
  "puller \<Rightarrow> ('e \<Rightarrow> string \<Rightarrow> string \<Rightarrow> image_content \<Rightarrow> 's \<Rightarrow> 's \<times> 'x res) \<Rightarrow> 'e \<Rightarrow> string \<Rightarrow> named_ref \<Rightarrow> string \<Rightarrow> pulled_image \<Rightarrow> 's \<Rightarrow> 's \<times> 'x res" where
  "store_image p store e ownerID srcRef digest img s =
     (if ip_HelmChartSupport p \<and> hasChart img then pullChart p store e ownerID srcRef digest img s
      else case pi_OCIConfig img of
             Inl err \<Rightarrow> (s, Inl err)
           | Inr ociLabels \<Rightarrow>
               store e ownerID digest (nr_Digest srcRef \<noteq> None, ociLabels, map (\<lambda>(i, l). layer_of i l) (enumerate 0 (pi_LayerInfos img))) s)"

definition applyImage ::
  "puller \<Rightarrow> ('e \<Rightarrow> string \<Rightarrow> string \<Rightarrow> image_content \<Rightarrow> 's \<Rightarrow> 's \<times> 'x res) \<Rightarrow> 'e \<Rightarrow> string \<Rightarrow> named_ref \<Rightarrow> string \<Rightarrow> pulled_image \<Rightarrow> 's \<Rightarrow> 's \<times> 'x res" where
  "applyImage p store e ownerID srcRef digest img s =
     (case pi_Source img of
        Some err \<Rightarrow> (s, Inl (ErrWrap ''error creating image source: '' err))
      | None \<Rightarrow>
          (case pi_FromSource img of
             Some err \<Rightarrow> (s, Inl (the (join_opts [Some (ErrWrap ''error reading image: '' err), pi_CloseSource img])))
           | None \<Rightarrow>
               (case store_image p store e ownerID srcRef digest img s of
                  (s1, r) \<Rightarrow> (s1, case pi_Close img of Some err \<Rightarrow> Inl (ErrPanic (Error err)) | None \<Rightarrow> r))))"

definition copy_image :: "puller \<Rightarrow> named_ref \<Rightarrow> named_ref \<Rightarrow> pulled_image res" where
  "copy_image p dockerRef canonicalRef =
     (case ip_MkdirTemp p of
        Some err \<Rightarrow> Inl (ErrWrap ''error creating temporary directory: '' err)
      | None \<Rightarrow>
          (case ip_LayoutReference p canonicalRef of
             Some err \<Rightarrow> Inl (ErrWrap ''error creating reference: '' err)
           | None \<Rightarrow>
               (case loadPolicyContext p of
                  Some err \<Rightarrow> Inl (ErrWrap ''error loading policy context: '' err)
                | None \<Rightarrow>
                    (case ip_CopyImage p dockerRef of
                       Inl err \<Rightarrow> Inl (ErrWrap ''error copying image: '' err)
                     | Inr img \<Rightarrow> Inr img))))"

definition apply_and_collect ::
  "puller \<Rightarrow> ('e \<Rightarrow> string \<Rightarrow> string \<Rightarrow> image_content \<Rightarrow> 's \<Rightarrow> 's \<times> 'x res) \<Rightarrow> ('e \<Rightarrow> string \<Rightarrow> string \<Rightarrow> 's \<Rightarrow> 's \<times> goerr option)
   \<Rightarrow> 'e \<Rightarrow> string \<Rightarrow> named_ref \<Rightarrow> string \<Rightarrow> pulled_image \<Rightarrow> 's \<Rightarrow> 's \<times> 'x res" where
  "apply_and_collect p store gc e ownerID dockerRef digest img s =
     (case applyImage p store e ownerID dockerRef digest img s of
        (s1, Inl err) \<Rightarrow> (s1, Inl (ErrWrap ''error applying image: '' err))
      | (s1, Inr x) \<Rightarrow>
          (case gc e ownerID digest s1 of
             (s2, Some err) \<Rightarrow> (s2, Inl (ErrWrap ''error deleting old images: '' err))
           | (s2, None) \<Rightarrow> (s2, Inr x)))"

definition pull_image ::
  "puller \<Rightarrow> ('e \<Rightarrow> string \<Rightarrow> string \<Rightarrow> 's \<Rightarrow> 's \<times> 'x option res) \<Rightarrow> ('e \<Rightarrow> string \<Rightarrow> string \<Rightarrow> image_content \<Rightarrow> 's \<Rightarrow> 's \<times> 'x res)
   \<Rightarrow> ('e \<Rightarrow> string \<Rightarrow> string \<Rightarrow> 's \<Rightarrow> 's \<times> goerr option) \<Rightarrow> 'e \<Rightarrow> string \<Rightarrow> named_ref \<Rightarrow> 's \<Rightarrow> 's \<times> ('x \<times> named_ref) res" where
  "pull_image p fetch store gc e ownerID dockerRef s =
     (case ip_NewReference p dockerRef of
        Some err \<Rightarrow> (s, Inl (ErrTerminal (ErrWrap ''error creating reference: '' err)))
      | None \<Rightarrow>
          (case resolveCanonicalRef p dockerRef of
             Inl err \<Rightarrow> (s, Inl err)
           | Inr canonicalRef \<Rightarrow>
               (let digest = the (nr_Digest canonicalRef)
                in case fetch e ownerID digest s of
                     (s1, Inl err) \<Rightarrow> (s1, Inl (ErrWrap ''error checking cache for existing content: '' err))
                   | (s1, Inr (Some x)) \<Rightarrow> (s1, Inr (x, canonicalRef))
                   | (s1, Inr None) \<Rightarrow>
                       (case copy_image p dockerRef canonicalRef of
                          Inl err \<Rightarrow> (s1, Inl err)
                        | Inr img \<Rightarrow>
                            (case apply_and_collect p store gc e ownerID dockerRef digest img s1 of
                               (s2, r) \<Rightarrow> (s2, map_sum id (\<lambda>x. (x, canonicalRef)) r))))))"

definition Pull ::
  "puller \<Rightarrow> ('e \<Rightarrow> string \<Rightarrow> string \<Rightarrow> 's \<Rightarrow> 's \<times> 'x option res) \<Rightarrow> ('e \<Rightarrow> string \<Rightarrow> string \<Rightarrow> image_content \<Rightarrow> 's \<Rightarrow> 's \<times> 'x res)
   \<Rightarrow> ('e \<Rightarrow> string \<Rightarrow> string \<Rightarrow> 's \<Rightarrow> 's \<times> goerr option) \<Rightarrow> 'e \<Rightarrow> string \<Rightarrow> string \<Rightarrow> 's \<Rightarrow> 's \<times> ('x \<times> named_ref) res" where
  "Pull p fetch store gc e ownerID ref s =
     (case ip_SourceCtxFunc p of
        Some err \<Rightarrow> (s, Inl err)
      | None \<Rightarrow>
          (case ip_ParseNamed p ref of
             Inl err \<Rightarrow> (s, Inl (ErrTerminal (ErrWrap (''error parsing image reference '' @ quote ref @ '': '') err)))
           | Inr dockerRef \<Rightarrow> pull_image p fetch store gc e ownerID dockerRef s))"

section \<open>What a pull does to the cache\<close>

lemma resolveCanonicalRef_digest: "resolveCanonicalRef p r = Inr c \<Longrightarrow> \<exists>d. nr_Digest c = Some d"
  by (auto simp: resolveCanonicalRef_def split: if_splits option.splits sum.splits)

lemma store_image_store: "store_image p store e own srcRef d img s = (s, snd (store_image p store e own srcRef d img s)) \<and> (\<nexists>x. snd (store_image p store e own srcRef d img s) = Inr x)
   \<or> (\<exists>content. store_image p store e own srcRef d img s = store e own d content s)"
  by (simp add: store_image_def pullChart_def split: sum.split) blast

lemma applyImage_Inr:
  assumes "applyImage p store e own srcRef d img s = (s', Inr x)"
  shows "\<exists>content. store e own d content s = (s', Inr x)"
proof -
  have "store_image p store e own srcRef d img s = (s', Inr x)"
    using assms by (auto simp: applyImage_def split: option.splits prod.splits)
  then show ?thesis using store_image_store [of p store e own srcRef d img s] by (metis snd_conv)
qed

lemma apply_and_collect_Inr:
  "apply_and_collect p store gc e own dockerRef d img s = (s', Inr x) \<Longrightarrow> \<exists>s1. applyImage p store e own dockerRef d img s = (s1, Inr x) \<and> gc e own d s1 = (s', None)"
  by (auto simp: apply_and_collect_def split: prod.splits sum.splits option.splits)

lemma pull_image_Inr:
  assumes "pull_image p fetch store gc e own dockerRef s = (s', Inr (x, c))"
  shows "resolveCanonicalRef p dockerRef = Inr c \<and> (fetch e own (the (nr_Digest c)) s = (s', Inr (Some x)) \<or>
    (\<exists>s1 img s2. applyImage p store e own dockerRef (the (nr_Digest c)) img s1 = (s2, Inr x) \<and> gc e own (the (nr_Digest c)) s2 = (s', None)))"
proof -
  obtain c' where c': "resolveCanonicalRef p dockerRef = Inr c'" using assms by (cases "resolveCanonicalRef p dockerRef") (auto simp: pull_image_def split: option.splits)
  obtain s1 f where f: "fetch e own (the (nr_Digest c')) s = (s1, f)" by fastforce
  have "c' = c \<and> (f = Inr (Some x) \<and> s1 = s' \<or> (\<exists>img. apply_and_collect p store gc e own dockerRef (the (nr_Digest c)) img s1 = (s', Inr x)))"
    using assms unfolding pull_image_def c' by (auto simp: Let_def f map_sum_def split: option.splits sum.splits prod.splits)
  then show ?thesis using c' f apply_and_collect_Inr by metis
qed

context image_cache
begin

lemma pull_ok:
  assumes "usable e" and "valid own" and "pull_image p fetch store gc e own dockerRef s = (s', Inr (x, c))" and "nr_Digest c = Some d" and "valid d"
  shows "view s' own d = Some x"
    and "(\<exists>s1. fetch e own d s = (s1, Inr (Some x))) \<or> (\<forall>d'. valid d' \<longrightarrow> d' \<noteq> d \<longrightarrow> view s' own d' = None)"
proof -
  consider (hit) "fetch e own d s = (s', Inr (Some x))"
    | (miss) s1 s2 img where "applyImage p store e own dockerRef d img s1 = (s2, Inr x)" "gc e own d s2 = (s', None)"
    using pull_image_Inr [OF assms(3)] assms(4) by fastforce
  then have "view s' own d = Some x \<and> ((\<exists>s1. fetch e own d s = (s1, Inr (Some x))) \<or> (\<forall>d'. valid d' \<longrightarrow> d' \<noteq> d \<longrightarrow> view s' own d' = None))"
  proof cases
    case hit
    then show ?thesis using fetch_view [OF assms(1)] by blast
  next
    case miss
    then obtain content where "store e own d content s1 = (s2, Inr x)" using applyImage_Inr [OF miss(1)] by blast
    then have "view s2 own d = Some x" by (rule store_view [OF assms(1)])
    then show ?thesis using gc_keeps [OF assms(1,2,5) miss(2)] gc_drops [OF assms(1,2) _ _ miss(2)] by auto
  qed
  then show "view s' own d = Some x" "(\<exists>s1. fetch e own d s = (s1, Inr (Some x))) \<or> (\<forall>d'. valid d' \<longrightarrow> d' \<noteq> d \<longrightarrow> view s' own d' = None)" by blast+
qed

lemma applyImage_view:
  assumes "usable e" and "valid own" and "valid own'" and "own' \<noteq> own" and "valid d" and "valid d'"
  shows "view (fst (applyImage p store e own srcRef d img s)) own' d' = view s own' d'"
proof -
  have "view (fst (store_image p store e own srcRef d img s)) own' d' = view s own' d'"
    using store_image_store [of p store e own srcRef d img s] store_other [OF assms] by (metis fst_conv)
  then show ?thesis by (auto simp: applyImage_def split: option.split prod.split)
qed

lemma pull_other:
  assumes "usable e" and "valid own" and "valid own'" and "own' \<noteq> own" and "valid d'"
    and "\<And>c. resolveCanonicalRef p dockerRef = Inr c \<Longrightarrow> valid (the (nr_Digest c))"
  shows "view (fst (pull_image p fetch store gc e own dockerRef s)) own' d' = view s own' d'"
proof (cases "resolveCanonicalRef p dockerRef")
  case (Inr c)
  let ?d = "the (nr_Digest c)"
  have d: "valid ?d" by (rule assms(6) [OF Inr])
  obtain s1 r1 where f: "fetch e own ?d s = (s1, r1)" by fastforce
  have 1: "view s1 own' d' = view s own' d'" using fetch_other [OF assms(2-4) d assms(5), of e s] f by simp
  have 2: "view (fst (applyImage p store e own dockerRef ?d img s1)) own' d' = view s1 own' d'" for img
    by (rule applyImage_view [OF assms(1-4) d assms(5)])
  have 3: "view (fst (gc e own ?d s2)) own' d' = view s2 own' d'" for s2 by (rule gc_other [OF assms(2-5)])
  have 4: "view (fst (apply_and_collect p store gc e own dockerRef ?d img s1)) own' d' = view s1 own' d'" for img
  proof -
    obtain s2 r2 where a: "applyImage p store e own dockerRef ?d img s1 = (s2, r2)" by fastforce
    obtain s3 e3 where g: "gc e own ?d s2 = (s3, e3)" by fastforce
    show ?thesis using 2 [of img] 3 [of s2] by (simp add: apply_and_collect_def a g split: sum.split option.split)
  qed
  show ?thesis
    using 1 4 unfolding pull_image_def Inr by (simp add: Let_def f case_prod_beta split: option.split sum.split)
qed (simp add: pull_image_def split: option.split)

end

section \<open>Pulling to disk\<close>

definition disk_Pull :: "puller \<Rightarrow> disk_cache \<Rightarrow> os_env \<times> 'fs cache_libs \<Rightarrow> string \<Rightarrow> string \<Rightarrow> fsys \<Rightarrow> fsys \<times> ((path \<times> int) \<times> named_ref) res" where
  "disk_Pull p a =
     Pull p (\<lambda>e. Fetch (fst e) a) (\<lambda>e own d (canonical, imgLabels, layers). cache_Store (snd e) (fst e) a own canonical d imgLabels layers) (\<lambda>e. GarbageCollect (fst e) a)"


section \<open>Examples\<close>

text \<open>A registry in which the tag of an image is moved to a second image between the resolution of its digest and the copy.\<close>

definition ex_ref :: named_ref where
  "ex_ref = \<lparr>nr_Name = ''quay.io/op/catalog'', nr_Tag = ''latest'', nr_Digest = None\<rparr>"

definition ex_image :: "string \<Rightarrow> pulled_image" where
  "ex_image manifest = \<lparr>pi_Manifest = manifest, pi_Source = None, pi_FromSource = None, pi_CloseSource = None, pi_Close = None, pi_ConfigMediaType = [],
     pi_OCIConfig = Inr [], pi_LayerInfos = [\<lparr>bl_MediaType = ''layer'', bl_Blob = Inr manifest, bl_Decompressed = Inr\<rparr>], pi_GetManifest = (\<lambda>_. Inr manifest)\<rparr>"

definition ex_puller :: "string \<Rightarrow> string \<Rightarrow> puller" where
  "ex_puller resolved copied = \<lparr>ip_SourceCtxFunc = None, ip_ParseNamed = (\<lambda>_. Inr ex_ref), ip_NewReference = (\<lambda>_. None), ip_NewImageSource = (\<lambda>_. None),
     ip_GetManifest = (\<lambda>_. Inr resolved), ip_Digest = (\<lambda>m. Inr (''sha256:'' @ m)), ip_WithDigest = (\<lambda>_ _. None), ip_MkdirTemp = None, ip_LayoutReference = (\<lambda>_. None),
     ip_DefaultPolicy = None, ip_NewPolicyFromBytes = None, ip_NewPolicyContext = None, ip_CopyImage = (\<lambda>_. Inr (ex_image copied)), ip_UnmarshalManifest = (\<lambda>_. Inr []),
     ip_HelmChartSupport = False\<rparr>"

definition ex_copy_libs :: "unit cache_libs" where
  "ex_copy_libs = ex_cache_libs\<lparr>il_Apply := (\<lambda>flt p data fs.
     (map_put (p @ [''f'']) \<lparr>in_Type = ModeRegular (case data of Inr d \<Rightarrow> d | Inl _ \<Rightarrow> []), in_Mode = 420, in_ModTime = 1\<rparr> fs, None))\<rparr>"

lemma ex_copy_usable: "usable_libs (ex_env, ex_copy_libs)"
  by (auto simp: usable_libs_def cache_laws_def ex_copy_libs_def ex_cache_libs_def is_dir_def inspectChart_def)

lemma ex_pulled: "\<not> isl (snd (disk_Pull (ex_puller ''1'' ''1'') ex_disk (ex_env, ex_copy_libs) ''own'' ''ref'' ex_fsys))"
  by code_simp


text \<open>
  The image is copied by the given reference, not by the digest resolved for it.  When a tag moves between the two, the pull succeeds, reports the first
  digest and caches under it the content of the image whose digest is the second.
\<close>

lemma Pull_of_moved_tag:
  "let (fs', r) = disk_Pull (ex_puller ''1'' ''2'') ex_disk (ex_env, ex_copy_libs) ''own'' ''ref'' ex_fsys
   in map_sum id (\<lambda>(x, c). (fst x, nr_Digest c)) r = Inr ([''cache'', ''own'', ''sha256:1''], Some ''sha256:1'')
      \<and> file_at fs' [''cache'', ''own'', ''sha256:1'', ''f''] = Some ''2'' \<and> ip_Digest (ex_puller ''1'' ''2'') ''2'' = Inr ''sha256:2''"
  by code_simp

end
