(* ===== verification/Spec2Isabelle.thy ===== *)
theory Spec2Isabelle
  imports Resolve ObjectSetController HelmApplier CatalogController BundleWiring BundleConfiguration ManifestProvider MetadataCache ImagePull
begin

text \<open>
  A verification development for the two programs of OLM v1: \<^verbatim>\<open>catalogd\<close>, which unpacks catalog images and serves their content, and
  \<^verbatim>\<open>operator-controller\<close>, which resolves, renders and installs cluster extensions.  Paths below are relative to \<^verbatim>\<open>src/internal/\<close>; \<^verbatim>\<open>oc/\<close>
  abbreviates \<^verbatim>\<open>operator-controller/\<close>.

  \<^bold>\<open>How the parts interact.\<close>  A ClusterCatalog names an image.  The catalog controller of catalogd pulls it into a disk cache, stores its content and serves it over
  HTTP.  The catalog cache controller of operator-controller fetches the content and keeps it in a file system cache.  For a ClusterExtension the
  reconcile steps resolve a bundle from the cached catalogs, pull its image, and hand it to an applier.  A manifest provider loads the bundle, validates its
  configuration and renders manifests; the Helm applier installs them as a release, the Boxcutter applier writes them as a numbered
  revision (ClusterObjectSet), which the object set controller rolls out, archives and tears down.

  \<^bold>\<open>How code becomes definitions.\<close>  Structs are records, handlers are functions on explicit states with one branch for every early return, and a pair of value and error
  is \<^typ>\<open>'a res\<close>, the error on the left, with wrapping, joining and terminal errors as values of \<^typ>\<open>goerr\<close>.  A panic is the error \<^verbatim>\<open>ErrPanic\<close>.  Third-party code (semver,
  Helm, Boxcutter, the API client, JSON and JSON Schema, archives, registries, hashes) is an argument, collected in a record per component; what is assumed
  of it is a named predicate (\<^verbatim>\<open>\<dots>_laws\<close>) in the hypotheses, met by an example in a witness.  Pieces of the Go library are defined in \<^verbatim>\<open>Prelude\<close>, \<^verbatim>\<open>FileSystem\<close> and
  \<^verbatim>\<open>HttpPreconditions\<close>.  Calls to the file system and to the cluster may fail as an argument says.

  \<^bold>\<open>Theories.\<close>

  \<^item> \<^verbatim>\<open>Prelude\<close>: strings, errors, sorting, association lists; the locale \<^verbatim>\<open>go_sorter\<close> is the contract of the sorting routines.
  \<^item> \<^verbatim>\<open>Api\<close>: the API types (\<^verbatim>\<open>src/api/v1\<close>), conditions and label selectors.
  \<^item> \<^verbatim>\<open>VersionRelease\<close>, \<^verbatim>\<open>Filters\<close>, \<^verbatim>\<open>Resolve\<close> (\<^verbatim>\<open>oc/bundle\<close>, \<^verbatim>\<open>oc/catalogmetadata/filter\<close> and \<^verbatim>\<open>compare\<close>, \<^verbatim>\<open>oc/resolve\<close>): the resolved bundle satisfies every constraint, no match of its
    catalog is better, and no other catalog has precedence.
  \<^item> \<^verbatim>\<open>Errors\<close>, \<^verbatim>\<open>Status\<close>, \<^verbatim>\<open>ExtensionSteps\<close>, \<^verbatim>\<open>BoxcutterSteps\<close> (\<^verbatim>\<open>shared/util/error\<close>, \<^verbatim>\<open>oc/controllers\<close>): condition writers and reconcile steps; the outcome of
    every failure of resolution, and that the specification is never written.
  \<^item> \<^verbatim>\<open>Rbac\<close> (\<^verbatim>\<open>oc/authorization/rbac.go\<close>): pre-authorization accepts exactly the manifests the user may install; when its decoding loop ends.
  \<^item> \<^verbatim>\<open>PhaseSort\<close>, \<^verbatim>\<open>SecretPacker\<close>, \<^verbatim>\<open>ApplierCommon\<close>, \<^verbatim>\<open>RevisionGenerator\<close>, \<^verbatim>\<open>BoxcutterApplier\<close>, \<^verbatim>\<open>RukpakUtil\<close>, \<^verbatim>\<open>HelmApplier\<close> (\<^verbatim>\<open>oc/applier\<close>, \<^verbatim>\<open>oc/rukpak/util\<close>): phases, packing of
    objects into Secrets, revisions and their numbers, garbage collection, storage migration, and that a Helm apply makes at most one authorized change.
  \<^item> \<^verbatim>\<open>ObjectSetController\<close> (\<^verbatim>\<open>oc/controllers/clusterobjectset_controller.go\<close>, \<^verbatim>\<open>revision_engine_factory.go\<close>): objects in Secrets are invisible to the
    rollout, only superseded revisions are archived, and the order of teardown, status and finalizer.
  \<^item> \<^verbatim>\<open>BundleTypes\<close>, \<^verbatim>\<open>BundleValidators\<close>, \<^verbatim>\<open>CertProviders\<close>, \<^verbatim>\<open>BundleGenerators\<close>, \<^verbatim>\<open>BundleRender\<close> (\<^verbatim>\<open>oc/rukpak/render\<close>): checks, generators and the renderer; the
    locale \<^verbatim>\<open>ca_injector\<close> is the contract of a certificate provider.  \<^verbatim>\<open>BundleWiring\<close> shows that a rendering grants the requested permissions and no others and that its
    webhooks reach a service and a deployment; \<^verbatim>\<open>BundleConfiguration\<close> what certificates and deployment configuration do to a pod.
  \<^item> \<^verbatim>\<open>BundleSource\<close>, \<^verbatim>\<open>BundleConfig\<close>, \<^verbatim>\<open>ManifestProvider\<close> (\<^verbatim>\<open>oc/rukpak/bundle\<close>, \<^verbatim>\<open>oc/config\<close>, \<^verbatim>\<open>oc/applier/provider.go\<close>): loading of bundles, configuration schemas, and that
    no configuration passes the schema and is refused by the renderer.
  \<^item> \<^verbatim>\<open>CatalogIndex\<close>, \<^verbatim>\<open>HttpPreconditions\<close>, \<^verbatim>\<open>LocalDir\<close>, \<^verbatim>\<open>CatalogController\<close> (\<^verbatim>\<open>catalogd/storage\<close>, \<^verbatim>\<open>garbagecollection\<close>, \<^verbatim>\<open>controllers/core\<close>, \<^verbatim>\<open>webhook\<close>): index, store (locale
    \<^verbatim>\<open>storage_instance\<close>), handlers and controller; queries return the stored metadata, and catalogs are eventually served.
  \<^item> \<^verbatim>\<open>FileSystem\<close> (\<^verbatim>\<open>shared/util/fs\<close>): a file system with failing calls, modes and deletion.
  \<^item> \<^verbatim>\<open>MetadataCache\<close> (\<^verbatim>\<open>oc/catalogmetadata/cache\<close> and \<^verbatim>\<open>client\<close>, \<^verbatim>\<open>oc/controllers/clustercatalog_controller.go\<close>): the cache (locale \<^verbatim>\<open>catalog_cache\<close>) serves what was
    put, and a package is loaded from exactly the metadata the server sent.
  \<^item> \<^verbatim>\<open>ImageCache\<close>, \<^verbatim>\<open>ImagePull\<close> (\<^verbatim>\<open>shared/util/image\<close>): the cache of unpacked images (locale \<^verbatim>\<open>image_cache\<close>) and the effect of a pull on it.

  \<^bold>\<open>Bounds and fuel.\<close>  The search for a temporary name tries 10000 times as \<^verbatim>\<open>os.MkdirTemp\<close> does and then fails.  Replacing a regular expression recurses on fuel, the length
  of its text, which suffices because every step consumes a character.  The decoding of a manifest stream may not end when the decoder does not advance; it is a
  \<^verbatim>\<open>partial_function\<close> whose termination is characterised.  Integers are unbounded where the code only counts.

  \<^bold>\<open>Not modelled.\<close>  Concurrency beyond the interleavings named (the collector running during a store): reconciles and locked calls are single steps.  Logging, metrics and
  contexts.  The wiring of managers, watches, flags and servers in the mains and \<^verbatim>\<open>SetupWithManager\<close> functions, which has no behaviour of its own.  The
  content manager (\<^verbatim>\<open>oc/contentmanager\<close>), made of informers, channels and goroutines.  The CRD upgrade preflight, whose comparisons are in a library.  The pull secret
  controller, authentication, the construction of Helm clients, certificate watching and TLS tables, which surround I/O.  Generated code, test support and tools.
  Modification times of directories are those of their creation or of the archive library, and symbolic links are not followed.
\<close>

end
